(* ===== verification/Prelude.thy ===== *)
theory Prelude
  imports Main "HOL-Library.Word"
begin

text \<open>
  Shared vocabulary of the development: the machine-integer types of the program, the
  narrowing of a 64-bit time to the 32-bit \<open>int\<close> of the code, the reading of an
  \<open>std::vector\<close> by index, and the collections of facts the component theories add to.

  \<open>bytes\<close> stands for \<open>char*\<close> buffers and for \<open>std::string\<close> values that travel on
  the wire (user names, passwords, transaction ids).
\<close>

named_theorems wire
named_theorems frame

type_synonym byte = "8 word"
type_synonym bytes = "8 word list"
type_synonym u8 = "8 word"
type_synonym u16 = "16 word"
type_synonym u32 = "32 word"
type_synonym u64 = "64 word"

text \<open>Assignment of a wider signed value to a 32-bit \<open>int\<close> keeps the low 32 bits.\<close>

definition int32 :: "int \<Rightarrow> int" where
  "int32 x = signed_take_bit 31 x"

lemma int32_id: "- (2 ^ 31) \<le> x \<Longrightarrow> x < 2 ^ 31 \<Longrightarrow> int32 x = x"
  by (simp add: int32_def signed_take_bit_int_eq_self)

lemma int32_range: "- (2 ^ 31) \<le> int32 x \<and> int32 x < 2 ^ 31"
  using signed_take_bit_int_greater_eq_minus_exp [of 31 x] signed_take_bit_int_less_exp [of 31 x]
  by (simp add: int32_def)

text \<open>Rounding a length up to the next multiple of four: the padding rule of the code.\<close>

definition pad4 :: "nat \<Rightarrow> nat" where
  "pad4 n = (if n mod 4 \<noteq> 0 then n + (4 - n mod 4) else n)"

lemma pad4_mod [simp]: "pad4 n mod 4 = 0"
  unfolding pad4_def by presburger

lemma pad4_ge [simp]: "n \<le> pad4 n"
  unfolding pad4_def by presburger

lemma pad4_less: "pad4 n < n + 4"
  unfolding pad4_def by presburger

lemma pad4_id [simp]: "n mod 4 = 0 \<Longrightarrow> pad4 n = n"
  by (simp add: pad4_def)

lemma unat_of_nat_u16 [simp]: "n < 65536 \<Longrightarrow> unat (of_nat n :: u16) = n"
  by (simp add: unat_of_nat)

lemma unat_u16_less [simp]: "unat (w :: u16) < 65536"
  using unsigned_less [of w] by simp

lemma last_Cons_snoc [simp]: "last (a # xs @ [b]) = b"
  by simp

text \<open>Disjoint bits add up.\<close>

lemma int_or_plus:
  fixes a b :: int
  assumes "0 \<le> b" "b < 2 ^ n"
  shows "or (push_bit n a) b = a * 2 ^ n + b"
proof -
  have "take_bit n b = b" using assms by (simp add: take_bit_int_eq_self)
  then have "\<not> bit b k" if "n \<le> k" for k using that by (metis bit_take_bit_iff not_less)
  then have "push_bit n a + b = or (push_bit n a) b"
    by (intro disjunctive_add) (auto simp: bit_push_bit_iff)
  then show ?thesis by (simp add: push_bit_eq_mult)
qed

text \<open>Decimal rendering, as \<open>std::to_string\<close> and \<open>operator<<\<close> print integers.\<close>

fun show_nat :: "nat \<Rightarrow> string" where
  "show_nat n =
     (if n < 10 then [char_of (48 + n)] else show_nat (n div 10) @ [char_of (48 + n mod 10)])"

declare show_nat.simps [simp del]

definition show_int :: "int \<Rightarrow> string" where
  "show_int i = (if i < 0 then CHR ''-'' # show_nat (nat (- i)) else show_nat (nat i))"

text \<open>The bytes of a C++ string literal and back.\<close>

definition bytes_of :: "string \<Rightarrow> bytes" where
  "bytes_of s = map of_char s"

lemma length_bytes_of [simp]: "length (bytes_of s) = length s"
  by (simp add: bytes_of_def)

end
