(* ===== verification/FifoQueue.thy ===== *)
theory FifoQueue
  imports Prelude
begin

text \<open>
  The interface the worker threads rely on for their message queues: whatever the
  representation, \<open>enq\<close> and \<open>deq\<close> behave as a first-in first-out list, and neither of them
  fails (\<open>None\<close> is an invalid memory access). The mutex-protected \<open>std::queue\<close> of
  \<open>RtcServer\<close> and \<open>SignalingWorker\<close> and the lock-free queue of \<open>RtcWorker\<close> and
  \<open>SignalingWorker\<close> are its two providers.
\<close>

datatype 'a qop = Enq 'a | Deq

fun fifo_run :: "'a qop list \<Rightarrow> 'a list \<Rightarrow> 'a option list \<times> 'a list" where
  "fifo_run [] xs = ([], xs)"
| "fifo_run (Enq x # ops) xs = fifo_run ops (xs @ [x])"
| "fifo_run (Deq # ops) [] = (let (rs, ys) = fifo_run ops [] in (None # rs, ys))"
| "fifo_run (Deq # ops) (x # xs) = (let (rs, ys) = fifo_run ops xs in (Some x # rs, ys))"

fun queue_run ::
  "('a \<Rightarrow> 'q \<Rightarrow> 'q option) \<Rightarrow> ('q \<Rightarrow> ('a option \<times> 'q) option) \<Rightarrow> 'a qop list \<Rightarrow> 'q
    \<Rightarrow> ('a option list \<times> 'q) option" where
  "queue_run enq deq [] q = Some ([], q)"
| "queue_run enq deq (Enq x # ops) q =
     (case enq x q of None \<Rightarrow> None | Some q' \<Rightarrow> queue_run enq deq ops q')"
| "queue_run enq deq (Deq # ops) q =
     (case deq q of
        None \<Rightarrow> None
      | Some (r, q') \<Rightarrow> map_option (apfst (Cons r)) (queue_run enq deq ops q'))"

definition enqs :: "'a qop list \<Rightarrow> 'a list" where
  "enqs ops = concat (map (\<lambda>p. case p of Enq x \<Rightarrow> [x] | Deq \<Rightarrow> []) ops)"

definition somes :: "'a option list \<Rightarrow> 'a list" where
  "somes rs = concat (map (\<lambda>r. case r of None \<Rightarrow> [] | Some x \<Rightarrow> [x]) rs)"

lemma enqs_simps [simp]:
  "enqs [] = []" "enqs (Enq x # ops) = x # enqs ops" "enqs (Deq # ops) = enqs ops"
  by (simp_all add: enqs_def)

lemma somes_simps [simp]:
  "somes [] = []" "somes (None # rs) = somes rs" "somes (Some x # rs) = x # somes rs"
  by (simp_all add: somes_def)

lemma fifo_run_conserves:
  "fifo_run ops xs = (rs, ys) \<Longrightarrow> xs @ enqs ops = somes rs @ ys"
  by (induction ops xs arbitrary: rs ys rule: fifo_run.induct) (auto split: prod.splits)

locale fifo_queue =
  fixes rep :: "'q \<Rightarrow> 'a list \<Rightarrow> bool"
    and enq :: "'a \<Rightarrow> 'q \<Rightarrow> 'q option"
    and deq :: "'q \<Rightarrow> ('a option \<times> 'q) option"
  assumes enq_law: "rep q xs \<Longrightarrow> \<exists>q'. enq x q = Some q' \<and> rep q' (xs @ [x])"
    and deq_Nil_law: "rep q [] \<Longrightarrow> \<exists>q'. deq q = Some (None, q') \<and> rep q' []"
    and deq_Cons_law: "rep q (x # xs) \<Longrightarrow> \<exists>q'. deq q = Some (Some x, q') \<and> rep q' xs"
begin

lemma run_refines:
  "rep q xs \<Longrightarrow> \<exists>q'. queue_run enq deq ops q = Some (fst (fifo_run ops xs), q')
     \<and> rep q' (snd (fifo_run ops xs))"
proof (induction ops xs arbitrary: q rule: fifo_run.induct)
  case (1 xs)
  then show ?case by simp
next
  case (2 x ops xs)
  obtain q' where "enq x q = Some q'" "rep q' (xs @ [x])" using enq_law [OF "2.prems"] by blast
  then show ?case using "2.IH" [of q'] by simp
next
  case (3 ops)
  obtain q' where "deq q = Some (None, q')" "rep q' []" using deq_Nil_law [OF "3.prems"] by blast
  then show ?case using "3.IH" [of q'] by (auto split: prod.splits)
next
  case (4 ops x xs)
  obtain q' where "deq q = Some (Some x, q')" "rep q' xs" using deq_Cons_law [OF "4.prems"] by blast
  then show ?case using "4.IH" [of q'] by (auto split: prod.splits)
qed

lemma run_no_loss:
  assumes "rep q xs"
  shows "\<exists>rs q' ys. queue_run enq deq ops q = Some (rs, q') \<and> rep q' ys
    \<and> xs @ enqs ops = somes rs @ ys"
proof -
  obtain q' where "queue_run enq deq ops q = Some (fst (fifo_run ops xs), q')"
    "rep q' (snd (fifo_run ops xs))"
    using run_refines [OF assms] by blast
  moreover have "xs @ enqs ops = somes (fst (fifo_run ops xs)) @ snd (fifo_run ops xs)"
    by (rule fifo_run_conserves) simp
  ultimately show ?thesis by blast
qed

end

subsection \<open>The mutex-protected \<open>std::queue\<close>\<close>

text \<open>
  \<open>push_msg\<close> and \<open>pop_msg\<close> of \<open>RtcServer\<close> and \<open>SignalingWorker\<close>: the lock makes each call
  atomic, \<open>std::queue\<close> is a list, and the null pointer of an empty queue is \<open>None\<close>.
\<close>

definition push_msg :: "'m \<Rightarrow> 'm list \<Rightarrow> 'm list" where
  "push_msg m q = q @ [m]"

fun pop_msg :: "'m list \<Rightarrow> 'm option \<times> 'm list" where
  "pop_msg [] = (None, [])"
| "pop_msg (m # q) = (Some m, q)"

interpretation std_queue:
  fifo_queue "(=)" "\<lambda>m q. Some (push_msg m q)" "\<lambda>q. Some (pop_msg q)"
  by unfold_locales (auto simp: push_msg_def)

end
