(* ===== verification/LockFreeQueue.thy ===== *)
theory LockFreeQueue
  imports FifoQueue
begin

text \<open>
  The single-producer single-consumer queue of \<open>base/lock_free_queue.h\<close>: a linked list of
  nodes with the pointers \<open>first\<close>, \<open>divider\<close> and \<open>last\<close>. Nodes live in an explicit heap, so
  that a dereference of a null or freed pointer is the value \<open>None\<close>.
  The first part models \<open>produce\<close> and \<open>consume\<close> as whole calls and shows that they implement
  a FIFO list; the second part runs both calls statement by statement, interleaved, on
  shared memory that is sequentially consistent.
\<close>

record 'a lfq_node =
  node_value :: 'a
  node_next :: "nat option"

record 'a lfq =
  lfq_heap :: "nat \<Rightarrow> 'a lfq_node option"
  lfq_first :: nat
  lfq_divider :: nat
  lfq_last :: nat
  lfq_size :: int
  lfq_alloc :: nat

definition lfq_new :: "'a \<Rightarrow> 'a lfq" where
  "lfq_new d = \<lparr>lfq_heap = [0 \<mapsto> \<lparr>node_value = d, node_next = None\<rparr>], lfq_first = 0,
     lfq_divider = 0, lfq_last = 0, lfq_size = 0, lfq_alloc = 1\<rparr>"

partial_function (option) lfq_trim ::
  "(nat \<Rightarrow> 'a lfq_node option) \<Rightarrow> nat \<Rightarrow> nat
    \<Rightarrow> ((nat \<Rightarrow> 'a lfq_node option) \<times> nat) option" where
  "lfq_trim h first divider =
     (if divider \<noteq> first
      then (case h first of
              None \<Rightarrow> None
            | Some nd \<Rightarrow>
                (case node_next nd of
                   None \<Rightarrow> None
                 | Some n \<Rightarrow> lfq_trim (h(first := None)) n divider))
      else Some (h, first))"

definition lfq_produce :: "'a \<Rightarrow> 'a lfq \<Rightarrow> 'a lfq option" where
  "lfq_produce t q =
     (case lfq_heap q (lfq_last q) of
        None \<Rightarrow> None
      | Some nd \<Rightarrow>
          (let n = lfq_alloc q;
               h = (lfq_heap q)(n \<mapsto> \<lparr>node_value = t, node_next = None\<rparr>,
                                lfq_last q \<mapsto> nd\<lparr>node_next := Some n\<rparr>)
           in case lfq_trim h (lfq_first q) (lfq_divider q) of
                None \<Rightarrow> None
              | Some (h', f) \<Rightarrow>
                  Some (q\<lparr>lfq_heap := h', lfq_first := f, lfq_last := n,
                          lfq_size := lfq_size q + 1, lfq_alloc := Suc n\<rparr>)))"

definition lfq_consume :: "'a lfq \<Rightarrow> ('a option \<times> 'a lfq) option" where
  "lfq_consume q =
     (if lfq_divider q \<noteq> lfq_last q
      then (case lfq_heap q (lfq_divider q) of
              None \<Rightarrow> None
            | Some nd \<Rightarrow>
                (case node_next nd of
                   None \<Rightarrow> None
                 | Some d \<Rightarrow>
                     (case lfq_heap q d of
                        None \<Rightarrow> None
                      | Some nd' \<Rightarrow>
                          Some (Some (node_value nd'),
                            q\<lparr>lfq_divider := d, lfq_size := lfq_size q - 1\<rparr>))))
      else Some (None, q))"

definition lfq_empty :: "'a lfq \<Rightarrow> bool" where
  "lfq_empty q = (lfq_size q = 0)"

subsection \<open>The representation of a list\<close>

fun lfq_chain :: "(nat \<Rightarrow> 'a lfq_node option) \<Rightarrow> nat list \<Rightarrow> bool" where
  "lfq_chain h [] = False"
| "lfq_chain h [a] = (\<exists>v. h a = Some \<lparr>node_value = v, node_next = None\<rparr>)"
| "lfq_chain h (a # b # xs) =
     ((\<exists>v. h a = Some \<lparr>node_value = v, node_next = Some b\<rparr>) \<and> lfq_chain h (b # xs))"

abbreviation val_at :: "(nat \<Rightarrow> 'a lfq_node option) \<Rightarrow> nat \<Rightarrow> 'a" where
  "val_at h a \<equiv> node_value (the (h a))"

lemma chain_frame: "lfq_chain h xs \<Longrightarrow> \<forall>a \<in> set xs. h' a = h a \<Longrightarrow> lfq_chain h' xs"
  by (induction h xs rule: lfq_chain.induct) auto

lemma chain_tl: "lfq_chain h (a # xs) \<Longrightarrow> xs \<noteq> [] \<Longrightarrow> lfq_chain h xs"
  by (cases xs) auto

lemma chain_dom: "lfq_chain h xs \<Longrightarrow> a \<in> set xs \<Longrightarrow> h a \<noteq> None"
  by (induction h xs rule: lfq_chain.induct) auto

lemma chain_head: "lfq_chain h (a # b # xs) \<Longrightarrow> \<exists>nd. h a = Some nd \<and> node_next nd = Some b"
  by auto

lemma chain_next:
  "lfq_chain h (ps @ a # b # xs) \<Longrightarrow> \<exists>nd. h a = Some nd \<and> node_next nd = Some b"
proof (induction ps)
  case Nil
  then show ?case by auto
next
  case (Cons p ps)
  then show ?case by (auto dest: chain_tl)
qed

lemma chain_last: "lfq_chain h (xs @ [a]) \<Longrightarrow> \<exists>nd. h a = Some nd \<and> node_next nd = None"
proof (induction xs)
  case Nil
  then show ?case by auto
next
  case (Cons x xs)
  then show ?case by (auto dest: chain_tl)
qed

lemma chain_upd:
  "lfq_chain h (xs @ [a]) \<Longrightarrow> distinct (xs @ [a]) \<Longrightarrow> n \<notin> set (xs @ [a]) \<Longrightarrow>
   \<forall>x \<in> set xs. h' x = h x \<Longrightarrow> h' n = Some \<lparr>node_value = t, node_next = None\<rparr> \<Longrightarrow>
   h' a = Some \<lparr>node_value = v, node_next = Some n\<rparr> \<Longrightarrow> lfq_chain h' (xs @ [a, n])"
proof (induction xs)
  case Nil
  then show ?case by auto
next
  case (Cons x xs)
  from Cons.prems(1) have tl: "lfq_chain h (xs @ [a])"
    by (cases xs) auto
  obtain y ys where y: "xs @ [a] = y # ys" by (cases xs) auto
  then obtain ys' where ys: "xs @ [a, n] = y # ys'" by (cases xs) auto
  have "\<exists>v. h' x = Some \<lparr>node_value = v, node_next = Some y\<rparr>"
    using Cons.prems(1,4) y by simp
  moreover have "lfq_chain h' (xs @ [a, n])"
    by (rule Cons.IH) (use tl Cons.prems in auto)
  ultimately show ?case using ys by simp
qed

lemma chain_snoc:
  assumes "lfq_chain h (xs @ [a])" "distinct (xs @ [a])" "n \<notin> set (xs @ [a])" "h a = Some nd"
  shows "lfq_chain (h(n \<mapsto> \<lparr>node_value = t, node_next = None\<rparr>, a \<mapsto> nd\<lparr>node_next := Some n\<rparr>)) (xs @ [a, n])"
  by (rule chain_upd [OF assms(1,2,3), of _ t "node_value nd"]) (use assms(2,3) in auto)

text \<open>
  A queue represents the values of the nodes after the divider; the nodes from \<open>first\<close> up to
  the divider are consumed and wait for the next \<open>produce\<close> to free them.
\<close>

definition lfq_rep :: "'a lfq \<Rightarrow> 'a list \<Rightarrow> bool" where
  "lfq_rep q vs \<longleftrightarrow>
     (\<exists>ps ms. lfq_chain (lfq_heap q) (ps @ lfq_divider q # ms)
        \<and> distinct (ps @ lfq_divider q # ms)
        \<and> dom (lfq_heap q) = set (ps @ lfq_divider q # ms)
        \<and> lfq_first q = hd (ps @ [lfq_divider q])
        \<and> lfq_last q = last (lfq_divider q # ms)
        \<and> (\<forall>a \<in> dom (lfq_heap q). a < lfq_alloc q)
        \<and> vs = map (val_at (lfq_heap q)) ms
        \<and> lfq_size q = int (length ms))"

lemma lfq_repI:
  assumes "lfq_chain (lfq_heap q) (ps @ lfq_divider q # ms)"
    and "distinct (ps @ lfq_divider q # ms)"
    and "dom (lfq_heap q) = set (ps @ lfq_divider q # ms)"
    and "lfq_first q = hd (ps @ [lfq_divider q])"
    and "lfq_last q = last (lfq_divider q # ms)"
    and "\<forall>a \<in> dom (lfq_heap q). a < lfq_alloc q"
    and "vs = map (val_at (lfq_heap q)) ms"
    and "lfq_size q = int (length ms)"
  shows "lfq_rep q vs"
  unfolding lfq_rep_def using assms by blast

lemma lfq_repE:
  assumes "lfq_rep q vs"
  obtains ps ms where "lfq_chain (lfq_heap q) (ps @ lfq_divider q # ms)"
    "distinct (ps @ lfq_divider q # ms)" "dom (lfq_heap q) = set (ps @ lfq_divider q # ms)"
    "lfq_first q = hd (ps @ [lfq_divider q])" "lfq_last q = last (lfq_divider q # ms)"
    "\<forall>a \<in> dom (lfq_heap q). a < lfq_alloc q" "vs = map (val_at (lfq_heap q)) ms"
    "lfq_size q = int (length ms)"
  using assms unfolding lfq_rep_def by blast

lemma lfq_rep_new: "lfq_rep (lfq_new d) []"
  unfolding lfq_rep_def lfq_new_def by (rule exI [of _ "[]"], rule exI [of _ "[]"]) auto

lemma lfq_trim_chain:
  "lfq_chain h (ps @ d # ms) \<Longrightarrow> distinct (ps @ d # ms) \<Longrightarrow> f = hd (ps @ [d]) \<Longrightarrow>
   lfq_trim h f d = Some (h |` (- set ps), d)"
proof (induction ps arbitrary: h f)
  case Nil
  then show ?case by (simp add: lfq_trim.simps restrict_map_def)
next
  case (Cons p ps)
  let ?n = "hd (ps @ [d])"
  obtain rest where rest: "ps @ d # ms = ?n # rest" by (cases ps) auto
  from Cons.prems(1) obtain nd where nd: "h p = Some nd" "node_next nd = Some ?n"
    using rest by auto
  have ch: "lfq_chain h (ps @ d # ms)" using Cons.prems(1) by (auto dest: chain_tl)
  have "lfq_chain (h(p := None)) (ps @ d # ms)"
    by (rule chain_frame [OF ch]) (use Cons.prems in auto)
  then have IH: "lfq_trim (h(p := None)) ?n d = Some ((h(p := None)) |` (- set ps), d)"
    by (rule Cons.IH) (use Cons.prems(2) in auto)
  have "p \<noteq> d" "f = p" using Cons.prems by auto
  then have "lfq_trim h f d = lfq_trim (h(p := None)) ?n d"
    using nd by (subst lfq_trim.simps) auto
  moreover have "(h(p := None)) |` (- set ps) = h |` (- set (p # ps))"
    by (auto simp: restrict_map_def)
  ultimately show ?case using IH by simp
qed

lemma lfq_produce_rep:
  assumes "lfq_rep q vs"
  shows "\<exists>q'. lfq_produce t q = Some q' \<and> lfq_rep q' (vs @ [t])"
proof -
  let ?h = "lfq_heap q" and ?d = "lfq_divider q" and ?n = "lfq_alloc q" and ?l = "lfq_last q"
  obtain ps ms where ch: "lfq_chain ?h (ps @ ?d # ms)" and di: "distinct (ps @ ?d # ms)"
    and dom: "dom ?h = set (ps @ ?d # ms)" and fi: "lfq_first q = hd (ps @ [?d])"
    and la: "?l = last (?d # ms)" and al: "\<forall>a \<in> dom ?h. a < ?n"
    and vs: "vs = map (val_at ?h) ms" and sz: "lfq_size q = int (length ms)"
    by (rule lfq_repE [OF assms])
  define xs where "xs = ps @ butlast (?d # ms)"
  have split: "ps @ ?d # ms = xs @ [?l]"
    using la unfolding xs_def by (metis append_assoc append_butlast_last_id list.distinct(1))
  have fresh: "?n \<notin> set (ps @ ?d # ms)" using al dom by blast
  obtain nd where nd: "?h ?l = Some nd" using chain_last [of ?h xs ?l] ch split by auto
  let ?h1 = "?h(?n \<mapsto> \<lparr>node_value = t, node_next = None\<rparr>, ?l \<mapsto> nd\<lparr>node_next := Some ?n\<rparr>)"
  have "lfq_chain ?h1 (xs @ [?l, ?n])"
    using chain_snoc [of ?h xs ?l ?n nd t] ch di fresh nd split by simp
  moreover have "xs @ [?l, ?n] = ps @ ?d # ms @ [?n]" using split by (metis append.assoc append_Cons append_Nil)
  ultimately have ch1: "lfq_chain ?h1 (ps @ ?d # (ms @ [?n]))" by simp
  have di1: "distinct (ps @ ?d # (ms @ [?n]))" using di fresh by auto
  define h2 where "h2 = ?h1 |` (- set ps)"
  have trim: "lfq_trim ?h1 (lfq_first q) ?d = Some (h2, ?d)"
    unfolding h2_def by (rule lfq_trim_chain [OF ch1 di1 fi])
  let ?q = "q\<lparr>lfq_heap := h2, lfq_first := ?d, lfq_last := ?n, lfq_size := lfq_size q + 1, lfq_alloc := Suc ?n\<rparr>"
  have prod: "lfq_produce t q = Some ?q"
    unfolding lfq_produce_def using nd trim by (simp add: Let_def)
  have suff: "lfq_chain ?h1 (?d # ms @ [?n])"
    using ch1 by (induction ps) (auto dest: chain_tl)
  have ln: "?l \<noteq> ?n" using fresh split by auto
  have off: "h2 a = ?h1 a" if "a \<notin> set ps" for a
    using that by (simp only: h2_def restrict_map_def) simp
  have ch2: "lfq_chain h2 (?d # ms @ [?n])"
    by (rule chain_frame [OF suff], rule ballI, rule off) (use di1 in auto)
  have "dom ?h1 = insert ?n (dom ?h)" using nd by auto
  then have dom2: "dom h2 = set (?d # ms @ [?n])"
    using dom di1 unfolding h2_def by (simp only: dom_restrict) auto
  have vals: "val_at h2 a = val_at ?h a" if "a \<in> set ms" for a
  proof -
    have "a \<notin> set ps" "a \<noteq> ?n" using that di1 by auto
    then show ?thesis using nd off [of a] by (cases "a = ?l") simp_all
  qed
  have "?n \<notin> set ps" using di1 by auto
  then have valn: "val_at h2 ?n = t" using ln off [of ?n] by simp
  have al2: "\<forall>a \<in> dom h2. a < Suc ?n" using dom2 al dom by (auto simp: less_Suc_eq)
  have "map (val_at ?h) ms = map (val_at h2) ms" using vals by simp
  then have vs2: "vs @ [t] = map (val_at h2) (ms @ [?n])" using valn vs by simp
  have "lfq_rep ?q (vs @ [t])"
    by (rule lfq_repI [where ps = "[]" and ms = "ms @ [?n]"])
       (use ch2 di1 dom2 sz al2 vs2 in simp_all)
  then show ?thesis using prod by blast
qed

lemma lfq_rep_consume_Nil: "lfq_rep q [] \<Longrightarrow> lfq_consume q = Some (None, q)"
  unfolding lfq_rep_def lfq_consume_def by auto

lemma lfq_rep_consume_Cons:
  assumes "lfq_rep q (v # vs)"
  shows "\<exists>q'. lfq_consume q = Some (Some v, q') \<and> lfq_rep q' vs"
proof -
  let ?h = "lfq_heap q" and ?d = "lfq_divider q"
  obtain ps ms where ch: "lfq_chain ?h (ps @ ?d # ms)" and di: "distinct (ps @ ?d # ms)"
    and dom: "dom ?h = set (ps @ ?d # ms)" and fi: "lfq_first q = hd (ps @ [?d])"
    and la: "lfq_last q = last (?d # ms)" and al: "\<forall>a \<in> dom ?h. a < lfq_alloc q"
    and vs: "v # vs = map (val_at ?h) ms" and sz: "lfq_size q = int (length ms)"
    by (rule lfq_repE [OF assms])
  obtain m ms' where ms: "ms = m # ms'" using vs by (cases ms) auto
  obtain nd where nd: "?h ?d = Some nd" "node_next nd = Some m"
    using chain_next [of ?h ps ?d m ms'] ch ms by auto
  obtain nd' where nd': "?h m = Some nd'" using chain_dom [OF ch, of m] ms by auto
  have "?d \<noteq> lfq_last q" using la di ms by (auto split: if_splits)
  then have con: "lfq_consume q = Some (Some v, q\<lparr>lfq_divider := m, lfq_size := lfq_size q - 1\<rparr>)"
    using nd nd' vs ms by (simp add: lfq_consume_def)
  have "lfq_chain ?h ((ps @ [?d]) @ m # ms')" "distinct ((ps @ [?d]) @ m # ms')"
    "dom ?h = set ((ps @ [?d]) @ m # ms')" "lfq_first q = hd ((ps @ [?d]) @ [m])"
    "lfq_last q = last (m # ms')" "vs = map (val_at ?h) ms'" "lfq_size q - 1 = int (length ms')"
    using ch di dom fi la vs sz ms by (simp_all add: hd_append)
  then have "lfq_rep (q\<lparr>lfq_divider := m, lfq_size := lfq_size q - 1\<rparr>) vs"
    using al by (intro lfq_repI [where ps = "ps @ [?d]" and ms = ms']) simp_all
  then show ?thesis using con by blast
qed

subsection \<open>The size and the destructor\<close>

definition lfq_length :: "'a lfq \<Rightarrow> int" where
  "lfq_length q = lfq_size q"

partial_function (option) lfq_free ::
  "(nat \<Rightarrow> 'a lfq_node option) \<Rightarrow> nat option \<Rightarrow> (nat \<Rightarrow> 'a lfq_node option) option" where
  "lfq_free h first =
     (case first of
        None \<Rightarrow> Some h
      | Some a \<Rightarrow> (case h a of None \<Rightarrow> None | Some nd \<Rightarrow> lfq_free (h(a := None)) (node_next nd)))"

definition lfq_destroy :: "'a lfq \<Rightarrow> 'a lfq option" where
  "lfq_destroy q =
     map_option (\<lambda>h. q\<lparr>lfq_heap := h, lfq_size := 0\<rparr>) (lfq_free (lfq_heap q) (Some (lfq_first q)))"

lemma lfq_free_chain:
  "lfq_chain h xs \<Longrightarrow> distinct xs \<Longrightarrow> dom h = set xs \<Longrightarrow> lfq_free h (Some (hd xs)) = Some (\<lambda>_. None)"
proof (induction xs arbitrary: h)
  case Nil
  then show ?case by simp
next
  case (Cons a xs)
  show ?case
  proof (cases xs)
    case Nil
    then have "h(a := None) = (\<lambda>_. None)" using Cons.prems(3) by (auto simp: fun_eq_iff)
    then show ?thesis using Nil Cons.prems(1) by (auto simp: lfq_free.simps [of h] lfq_free.simps [of _ None])
  next
    case ys: (Cons b ys)
    define h1 where "h1 = h(a := None)"
    have "lfq_chain h1 xs"
      unfolding h1_def by (rule chain_frame [of h]) (use Cons.prems ys in auto)
    moreover have "dom h1 = set xs" using Cons.prems by (auto simp: h1_def)
    ultimately have "lfq_free h1 (Some b) = Some (\<lambda>_. None)"
      using Cons.IH [of h1] Cons.prems(2) ys by simp
    then show ?thesis using ys Cons.prems(1) by (auto simp: lfq_free.simps [of h] h1_def)
  qed
qed

text \<open>The destructor frees every node of the queue, and none of them twice.\<close>

lemma lfq_destroy_frees_all:
  assumes "lfq_rep q vs"
  shows "lfq_destroy q = Some (q\<lparr>lfq_heap := \<lambda>_. None, lfq_size := 0\<rparr>)"
proof -
  obtain ps ms where r: "lfq_chain (lfq_heap q) (ps @ lfq_divider q # ms)" "distinct (ps @ lfq_divider q # ms)"
    "dom (lfq_heap q) = set (ps @ lfq_divider q # ms)" "lfq_first q = hd (ps @ [lfq_divider q])"
    using assms unfolding lfq_rep_def by blast
  have "lfq_first q = hd (ps @ lfq_divider q # ms)" using r(4) by (cases ps) simp_all
  then show ?thesis using lfq_free_chain [OF r(1-3)] by (simp add: lfq_destroy_def)
qed

lemma lfq_length_rep: "lfq_rep q vs \<Longrightarrow> lfq_length q = int (length vs)"
  by (auto simp: lfq_rep_def lfq_length_def)

interpretation lf_queue: fifo_queue lfq_rep lfq_produce lfq_consume
proof (unfold_locales, goal_cases)
  case (1 q xs x)
  then show ?case by (rule lfq_produce_rep)
next
  case (2 q)
  then show ?case using lfq_rep_consume_Nil by fast
next
  case (3 q x xs)
  then show ?case by (rule lfq_rep_consume_Cons)
qed

lemma lfq_rep_empty_iff: "lfq_rep q vs \<Longrightarrow> lfq_empty q \<longleftrightarrow> vs = []"
  by (erule lfq_repE) (auto simp: lfq_empty_def)

text \<open>C6: Any sequence of produce and consume calls on a new lock-free queue runs without an
  invalid memory access and returns, call by call, what a FIFO list returns: each consume the oldest value
  not yet consumed, or nothing exactly when there is none. The queue then represents the list, its size
  is the list's length, and \<open>empty\<close> tells whether it is empty.\<close>
theorem lfq_fifo:
  "\<exists>q. queue_run lfq_produce lfq_consume ops (lfq_new d) = Some (fst (fifo_run ops []), q)
     \<and> lfq_rep q (snd (fifo_run ops [])) \<and> lfq_size q = int (length (snd (fifo_run ops [])))
     \<and> (lfq_empty q \<longleftrightarrow> snd (fifo_run ops []) = [])"
proof -
  obtain q where q: "queue_run lfq_produce lfq_consume ops (lfq_new d) = Some (fst (fifo_run ops []), q)"
      "lfq_rep q (snd (fifo_run ops []))"
    using lf_queue.run_refines [OF lfq_rep_new [of d], of ops] by (elim exE conjE) (rule that)
  from q lfq_length_rep [OF q(2), unfolded lfq_length_def] lfq_rep_empty_iff [OF q(2)]
  show ?thesis by blast
qed

text \<open>Nothing is lost: the values consumed and then the values still queued are the values produced.\<close>
lemma lfq_no_loss:
  "\<exists>rs q ys. queue_run lfq_produce lfq_consume ops (lfq_new d) = Some (rs, q)
     \<and> lfq_rep q ys \<and> enqs ops = somes rs @ ys"
  using lf_queue.run_no_loss [OF lfq_rep_new, of ops d] by (simp only: append_Nil)

subsection \<open>Interleaved execution of one producer and one consumer\<close>

datatype 'a ppc = PIdle | PLink 'a | PAdvance | PCount | PTrim | PDelete nat

datatype 'a cpc = CIdle | CCheck | CRead | CMove 'a | CCount

record 'a spsc =
  sp_q :: "'a lfq"
  sp_prod :: "'a ppc"
  sp_cons :: "'a cpc"
  sp_in :: "'a list"
  sp_out :: "'a list"

definition spsc_init :: "'a \<Rightarrow> 'a spsc" where
  "spsc_init d = \<lparr>sp_q = lfq_new d, sp_prod = PIdle, sp_cons = CIdle, sp_in = [], sp_out = []\<rparr>"

definition producer_step :: "'a spsc \<Rightarrow> 'a spsc option" where
  "producer_step s =
     (let q = sp_q s in
      case sp_prod s of
        PIdle \<Rightarrow> Some s
      | PLink t \<Rightarrow>
          (case lfq_heap q (lfq_last q) of
             None \<Rightarrow> None
           | Some nd \<Rightarrow>
               Some (s\<lparr>sp_q := q\<lparr>lfq_heap := (lfq_heap q)
                         (lfq_alloc q \<mapsto> \<lparr>node_value = t, node_next = None\<rparr>,
                          lfq_last q \<mapsto> nd\<lparr>node_next := Some (lfq_alloc q)\<rparr>),
                         lfq_alloc := Suc (lfq_alloc q)\<rparr>,
                       sp_prod := PAdvance, sp_in := sp_in s @ [t]\<rparr>))
      | PAdvance \<Rightarrow>
          (case lfq_heap q (lfq_last q) of
             None \<Rightarrow> None
           | Some nd \<Rightarrow>
               (case node_next nd of
                  None \<Rightarrow> None
                | Some n \<Rightarrow> Some (s\<lparr>sp_q := q\<lparr>lfq_last := n\<rparr>, sp_prod := PCount\<rparr>)))
      | PCount \<Rightarrow> Some (s\<lparr>sp_q := q\<lparr>lfq_size := lfq_size q + 1\<rparr>, sp_prod := PTrim\<rparr>)
      | PTrim \<Rightarrow>
          (if lfq_divider q \<noteq> lfq_first q
           then (case lfq_heap q (lfq_first q) of
                   None \<Rightarrow> None
                 | Some nd \<Rightarrow>
                     (case node_next nd of
                        None \<Rightarrow> None
                      | Some n \<Rightarrow>
                          Some (s\<lparr>sp_q := q\<lparr>lfq_first := n\<rparr>, sp_prod := PDelete (lfq_first q)\<rparr>)))
           else Some (s\<lparr>sp_prod := PIdle\<rparr>))
      | PDelete a \<Rightarrow>
          (case lfq_heap q a of
             None \<Rightarrow> None
           | Some _ \<Rightarrow>
               Some (s\<lparr>sp_q := q\<lparr>lfq_heap := (lfq_heap q)(a := None)\<rparr>, sp_prod := PTrim\<rparr>)))"

definition consumer_step :: "'a spsc \<Rightarrow> 'a spsc option" where
  "consumer_step s =
     (let q = sp_q s in
      case sp_cons s of
        CIdle \<Rightarrow> Some s
      | CCheck \<Rightarrow>
          Some (s\<lparr>sp_cons := (if lfq_divider q \<noteq> lfq_last q then CRead else CIdle)\<rparr>)
      | CRead \<Rightarrow>
          (case lfq_heap q (lfq_divider q) of
             None \<Rightarrow> None
           | Some nd \<Rightarrow>
               (case node_next nd of
                  None \<Rightarrow> None
                | Some d \<Rightarrow>
                    (case lfq_heap q d of
                       None \<Rightarrow> None
                     | Some nd' \<Rightarrow> Some (s\<lparr>sp_cons := CMove (node_value nd')\<rparr>))))
      | CMove v \<Rightarrow>
          (case lfq_heap q (lfq_divider q) of
             None \<Rightarrow> None
           | Some nd \<Rightarrow>
               (case node_next nd of
                  None \<Rightarrow> None
                | Some d \<Rightarrow>
                    Some (s\<lparr>sp_q := q\<lparr>lfq_divider := d\<rparr>, sp_cons := CCount,
                            sp_out := sp_out s @ [v]\<rparr>)))
      | CCount \<Rightarrow> Some (s\<lparr>sp_q := q\<lparr>lfq_size := lfq_size q - 1\<rparr>, sp_cons := CIdle\<rparr>))"

text \<open>
  A step is a thread starting a call or executing its next statement; \<open>None\<close> is the state
  after an invalid access.
\<close>

inductive spsc_step :: "'a spsc option \<Rightarrow> 'a spsc option \<Rightarrow> bool" where
  call_produce: "sp_prod s = PIdle \<Longrightarrow> spsc_step (Some s) (Some (s\<lparr>sp_prod := PLink t\<rparr>))"
| call_consume: "sp_cons s = CIdle \<Longrightarrow> spsc_step (Some s) (Some (s\<lparr>sp_cons := CCheck\<rparr>))"
| run_producer: "sp_prod s \<noteq> PIdle \<Longrightarrow> spsc_step (Some s) (producer_step s)"
| run_consumer: "sp_cons s \<noteq> CIdle \<Longrightarrow> spsc_step (Some s) (consumer_step s)"

inductive spsc_reachable :: "'a \<Rightarrow> 'a spsc option \<Rightarrow> bool" for d where
  reach_init: "spsc_reachable d (Some (spsc_init d))"
| reach_step: "spsc_reachable d x \<Longrightarrow> spsc_step x y \<Longrightarrow> spsc_reachable d y"

inductive_cases spsc_step_SomeE: "spsc_step (Some s) y"

definition doomed :: "'a ppc \<Rightarrow> nat list" where
  "doomed p = (case p of PDelete a \<Rightarrow> [a] | _ \<Rightarrow> [])"

definition spsc_rep :: "'a spsc \<Rightarrow> nat list \<Rightarrow> nat list \<Rightarrow> bool" where
  "spsc_rep s ps ms \<longleftrightarrow>
     (let q = sp_q s; h = lfq_heap q; d = lfq_divider q in
        lfq_chain h (ps @ d # ms)
      \<and> distinct (doomed (sp_prod s) @ ps @ d # ms)
      \<and> dom h = set (doomed (sp_prod s) @ ps @ d # ms)
      \<and> lfq_first q = hd (ps @ [d])
      \<and> (\<forall>a \<in> dom h. a < lfq_alloc q)
      \<and> (if sp_prod s = PAdvance then ms \<noteq> [] \<and> lfq_last q = last (d # butlast ms)
          else lfq_last q = last (d # ms))
      \<and> sp_in s = sp_out s @ map (val_at h) ms
      \<and> (sp_cons s = CRead \<or> (\<exists>v. sp_cons s = CMove v) \<longrightarrow> d \<noteq> lfq_last q)
      \<and> (\<forall>v. sp_cons s = CMove v \<longrightarrow> ms \<noteq> [] \<and> v = val_at h (hd ms)))"

lemma spsc_rep_init: "spsc_rep (spsc_init d) [] []"
  by (auto simp: spsc_rep_def spsc_init_def lfq_new_def doomed_def)

lemma spsc_rep_nonempty:
  "spsc_rep s ps ms \<Longrightarrow> lfq_divider (sp_q s) \<noteq> lfq_last (sp_q s) \<Longrightarrow>
   \<exists>m ms'. ms = m # ms' \<and> (sp_prod s = PAdvance \<longrightarrow> ms' \<noteq> [])"
  by (cases ms) (auto simp: spsc_rep_def Let_def split: if_splits)

lemma spsc_repI:
  assumes "lfq_chain (lfq_heap (sp_q s)) (ps @ lfq_divider (sp_q s) # ms)"
    and "distinct (doomed (sp_prod s) @ ps @ lfq_divider (sp_q s) # ms)"
    and "dom (lfq_heap (sp_q s)) = set (doomed (sp_prod s) @ ps @ lfq_divider (sp_q s) # ms)"
    and "lfq_first (sp_q s) = hd (ps @ [lfq_divider (sp_q s)])"
    and "\<forall>a \<in> dom (lfq_heap (sp_q s)). a < lfq_alloc (sp_q s)"
    and "if sp_prod s = PAdvance then ms \<noteq> [] \<and> lfq_last (sp_q s) = last (lfq_divider (sp_q s) # butlast ms)
         else lfq_last (sp_q s) = last (lfq_divider (sp_q s) # ms)"
    and "sp_in s = sp_out s @ map (val_at (lfq_heap (sp_q s))) ms"
    and "sp_cons s = CRead \<or> (\<exists>v. sp_cons s = CMove v) \<longrightarrow> lfq_divider (sp_q s) \<noteq> lfq_last (sp_q s)"
    and "\<forall>v. sp_cons s = CMove v \<longrightarrow> ms \<noteq> [] \<and> v = val_at (lfq_heap (sp_q s)) (hd ms)"
  shows "spsc_rep s ps ms"
  using assms by (simp add: spsc_rep_def Let_def)

lemma spsc_repD:
  assumes "spsc_rep s ps ms"
  shows "lfq_chain (lfq_heap (sp_q s)) (ps @ lfq_divider (sp_q s) # ms)"
    and "distinct (doomed (sp_prod s) @ ps @ lfq_divider (sp_q s) # ms)"
    and "dom (lfq_heap (sp_q s)) = set (doomed (sp_prod s) @ ps @ lfq_divider (sp_q s) # ms)"
    and "lfq_first (sp_q s) = hd (ps @ [lfq_divider (sp_q s)])"
    and "\<forall>a \<in> dom (lfq_heap (sp_q s)). a < lfq_alloc (sp_q s)"
    and "if sp_prod s = PAdvance then ms \<noteq> [] \<and> lfq_last (sp_q s) = last (lfq_divider (sp_q s) # butlast ms)
         else lfq_last (sp_q s) = last (lfq_divider (sp_q s) # ms)"
    and "sp_in s = sp_out s @ map (val_at (lfq_heap (sp_q s))) ms"
    and "sp_cons s = CRead \<or> (\<exists>v. sp_cons s = CMove v) \<longrightarrow> lfq_divider (sp_q s) \<noteq> lfq_last (sp_q s)"
    and "\<forall>v. sp_cons s = CMove v \<longrightarrow> ms \<noteq> [] \<and> v = val_at (lfq_heap (sp_q s)) (hd ms)"
  using assms by (simp_all add: spsc_rep_def Let_def split: if_splits)

lemma producer_link:
  assumes "spsc_rep s ps ms" "sp_prod s = PLink t"
  shows "\<exists>s'. producer_step s = Some s' \<and> spsc_rep s' ps (ms @ [lfq_alloc (sp_q s)])"
proof -
  note r = spsc_repD [OF assms(1)]
  let ?h = "lfq_heap (sp_q s)" and ?d = "lfq_divider (sp_q s)" and ?n = "lfq_alloc (sp_q s)"
  let ?l = "lfq_last (sp_q s)"
  have la: "?l = last (?d # ms)" using r(6) assms(2) by simp
  define xs where "xs = ps @ butlast (?d # ms)"
  have split: "ps @ ?d # ms = xs @ [?l]"
    using la unfolding xs_def by (metis append_assoc append_butlast_last_id list.distinct(1))
  have dm: "doomed (sp_prod s) = []" using assms(2) by (simp add: doomed_def)
  have fresh: "?n \<notin> set (ps @ ?d # ms)" using r(3,5) dm by auto
  obtain nd where nd: "?h ?l = Some nd" using chain_last [of ?h xs ?l] r(1) split by auto
  define h' where "h' = ?h(?n \<mapsto> \<lparr>node_value = t, node_next = None\<rparr>, ?l \<mapsto> nd\<lparr>node_next := Some ?n\<rparr>)"
  have "lfq_chain h' (xs @ [?l, ?n])"
    unfolding h'_def using chain_snoc [of ?h xs ?l ?n nd t] r(1,2) dm fresh nd split by simp
  moreover have "xs @ [?l, ?n] = ps @ ?d # ms @ [?n]"
    using split by (metis append.assoc append_Cons append_Nil)
  ultimately have ch: "lfq_chain h' (ps @ ?d # ms @ [?n])" by simp
  have ln: "?l \<noteq> ?n" using fresh split by auto
  have vals: "val_at h' a = val_at ?h a" if "a \<noteq> ?n" for a
    using nd that unfolding h'_def by simp
  have valn: "val_at h' ?n = t" using ln unfolding h'_def by simp
  have dom': "dom h' = insert ?n (dom ?h)" using nd unfolding h'_def by auto
  have mp: "map (val_at h') ms = map (val_at ?h) ms" by (rule map_cong [OF refl], rule vals) (use fresh in auto)
  let ?s = "s\<lparr>sp_q := (sp_q s)\<lparr>lfq_heap := h', lfq_alloc := Suc ?n\<rparr>, sp_prod := PAdvance,
              sp_in := sp_in s @ [t]\<rparr>"
  have step: "producer_step s = Some ?s"
    using assms(2) nd by (simp add: producer_step_def h'_def Let_def)
  have "spsc_rep ?s ps (ms @ [?n])"
  proof (rule spsc_repI, goal_cases)
    case 5
    show ?case using r(5) dom' by (auto simp: less_Suc_eq)
  next
    case 9
    have "val_at h' (hd ms) = val_at ?h (hd ms)" if "ms \<noteq> []"
      by (rule vals) (use fresh that hd_in_set [OF that] in \<open>metis Un_iff set_append set_ConsD list.set_intros(2)\<close>)
    then show ?case using r(9) by (auto simp: hd_append)
  qed (use ch r la assms(2) fresh dom' mp valn in \<open>simp_all add: doomed_def insert_commute\<close>)
  then show ?thesis using step by blast
qed

lemma producer_advance:
  assumes "spsc_rep s ps ms" "sp_prod s = PAdvance"
  shows "\<exists>s'. producer_step s = Some s' \<and> spsc_rep s' ps ms"
proof -
  note r = spsc_repD [OF assms(1)]
  let ?h = "lfq_heap (sp_q s)" and ?d = "lfq_divider (sp_q s)" and ?l = "lfq_last (sp_q s)"
  obtain ns n where ms: "ms = ns @ [n]" using r(6) assms(2) by (metis rev_exhaust)
  have la: "?l = last (?d # ns)" using r(6) assms(2) ms by simp
  have "ps @ ?d # ms = (ps @ butlast (?d # ns)) @ ?l # n # []"
    using la ms by (metis append.assoc append_Cons append_Nil append_butlast_last_id list.distinct(1))
  then obtain nd where nd: "?h ?l = Some nd" "node_next nd = Some n"
    using chain_next r(1) by metis
  let ?s = "s\<lparr>sp_q := (sp_q s)\<lparr>lfq_last := n\<rparr>, sp_prod := PCount\<rparr>"
  have step: "producer_step s = Some ?s"
    using assms(2) nd by (simp add: producer_step_def Let_def)
  have "spsc_rep ?s ps ms"
    by (rule spsc_repI) (use r ms assms(2) in \<open>simp_all add: doomed_def\<close>)
  then show ?thesis using step by blast
qed

lemma producer_count:
  assumes "spsc_rep s ps ms" "sp_prod s = PCount"
  shows "\<exists>s'. producer_step s = Some s' \<and> spsc_rep s' ps ms"
proof -
  note r = spsc_repD [OF assms(1)]
  have "spsc_rep (s\<lparr>sp_q := (sp_q s)\<lparr>lfq_size := lfq_size (sp_q s) + 1\<rparr>, sp_prod := PTrim\<rparr>) ps ms"
    by (rule spsc_repI) (use r assms(2) in \<open>simp_all add: doomed_def\<close>)
  then show ?thesis using assms(2) by (simp add: producer_step_def Let_def)
qed

lemma producer_trim:
  assumes "spsc_rep s ps ms" "sp_prod s = PTrim"
  shows "\<exists>s' ps'. producer_step s = Some s' \<and> spsc_rep s' ps' ms"
proof (cases ps)
  case Nil
  note r = spsc_repD [OF assms(1)]
  have "spsc_rep (s\<lparr>sp_prod := PIdle\<rparr>) [] ms"
    by (rule spsc_repI) (use r assms(2) Nil in \<open>simp_all add: doomed_def\<close>)
  moreover have "producer_step s = Some (s\<lparr>sp_prod := PIdle\<rparr>)"
    using r(4) Nil assms(2) by (simp add: producer_step_def Let_def)
  ultimately show ?thesis by blast
next
  case (Cons p ps')
  note r = spsc_repD [OF assms(1)]
  let ?h = "lfq_heap (sp_q s)" and ?d = "lfq_divider (sp_q s)"
  let ?n = "hd (ps' @ [?d])"
  obtain rest where "ps' @ ?d # ms = ?n # rest" by (cases ps') auto
  then obtain nd where nd: "?h p = Some nd" "node_next nd = Some ?n"
    using r(1) Cons chain_head [of ?h p ?n rest] by auto
  let ?s = "s\<lparr>sp_q := (sp_q s)\<lparr>lfq_first := ?n\<rparr>, sp_prod := PDelete p\<rparr>"
  have "p \<noteq> ?d" "lfq_first (sp_q s) = p" using r(2,4) Cons by auto
  then have step: "producer_step s = Some ?s"
    using assms(2) nd by (simp add: producer_step_def Let_def)
  have "lfq_chain ?h (ps' @ ?d # ms)" using r(1) Cons by (auto dest: chain_tl)
  then have "spsc_rep ?s ps' ms"
    by (intro spsc_repI) (use r assms(2) Cons in \<open>simp_all add: doomed_def\<close>)
  then show ?thesis using step by blast
qed

lemma producer_delete:
  assumes "spsc_rep s ps ms" "sp_prod s = PDelete a"
  shows "\<exists>s'. producer_step s = Some s' \<and> spsc_rep s' ps ms"
proof -
  note r = spsc_repD [OF assms(1)]
  let ?h = "lfq_heap (sp_q s)" and ?d = "lfq_divider (sp_q s)"
  have dm: "doomed (sp_prod s) = [a]" using assms(2) by (simp add: doomed_def)
  have "a \<in> dom ?h" using r(3) dm by simp
  then obtain nd where nd: "?h a = Some nd" by blast
  define h' where "h' = ?h(a := None)"
  have off: "h' b = ?h b" if "b \<noteq> a" for b using that by (simp add: h'_def)
  have na: "a \<notin> set (ps @ ?d # ms)" using r(2) dm by simp
  let ?s = "s\<lparr>sp_q := (sp_q s)\<lparr>lfq_heap := h'\<rparr>, sp_prod := PTrim\<rparr>"
  have step: "producer_step s = Some ?s"
    using assms(2) nd by (simp add: producer_step_def h'_def Let_def)
  have ch: "lfq_chain h' (ps @ ?d # ms)"
    by (rule chain_frame [OF r(1)], rule ballI, rule off) (use na in auto)
  have dom': "dom h' = dom ?h - {a}" unfolding h'_def by auto
  have mp: "map (val_at h') ms = map (val_at ?h) ms"
    by (rule map_cong [OF refl], subst off) (use na in auto)
  have "spsc_rep ?s ps ms"
  proof (rule spsc_repI, goal_cases)
    case 3
    have "dom ?h = insert a (set (ps @ ?d # ms))" using r(3) dm by simp
    then show ?case using dom' na assms(2) by (simp add: doomed_def)
  next
    case 5
    show ?case using dom' r(5) by simp
  next
    case 9
    show ?case using r(9) off na by (cases ms) auto
  qed (use ch r na mp assms(2) in \<open>simp_all add: doomed_def\<close>)
  then show ?thesis using step by blast
qed

lemma producer_step_rep:
  assumes "spsc_rep s ps ms"
  shows "\<exists>s' ps' ms'. producer_step s = Some s' \<and> spsc_rep s' ps' ms'"
proof (cases "sp_prod s")
  case PIdle
  then show ?thesis using assms by (auto simp: producer_step_def)
next
  case (PLink t)
  then show ?thesis using producer_link [OF assms] by blast
next
  case PAdvance
  then show ?thesis using producer_advance [OF assms] by blast
next
  case PCount
  then show ?thesis using producer_count [OF assms] by blast
next
  case PTrim
  then show ?thesis using producer_trim [OF assms] by blast
next
  case (PDelete a)
  then show ?thesis using producer_delete [OF assms] by blast
qed

lemma divider_next:
  assumes "spsc_rep s ps ms" "lfq_divider (sp_q s) \<noteq> lfq_last (sp_q s)"
  obtains m ms' nd nd' where "ms = m # ms'" "sp_prod s = PAdvance \<longrightarrow> ms' \<noteq> []"
    "lfq_heap (sp_q s) (lfq_divider (sp_q s)) = Some nd" "node_next nd = Some m"
    "lfq_heap (sp_q s) m = Some nd'"
proof -
  note r = spsc_repD [OF assms(1)]
  obtain m ms' where ms: "ms = m # ms'" "sp_prod s = PAdvance \<longrightarrow> ms' \<noteq> []"
    using spsc_rep_nonempty [OF assms] by blast
  moreover obtain nd where "lfq_heap (sp_q s) (lfq_divider (sp_q s)) = Some nd" "node_next nd = Some m"
    using chain_next r(1) ms(1) by metis
  moreover obtain nd' where "lfq_heap (sp_q s) m = Some nd'"
    using chain_dom [OF r(1), of m] ms(1) by auto
  ultimately show ?thesis using that by blast
qed

lemma consumer_read:
  assumes "spsc_rep s ps ms" "sp_cons s = CRead"
  shows "\<exists>s'. consumer_step s = Some s' \<and> spsc_rep s' ps ms"
proof -
  note r = spsc_repD [OF assms(1)]
  have ne: "lfq_divider (sp_q s) \<noteq> lfq_last (sp_q s)" using r(8) assms(2) by simp
  obtain m ms' nd nd' where n: "ms = m # ms'"
    "lfq_heap (sp_q s) (lfq_divider (sp_q s)) = Some nd" "node_next nd = Some m"
    "lfq_heap (sp_q s) m = Some nd'"
    by (rule divider_next [OF assms(1) ne])
  have "spsc_rep (s\<lparr>sp_cons := CMove (node_value nd')\<rparr>) ps ms"
    by (rule spsc_repI) (use r ne n in simp_all)
  then show ?thesis using n assms(2) by (simp add: consumer_step_def Let_def)
qed

lemma consumer_move:
  assumes "spsc_rep s ps ms" "sp_cons s = CMove v"
  shows "\<exists>s' ps' ms'. consumer_step s = Some s' \<and> spsc_rep s' ps' ms'"
proof -
  note r = spsc_repD [OF assms(1)]
  let ?h = "lfq_heap (sp_q s)" and ?d = "lfq_divider (sp_q s)"
  have ne: "?d \<noteq> lfq_last (sp_q s)" using r(8) assms(2) by simp
  obtain m ms' nd nd' where n: "ms = m # ms'" "sp_prod s = PAdvance \<longrightarrow> ms' \<noteq> []"
    "?h ?d = Some nd" "node_next nd = Some m" "?h m = Some nd'"
    by (rule divider_next [OF assms(1) ne])
  let ?s = "s\<lparr>sp_q := (sp_q s)\<lparr>lfq_divider := m\<rparr>, sp_cons := CCount, sp_out := sp_out s @ [v]\<rparr>"
  have step: "consumer_step s = Some ?s"
    using n assms(2) by (simp add: consumer_step_def Let_def)
  have "lfq_chain ?h ((ps @ [?d]) @ m # ms')" using r(1) n(1) by simp
  moreover have "v = val_at ?h m" using r(9) assms(2) n(1) by simp
  moreover have "lfq_first (sp_q s) = hd ((ps @ [?d]) @ [m])" using r(4) by (simp add: hd_append)
  ultimately have "spsc_rep ?s (ps @ [?d]) ms'"
    by (intro spsc_repI) (use r n(1,2) in \<open>simp_all split: if_splits\<close>)
  then show ?thesis using step by blast
qed

lemma consumer_step_rep:
  assumes "spsc_rep s ps ms"
  shows "\<exists>s' ps' ms'. consumer_step s = Some s' \<and> spsc_rep s' ps' ms'"
proof (cases "sp_cons s")
  case CIdle
  then show ?thesis using assms by (auto simp: consumer_step_def)
next
  case CCheck
  note r = spsc_repD [OF assms]
  have "spsc_rep (s\<lparr>sp_cons := (if lfq_divider (sp_q s) \<noteq> lfq_last (sp_q s) then CRead else CIdle)\<rparr>) ps ms"
    by (rule spsc_repI) (use r in simp_all)
  then show ?thesis using CCheck by (simp only: consumer_step_def Let_def cpc.case) blast
next
  case CRead
  then show ?thesis using consumer_read [OF assms] by blast
next
  case (CMove v)
  then show ?thesis using consumer_move [OF assms] by blast
next
  case CCount
  note r = spsc_repD [OF assms]
  have "spsc_rep (s\<lparr>sp_q := (sp_q s)\<lparr>lfq_size := lfq_size (sp_q s) - 1\<rparr>, sp_cons := CIdle\<rparr>) ps ms"
    by (rule spsc_repI) (use r in simp_all)
  then show ?thesis using CCount by (simp only: consumer_step_def Let_def cpc.case) blast
qed

definition spsc_inv :: "'a spsc option \<Rightarrow> bool" where
  "spsc_inv x \<longleftrightarrow> (\<exists>s ps ms. x = Some s \<and> spsc_rep s ps ms)"

lemma spsc_invI: "spsc_rep s ps ms \<Longrightarrow> spsc_inv (Some s)"
  by (auto simp: spsc_inv_def)

lemma spsc_step_inv: "spsc_step x y \<Longrightarrow> spsc_inv x \<Longrightarrow> spsc_inv y"
proof (induction rule: spsc_step.induct)
  case (call_produce s t)
  then obtain ps ms where "spsc_rep s ps ms" by (auto simp: spsc_inv_def)
  note r = spsc_repD [OF this]
  show ?case
    by (rule spsc_invI, rule spsc_repI) (use r call_produce in \<open>simp_all add: doomed_def\<close>)
next
  case (call_consume s)
  then obtain ps ms where "spsc_rep s ps ms" by (auto simp: spsc_inv_def)
  note r = spsc_repD [OF this]
  show ?case
    by (rule spsc_invI, rule spsc_repI) (use r call_consume in simp_all)
next
  case (run_producer s)
  then show ?case using producer_step_rep unfolding spsc_inv_def by blast
next
  case (run_consumer s)
  then show ?case using consumer_step_rep unfolding spsc_inv_def by blast
qed

lemma spsc_reachable_inv: "spsc_reachable d x \<Longrightarrow> spsc_inv x"
proof (induction rule: spsc_reachable.induct)
  case reach_init
  show ?case by (rule spsc_invI, rule spsc_rep_init)
next
  case (reach_step x y)
  then show ?case by (blast intro: spsc_step_inv)
qed

text \<open>C19: However the statements of one producer and one consumer interleave, neither thread
  follows a null pointer, reads a freed node or frees a node twice, and what the consumer has
  received is always a prefix of what the producer has linked.\<close>
theorem spsc_safe:
  assumes "spsc_reachable d x"
  shows "\<exists>s rest. x = Some s \<and> sp_in s = sp_out s @ rest"
proof -
  obtain s ps ms where "x = Some s" "spsc_rep s ps ms"
    using spsc_reachable_inv [OF assms] by (auto simp: spsc_inv_def)
  then show ?thesis using spsc_repD(7) by blast
qed

text \<open>The run in which one value is linked and the consumer takes it: both calls have work left.\<close>

definition spsc_demo :: "nat spsc option list" where
  "spsc_demo =
     (let s1 = (spsc_init 0)\<lparr>sp_prod := PLink 7\<rparr>;
          s2 = the (producer_step s1);
          s3 = the (producer_step s2);
          s4 = s3\<lparr>sp_cons := CCheck\<rparr>;
          s5 = the (consumer_step s4);
          s6 = the (consumer_step s5);
          s7 = the (consumer_step s6)
      in map Some [s1, s2, s3, s4, s5, s6, s7])"

lemma spsc_demo_reachable: "spsc_reachable 0 (spsc_demo ! 6)"
proof -
  let ?s1 = "(spsc_init 0)\<lparr>sp_prod := PLink (7::nat)\<rparr>"
  have 1: "spsc_reachable 0 (Some ?s1)"
    by (rule reach_step [OF reach_init], rule call_produce) (simp add: spsc_init_def)
  let ?s2 = "the (producer_step ?s1)"
  have 2: "spsc_reachable 0 (Some ?s2)"
    using reach_step [OF 1, OF run_producer] by (simp add: producer_step_def spsc_init_def lfq_new_def)
  let ?s3 = "the (producer_step ?s2)"
  have 3: "spsc_reachable 0 (Some ?s3)"
    using reach_step [OF 2, OF run_producer] by (simp add: producer_step_def spsc_init_def lfq_new_def)
  let ?s4 = "?s3\<lparr>sp_cons := CCheck\<rparr>"
  have 4: "spsc_reachable 0 (Some ?s4)"
    by (rule reach_step [OF 3], rule call_consume) (simp add: producer_step_def spsc_init_def lfq_new_def)
  let ?s5 = "the (consumer_step ?s4)"
  have 5: "spsc_reachable 0 (Some ?s5)"
    using reach_step [OF 4, OF run_consumer] by (simp add: consumer_step_def producer_step_def spsc_init_def lfq_new_def)
  let ?s6 = "the (consumer_step ?s5)"
  have 6: "spsc_reachable 0 (Some ?s6)"
    using reach_step [OF 5, OF run_consumer] by (simp add: consumer_step_def producer_step_def spsc_init_def lfq_new_def)
  let ?s7 = "the (consumer_step ?s6)"
  have 7: "spsc_reachable 0 (Some ?s7)"
    using reach_step [OF 6, OF run_consumer] by (simp add: consumer_step_def producer_step_def spsc_init_def lfq_new_def)
  then show ?thesis by (simp add: spsc_demo_def Let_def)
qed

theorem spsc_safe_witness:
  "\<exists>s rest. spsc_demo ! 6 = Some s \<and> sp_in s = sp_out s @ rest"
  by (rule spsc_safe [OF spsc_demo_reachable])

end
