(* ===== verification/ByteIO.thy ===== *)
theory ByteIO
  imports Prelude
begin

text \<open>
  The byte-level services of \<open>rtc_base\<close> the STUN code calls (\<open>byte_buffer.h\<close>,
  \<open>byte_order.h\<close>, \<open>crc32.h\<close>, \<open>message_digest.h\<close>). Their code is not part of the repository:
  they are the fields of the parameter \<open>io\<close>, and the locale \<open>byte_io_laws\<close> states the
  documented behaviour the code relies on. A reader is the list of its unread bytes; a writer is
  the list of the bytes written, and each \<open>wr_\<close> field gives the bytes one call appends.

  The second half defines one big-endian instance, which the witnesses evaluate.
\<close>

record byte_io =
  rd_u16 :: "bytes \<Rightarrow> (u16 \<times> bytes) option"
  rd_u32 :: "bytes \<Rightarrow> (u32 \<times> bytes) option"
  rd_bytes :: "nat \<Rightarrow> bytes \<Rightarrow> (bytes \<times> bytes) option"
  rd_skip :: "nat \<Rightarrow> bytes \<Rightarrow> bytes option"
  wr_u8 :: "u8 \<Rightarrow> bytes"
  wr_u16 :: "u16 \<Rightarrow> bytes"
  wr_u32 :: "u32 \<Rightarrow> bytes"
  wr_u64 :: "u64 \<Rightarrow> bytes"
  wr_bytes :: "bytes \<Rightarrow> bytes"
  get_be16 :: "bytes \<Rightarrow> u16"
  get_be32 :: "bytes \<Rightarrow> u32"
  put_be16 :: "u16 \<Rightarrow> bytes"
  ntoh32 :: "bytes \<Rightarrow> u32"
  hton32 :: "u32 \<Rightarrow> bytes"
  crc32 :: "bytes \<Rightarrow> u32"
  hmac_sha1 :: "bytes \<Rightarrow> bytes \<Rightarrow> bytes"

locale byte_io_laws =
  fixes io :: byte_io
  assumes rd16_wr16 [wire]: "rd_u16 io (wr_u16 io w @ r) = Some (w, r)"
    and rd32_wr32 [wire]: "rd_u32 io (wr_u32 io v @ r) = Some (v, r)"
    and rd16_Some: "rd_u16 io bs = Some (w, r) \<Longrightarrow> bs = wr_u16 io w @ r"
    and rd32_Some: "rd_u32 io bs = Some (v, r) \<Longrightarrow> bs = wr_u32 io v @ r"
    and rd16_enough: "2 \<le> length bs \<Longrightarrow> rd_u16 io bs \<noteq> None"
    and rd32_enough: "4 \<le> length bs \<Longrightarrow> rd_u32 io bs \<noteq> None"
    and rd_bytes_eq [wire]:
      "rd_bytes io n bs = (if n \<le> length bs then Some (take n bs, drop n bs) else None)"
    and rd_skip_eq [wire]: "rd_skip io n bs = (if n \<le> length bs then Some (drop n bs) else None)"
    and len_wr8 [wire]: "length (wr_u8 io b) = 1"
    and len_wr16 [wire]: "length (wr_u16 io w) = 2"
    and len_wr32 [wire]: "length (wr_u32 io v) = 4"
    and len_wr64 [wire]: "length (wr_u64 io x) = 8"
    and wr_bytes_eq [wire]: "wr_bytes io bs = bs"
    and get16_wr16 [wire]: "get_be16 io (wr_u16 io w @ r) = w"
    and get32_wr32 [wire]: "get_be32 io (wr_u32 io v @ r) = v"
    and put16_eq [wire]: "put_be16 io w = wr_u16 io w"
    and ntoh_wr32 [wire]: "ntoh32 io (wr_u32 io v) = v"
    and hton_eq [wire]: "hton32 io v = wr_u32 io v"
    and len_hmac [wire]: "length (hmac_sha1 io k d) = 20"
begin

lemma rd16_shrinks: "rd_u16 io bs = Some (w, r) \<Longrightarrow> length bs = length r + 2"
  by (drule rd16_Some) (simp add: len_wr16)

lemma rd32_shrinks: "rd_u32 io bs = Some (v, r) \<Longrightarrow> length bs = length r + 4"
  by (drule rd32_Some) (simp add: len_wr32)

lemma wr16_inj: "wr_u16 io a @ r = wr_u16 io b @ s \<longleftrightarrow> a = b \<and> r = s"
  by (metis rd16_wr16 option.inject prod.inject)

lemma wr32_inj: "wr_u32 io a @ r = wr_u32 io b @ s \<longleftrightarrow> a = b \<and> r = s"
  by (metis rd32_wr32 option.inject prod.inject)

end

subsection \<open>A big-endian instance\<close>

fun be_bytes :: "nat \<Rightarrow> nat \<Rightarrow> bytes" where
  "be_bytes 0 x = []"
| "be_bytes (Suc k) x = of_nat (x div 256 ^ k) # be_bytes k x"

fun be_val :: "bytes \<Rightarrow> nat" where
  "be_val [] = 0"
| "be_val (b # bs) = unat b * 256 ^ length bs + be_val bs"

lemma length_be_bytes [simp]: "length (be_bytes k x) = k"
  by (induction k) auto

lemma be_val_be_bytes: "be_val (be_bytes k x) = x mod 256 ^ k"
proof (induction k)
  case 0
  then show ?case by simp
next
  case (Suc k)
  have "x mod 256 ^ Suc k = 256 ^ k * (x div 256 ^ k mod 256) + x mod 256 ^ k"
    by (metis mod_mult2_eq mult.commute power_Suc)
  then show ?case using Suc by (simp add: unat_of_nat mult.commute)
qed

lemma be_val_less: "be_val bs < 256 ^ length bs"
proof (induction bs)
  case Nil
  then show ?case by simp
next
  case (Cons b bs)
  have "unat b < 256" using unsigned_less [of b] by simp
  then have "unat b * 256 ^ length bs + be_val bs < unat b * 256 ^ length bs + 256 ^ length bs"
    using Cons by simp
  also have "\<dots> \<le> 256 * 256 ^ length bs"
    using \<open>unat b < 256\<close> mult_le_mono1 [of "unat b + 1" 256 "256 ^ length bs"] by simp
  finally show ?case by simp
qed

lemma be_bytes_mult: "be_bytes k (a * 256 ^ k + x) = be_bytes k x"
proof (induction k arbitrary: a)
  case 0
  then show ?case by simp
next
  case (Suc k)
  have "(a * 256 ^ Suc k + x) div 256 ^ k = a * 256 + x div 256 ^ k"
    by (simp add: mult.assoc [symmetric] div_plus_div_distrib_dvd_left)
  moreover have "(of_nat (a * 256 + x div 256 ^ k) :: byte) = of_nat (x div 256 ^ k)"
  proof -
    have "(256 :: byte) = 0" by simp
    then show ?thesis by (simp only: of_nat_add of_nat_mult of_nat_numeral mult_zero_right add_0)
  qed
  moreover have "be_bytes k (a * 256 ^ Suc k + x) = be_bytes k x"
    using Suc [of "a * 256"] by (simp add: mult.assoc mult.commute mult.left_commute)
  ultimately show ?case by simp
qed

lemma be_bytes_be_val: "be_bytes (length bs) (be_val bs) = bs"
proof (induction bs)
  case Nil
  then show ?case by simp
next
  case (Cons b bs)
  have "(unat b * 256 ^ length bs + be_val bs) div 256 ^ length bs = unat b"
    using be_val_less [of bs] by simp
  then show ?case using Cons be_bytes_mult [of "length bs" "unat b" "be_val bs"] by simp
qed

definition be_rd :: "nat \<Rightarrow> bytes \<Rightarrow> ('a::len word \<times> bytes) option" where
  "be_rd k bs = (if k \<le> length bs then Some (of_nat (be_val (take k bs)), drop k bs) else None)"

definition be_wr :: "nat \<Rightarrow> 'a::len word \<Rightarrow> bytes" where
  "be_wr k w = be_bytes k (unat w)"

text \<open>
  The checksum and the digest of the instance are simple sums: the laws ask nothing of the
  former and only the length of the latter.
\<close>

definition sum_u32 :: "bytes \<Rightarrow> u32" where
  "sum_u32 bs = foldl (\<lambda>s b. s * 31 + ucast b) 7 bs"

definition be_io :: byte_io where
  "be_io =
     \<lparr>rd_u16 = be_rd 2, rd_u32 = be_rd 4,
      rd_bytes = (\<lambda>n bs. if n \<le> length bs then Some (take n bs, drop n bs) else None),
      rd_skip = (\<lambda>n bs. if n \<le> length bs then Some (drop n bs) else None),
      wr_u8 = be_wr 1, wr_u16 = be_wr 2, wr_u32 = be_wr 4, wr_u64 = be_wr 8,
      wr_bytes = (\<lambda>bs. bs),
      get_be16 = (\<lambda>bs. of_nat (be_val (take 2 bs))),
      get_be32 = (\<lambda>bs. of_nat (be_val (take 4 bs))),
      put_be16 = be_wr 2,
      ntoh32 = (\<lambda>bs. of_nat (be_val (take 4 bs))), hton32 = be_wr 4,
      crc32 = sum_u32,
      hmac_sha1 = (\<lambda>k d. be_bytes 20 (unat (sum_u32 (k @ d))))\<rparr>"

lemma length_be_wr [simp]: "length (be_wr k w) = k"
  by (simp add: be_wr_def)

lemma be_val_be_wr: "LENGTH('a) = 8 * k \<Longrightarrow> of_nat (be_val (be_wr k w)) = (w :: 'a::len word)"
proof -
  assume "LENGTH('a) = 8 * k"
  then have "unat w < 256 ^ k" using unsigned_less [of w] by (simp add: power_mult)
  then show ?thesis by (simp add: be_wr_def be_val_be_bytes)
qed

lemma be_rd_be_wr: "LENGTH('a) = 8 * k \<Longrightarrow> be_rd k (be_wr k (w :: 'a::len word) @ r) = Some (w, r)"
  by (simp add: be_rd_def be_val_be_wr)

lemma be_rd_Some:
  assumes "LENGTH('a) = 8 * k" "be_rd k bs = Some (w :: 'a::len word, r)"
  shows "bs = be_wr k w @ r"
proof -
  from assms(2) have k: "k \<le> length bs" and w: "w = of_nat (be_val (take k bs))" and r: "r = drop k bs"
    by (auto simp: be_rd_def split: if_splits)
  have "be_val (take k bs) < 2 ^ LENGTH('a)"
    using be_val_less [of "take k bs"] k assms(1) by (simp add: power_mult min_absorb2)
  then have "unat w = be_val (take k bs)" using w by (simp add: unat_of_nat take_bit_nat_eq_self)
  then have "be_wr k w = take k bs"
    using be_bytes_be_val [of "take k bs"] k by (simp add: be_wr_def min_absorb2)
  then show ?thesis using r by simp
qed

interpretation be: byte_io_laws be_io
proof (unfold_locales, goal_cases)
  case (3 bs w r)
  then show ?case using be_rd_Some [of 2 bs w r] by (simp add: be_io_def)
next
  case (4 bs v r)
  then show ?case using be_rd_Some [of 4 bs v r] by (simp add: be_io_def)
qed (simp_all add: be_io_def be_rd_be_wr be_val_be_wr, simp_all add: be_rd_def)

end
