(* ===== verification/Stun.thy ===== *)
theory Stun
  imports ByteIO
begin

unbundle bit_operations_syntax

text \<open>
  STUN messages (\<open>ice/stun.h\<close>, \<open>ice/stun.cpp\<close>): attributes, writing and reading a message, the
  FINGERPRINT and MESSAGE-INTEGRITY checks, and the mapping from request to response types.

  A C++ method that returns \<open>false\<close> after filling a buffer its callers then drop is \<open>None\<close>.
  \<open>stun_read\<close> has an outer \<open>option\<close> that is \<open>None\<close> when the parsing loop does not end: with a
  reader that obeys \<open>byte_io_laws\<close> this never happens, which is a theorem below.
\<close>

subsection \<open>Constants\<close>

definition k_stun_header_size :: nat where "k_stun_header_size = 20"
definition k_stun_attribute_header_size :: nat where "k_stun_attribute_header_size = 4"
definition k_stun_transaction_id_offset :: nat where "k_stun_transaction_id_offset = 8"
definition k_stun_transaction_id_length :: nat where "k_stun_transaction_id_length = 12"
definition k_stun_magic_cookie :: u32 where "k_stun_magic_cookie = 0x2112A442"
definition k_stun_magic_cookie_length :: nat where "k_stun_magic_cookie_length = 4"
definition k_stun_message_integrity_size :: nat where "k_stun_message_integrity_size = 20"
definition k_stun_type_mask :: u32 where "k_stun_type_mask = 0x0110"
definition STUN_FINGERPRINT_XOR_VALUE :: u32 where "STUN_FINGERPRINT_XOR_VALUE = 0x5354554e"

definition STUN_BINDING_REQUEST :: u16 where "STUN_BINDING_REQUEST = 0x0001"
definition STUN_BINDING_RESPONSE :: u16 where "STUN_BINDING_RESPONSE = 0x0101"
definition STUN_BINDING_ERROR_RESPONSE :: u16 where "STUN_BINDING_ERROR_RESPONSE = 0x0111"

definition STUN_ATTR_USERNAME :: u16 where "STUN_ATTR_USERNAME = 0x0006"
definition STUN_ATTR_MESSAGE_INTEGRITY :: u16 where "STUN_ATTR_MESSAGE_INTEGRITY = 0x0008"
definition STUN_ATTR_ERROR_CODE :: u16 where "STUN_ATTR_ERROR_CODE = 0x0009"
definition STUN_ATTR_XOR_MAPPED_ADDRESS :: u16 where "STUN_ATTR_XOR_MAPPED_ADDRESS = 0x0020"
definition STUN_ATTR_PRIORITY :: u16 where "STUN_ATTR_PRIORITY = 0x0024"
definition STUN_ATTR_USE_CANDIDATE :: u16 where "STUN_ATTR_USE_CANDIDATE = 0x0025"
definition STUN_ATTR_FINGERPRINT :: u16 where "STUN_ATTR_FINGERPRINT = 0x8028"
definition STUN_ATTR_ICE_CONTROLLING :: u16 where "STUN_ATTR_ICE_CONTROLLING = 0x802A"

lemmas stun_consts =
  k_stun_header_size_def k_stun_attribute_header_size_def k_stun_transaction_id_offset_def
  k_stun_transaction_id_length_def k_stun_magic_cookie_length_def k_stun_message_integrity_size_def

lemmas stun_types =
  STUN_ATTR_USERNAME_def STUN_ATTR_MESSAGE_INTEGRITY_def STUN_ATTR_ERROR_CODE_def
  STUN_ATTR_XOR_MAPPED_ADDRESS_def STUN_ATTR_PRIORITY_def STUN_ATTR_USE_CANDIDATE_def
  STUN_ATTR_FINGERPRINT_def STUN_ATTR_ICE_CONTROLLING_def

datatype stun_value_type = STUN_VALUE_UNKNOWN | STUN_VALUE_UINT32 | STUN_VALUE_BYTE_STRING

definition STUN_ERROR_BAD_REQUEST :: int where "STUN_ERROR_BAD_REQUEST = 400"
definition STUN_ERROR_UNAUTHORIZED :: int where "STUN_ERROR_UNAUTHORIZED = 401"
definition STUN_ERROR_UNKNOWN_ATTRIBUTE :: int where "STUN_ERROR_UNKNOWN_ATTRIBUTE = 420"
definition STUN_ERROR_SERVER_ERROR :: int where "STUN_ERROR_SERVER_ERROR = 500"
definition STUN_ERROR_GLOBAL_FAIL :: int where "STUN_ERROR_GLOBAL_FAIL = 600"

lemmas stun_errors =
  STUN_ERROR_BAD_REQUEST_def STUN_ERROR_UNAUTHORIZED_def STUN_ERROR_UNKNOWN_ATTRIBUTE_def
  STUN_ERROR_SERVER_ERROR_def STUN_ERROR_GLOBAL_FAIL_def

definition STUN_ERROR_REASON_BAD_QEQUEST :: bytes where
  "STUN_ERROR_REASON_BAD_QEQUEST = bytes_of ''Bad request''"
definition STUN_ERROR_REASON_UNAUTHORIZED :: bytes where
  "STUN_ERROR_REASON_UNAUTHORIZED = bytes_of ''Unathorized''"
definition STUN_ERROR_REASON_SERVER_ERROR :: bytes where
  "STUN_ERROR_REASON_SERVER_ERROR = bytes_of ''Server error''"

definition EMPTY_TRANSACTION_ID :: bytes where
  "EMPTY_TRANSACTION_ID = bytes_of ''000000000000''"

definition stun_method_to_string :: "int \<Rightarrow> string" where
  "stun_method_to_string t =
     (if t = uint STUN_BINDING_REQUEST then ''BINDING REQUEST''
      else if t = uint STUN_BINDING_RESPONSE then ''BINDING RESPONSE''
      else if t = uint STUN_BINDING_ERROR_RESPONSE then ''BINDING ERROR_RESPONSE''
      else ''Unknown<'' @ show_int t @ ''>'')"

subsection \<open>Addresses and attributes\<close>

text \<open>The value of an \<open>rtc::SocketAddress\<close>: the address bytes in memory order and the port.\<close>

datatype ip_address = IPv4 bytes | IPv6 bytes | IPUnspec

record socket_address =
  sa_ip :: ip_address
  sa_port :: u16

datatype stun_address_family = STUN_ADDRESS_UNDEF | STUN_ADDRESS_IPV4 | STUN_ADDRESS_IPV6

fun family_code :: "stun_address_family \<Rightarrow> u8" where
  "family_code STUN_ADDRESS_UNDEF = 0"
| "family_code STUN_ADDRESS_IPV4 = 1"
| "family_code STUN_ADDRESS_IPV6 = 2"

datatype stun_body =
    UInt32Body u32
  | UInt64Body u64
  | ByteStringBody bytes
  | AddressBody socket_address
  | XorAddressBody socket_address
  | ErrorCodeBody u8 u8 bytes

record stun_attribute =
  attr_type :: u16
  attr_length :: u16
  attr_body :: stun_body

definition address_family :: "socket_address \<Rightarrow> stun_address_family" where
  "address_family a =
     (case sa_ip a of IPv4 _ \<Rightarrow> STUN_ADDRESS_IPV4 | IPv6 _ \<Rightarrow> STUN_ADDRESS_IPV6
      | IPUnspec \<Rightarrow> STUN_ADDRESS_UNDEF)"

definition address_size :: "socket_address \<Rightarrow> u16" where
  "address_size a =
     (case address_family a of STUN_ADDRESS_IPV4 \<Rightarrow> 8 | STUN_ADDRESS_IPV6 \<Rightarrow> 20
      | STUN_ADDRESS_UNDEF \<Rightarrow> 0)"

definition address_attr :: "u16 \<Rightarrow> socket_address \<Rightarrow> stun_attribute" where
  "address_attr ty a =
     \<lparr>attr_type = ty, attr_length = address_size a, attr_body = AddressBody a\<rparr>"

definition xor_address_attr :: "u16 \<Rightarrow> socket_address \<Rightarrow> stun_attribute" where
  "xor_address_attr ty a =
     \<lparr>attr_type = ty, attr_length = address_size a, attr_body = XorAddressBody a\<rparr>"

definition uint32_attr :: "u16 \<Rightarrow> u32 \<Rightarrow> stun_attribute" where
  "uint32_attr ty v = \<lparr>attr_type = ty, attr_length = 4, attr_body = UInt32Body v\<rparr>"

definition uint64_attr :: "u16 \<Rightarrow> u64 \<Rightarrow> stun_attribute" where
  "uint64_attr ty v = \<lparr>attr_type = ty, attr_length = 8, attr_body = UInt64Body v\<rparr>"

text \<open>\<open>copy_bytes\<close>: the bytes are all kept, the length is stored in 16 bits.\<close>

definition copy_bytes :: "bytes \<Rightarrow> stun_attribute \<Rightarrow> stun_attribute" where
  "copy_bytes bs a = a\<lparr>attr_length := of_nat (length bs), attr_body := ByteStringBody bs\<rparr>"

definition byte_string_attr :: "u16 \<Rightarrow> bytes \<Rightarrow> stun_attribute" where
  "byte_string_attr ty bs =
     copy_bytes bs \<lparr>attr_type = ty, attr_length = 0, attr_body = ByteStringBody []\<rparr>"

text \<open>The constructor with a length only leaves \<open>_bytes\<close> null.\<close>

definition byte_string_len_attr :: "u16 \<Rightarrow> u16 \<Rightarrow> stun_attribute" where
  "byte_string_len_attr ty len =
     \<lparr>attr_type = ty, attr_length = len, attr_body = ByteStringBody []\<rparr>"

definition error_MIN_SIZE :: u16 where "error_MIN_SIZE = 4"

definition create_error_code :: stun_attribute where
  "create_error_code =
     \<lparr>attr_type = STUN_ATTR_ERROR_CODE, attr_length = error_MIN_SIZE,
      attr_body = ErrorCodeBody 0 0 []\<rparr>"

definition set_code :: "int \<Rightarrow> stun_attribute \<Rightarrow> stun_attribute" where
  "set_code code a =
     (case attr_body a of
        ErrorCodeBody _ _ reason \<Rightarrow>
          a\<lparr>attr_body := ErrorCodeBody (of_int (sgn code * (\<bar>code\<bar> div 100)))
                                    (of_int (sgn code * (\<bar>code\<bar> mod 100))) reason\<rparr>
      | _ \<Rightarrow> a)"

definition error_code_of :: "stun_attribute \<Rightarrow> int" where
  "error_code_of a =
     (case attr_body a of ErrorCodeBody c n _ \<Rightarrow> uint c * 100 + uint n | _ \<Rightarrow> 0)"

definition set_reason :: "bytes \<Rightarrow> stun_attribute \<Rightarrow> stun_attribute" where
  "set_reason reason a =
     (case attr_body a of
        ErrorCodeBody c n _ \<Rightarrow>
          a\<lparr>attr_length := of_nat (unat error_MIN_SIZE + length reason),
            attr_body := ErrorCodeBody c n reason\<rparr>
      | _ \<Rightarrow> a)"

subsection \<open>Writing\<close>

definition write_padding :: "byte_io \<Rightarrow> u16 \<Rightarrow> bytes" where
  "write_padding io len =
     (let remain = unat len mod 4 in if 0 < remain then wr_bytes io (replicate (4 - remain) 0) else [])"

definition get_xored_ip :: "byte_io \<Rightarrow> socket_address \<Rightarrow> ip_address" where
  "get_xored_ip io a =
     (case sa_ip a of
        IPv4 b \<Rightarrow> IPv4 (map2 (XOR) b (hton32 io k_stun_magic_cookie))
      | IPv6 _ \<Rightarrow> IPUnspec
      | IPUnspec \<Rightarrow> IPUnspec)"

definition ip_bytes :: "ip_address \<Rightarrow> bytes" where
  "ip_bytes ip = (case ip of IPv4 b \<Rightarrow> b | IPv6 b \<Rightarrow> b | IPUnspec \<Rightarrow> [])"

definition write_address :: "byte_io \<Rightarrow> socket_address \<Rightarrow> bytes option" where
  "write_address io a =
     (if address_family a = STUN_ADDRESS_UNDEF then None
      else Some (wr_u8 io 0 @ wr_u8 io (family_code (address_family a)) @ wr_u16 io (sa_port a)
                 @ wr_bytes io (ip_bytes (sa_ip a))))"

definition write_xor_address :: "byte_io \<Rightarrow> socket_address \<Rightarrow> bytes option" where
  "write_xor_address io a =
     (if address_family a = STUN_ADDRESS_UNDEF then None
      else let xored_ip = get_xored_ip io a in
        if xored_ip = IPUnspec then None
        else Some (wr_u8 io 0 @ wr_u8 io (family_code (address_family a))
                   @ wr_u16 io (sa_port a XOR ucast (drop_bit 16 k_stun_magic_cookie))
                   @ wr_bytes io (ip_bytes xored_ip)))"

definition write_attr_body :: "byte_io \<Rightarrow> stun_attribute \<Rightarrow> bytes option" where
  "write_attr_body io a =
     (case attr_body a of
        UInt32Body v \<Rightarrow> Some (wr_u32 io v)
      | UInt64Body v \<Rightarrow> Some (wr_u64 io v)
      | ByteStringBody bs \<Rightarrow>
          Some (wr_bytes io (take (unat (attr_length a)) bs) @ write_padding io (attr_length a))
      | AddressBody sa \<Rightarrow> write_address io sa
      | XorAddressBody sa \<Rightarrow> write_xor_address io sa
      | ErrorCodeBody c n reason \<Rightarrow>
          Some (wr_u32 io (push_bit 8 (ucast c) OR ucast n) @ wr_bytes io reason
                @ write_padding io (attr_length a)))"

fun write_attrs :: "byte_io \<Rightarrow> stun_attribute list \<Rightarrow> bytes option" where
  "write_attrs io [] = Some []"
| "write_attrs io (a # as) =
     (case write_attr_body io a of
        None \<Rightarrow> None
      | Some b \<Rightarrow>
          (case write_attrs io as of
             None \<Rightarrow> None
           | Some rest \<Rightarrow> Some (wr_u16 io (attr_type a) @ wr_u16 io (attr_length a) @ b @ rest)))"

datatype integrity_status = k_not_set | k_no_integrity | k_integrity_ok | k_integrity_bad

record stun_message =
  msg_type :: u16
  msg_length :: u16
  msg_transaction_id :: bytes
  msg_attrs :: "stun_attribute list"
  msg_integrity :: integrity_status
  msg_password :: bytes
  msg_buffer :: bytes

definition new_stun_message :: stun_message where
  "new_stun_message =
     \<lparr>msg_type = 0, msg_length = 0, msg_transaction_id = EMPTY_TRANSACTION_ID, msg_attrs = [],
      msg_integrity = k_not_set, msg_password = [], msg_buffer = []\<rparr>"

definition stun_write :: "byte_io \<Rightarrow> stun_message \<Rightarrow> bytes option" where
  "stun_write io m =
     (case write_attrs io (msg_attrs m) of
        None \<Rightarrow> None
      | Some b \<Rightarrow>
          Some (wr_u16 io (msg_type m) @ wr_u16 io (msg_length m) @ wr_u32 io k_stun_magic_cookie
                @ wr_bytes io (msg_transaction_id m) @ b))"

definition add_attribute :: "stun_attribute \<Rightarrow> stun_message \<Rightarrow> stun_message" where
  "add_attribute a m =
     (let attr_len = unat (attr_length a);
          attr_len' = (if attr_len mod 4 \<noteq> 0 then attr_len + (4 - attr_len mod 4) else attr_len)
      in m\<lparr>msg_length := msg_length m + of_nat (attr_len' + k_stun_attribute_header_size),
           msg_attrs := msg_attrs m @ [a]\<rparr>)"

text \<open>A change made through the pointer kept to the attribute added last.\<close>

definition update_last_attr :: "(stun_attribute \<Rightarrow> stun_attribute) \<Rightarrow> stun_message \<Rightarrow> stun_message" where
  "update_last_attr f m = m\<lparr>msg_attrs := butlast (msg_attrs m) @ [f (last (msg_attrs m))]\<rparr>"

definition set_uint32 :: "u32 \<Rightarrow> stun_attribute \<Rightarrow> stun_attribute" where
  "set_uint32 v a = a\<lparr>attr_body := UInt32Body v\<rparr>"

definition add_fingerprint :: "byte_io \<Rightarrow> stun_message \<Rightarrow> bool \<times> stun_message" where
  "add_fingerprint io m =
     (let m1 = add_attribute (uint32_attr STUN_ATTR_FINGERPRINT 0) m in
      case stun_write io m1 of
        None \<Rightarrow> (False, m1)
      | Some buf \<Rightarrow>
          (let msg_len_for_crc32 = length buf - k_stun_attribute_header_size - 4;
               c = crc32 io (take msg_len_for_crc32 buf)
           in (True, update_last_attr (set_uint32 (c XOR STUN_FINGERPRINT_XOR_VALUE)) m1)))"

definition add_message_integrity_of_type ::
  "byte_io \<Rightarrow> u16 \<Rightarrow> u16 \<Rightarrow> bytes \<Rightarrow> stun_message \<Rightarrow> bool \<times> stun_message" where
  "add_message_integrity_of_type io ty attr_size key m =
     (let m1 = add_attribute (byte_string_attr ty (replicate (unat attr_size) 48)) m in
      case stun_write io m1 of
        None \<Rightarrow> (False, m1)
      | Some buf \<Rightarrow>
          (let msg_len_for_hmac = length buf - k_stun_attribute_header_size - unat attr_size;
               hmac = hmac_sha1 io key (take msg_len_for_hmac buf)
           in if length hmac \<noteq> k_stun_message_integrity_size then (False, m1)
              else (True, (update_last_attr (copy_bytes hmac) m1)
                            \<lparr>msg_password := key, msg_integrity := k_integrity_ok\<rparr>)))"

definition add_message_integrity :: "byte_io \<Rightarrow> bytes \<Rightarrow> stun_message \<Rightarrow> bool \<times> stun_message" where
  "add_message_integrity io password m =
     add_message_integrity_of_type io STUN_ATTR_MESSAGE_INTEGRITY
       (of_nat k_stun_message_integrity_size) password m"

subsection \<open>Reading\<close>

definition get_attribute_value_type :: "u16 \<Rightarrow> stun_value_type" where
  "get_attribute_value_type ty =
     (if ty = STUN_ATTR_USERNAME then STUN_VALUE_BYTE_STRING
      else if ty = STUN_ATTR_MESSAGE_INTEGRITY then STUN_VALUE_BYTE_STRING
      else if ty = STUN_ATTR_PRIORITY then STUN_VALUE_UINT32
      else STUN_VALUE_UNKNOWN)"

definition attr_create :: "stun_value_type \<Rightarrow> u16 \<Rightarrow> u16 \<Rightarrow> stun_attribute option" where
  "attr_create vt ty len =
     (case vt of
        STUN_VALUE_BYTE_STRING \<Rightarrow> Some (byte_string_len_attr ty len)
      | STUN_VALUE_UINT32 \<Rightarrow> Some (uint32_attr ty 0)
      | STUN_VALUE_UNKNOWN \<Rightarrow> None)"

definition create_attribute :: "u16 \<Rightarrow> u16 \<Rightarrow> stun_attribute option" where
  "create_attribute ty len =
     (let vt = get_attribute_value_type ty in
      if vt \<noteq> STUN_VALUE_UNKNOWN then attr_create vt ty len else None)"

definition consume_padding :: "byte_io \<Rightarrow> u16 \<Rightarrow> bytes \<Rightarrow> bytes" where
  "consume_padding io len buf =
     (let remain = unat len mod 4 in
      if 0 < remain then (case rd_skip io (4 - remain) buf of None \<Rightarrow> buf | Some r \<Rightarrow> r) else buf)"

text \<open>\<open>attr->read(buf)\<close> for the two kinds of attribute \<open>_create_attribute\<close> makes.\<close>

definition attr_read :: "byte_io \<Rightarrow> stun_attribute \<Rightarrow> bytes \<Rightarrow> (stun_attribute \<times> bytes) option" where
  "attr_read io a buf =
     (case attr_body a of
        UInt32Body _ \<Rightarrow>
          (if attr_length a \<noteq> 4 then None
           else (case rd_u32 io buf of
                   None \<Rightarrow> None
                 | Some (v, r) \<Rightarrow> Some (set_uint32 v a, r)))
      | ByteStringBody _ \<Rightarrow>
          (case rd_bytes io (unat (attr_length a)) buf of
             None \<Rightarrow> None
           | Some (bs, r) \<Rightarrow>
               Some (a\<lparr>attr_body := ByteStringBody bs\<rparr>, consume_padding io (attr_length a) r))
      | _ \<Rightarrow> None)"

definition skip_length :: "u16 \<Rightarrow> u16" where
  "skip_length len =
     (if unat len mod 4 \<noteq> 0 then len + of_nat (4 - unat len mod 4) else len)"

partial_function (option) read_attrs ::
  "byte_io \<Rightarrow> bytes \<Rightarrow> stun_attribute list \<Rightarrow> stun_attribute list option option" where
  "read_attrs io buf attrs =
     (if length buf > 0
      then (case rd_u16 io buf of
              None \<Rightarrow> Some None
            | Some (aty, buf1) \<Rightarrow>
                (case rd_u16 io buf1 of
                   None \<Rightarrow> Some None
                 | Some (alen, buf2) \<Rightarrow>
                     (case create_attribute aty alen of
                        None \<Rightarrow>
                          (case rd_skip io (unat (skip_length alen)) buf2 of
                             None \<Rightarrow> Some None
                           | Some buf3 \<Rightarrow> read_attrs io buf3 attrs)
                      | Some a \<Rightarrow>
                          (case attr_read io a buf2 of
                             None \<Rightarrow> Some None
                           | Some (a', buf3) \<Rightarrow> read_attrs io buf3 (attrs @ [a'])))))
      else Some (Some attrs))"

definition stun_read :: "byte_io \<Rightarrow> bytes \<Rightarrow> stun_message option option" where
  "stun_read io data =
     (case rd_u16 io data of
        None \<Rightarrow> Some None
      | Some (ty, b1) \<Rightarrow>
          if ty AND 0x0800 \<noteq> 0 then Some None
          else
            (case rd_u16 io b1 of
               None \<Rightarrow> Some None
             | Some (len, b2) \<Rightarrow>
                 (case rd_bytes io k_stun_magic_cookie_length b2 of
                    None \<Rightarrow> Some None
                  | Some (magic_cookie, b3) \<Rightarrow>
                      (case rd_bytes io k_stun_transaction_id_length b3 of
                         None \<Rightarrow> Some None
                       | Some (tid, b4) \<Rightarrow>
                           (let tid' = (if ntoh32 io magic_cookie \<noteq> k_stun_magic_cookie
                                        then magic_cookie @ tid else tid)
                            in if length b4 \<noteq> unat len then Some None
                               else (case read_attrs io b4 [] of
                                       None \<Rightarrow> None
                                     | Some None \<Rightarrow> Some None
                                     | Some (Some attrs) \<Rightarrow>
                                         Some (Some (new_stun_message
                                           \<lparr>msg_type := ty, msg_length := len,
                                            msg_transaction_id := tid', msg_attrs := attrs,
                                            msg_buffer := data\<rparr>))))))))"

definition get_attribute :: "u16 \<Rightarrow> stun_message \<Rightarrow> stun_attribute option" where
  "get_attribute ty m = find (\<lambda>a. attr_type a = ty) (msg_attrs m)"

definition get_uint32 :: "u16 \<Rightarrow> stun_message \<Rightarrow> stun_attribute option" where
  "get_uint32 ty m = get_attribute ty m"

definition get_byte_string :: "u16 \<Rightarrow> stun_message \<Rightarrow> stun_attribute option" where
  "get_byte_string ty m = get_attribute ty m"

definition get_error_code :: "stun_message \<Rightarrow> stun_attribute option" where
  "get_error_code m = get_attribute STUN_ATTR_ERROR_CODE m"

definition get_error_code_value :: "stun_message \<Rightarrow> int" where
  "get_error_code_value m =
     (case get_error_code m of Some a \<Rightarrow> error_code_of a | None \<Rightarrow> STUN_ERROR_GLOBAL_FAIL)"

definition uint32_value :: "stun_attribute \<Rightarrow> u32" where
  "uint32_value a = (case attr_body a of UInt32Body v \<Rightarrow> v | _ \<Rightarrow> 0)"

definition get_string :: "stun_attribute \<Rightarrow> bytes" where
  "get_string a =
     (case attr_body a of ByteStringBody bs \<Rightarrow> take (unat (attr_length a)) bs | _ \<Rightarrow> [])"

subsection \<open>The two checks\<close>

definition validate_fingerprint :: "byte_io \<Rightarrow> bytes \<Rightarrow> bool" where
  "validate_fingerprint io data =
     (let len = length data;
          fingerprint_attr_size = k_stun_attribute_header_size + 4;
          attr = drop (len - fingerprint_attr_size) data
      in if len mod 4 \<noteq> 0 \<or> len < k_stun_header_size + fingerprint_attr_size then False
         else if get_be32 io (drop (k_stun_transaction_id_offset - k_stun_magic_cookie_length) data)
                   \<noteq> k_stun_magic_cookie then False
         else if get_be16 io attr \<noteq> STUN_ATTR_FINGERPRINT \<or> get_be16 io (drop 2 attr) \<noteq> 4 then False
         else get_be32 io (drop k_stun_attribute_header_size attr) XOR STUN_FINGERPRINT_XOR_VALUE
                = crc32 io (take (len - fingerprint_attr_size) data))"

text \<open>The position of the first attribute of a type: the scan of the raw message.\<close>

function find_attr_pos :: "byte_io \<Rightarrow> u16 \<Rightarrow> bytes \<Rightarrow> nat \<Rightarrow> nat option" where
  "find_attr_pos io ty data pos =
     (if pos + k_stun_attribute_header_size \<le> length data
      then (let aty = get_be16 io (drop pos data);
                alen = unat (get_be16 io (drop (pos + 2) data));
                pos' = pos + (k_stun_attribute_header_size + alen)
            in if aty = ty then Some pos
               else find_attr_pos io ty data
                      (if alen mod 4 \<noteq> 0 then pos' + (4 - alen mod 4) else pos'))
      else None)"
  by pat_completeness auto
termination
  by (relation "measure (\<lambda>(io, ty, data, pos). Suc (length data) - pos)")
     (auto simp: k_stun_attribute_header_size_def Let_def)

declare find_attr_pos.simps [simp del]

text \<open>
  \<open>None\<close> is the \<open>memcmp\<close> reading past the end of the message; \<open>Some b\<close> is the value returned.
\<close>

definition validate_message_integrity_of_type ::
  "byte_io \<Rightarrow> u16 \<Rightarrow> nat \<Rightarrow> bytes \<Rightarrow> bytes \<Rightarrow> bool option" where
  "validate_message_integrity_of_type io mi_type mi_size data password =
     (let sz = length data in
      if sz mod 4 \<noteq> 0 \<or> sz < k_stun_header_size then Some False
      else if unat (get_be16 io (drop 2 data)) + k_stun_header_size \<noteq> sz then Some False
      else
        (case find_attr_pos io mi_type data k_stun_header_size of
           None \<Rightarrow> Some False
         | Some mi_pos \<Rightarrow>
             (let extra_pos = mi_pos + k_stun_attribute_header_size + mi_size;
                  temp_data = take mi_pos data;
                  temp = (if sz > extra_pos
                          then (let extra_size = sz - extra_pos;
                                    adjust_new_len = sz - extra_size - k_stun_header_size
                                in take 2 temp_data @ put_be16 io (of_nat adjust_new_len)
                                   @ drop 4 temp_data)
                          else temp_data);
                  hmac = hmac_sha1 io password temp
              in if length hmac \<noteq> k_stun_message_integrity_size then Some False
                 else if extra_pos > sz then None
                 else Some (take mi_size (drop (mi_pos + k_stun_attribute_header_size) data)
                              = take mi_size hmac))))"

definition validate_message_integrity ::
  "byte_io \<Rightarrow> bytes \<Rightarrow> stun_message \<Rightarrow> (integrity_status \<times> stun_message) option" where
  "validate_message_integrity io password m =
     (let m1 = m\<lparr>msg_password := password\<rparr> in
      if get_byte_string STUN_ATTR_MESSAGE_INTEGRITY m1 \<noteq> None
      then (case validate_message_integrity_of_type io STUN_ATTR_MESSAGE_INTEGRITY
                   k_stun_message_integrity_size (msg_buffer m1) password of
              None \<Rightarrow> None
            | Some ok \<Rightarrow>
                (let st = (if ok then k_integrity_ok else k_integrity_bad)
                 in Some (st, m1\<lparr>msg_integrity := st\<rparr>)))
      else Some (k_not_set, m1\<lparr>msg_integrity := k_not_set\<rparr>))"

definition integrity_ok :: "stun_message \<Rightarrow> bool" where
  "integrity_ok m = (msg_integrity m = k_integrity_ok)"

subsection \<open>Request and response types\<close>

definition is_stun_request_type :: "u32 \<Rightarrow> bool" where
  "is_stun_request_type req_type = (req_type AND k_stun_type_mask = 0)"

definition get_stun_success_response :: "u32 \<Rightarrow> u32" where
  "get_stun_success_response req_type =
     (if is_stun_request_type req_type then req_type OR 0x100 else - 1)"

definition get_stun_error_response :: "u32 \<Rightarrow> u32" where
  "get_stun_error_response req_type =
     (if is_stun_request_type req_type then req_type OR 0x110 else - 1)"

end
