(* ===== verification/StunCodec.thy ===== *)
theory StunCodec
  imports Stun
begin

unbundle bit_operations_syntax

text \<open>
  What makes the STUN codec correct: the length field agrees with the bytes written, reading a
  written message gives its type, transaction id and known attributes back, reading always ends,
  and a message protected by \<open>add_message_integrity\<close> and \<open>add_fingerprint\<close> passes the receiver's
  two checks. The lemmas live in the context of \<open>byte_io_laws\<close>; the properties state the laws as a
  hypothesis and are applied to \<open>be_io\<close> by their witnesses.
\<close>

subsection \<open>Well-formed attributes and messages\<close>

definition ip_wf :: "ip_address \<Rightarrow> bool" where
  "ip_wf ip = (case ip of IPv4 b \<Rightarrow> length b = 4 | IPv6 b \<Rightarrow> length b = 16 | IPUnspec \<Rightarrow> False)"

definition attr_wf :: "stun_attribute \<Rightarrow> bool" where
  "attr_wf a =
     (case attr_body a of
        UInt32Body _ \<Rightarrow> attr_length a = 4
      | UInt64Body _ \<Rightarrow> attr_length a = 8
      | ByteStringBody bs \<Rightarrow> unat (attr_length a) = length bs
      | AddressBody sa \<Rightarrow> ip_wf (sa_ip sa) \<and> attr_length a = address_size sa
      | XorAddressBody sa \<Rightarrow> (\<exists>b. sa_ip sa = IPv4 b \<and> length b = 4) \<and> attr_length a = 8
      | ErrorCodeBody _ _ r \<Rightarrow> unat (attr_length a) = 4 + length r)"

definition attr_typed :: "stun_attribute \<Rightarrow> bool" where
  "attr_typed a =
     (case get_attribute_value_type (attr_type a) of
        STUN_VALUE_BYTE_STRING \<Rightarrow> (\<exists>bs. attr_body a = ByteStringBody bs)
      | STUN_VALUE_UINT32 \<Rightarrow> (\<exists>v. attr_body a = UInt32Body v)
      | STUN_VALUE_UNKNOWN \<Rightarrow> True)"

definition attr_known :: "stun_attribute \<Rightarrow> bool" where
  "attr_known a = (get_attribute_value_type (attr_type a) \<noteq> STUN_VALUE_UNKNOWN)"

definition attr_span :: "stun_attribute \<Rightarrow> nat" where
  "attr_span a = 4 + pad4 (unat (attr_length a))"

definition attrs_span :: "stun_attribute list \<Rightarrow> nat" where
  "attrs_span as = sum_list (map attr_span as)"

definition msg_wf :: "stun_message \<Rightarrow> bool" where
  "msg_wf m \<longleftrightarrow>
     (\<forall>a \<in> set (msg_attrs m). attr_wf a) \<and> attrs_span (msg_attrs m) < 65536
     \<and> unat (msg_length m) = attrs_span (msg_attrs m)
     \<and> length (msg_transaction_id m) = 12 \<and> msg_type m AND 0x0800 = 0"

definition msg_typed :: "stun_message \<Rightarrow> bool" where
  "msg_typed m \<longleftrightarrow> (\<forall>a \<in> set (msg_attrs m). attr_typed a)"

definition parsed_of :: "stun_message \<Rightarrow> bytes \<Rightarrow> stun_message" where
  "parsed_of m b =
     new_stun_message
       \<lparr>msg_type := msg_type m, msg_length := msg_length m,
        msg_transaction_id := msg_transaction_id m,
        msg_attrs := filter attr_known (msg_attrs m), msg_buffer := b\<rparr>"

definition stun_header :: "byte_io \<Rightarrow> stun_message \<Rightarrow> u16 \<Rightarrow> bytes" where
  "stun_header io m len =
     wr_u16 io (msg_type m) @ wr_u16 io len @ wr_u32 io k_stun_magic_cookie @ msg_transaction_id m"

definition with_fingerprint :: "u32 \<Rightarrow> stun_message \<Rightarrow> stun_message" where
  "with_fingerprint x m = add_attribute (uint32_attr STUN_ATTR_FINGERPRINT x) m"

definition with_integrity :: "bytes \<Rightarrow> bytes \<Rightarrow> stun_message \<Rightarrow> stun_message" where
  "with_integrity h pw m =
     add_attribute (byte_string_attr STUN_ATTR_MESSAGE_INTEGRITY h) m
       \<lparr>msg_password := pw, msg_integrity := k_integrity_ok\<rparr>"

lemma attrs_span_simps [simp]:
  "attrs_span [] = 0" "attrs_span (a # as) = attr_span a + attrs_span as"
  "attrs_span (as @ bs) = attrs_span as + attrs_span bs"
  by (simp_all add: attrs_span_def)

lemma attr_span_mod [simp]: "attr_span a mod 4 = 0"
  by (simp add: attr_span_def mod_add_eq [of 4 4, symmetric])

lemma attrs_span_mod [simp]: "attrs_span as mod 4 = 0"
  by (induction as) (auto simp: mod_add_eq [symmetric])

lemma pad4_u16_le: "pad4 (unat (len :: u16)) \<le> 65536"
  using unat_u16_less [of len] unfolding pad4_def by presburger

lemma add_attribute_length:
  "msg_length (add_attribute a m) = msg_length m + of_nat (attr_span a)"
  by (simp add: add_attribute_def Let_def attr_span_def pad4_def k_stun_attribute_header_size_def
      ac_simps)

lemma add_attribute_fields [simp]:
  "msg_attrs (add_attribute a m) = msg_attrs m @ [a]"
  "msg_type (add_attribute a m) = msg_type m"
  "msg_transaction_id (add_attribute a m) = msg_transaction_id m"
  "msg_integrity (add_attribute a m) = msg_integrity m"
  "msg_password (add_attribute a m) = msg_password m"
  "msg_buffer (add_attribute a m) = msg_buffer m"
  by (simp_all add: add_attribute_def Let_def)

lemma update_last_fields [simp]:
  "msg_attrs (update_last_attr f m) = butlast (msg_attrs m) @ [f (last (msg_attrs m))]"
  "msg_length (update_last_attr f m) = msg_length m"
  "msg_type (update_last_attr f m) = msg_type m"
  "msg_transaction_id (update_last_attr f m) = msg_transaction_id m"
  by (simp_all add: update_last_attr_def)

lemma add_attribute_wf:
  assumes "msg_wf m" "attr_wf a" "attrs_span (msg_attrs m) + attr_span a < 65536"
  shows "msg_wf (add_attribute a m)"
proof -
  have "unat (msg_length m + of_nat (attr_span a)) = attrs_span (msg_attrs m) + attr_span a"
    using assms by (simp add: msg_wf_def unat_word_ariths unat_of_nat)
  then show ?thesis using assms by (simp add: msg_wf_def add_attribute_length)
qed

lemma skip_length_pad4:
  "pad4 (unat len) < 65536 \<Longrightarrow> unat (skip_length len) = pad4 (unat len)"
proof -
  assume a: "pad4 (unat len) < 65536"
  have "4 - unat len mod 4 < 65536" by simp
  then have "unat (of_nat (4 - unat len mod 4) :: u16) = 4 - unat len mod 4" by (rule unat_of_nat_u16)
  then show ?thesis using a unfolding skip_length_def pad4_def
    by (auto simp: unat_word_ariths split: if_splits)
qed

lemma address_size_ip:
  "ip_wf (sa_ip sa) \<Longrightarrow> unat (address_size sa) = 4 + length (ip_bytes (sa_ip sa))
     \<and> address_family sa \<noteq> STUN_ADDRESS_UNDEF \<and> length (ip_bytes (sa_ip sa)) mod 4 = 0"
  by (auto simp: ip_wf_def address_size_def address_family_def ip_bytes_def split: ip_address.splits)

subsection \<open>What a parsed message can hold\<close>

lemma attr_read_type:
  "attr_read io a buf = Some (a', r) \<Longrightarrow> attr_type a' = attr_type a
     \<and> (attr_typed a \<longrightarrow> attr_typed a')"
  unfolding attr_read_def
  by (auto simp: set_uint32_def attr_typed_def split: stun_body.splits if_splits option.splits
      stun_value_type.splits)

lemma create_attribute_typed:
  "create_attribute t l = Some a \<Longrightarrow> attr_type a = t \<and> attr_known a \<and> attr_typed a"
  by (auto simp: create_attribute_def attr_create_def attr_known_def attr_typed_def Let_def
      byte_string_len_attr_def uint32_attr_def split: stun_value_type.splits if_splits)

lemma read_attrs_typed:
  "read_attrs io buf acc = Some z \<Longrightarrow> z = Some as \<Longrightarrow> \<forall>a \<in> set acc. attr_known a \<and> attr_typed a
     \<Longrightarrow> \<forall>a \<in> set as. attr_known a \<and> attr_typed a"
proof (induction arbitrary: as rule: read_attrs.raw_induct [rotated, consumes 1, case_names step])
  case (step f io' buf acc z)
  show ?case
  proof (cases "buf = []")
    case True
    then show ?thesis using step by simp
  next
    case False
    from step(2) False step(3) obtain aty b1 alen b2 where
      1: "rd_u16 io' buf = Some (aty, b1)" and 2: "rd_u16 io' b1 = Some (alen, b2)"
      by (auto split: option.splits)
    show ?thesis
    proof (cases "create_attribute aty alen")
      case None
      then obtain b3 where "f io' b3 acc = Some z"
        using step(2,3) False 1 2 by (auto split: option.splits)
      then show ?thesis using step(1) step(3,4) by blast
    next
      case (Some a)
      then obtain a' b3 where r: "attr_read io' a b2 = Some (a', b3)"
        and f: "f io' b3 (acc @ [a']) = Some z"
        using step(2,3) False 1 2 by (auto split: option.splits)
      have "attr_known a' \<and> attr_typed a'"
        using create_attribute_typed [OF Some] attr_read_type [OF r] by (auto simp: attr_known_def)
      then have "\<forall>x \<in> set (acc @ [a']). attr_known x \<and> attr_typed x" using step(4) by auto
      then show ?thesis using step(1) [OF f step(3)] by blast
    qed
  qed
qed

lemma stun_read_typed:
  assumes "stun_read io data = Some (Some r)"
  shows "\<forall>a \<in> set (msg_attrs r). attr_known a \<and> attr_typed a" "msg_buffer r = data"
    "msg_integrity r = k_not_set"
proof -
  obtain b as where b: "read_attrs io b [] = Some (Some as)" and r: "msg_attrs r = as"
    and f: "msg_buffer r = data" "msg_integrity r = k_not_set"
    using assms by (auto simp: stun_read_def Let_def new_stun_message_def
        split: option.splits prod.splits if_splits)
  show "\<forall>a \<in> set (msg_attrs r). attr_known a \<and> attr_typed a"
    using read_attrs_typed [OF b refl] r by simp
  show "msg_buffer r = data" "msg_integrity r = k_not_set" by (fact f)+
qed

lemma no_error_code:
  assumes "stun_read io data = Some (Some r)"
  shows "get_error_code_value r = STUN_ERROR_GLOBAL_FAIL"
proof -
  have "attr_type a \<noteq> STUN_ATTR_ERROR_CODE" if "a \<in> set (msg_attrs r)" for a
    using stun_read_typed (1) [OF assms] that
    by (auto simp: attr_known_def get_attribute_value_type_def stun_types split: if_splits)
  then have "get_error_code r = None"
    by (auto simp: get_error_code_def get_attribute_def find_None_iff)
  then show ?thesis by (simp add: get_error_code_value_def)
qed

context byte_io_laws
begin

lemma write_padding_eq: "write_padding io len = replicate (pad4 (unat len) - unat len) 0"
  by (simp add: write_padding_def Let_def wr_bytes_eq pad4_def)

lemma write_attr_body_wf:
  assumes "attr_wf a"
  shows "\<exists>b. write_attr_body io a = Some b \<and> length b = pad4 (unat (attr_length a))"
proof (cases "attr_body a")
  case (UInt32Body v)
  then show ?thesis using assms by (simp add: write_attr_body_def attr_wf_def len_wr32)
next
  case (UInt64Body v)
  then show ?thesis using assms by (simp add: write_attr_body_def attr_wf_def len_wr64)
next
  case (ByteStringBody bs)
  then show ?thesis using assms
    by (simp add: write_attr_body_def attr_wf_def wr_bytes_eq write_padding_eq)
next
  case (AddressBody sa)
  then have "ip_wf (sa_ip sa)" "attr_length a = address_size sa"
    using assms by (simp_all add: attr_wf_def)
  then show ?thesis using AddressBody address_size_ip [of sa]
    by (simp add: write_attr_body_def write_address_def wire mod_add_eq [of 4 4, symmetric]
        mod_add_left_eq [symmetric])
next
  case (XorAddressBody sa)
  then obtain b where "sa_ip sa = IPv4 b" "length b = 4" "attr_length a = 8"
    using assms by (auto simp: attr_wf_def)
  then show ?thesis using XorAddressBody
    by (simp add: write_attr_body_def write_xor_address_def address_family_def get_xored_ip_def
        ip_bytes_def wire Let_def)
next
  case (ErrorCodeBody c n r)
  then show ?thesis using assms pad4_ge [of "4 + length r"]
    by (simp add: write_attr_body_def attr_wf_def wr_bytes_eq write_padding_eq len_wr32 del: pad4_ge)
qed

lemma write_attrs_append:
  "write_attrs io (as @ bs) =
     (case write_attrs io as of None \<Rightarrow> None
      | Some x \<Rightarrow> (case write_attrs io bs of None \<Rightarrow> None | Some y \<Rightarrow> Some (x @ y)))"
  by (induction as) (auto split: option.splits)

lemma write_attrs_wf:
  "\<forall>a \<in> set as. attr_wf a \<Longrightarrow> \<exists>b. write_attrs io as = Some b \<and> length b = attrs_span as"
proof (induction as)
  case Nil
  then show ?case by simp
next
  case (Cons a as)
  then obtain b where "write_attrs io as = Some b" "length b = attrs_span as" by auto
  moreover obtain c where "write_attr_body io a = Some c" "length c = pad4 (unat (attr_length a))"
    using write_attr_body_wf [of a] Cons.prems by auto
  ultimately show ?case by (simp add: attr_span_def len_wr16)
qed

lemma stun_write_wf:
  assumes "msg_wf m"
  shows "\<exists>b. stun_write io m = Some b \<and> length b = 20 + unat (msg_length m)"
  using assms write_attrs_wf [of "msg_attrs m"]
  by (auto simp: msg_wf_def stun_write_def wire)

subsection \<open>Reading ends\<close>

lemma consume_padding_shrinks: "length (consume_padding io len buf) \<le> length buf"
  by (auto simp: consume_padding_def Let_def rd_skip_eq)

lemma attr_read_shrinks: "attr_read io a buf = Some (a', r) \<Longrightarrow> length r \<le> length buf"
  unfolding attr_read_def
  by (auto simp: rd_bytes_eq split: stun_body.splits if_splits option.splits
      dest: rd32_shrinks intro: order_trans [OF consume_padding_shrinks])

text \<open>A walk that does not end goes on with fewer bytes.\<close>

lemma read_attrs_step:
  assumes "read_attrs io buf attrs = None"
  shows "\<exists>buf' attrs'. length buf' < length buf \<and> read_attrs io buf' attrs' = None"
proof -
  obtain aty b1 alen b2 where 1: "rd_u16 io buf = Some (aty, b1)" "rd_u16 io b1 = Some (alen, b2)"
    and r: "(case create_attribute aty alen of
        None \<Rightarrow> (case rd_skip io (unat (skip_length alen)) b2 of
                   None \<Rightarrow> Some None | Some b3 \<Rightarrow> read_attrs io b3 attrs)
      | Some a \<Rightarrow> (case attr_read io a b2 of
                     None \<Rightarrow> Some None | Some (a', b3) \<Rightarrow> read_attrs io b3 (attrs @ [a']))) = None"
    using assms unfolding read_attrs.simps [of io buf attrs] by (auto split: option.splits if_splits)
  have l: "length b2 < length buf" using rd16_shrinks [OF 1(1)] rd16_shrinks [OF 1(2)] by simp
  show ?thesis
  proof (cases "create_attribute aty alen")
    case None
    then obtain b3 where "rd_skip io (unat (skip_length alen)) b2 = Some b3" "read_attrs io b3 attrs = None"
      using r by (auto split: option.splits)
    moreover from this have "length b3 \<le> length b2" by (auto simp: rd_skip_eq split: if_splits)
    ultimately show ?thesis using l le_less_trans by blast
  next
    case (Some a)
    then obtain a' b3 where "attr_read io a b2 = Some (a', b3)" "read_attrs io b3 (attrs @ [a']) = None"
      using r by (auto split: option.splits prod.splits)
    moreover from this have "length b3 \<le> length b2" using attr_read_shrinks by blast
    ultimately show ?thesis using l le_less_trans by blast
  qed
qed

lemma read_attrs_ends: "\<exists>r. read_attrs io buf attrs = Some r"
proof (induction "length buf" arbitrary: buf attrs rule: less_induct)
  case less
  show ?case
  proof (rule ccontr)
    assume "\<nexists>r. read_attrs io buf attrs = Some r"
    then obtain buf' attrs' where "length buf' < length buf" "read_attrs io buf' attrs' = None"
      using read_attrs_step by blast
    then show False using less [of buf' attrs'] by simp
  qed
qed

lemma stun_read_ends: "\<exists>r. stun_read io data = Some r"
proof -
  have "\<exists>r. read_attrs io b [] = Some r" for b by (rule read_attrs_ends)
  then have ne: "(read_attrs io b [] = None) = False" for b by (metis option.distinct(1))
  show ?thesis
    by (auto simp: stun_read_def Let_def ne split: option.splits prod.splits)
qed

subsection \<open>Reading what was written\<close>

lemma create_attribute_known:
  "create_attribute (attr_type a) len = None \<longleftrightarrow> \<not> attr_known a"
  by (auto simp: create_attribute_def attr_known_def attr_create_def Let_def
      split: stun_value_type.splits)

lemma attr_read_write:
  assumes wf: "attr_wf a" and ty: "attr_typed a"
    and c: "create_attribute (attr_type a) (attr_length a) = Some a0"
    and w: "write_attr_body io a = Some b"
  shows "attr_read io a0 (b @ r) = Some (a, r)"
proof (cases "get_attribute_value_type (attr_type a)")
  case STUN_VALUE_UNKNOWN
  then show ?thesis using c by (simp add: create_attribute_def)
next
  case STUN_VALUE_UINT32
  then obtain v where "attr_body a = UInt32Body v" using ty by (auto simp: attr_typed_def)
  then show ?thesis using wf w c STUN_VALUE_UINT32
    by (cases a) (auto simp: create_attribute_def attr_create_def uint32_attr_def attr_read_def
        attr_wf_def write_attr_body_def set_uint32_def wire)
next
  case STUN_VALUE_BYTE_STRING
  then obtain bs where bs: "attr_body a = ByteStringBody bs" using ty by (auto simp: attr_typed_def)
  then have l: "unat (attr_length a) = length bs" using wf by (simp add: attr_wf_def)
  have b: "b = bs @ replicate (pad4 (length bs) - length bs) 0"
    using w bs l by (simp add: write_attr_body_def write_padding_eq wire)
  have "consume_padding io (attr_length a) (replicate (pad4 (length bs) - length bs) 0 @ r) = r"
    by (simp add: consume_padding_def l rd_skip_eq pad4_def Let_def)
  then show ?thesis using c STUN_VALUE_BYTE_STRING bs l
    by (cases a) (auto simp: b create_attribute_def attr_create_def byte_string_len_attr_def
        attr_read_def rd_bytes_eq)
qed

lemma read_attrs_Nil: "read_attrs io [] acc = Some (Some acc)"
  by (subst read_attrs.simps) simp

lemma read_attrs_known:
  assumes "create_attribute t l = Some a0" "attr_read io a0 (b @ r) = Some (a, r)"
  shows "read_attrs io (wr_u16 io t @ wr_u16 io l @ b @ r) acc = read_attrs io r (acc @ [a])"
  using assms by (subst read_attrs.simps) (simp add: wire)

lemma read_attrs_skip:
  assumes "create_attribute t l = None" "length b = unat (skip_length l)"
  shows "read_attrs io (wr_u16 io t @ wr_u16 io l @ b @ r) acc = read_attrs io r acc"
  using assms by (subst read_attrs.simps) (simp add: wire)

lemma read_attrs_write:
  "write_attrs io as = Some b \<Longrightarrow> \<forall>a \<in> set as. attr_wf a \<and> attr_typed a \<Longrightarrow>
   attrs_span as < 65536 \<Longrightarrow> read_attrs io b acc = Some (Some (acc @ filter attr_known as))"
proof (induction as arbitrary: b acc)
  case Nil
  then show ?case by (simp add: read_attrs_Nil)
next
  case (Cons a as)
  obtain c d where c: "write_attr_body io a = Some c" and d: "write_attrs io as = Some d"
    and b: "b = wr_u16 io (attr_type a) @ wr_u16 io (attr_length a) @ c @ d"
    using Cons.prems(1) by (auto split: option.splits)
  have len: "length c = pad4 (unat (attr_length a))"
    using write_attr_body_wf [of a] c Cons.prems(2) by auto
  have IH: "read_attrs io d acc' = Some (Some (acc' @ filter attr_known as))" for acc'
    using Cons.IH [OF d] Cons.prems by simp
  show ?case
  proof (cases "create_attribute (attr_type a) (attr_length a)")
    case None
    have "pad4 (unat (attr_length a)) < 65536" using Cons.prems(3) by (simp add: attr_span_def)
    then have "length c = unat (skip_length (attr_length a))" using len by (simp add: skip_length_pad4)
    then show ?thesis using None create_attribute_known [of a "attr_length a"] IH
      by (simp add: b read_attrs_skip)
  next
    case (Some a0)
    have "attr_read io a0 (c @ d) = Some (a, d)"
      using Cons.prems(2) Some c by (intro attr_read_write) auto
    then show ?thesis using Some create_attribute_known [of a "attr_length a"] IH
      by (simp add: b read_attrs_known)
  qed
qed

lemma stun_read_write:
  assumes wf: "msg_wf m" and ty: "msg_typed m" and w: "stun_write io m = Some b"
  shows "stun_read io b = Some (Some (parsed_of m b))"
proof -
  obtain c where c: "write_attrs io (msg_attrs m) = Some c"
    and b: "b = wr_u16 io (msg_type m) @ wr_u16 io (msg_length m) @ wr_u32 io k_stun_magic_cookie
                @ msg_transaction_id m @ c"
    using w by (auto simp: stun_write_def wire split: option.splits)
  have len: "length c = unat (msg_length m)"
    using write_attrs_wf [of "msg_attrs m"] c wf by (auto simp: msg_wf_def)
  have "read_attrs io c [] = Some (Some (filter attr_known (msg_attrs m)))"
    using read_attrs_write [OF c, of "[]"] wf ty by (simp add: msg_wf_def msg_typed_def)
  then show ?thesis using wf len unfolding b
    by (simp add: stun_read_def msg_wf_def wire stun_consts parsed_of_def)
qed

subsection \<open>The two checks accept what the two writers add\<close>

lemma stun_write_eq:
  "stun_write io m = map_option (\<lambda>w. stun_header io m (msg_length m) @ w) (write_attrs io (msg_attrs m))"
  by (simp add: stun_write_def stun_header_def wr_bytes_eq split: option.splits)

lemma len_stun_header: "length (msg_transaction_id m) = 12 \<Longrightarrow> length (stun_header io m l) = 20"
  by (simp add: stun_header_def wire)

lemma stun_header_cong:
  "msg_type m = msg_type m' \<Longrightarrow> msg_transaction_id m = msg_transaction_id m' \<Longrightarrow>
   stun_header io m l = stun_header io m' l"
  by (simp add: stun_header_def)

lemma header_length_field: "get_be16 io (drop 2 (stun_header io m l @ r)) = l"
proof -
  have "drop 2 (stun_header io m l @ r) =
        wr_u16 io l @ wr_u32 io k_stun_magic_cookie @ msg_transaction_id m @ r"
    by (simp add: stun_header_def len_wr16)
  then show ?thesis by (simp add: get16_wr16)
qed

lemma header_cookie: "get_be32 io (drop 4 (stun_header io m l @ r)) = k_stun_magic_cookie"
proof -
  have "drop 4 (stun_header io m l @ r) =
        wr_u32 io k_stun_magic_cookie @ msg_transaction_id m @ r"
    by (simp add: stun_header_def len_wr16)
  then show ?thesis by (simp add: get32_wr32)
qed

lemma header_set_length:
  "length (msg_transaction_id m) = 12 \<Longrightarrow>
   take 2 (stun_header io m l @ r) @ wr_u16 io l' @ drop 4 (stun_header io m l @ r)
     = stun_header io m l' @ r"
  by (simp add: stun_header_def len_wr16 len_wr32)

lemma find_attr_pos_step:
  assumes "pos + 4 \<le> length data" "get_be16 io (drop pos data) \<noteq> ty"
  shows "find_attr_pos io ty data pos =
         find_attr_pos io ty data (pos + 4 + pad4 (unat (get_be16 io (drop (pos + 2) data))))"
proof -
  have "(if n mod 4 \<noteq> 0 then pos + (4 + n) + (4 - n mod 4) else pos + (4 + n)) = pos + 4 + pad4 n" for n
    by (simp add: pad4_def)
  then show ?thesis using assms
    by (subst find_attr_pos.simps) (simp only: Let_def k_stun_attribute_header_size_def if_True if_False)
qed

lemma find_attr_pos_written:
  "write_attrs io as = Some w \<Longrightarrow> \<forall>a \<in> set as. attr_wf a \<and> attr_type a \<noteq> ty \<Longrightarrow> 2 \<le> length rest \<Longrightarrow>
   find_attr_pos io ty (pre @ w @ wr_u16 io ty @ rest) (length pre) = Some (length pre + length w)"
proof (induction as arbitrary: pre w)
  case Nil
  then show ?case
    by (subst find_attr_pos.simps) (simp add: wire k_stun_attribute_header_size_def Let_def)
next
  case (Cons a as)
  obtain c d where c: "write_attr_body io a = Some c" and d: "write_attrs io as = Some d"
    and w: "w = wr_u16 io (attr_type a) @ wr_u16 io (attr_length a) @ c @ d"
    using Cons.prems(1) by (auto split: option.splits)
  define pre' where "pre' = pre @ wr_u16 io (attr_type a) @ wr_u16 io (attr_length a) @ c"
  let ?data = "pre' @ d @ wr_u16 io ty @ rest"
  have len: "length c = pad4 (unat (attr_length a))"
    using write_attr_body_wf [of a] c Cons.prems(2) by auto
  have data: "pre @ w @ wr_u16 io ty @ rest = ?data" by (simp add: pre'_def w)
  have lp: "length pre' = length pre + 4 + pad4 (unat (attr_length a))"
    by (simp add: pre'_def len len_wr16)
  have "find_attr_pos io ty ?data (length pre) = find_attr_pos io ty ?data (length pre')"
    using Cons.prems(2) unfolding lp
    by (subst find_attr_pos_step) (simp_all add: wire pre'_def)
  also have "\<dots> = Some (length pre' + length d)" using Cons.IH [OF d] Cons.prems by simp
  finally show ?case unfolding data by (simp add: pre'_def w)
qed

lemma mi_check_eq:
  assumes tid: "length (msg_transaction_id m) = 12"
    and w: "write_attrs io as = Some w" and wf: "\<forall>a \<in> set as. attr_wf a \<and> attr_type a \<noteq> ty"
    and h: "length h = 20" and t4: "length t mod 4 = 0"
    and L: "attrs_span as + 24 + length t < 65536"
  shows "validate_message_integrity_of_type io ty 20
           (stun_header io m (of_nat (attrs_span as + 24 + length t)) @ w
             @ wr_u16 io ty @ wr_u16 io 20 @ h @ t) pw
         = Some (h = hmac_sha1 io pw (stun_header io m (of_nat (attrs_span as + 24)) @ w))"
proof -
  let ?L = "of_nat (attrs_span as + 24 + length t) :: u16"
  define data where
    "data = stun_header io m ?L @ w @ wr_u16 io ty @ wr_u16 io 20 @ h @ t"
  note [simp] = len_stun_header [OF tid]
  have lw: "length w = attrs_span as" using write_attrs_wf [of as] w wf by auto
  have len: "length data = 20 + (attrs_span as + 24 + length t)"
    by (simp add: data_def lw h len_wr16)
  have m4: "length data mod 4 = 0"
  proof -
    have "(44 + attrs_span as + length t) mod 4 = 0"
      using t4 attrs_span_mod [of as] by presburger
    then show ?thesis by (simp add: len ac_simps)
  qed
  have lf: "unat (get_be16 io (drop 2 data)) = attrs_span as + 24 + length t"
    using L unfolding data_def header_length_field by (rule unat_of_nat_u16)
  have pos: "find_attr_pos io ty data 20 = Some (20 + length w)"
    using find_attr_pos_written [OF w wf, of "wr_u16 io 20 @ h @ t" "stun_header io m ?L"]
    by (simp add: data_def len_wr16)
  have tk: "take (20 + length w) data = stun_header io m ?L @ w" by (simp add: data_def)
  have dr: "take 20 (drop (20 + length w + 4) data) = h"
    by (simp add: data_def len_wr16 h)
  have th: "take 20 (hmac_sha1 io pw x) = hmac_sha1 io pw x" for x by (simp add: len_hmac)
  have adj: "(if length data > 20 + length w + 4 + 20
              then take 2 (take (20 + length w) data) @
                   put_be16 io (of_nat (length data - (length data - (20 + length w + 4 + 20)) - 20)) @
                   drop 4 (take (20 + length w) data)
              else take (20 + length w) data) = stun_header io m (of_nat (attrs_span as + 24)) @ w"
  proof (cases "t = []")
    case True
    then show ?thesis using tk by (simp add: len lw)
  next
    case False
    have e: "length data - (length data - (20 + length w + 4 + 20)) - 20 = attrs_span as + 24"
      by (simp add: len lw)
    show ?thesis using False unfolding e tk put16_eq header_set_length [OF tid]
      by (simp add: len lw)
  qed
  have c: "(length data mod 4 \<noteq> 0 \<or> length data < 20) = False"
    "(attrs_span as + 24 + length t + 20 \<noteq> length data) = False"
    "(20 + length w + 4 + 20 > length data) = False"
    using m4 by (simp_all add: len lw)
  show ?thesis
    unfolding data_def [symmetric] validate_message_integrity_of_type_def Let_def stun_consts
    by (simp only: c lf pos adj th dr len_hmac option.case if_False simp_thms)
qed

lemma add_fingerprint_result:
  assumes wf: "msg_wf m" and L: "attrs_span (msg_attrs m) + 8 < 65536"
    and w: "write_attrs io (msg_attrs m) = Some w"
  defines "p \<equiv> stun_header io m (msg_length m + 8) @ w"
  defines "x \<equiv> crc32 io p XOR STUN_FINGERPRINT_XOR_VALUE"
  shows "add_fingerprint io m = (True, with_fingerprint x m)"
    and "stun_write io (with_fingerprint x m)
         = Some (p @ wr_u16 io STUN_ATTR_FINGERPRINT @ wr_u16 io 4 @ wr_u32 io x)"
proof -
  let ?a = "\<lambda>v. uint32_attr STUN_ATTR_FINGERPRINT v"
  have len: "msg_length (add_attribute (?a v) m) = msg_length m + 8" for v
    by (simp add: add_attribute_length attr_span_def uint32_attr_def)
  have wa: "write_attrs io (msg_attrs m @ [?a v])
      = Some (w @ wr_u16 io STUN_ATTR_FINGERPRINT @ wr_u16 io 4 @ wr_u32 io v)" for v
    by (simp add: write_attrs_append w uint32_attr_def write_attr_body_def)
  have hdr: "stun_header io (add_attribute (?a v) m) l = stun_header io m l" for v l
    by (rule stun_header_cong) simp_all
  have wr: "stun_write io (add_attribute (?a v) m)
      = Some (p @ wr_u16 io STUN_ATTR_FINGERPRINT @ wr_u16 io 4 @ wr_u32 io v)" for v
    by (simp add: stun_write_eq wa hdr len p_def)
  have upd: "update_last_attr (set_uint32 v) (add_attribute (?a 0) m) = with_fingerprint v m" for v
    by (simp add: update_last_attr_def add_attribute_def with_fingerprint_def set_uint32_def
        uint32_attr_def Let_def)
  show "add_fingerprint io m = (True, with_fingerprint x m)"
    by (simp add: add_fingerprint_def wr upd stun_consts wire Let_def x_def)
  have "with_fingerprint x m = add_attribute (?a x) m" by (simp add: with_fingerprint_def)
  then show "stun_write io (with_fingerprint x m)
         = Some (p @ wr_u16 io STUN_ATTR_FINGERPRINT @ wr_u16 io 4 @ wr_u32 io x)"
    using wr [of x] by simp
qed

lemma validate_fingerprint_eq:
  fixes l :: u16
  assumes tid: "length (msg_transaction_id m) = 12" and l4: "length w mod 4 = 0"
  defines "p \<equiv> stun_header io m l @ w"
  shows "validate_fingerprint io (p @ wr_u16 io STUN_ATTR_FINGERPRINT @ wr_u16 io 4 @ wr_u32 io x)
         = (x XOR STUN_FINGERPRINT_XOR_VALUE = crc32 io p)"
proof -
  let ?t = "wr_u16 io STUN_ATTR_FINGERPRINT @ wr_u16 io 4 @ wr_u32 io x"
  note [simp] = len_stun_header [OF tid]
  have len: "length (p @ ?t) = length p + 8" "length p = 20 + length w"
    by (simp_all add: p_def wire)
  have m4: "(length p + 8) mod 4 = 0" using l4 by (simp add: len) presburger
  have ck: "get_be32 io (drop 4 (p @ ?t)) = k_stun_magic_cookie"
    using header_cookie [of m l "w @ ?t"] by (simp add: p_def)
  have at: "drop (length p + 8 - 8) (p @ ?t) = ?t" "take (length p + 8 - 8) (p @ ?t) = p"
    by simp_all
  have g: "get_be16 io ?t = STUN_ATTR_FINGERPRINT" "get_be16 io (drop 2 ?t) = 4"
    "get_be32 io (drop 4 ?t) = x"
  proof -
    have "drop 2 ?t = wr_u16 io 4 @ wr_u32 io x @ []" "drop 4 ?t = wr_u32 io x @ []"
      by (simp_all add: wire)
    then show "get_be16 io ?t = STUN_ATTR_FINGERPRINT" "get_be16 io (drop 2 ?t) = 4"
      "get_be32 io (drop 4 ?t) = x"
      by (simp_all only: get16_wr16 get32_wr32)
  qed
  have eq: "4 + 4 = (8::nat)" "8 - 4 = (4::nat)" by simp_all
  have c: "(length p + 8 < 20 + 8) = False" by (simp add: len)
  show ?thesis
    unfolding validate_fingerprint_def Let_def stun_consts len(1) eq
    by (simp only: m4 c ck at g simp_thms if_False)
qed

lemma validate_with_fingerprint:
  assumes wf: "msg_wf m" and L: "attrs_span (msg_attrs m) + 8 < 65536"
  shows "\<exists>m' b. add_fingerprint io m = (True, m') \<and> stun_write io m' = Some b
           \<and> validate_fingerprint io b"
proof -
  obtain w where w: "write_attrs io (msg_attrs m) = Some w" and lw: "length w = attrs_span (msg_attrs m)"
    using write_attrs_wf [of "msg_attrs m"] wf by (auto simp: msg_wf_def)
  have "length (msg_transaction_id m) = 12" "length w mod 4 = 0"
    using wf lw by (simp_all add: msg_wf_def)
  then show ?thesis
    using add_fingerprint_result [OF wf L w]
      validate_fingerprint_eq [of m w "msg_length m + 8"
        "crc32 io (stun_header io m (msg_length m + 8) @ w) XOR STUN_FINGERPRINT_XOR_VALUE"]
    by (simp add: xor.assoc)
qed

lemma add_integrity_result:
  fixes pw :: bytes
  assumes wf: "msg_wf m" and L: "attrs_span (msg_attrs m) + 24 < 65536"
    and w: "write_attrs io (msg_attrs m) = Some w"
  defines "h \<equiv> hmac_sha1 io pw (stun_header io m (msg_length m + 24) @ w)"
  shows "add_message_integrity io pw m = (True, with_integrity h pw m)"
    and "msg_wf (with_integrity h pw m)"
    and "write_attrs io (msg_attrs (with_integrity h pw m))
         = Some (w @ wr_u16 io STUN_ATTR_MESSAGE_INTEGRITY @ wr_u16 io 20 @ h)"
proof -
  let ?a = "\<lambda>b. byte_string_attr STUN_ATTR_MESSAGE_INTEGRITY b"
  have h20: "length h = 20" by (simp add: h_def len_hmac)
  have len: "msg_length (add_attribute (?a b) m) = msg_length m + 24" if "length b = 20" for b
    using that by (simp add: add_attribute_length attr_span_def byte_string_attr_def copy_bytes_def)
  have wa: "write_attrs io (msg_attrs m @ [?a b])
      = Some (w @ wr_u16 io STUN_ATTR_MESSAGE_INTEGRITY @ wr_u16 io 20 @ b)" if "length b = 20" for b
    using that by (simp add: write_attrs_append w byte_string_attr_def copy_bytes_def
        write_attr_body_def write_padding_eq wr_bytes_eq)
  have hdr: "stun_header io (add_attribute (?a b) m) l = stun_header io m l" for b l
    by (rule stun_header_cong) simp_all
  have wr: "stun_write io (add_attribute (?a (replicate 20 48)) m)
      = Some (stun_header io m (msg_length m + 24) @ w @ wr_u16 io STUN_ATTR_MESSAGE_INTEGRITY
              @ wr_u16 io 20 @ replicate 20 48)"
    using wa [of "replicate 20 48"] len [of "replicate 20 48"] by (simp add: stun_write_eq hdr)
  have upd: "(update_last_attr (copy_bytes h) (add_attribute (?a (replicate 20 48)) m))
               \<lparr>msg_password := pw, msg_integrity := k_integrity_ok\<rparr> = with_integrity h pw m"
    by (simp add: update_last_attr_def add_attribute_def with_integrity_def byte_string_attr_def
        copy_bytes_def Let_def h20)
  show "add_message_integrity io pw m = (True, with_integrity h pw m)"
    using upd h20 unfolding add_message_integrity_def add_message_integrity_of_type_def
    by (simp add: wr stun_consts wire Let_def h_def [symmetric])
  have "attr_wf (?a h)" "attr_span (?a h) = 24"
    by (simp_all add: attr_wf_def byte_string_attr_def copy_bytes_def h20 attr_span_def)
  then have "msg_wf (add_attribute (?a h) m)" using add_attribute_wf [OF wf, of "?a h"] L by simp
  then show "msg_wf (with_integrity h pw m)" by (simp add: with_integrity_def msg_wf_def)
  show "write_attrs io (msg_attrs (with_integrity h pw m))
         = Some (w @ wr_u16 io STUN_ATTR_MESSAGE_INTEGRITY @ wr_u16 io 20 @ h)"
    using wa [OF h20] by (simp add: with_integrity_def)
qed

lemma with_fields:
  "msg_type (with_integrity h pw m) = msg_type m"
  "msg_transaction_id (with_integrity h pw m) = msg_transaction_id m"
  "msg_attrs (with_integrity h pw m) = msg_attrs m @ [byte_string_attr STUN_ATTR_MESSAGE_INTEGRITY h]"
  "msg_type (with_fingerprint x m) = msg_type m"
  "msg_transaction_id (with_fingerprint x m) = msg_transaction_id m"
  "msg_attrs (with_fingerprint x m) = msg_attrs m @ [uint32_attr STUN_ATTR_FINGERPRINT x]"
  by (simp_all add: with_integrity_def with_fingerprint_def)

lemma msg_length_span: "msg_wf m \<Longrightarrow> msg_length m = of_nat (attrs_span (msg_attrs m))"
  by (simp add: msg_wf_def word_unat_eq_iff)

text \<open>The bytes of a message protected by both attributes; \<open>t\<close> are those of the fingerprint.\<close>

lemma protected_write:
  fixes pw :: bytes
  assumes wf: "msg_wf m" and ty: "msg_typed m" and L: "attrs_span (msg_attrs m) + 32 < 65536"
    and w: "write_attrs io (msg_attrs m) = Some w"
  defines "s \<equiv> stun_header io m (msg_length m + 24) @ w"
  defines "m1 \<equiv> with_integrity (hmac_sha1 io pw s) pw m"
  shows "\<exists>x b t. add_message_integrity io pw m = (True, m1) \<and> add_fingerprint io m1 = (True, with_fingerprint x m1)
     \<and> stun_write io (with_fingerprint x m1) = Some b \<and> validate_fingerprint io b
     \<and> stun_read io b = Some (Some (parsed_of (with_fingerprint x m1) b)) \<and> length t = 8
     \<and> b = stun_header io m (of_nat (attrs_span (msg_attrs m) + 24 + length t)) @ w
           @ wr_u16 io STUN_ATTR_MESSAGE_INTEGRITY @ wr_u16 io 20 @ hmac_sha1 io pw s @ t"
proof -
  have L24: "attrs_span (msg_attrs m) + 24 < 65536" using L by simp
  define h where "h = hmac_sha1 io pw s"
  have 1: "add_message_integrity io pw m = (True, m1)" "msg_wf m1"
    "write_attrs io (msg_attrs m1) = Some (w @ wr_u16 io STUN_ATTR_MESSAGE_INTEGRITY @ wr_u16 io 20 @ h)"
    unfolding m1_def h_def s_def by (fact add_integrity_result [OF wf L24 w])+
  have h20: "length h = 20" by (simp add: h_def len_hmac)
  have sp1: "attrs_span (msg_attrs m1) = attrs_span (msg_attrs m) + 24"
    by (simp add: m1_def with_fields byte_string_attr_def copy_bytes_def h20 attr_span_def flip: h_def)
  have L1: "attrs_span (msg_attrs m1) + 8 < 65536" using L sp1 by simp
  obtain x where fp: "add_fingerprint io m1 = (True, with_fingerprint x m1)"
    using add_fingerprint_result (1) [OF 1(2) L1 1(3)] by blast
  define m2 where "m2 = with_fingerprint x m1"
  have wf2: "msg_wf m2"
    unfolding m2_def with_fingerprint_def
    by (rule add_attribute_wf) (use 1(2) L1 in \<open>simp_all add: attr_wf_def uint32_attr_def attr_span_def\<close>)
  have ty2: "msg_typed m2"
    using ty by (auto simp: msg_typed_def m2_def m1_def with_fields attr_typed_def
        byte_string_attr_def copy_bytes_def uint32_attr_def get_attribute_value_type_def stun_types)
  obtain b where b: "stun_write io m2 = Some b" "validate_fingerprint io b"
    using validate_with_fingerprint [OF 1(2) L1] fp by (auto simp: m2_def)
  have rd: "stun_read io b = Some (Some (parsed_of m2 b))" by (rule stun_read_write [OF wf2 ty2 b(1)])
  have len2: "msg_length m2 = of_nat (attrs_span (msg_attrs m) + 24 + 8)"
    unfolding msg_length_span [OF wf2] by (simp add: m2_def with_fields uint32_attr_def attr_span_def sp1)
  define t where "t = wr_u16 io STUN_ATTR_FINGERPRINT @ wr_u16 io 4 @ wr_u32 io x"
  have wt: "write_attrs io (msg_attrs m2)
      = Some (w @ wr_u16 io STUN_ATTR_MESSAGE_INTEGRITY @ wr_u16 io 20 @ h @ t)"
    using 1(3) by (simp add: m2_def with_fields write_attrs_append uint32_attr_def
        write_attr_body_def t_def)
  have hdr: "stun_header io m2 l = stun_header io m l" for l
    by (rule stun_header_cong) (simp_all add: m2_def m1_def with_fields)
  have lt: "length t = 8" by (simp add: t_def wire)
  have "b = stun_header io m (of_nat (attrs_span (msg_attrs m) + 24 + length t)) @ w
      @ wr_u16 io STUN_ATTR_MESSAGE_INTEGRITY @ wr_u16 io 20 @ h @ t"
    using b(1) by (simp add: stun_write_eq wt hdr len2 lt)
  then show ?thesis using 1(1) fp b rd lt unfolding m2_def h_def by blast
qed

text \<open>What the receiver finds in the message it parsed.\<close>

lemma protected_parsed:
  fixes x :: u32 and h pw b :: bytes
  assumes nomi: "\<forall>a \<in> set (msg_attrs m). attr_type a \<noteq> STUN_ATTR_MESSAGE_INTEGRITY"
  defines "r \<equiv> parsed_of (with_fingerprint x (with_integrity h pw m)) b"
  shows "msg_type r = msg_type m" "msg_transaction_id r = msg_transaction_id m"
    "filter (\<lambda>a. attr_type a \<noteq> STUN_ATTR_MESSAGE_INTEGRITY) (msg_attrs r) = filter attr_known (msg_attrs m)"
    "get_byte_string STUN_ATTR_MESSAGE_INTEGRITY (r\<lparr>msg_password := pw'\<rparr>) \<noteq> None"
    "msg_buffer (r\<lparr>msg_password := pw'\<rparr>) = b"
proof -
  have kn: "attr_known (byte_string_attr STUN_ATTR_MESSAGE_INTEGRITY h)"
    "\<not> attr_known (uint32_attr STUN_ATTR_FINGERPRINT x)"
    by (simp_all add: attr_known_def byte_string_attr_def copy_bytes_def uint32_attr_def
        get_attribute_value_type_def stun_types)
  have at: "msg_attrs r = filter attr_known (msg_attrs m) @ [byte_string_attr STUN_ATTR_MESSAGE_INTEGRITY h]"
    by (simp add: r_def parsed_of_def with_fields kn)
  have ft: "attr_type (byte_string_attr STUN_ATTR_MESSAGE_INTEGRITY h) = STUN_ATTR_MESSAGE_INTEGRITY"
    by (simp add: byte_string_attr_def copy_bytes_def)
  show "get_byte_string STUN_ATTR_MESSAGE_INTEGRITY (r\<lparr>msg_password := pw'\<rparr>) \<noteq> None"
    using ft by (simp add: get_byte_string_def get_attribute_def find_None_iff at) blast
  have "filter (\<lambda>a. attr_type a \<noteq> STUN_ATTR_MESSAGE_INTEGRITY) (filter attr_known (msg_attrs m))
      = filter attr_known (msg_attrs m)"
    by (rule filter_True) (use nomi in auto)
  then show "filter (\<lambda>a. attr_type a \<noteq> STUN_ATTR_MESSAGE_INTEGRITY) (msg_attrs r) = filter attr_known (msg_attrs m)"
    by (simp add: at ft)
qed (simp_all add: r_def parsed_of_def with_fields)

lemma protected_message:
  assumes wf: "msg_wf m" and ty: "msg_typed m"
    and L: "attrs_span (msg_attrs m) + 32 < 65536"
    and nomi: "\<forall>a \<in> set (msg_attrs m). attr_type a \<noteq> STUN_ATTR_MESSAGE_INTEGRITY"
  shows "\<exists>m1 m2 b r s. add_message_integrity io pw m = (True, m1) \<and> add_fingerprint io m1 = (True, m2)
     \<and> stun_write io m2 = Some b \<and> validate_fingerprint io b \<and> stun_read io b = Some (Some r)
     \<and> msg_type r = msg_type m \<and> msg_transaction_id r = msg_transaction_id m
     \<and> filter (\<lambda>a. attr_type a \<noteq> STUN_ATTR_MESSAGE_INTEGRITY) (msg_attrs r)
         = filter attr_known (msg_attrs m)
     \<and> (\<forall>pw'. map_option fst (validate_message_integrity io pw' r) =
          Some (if hmac_sha1 io pw s = hmac_sha1 io pw' s then k_integrity_ok else k_integrity_bad))"
proof -
  obtain w where w: "write_attrs io (msg_attrs m) = Some w" and lw: "length w = attrs_span (msg_attrs m)"
    using write_attrs_wf [of "msg_attrs m"] wf by (auto simp: msg_wf_def)
  define s where "s = stun_header io m (msg_length m + 24) @ w"
  define h where "h = hmac_sha1 io pw s"
  let ?m1 = "with_integrity h pw m"
  obtain x b t where p: "add_message_integrity io pw m = (True, ?m1)" "add_fingerprint io ?m1 = (True, with_fingerprint x ?m1)"
    "stun_write io (with_fingerprint x ?m1) = Some b" "validate_fingerprint io b"
    "stun_read io b = Some (Some (parsed_of (with_fingerprint x ?m1) b))" and lt: "length t = 8" and
    beq: "b = stun_header io m (of_nat (attrs_span (msg_attrs m) + 24 + length t)) @ w
        @ wr_u16 io STUN_ATTR_MESSAGE_INTEGRITY @ wr_u16 io 20 @ h @ t"
    using protected_write [OF wf ty L w, of pw] unfolding s_def h_def by blast
  let ?r = "parsed_of (with_fingerprint x ?m1) b"
  have lenm: "msg_length m + 24 = of_nat (attrs_span (msg_attrs m) + 24)"
    unfolding msg_length_span [OF wf] by simp
  have tid: "length (msg_transaction_id m) = 12" using wf by (simp add: msg_wf_def)
  have vt: "validate_message_integrity_of_type io STUN_ATTR_MESSAGE_INTEGRITY 20 b pw' = Some (h = hmac_sha1 io pw' s)" for pw'
    unfolding beq s_def lenm
    by (rule mi_check_eq [OF tid w]) (use wf nomi L lt in \<open>auto simp: msg_wf_def h_def len_hmac\<close>)
  have "map_option fst (validate_message_integrity io pw' ?r) =
      Some (if hmac_sha1 io pw s = hmac_sha1 io pw' s then k_integrity_ok else k_integrity_bad)" for pw'
    unfolding validate_message_integrity_def Let_def protected_parsed(5) [OF nomi] stun_consts vt
    using protected_parsed(4) [OF nomi, where x = x and h = h and pw = pw and b = b and pw' = pw'] by (simp add: h_def)
  then show ?thesis using p protected_parsed(1-3) [OF nomi, where x = x and h = h and pw = pw and b = b] by blast
qed

lemma fingerprinted_parse:
  assumes wf: "msg_wf m" and ty: "msg_typed m" and L: "attrs_span (msg_attrs m) + 8 < 65536"
    and w: "write_attrs io (msg_attrs m) = Some w"
  obtains x b where "add_fingerprint io m = (True, with_fingerprint x m)"
    "stun_write io (with_fingerprint x m) = Some b"
    "b = (stun_header io m (msg_length m + 8) @ w)
       @ wr_u16 io STUN_ATTR_FINGERPRINT @ wr_u16 io 4 @ wr_u32 io x"
    "validate_fingerprint io b" "stun_read io b = Some (Some (parsed_of (with_fingerprint x m) b))"
proof -
  obtain x where fp: "add_fingerprint io m = (True, with_fingerprint x m)"
    and wr: "stun_write io (with_fingerprint x m) = Some ((stun_header io m (msg_length m + 8) @ w)
       @ wr_u16 io STUN_ATTR_FINGERPRINT @ wr_u16 io 4 @ wr_u32 io x)"
    using add_fingerprint_result [OF wf L w] by blast
  define b where "b = (stun_header io m (msg_length m + 8) @ w)
       @ wr_u16 io STUN_ATTR_FINGERPRINT @ wr_u16 io 4 @ wr_u32 io x"
  have wb: "stun_write io (with_fingerprint x m) = Some b" unfolding b_def by (rule wr)
  have v: "validate_fingerprint io b" using validate_with_fingerprint [OF wf L] fp wb by auto
  have wf2: "msg_wf (with_fingerprint x m)"
    unfolding with_fingerprint_def
    by (rule add_attribute_wf) (use wf L in \<open>simp_all add: attr_wf_def uint32_attr_def attr_span_def\<close>)
  have ty2: "msg_typed (with_fingerprint x m)"
    using ty by (simp add: msg_typed_def with_fields attr_typed_def
        uint32_attr_def get_attribute_value_type_def stun_types)
  show ?thesis by (rule that [OF fp wb b_def v stun_read_write [OF wf2 ty2 wb]])
qed

lemma overread:
  "\<exists>data r. stun_read io data = Some (Some r) \<and> validate_fingerprint io data
     \<and> (\<forall>pw. validate_message_integrity io pw r = None)"
proof -
  let ?tid = "replicate 12 (0 :: byte)"
  let ?mi = "byte_string_attr STUN_ATTR_MESSAGE_INTEGRITY []"
  define m where "m = add_attribute ?mi (new_stun_message\<lparr>msg_type := 1, msg_transaction_id := ?tid\<rparr>)"
  have wf: "msg_wf m"
    unfolding m_def by (rule add_attribute_wf)
      (simp_all add: msg_wf_def new_stun_message_def attr_wf_def byte_string_attr_def
        copy_bytes_def attr_span_def)
  have at: "msg_attrs m = [?mi]" by (simp add: m_def new_stun_message_def)
  have ml: "msg_length m = 4"
    by (simp add: m_def add_attribute_length new_stun_message_def attr_span_def
        byte_string_attr_def copy_bytes_def)
  have L: "attrs_span (msg_attrs m) + 8 < 65536"
    by (simp add: at attr_span_def byte_string_attr_def copy_bytes_def)
  have w: "write_attrs io (msg_attrs m) = Some (wr_u16 io STUN_ATTR_MESSAGE_INTEGRITY @ wr_u16 io 0)"
    by (simp add: at byte_string_attr_def copy_bytes_def write_attr_body_def wire write_padding_eq)
  have tid: "length (msg_transaction_id m) = 12" by (simp add: m_def)
  have ty: "msg_typed m"
    by (simp add: msg_typed_def at attr_typed_def byte_string_attr_def copy_bytes_def
        get_attribute_value_type_def stun_types)
  obtain x b where b0: "b = (stun_header io m (msg_length m + 8) @ wr_u16 io STUN_ATTR_MESSAGE_INTEGRITY
     @ wr_u16 io 0) @ wr_u16 io STUN_ATTR_FINGERPRINT @ wr_u16 io 4 @ wr_u32 io x"
    and v: "validate_fingerprint io b" and rd: "stun_read io b = Some (Some (parsed_of (with_fingerprint x m) b))"
    using fingerprinted_parse [OF wf ty L w] by blast
  have b: "b = stun_header io m 12 @ wr_u16 io STUN_ATTR_MESSAGE_INTEGRITY
     @ wr_u16 io 0 @ wr_u16 io STUN_ATTR_FINGERPRINT @ wr_u16 io 4 @ wr_u32 io x"
    by (simp add: b0 ml)
  define r where "r = parsed_of (with_fingerprint x m) b"
  have len: "length b = 32" by (simp add: b len_stun_header [OF tid] wire)
  have pos: "find_attr_pos io STUN_ATTR_MESSAGE_INTEGRITY b 20 = Some 20"
    using len by (subst find_attr_pos.simps)
      (simp add: b len_stun_header [OF tid] wire k_stun_attribute_header_size_def)
  have lf: "get_be16 io (drop 2 b) = 12" unfolding b by (rule header_length_field)
  have vt: "validate_message_integrity_of_type io STUN_ATTR_MESSAGE_INTEGRITY 20 b pw = None" for pw
    by (simp add: validate_message_integrity_of_type_def Let_def stun_consts len lf pos len_hmac)
  have "get_byte_string STUN_ATTR_MESSAGE_INTEGRITY (r\<lparr>msg_password := pw\<rparr>) \<noteq> None" for pw
    by (simp add: get_byte_string_def get_attribute_def r_def parsed_of_def with_fields at
        attr_known_def byte_string_attr_def copy_bytes_def get_attribute_value_type_def stun_types)
  moreover have "msg_buffer (r\<lparr>msg_password := pw\<rparr>) = b" for pw by (simp add: r_def parsed_of_def)
  ultimately have "validate_message_integrity io pw r = None" for pw
    by (simp add: validate_message_integrity_def Let_def stun_consts vt)
  then show ?thesis using rd v r_def by blast
qed

end

lemma or_disjoint_inj:
  fixes t u m :: u32
  assumes "t AND m = 0" "u AND m = 0"
  shows "t OR m = u OR m \<longleftrightarrow> t = u"
proof
  assume e: "t OR m = u OR m"
  show "t = u"
  proof (rule bit_eqI)
    fix n
    have "bit (t OR m) n = bit (u OR m) n" "bit (t AND m) n = bit (0 :: u32) n"
      "bit (u AND m) n = bit (0 :: u32) n"
      by (simp_all only: e assms)
    then show "bit t n = bit u n" by (auto simp: bit_simps)
  qed
qed simp

lemma error_code_set_code:
  "0 \<le> c \<Longrightarrow> c < 25600 \<Longrightarrow> error_code_of (set_code c create_error_code) = c"
proof -
  assume c: "0 \<le> c" "c < 25600"
  then have "uint (of_int (c div 100) :: u8) = c div 100" "uint (of_int (c mod 100) :: u8) = c mod 100"
    by (simp_all add: uint_word_of_int)
  then show ?thesis using c
    by (cases "c = 0")
       (simp_all add: error_code_of_def set_code_def create_error_code_def sgn_if
         mult.commute [of _ 100])
qed

subsection \<open>The properties of the codec\<close>

definition demo_request :: stun_message where
  "demo_request =
     add_attribute (uint32_attr STUN_ATTR_PRIORITY 7)
       (add_attribute (byte_string_attr STUN_ATTR_USERNAME (bytes_of ''abcd:x''))
         (add_attribute (byte_string_attr STUN_ATTR_USE_CANDIDATE [])
           (new_stun_message\<lparr>msg_type := STUN_BINDING_REQUEST\<rparr>)))"

lemma demo_request_attrs:
  "msg_attrs demo_request =
     [byte_string_attr STUN_ATTR_USE_CANDIDATE [],
      byte_string_attr STUN_ATTR_USERNAME (bytes_of ''abcd:x''), uint32_attr STUN_ATTR_PRIORITY 7]"
  "msg_type demo_request = 1" "msg_transaction_id demo_request = EMPTY_TRANSACTION_ID"
  by (simp_all add: demo_request_def new_stun_message_def STUN_BINDING_REQUEST_def)

lemma demo_request_wf: "msg_wf demo_request" "msg_typed demo_request"
  unfolding demo_request_def
   apply (intro add_attribute_wf)
        apply (simp_all add: msg_wf_def new_stun_message_def attr_wf_def byte_string_attr_def
      copy_bytes_def attr_span_def uint32_attr_def EMPTY_TRANSACTION_ID_def
      STUN_BINDING_REQUEST_def pad4_def)
  apply (simp add: msg_typed_def new_stun_message_def attr_typed_def byte_string_attr_def copy_bytes_def
      uint32_attr_def get_attribute_value_type_def stun_types)
  done

text \<open>C17: A well-formed message can always be written; the bytes are the header and exactly
  \<open>msg_length\<close> more; and reading them back gives the type, the length, the transaction id and, in
  order, every attribute of a type the reader knows (the others are skipped).\<close>

theorem stun_roundtrip:
  assumes "byte_io_laws io" "msg_wf m" "msg_typed m"
  shows "\<exists>b. stun_write io m = Some b \<and> length b = 20 + unat (msg_length m)
           \<and> stun_read io b = Some (Some (parsed_of m b))"
  using byte_io_laws.stun_write_wf [OF assms(1,2)] byte_io_laws.stun_read_write [OF assms] by blast

theorem stun_roundtrip_witness:
  "\<exists>b. stun_write be_io demo_request = Some b \<and> length b = 20 + unat (msg_length demo_request)
     \<and> stun_read be_io b = Some (Some (parsed_of demo_request b))"
  by (rule stun_roundtrip [OF be.byte_io_laws_axioms demo_request_wf])

text \<open>C4: Protecting a message the way \<open>prepare\<close> and \<open>send_binding_response_message\<close> do (MESSAGE-INTEGRITY, then
  FINGERPRINT) succeeds; the written bytes pass \<open>validate_fingerprint\<close> and parse to a message with
  the same type, transaction id and known attributes; and the receiver's integrity check is
  \<open>k_integrity_ok\<close> exactly for the passwords whose HMAC over the protected bytes is the sender's:
  in particular the length field is put back to what it was when the HMAC was computed.\<close>

theorem stun_protected:
  assumes "byte_io_laws io" "msg_wf m" "msg_typed m" "attrs_span (msg_attrs m) + 32 < 65536"
    and "\<forall>a \<in> set (msg_attrs m). attr_type a \<noteq> STUN_ATTR_MESSAGE_INTEGRITY"
  shows "\<exists>m1 m2 b r s. add_message_integrity io pw m = (True, m1) \<and> add_fingerprint io m1 = (True, m2)
     \<and> stun_write io m2 = Some b \<and> validate_fingerprint io b \<and> stun_read io b = Some (Some r)
     \<and> msg_type r = msg_type m \<and> msg_transaction_id r = msg_transaction_id m
     \<and> filter (\<lambda>a. attr_type a \<noteq> STUN_ATTR_MESSAGE_INTEGRITY) (msg_attrs r)
         = filter attr_known (msg_attrs m)
     \<and> (\<forall>pw'. map_option fst (validate_message_integrity io pw' r) =
          Some (if hmac_sha1 io pw s = hmac_sha1 io pw' s then k_integrity_ok else k_integrity_bad))"
  by (rule byte_io_laws.protected_message [OF assms])

theorem stun_protected_witness:
  "\<exists>m1 m2 b r s. add_message_integrity be_io [1, 2] demo_request = (True, m1)
     \<and> add_fingerprint be_io m1 = (True, m2)
     \<and> stun_write be_io m2 = Some b \<and> validate_fingerprint be_io b \<and> stun_read be_io b = Some (Some r)
     \<and> msg_type r = msg_type demo_request \<and> msg_transaction_id r = msg_transaction_id demo_request
     \<and> filter (\<lambda>a. attr_type a \<noteq> STUN_ATTR_MESSAGE_INTEGRITY) (msg_attrs r)
         = filter attr_known (msg_attrs demo_request)
     \<and> (\<forall>pw'. map_option fst (validate_message_integrity be_io pw' r) =
          Some (if hmac_sha1 be_io [1, 2] s = hmac_sha1 be_io pw' s
                then k_integrity_ok else k_integrity_bad))"
  by (rule stun_protected [OF be.byte_io_laws_axioms demo_request_wf])
     (simp_all add: demo_request_attrs byte_string_attr_def copy_bytes_def uint32_attr_def
       attr_span_def pad4_def stun_types)

text \<open>C40: The parser returns on every packet: each round of its attribute loop consumes at
  least the four bytes of an attribute header.\<close>

theorem stun_read_total:
  assumes "byte_io_laws io"
  shows "\<exists>r. stun_read io data = Some r"
  by (rule byte_io_laws.stun_read_ends [OF assms])

theorem stun_read_total_witness: "\<exists>r. stun_read be_io [0, 1, 0, 0] = Some r"
  by (rule stun_read_total [OF be.byte_io_laws_axioms])

text \<open>A packet exists that parses, passes the FINGERPRINT check and holds a
  MESSAGE-INTEGRITY attribute, for which the integrity check compares bytes that lie past the end
  of the packet, whatever the password: the length of the attribute is never compared with 20.\<close>

theorem integrity_check_overreads:
  assumes "byte_io_laws io"
  shows "\<exists>data r. stun_read io data = Some (Some r) \<and> validate_fingerprint io data
           \<and> (\<forall>pw. validate_message_integrity io pw r = None)"
  by (rule byte_io_laws.overread [OF assms])

theorem integrity_check_overreads_witness:
  "\<exists>data r. stun_read be_io data = Some (Some r) \<and> validate_fingerprint be_io data
     \<and> (\<forall>pw. validate_message_integrity be_io pw r = None)"
  by (rule integrity_check_overreads [OF be.byte_io_laws_axioms])

text \<open>A message that was parsed holds attributes of the known types only (USERNAME,
  MESSAGE-INTEGRITY, PRIORITY), each with the body its type asks for, keeps the packet it was
  parsed from and has its integrity not checked yet; so it never holds an ERROR-CODE, and
  \<open>get_error_code_value\<close> is 600 on every packet that arrives.\<close>

theorem stun_read_attributes:
  assumes "stun_read io data = Some (Some r)"
  shows "(\<forall>a \<in> set (msg_attrs r). attr_known a \<and> attr_typed a) \<and> msg_buffer r = data
     \<and> \<not> integrity_ok r \<and> get_error_code_value r = STUN_ERROR_GLOBAL_FAIL"
  using stun_read_typed [OF assms] no_error_code [OF assms] by (simp add: integrity_ok_def)

theorem stun_read_attributes_witness:
  "\<exists>data r. stun_read be_io data = Some (Some r) \<and> get_error_code_value r = STUN_ERROR_GLOBAL_FAIL"
proof -
  obtain b where "stun_read be_io b = Some (Some (parsed_of demo_request b))"
    using byte_io_laws.stun_write_wf [OF be.byte_io_laws_axioms demo_request_wf(1)]
      byte_io_laws.stun_read_write [OF be.byte_io_laws_axioms demo_request_wf] by blast
  from stun_read_attributes [OF this] this show ?thesis by blast
qed

text \<open>The padding of an unknown attribute is computed in 16 bits: a length of 65533, 65534
  or 65535 wraps to 0 and the parser skips nothing, so the bytes that should be the attribute's
  value are parsed as the next attributes.\<close>

theorem unknown_length_wraps:
  assumes "byte_io_laws io" "get_attribute_value_type t = STUN_VALUE_UNKNOWN" "65533 \<le> unat len"
  shows "read_attrs io (wr_u16 io t @ wr_u16 io len @ r) acc = read_attrs io r acc"
proof -
  have "unat len = 65533 \<or> unat len = 65534 \<or> unat len = 65535"
    using assms(3) unat_u16_less [of len] by linarith
  then have "len = 65533 \<or> len = 65534 \<or> len = 65535" by (auto simp: word_unat_eq_iff)
  then have "unat (skip_length len) = 0" by (auto simp: skip_length_def)
  then show ?thesis
    using byte_io_laws.read_attrs_skip [OF assms(1), of t len "[]" r acc] assms(2)
    by (simp add: create_attribute_def)
qed

theorem unknown_length_wraps_witness:
  "read_attrs be_io (wr_u16 be_io 0x8022 @ wr_u16 be_io 65535 @ [1, 2, 3, 4]) []
     = read_attrs be_io [1, 2, 3, 4] []"
  by (rule unknown_length_wraps [OF be.byte_io_laws_axioms])
     (simp_all add: get_attribute_value_type_def stun_types)

text \<open>The two response types of a request type are not request types, differ from one
  another, and determine the request; for a type that is not a request both are -1.\<close>

theorem response_types:
  assumes "is_stun_request_type t" "is_stun_request_type u"
  shows "\<not> is_stun_request_type (get_stun_success_response t)
     \<and> \<not> is_stun_request_type (get_stun_error_response t)
     \<and> get_stun_success_response t \<noteq> get_stun_error_response u
     \<and> (get_stun_success_response t = get_stun_success_response u \<longleftrightarrow> t = u)
     \<and> (get_stun_error_response t = get_stun_error_response u \<longleftrightarrow> t = u)"
proof -
  have m: "x AND 0x110 = 0 \<Longrightarrow> \<not> bit x 8 \<and> \<not> bit x 4 \<and> x AND 0x100 = 0" for x :: u32
  proof -
    assume a: "x AND 0x110 = 0"
    have "bit (x AND 0x110) 8 = bit x 8" "bit (x AND 0x110) 4 = bit x 4"
      by (simp_all add: bit_simps)
    then have "\<not> bit x 8" "\<not> bit x 4" by (simp_all add: a)
    moreover have "x AND 0x100 = (x AND 0x110) AND 0x100" by (simp add: and.assoc)
    ultimately show ?thesis using a by simp
  qed
  have t: "\<not> bit t 8" "\<not> bit t 4" "t AND 0x100 = 0" "t AND 0x110 = 0"
    and u: "\<not> bit u 8" "\<not> bit u 4" "u AND 0x100 = 0" "u AND 0x110 = 0"
    using assms m by (simp_all add: is_stun_request_type_def k_stun_type_mask_def)
  have "bit ((t OR 0x100) AND 0x110) 8" "bit ((t OR 0x110) AND 0x110) 8"
    by (simp_all add: bit_simps)
  then have "(t OR 0x100) AND 0x110 \<noteq> 0" "(t OR 0x110) AND 0x110 \<noteq> 0"
    by (metis bit_0_eq bot_apply bot_bool_def)+
  moreover have "bit (t OR 0x100) 4 \<noteq> bit (u OR 0x110) 4" using t by (simp add: bit_simps)
  then have "t OR 0x100 \<noteq> u OR 0x110" by metis
  ultimately show ?thesis
    using assms or_disjoint_inj [of t "0x100" u] or_disjoint_inj [of t "0x110" u] t u
    by (simp add: get_stun_success_response_def get_stun_error_response_def
        is_stun_request_type_def k_stun_type_mask_def)
qed

theorem response_types_witness:
  "\<not> is_stun_request_type (get_stun_success_response 1)
     \<and> \<not> is_stun_request_type (get_stun_error_response 1)
     \<and> get_stun_success_response 1 \<noteq> get_stun_error_response 1
     \<and> (get_stun_success_response 1 = get_stun_success_response 1 \<longleftrightarrow> (1 :: u32) = 1)
     \<and> (get_stun_error_response 1 = get_stun_error_response 1 \<longleftrightarrow> (1 :: u32) = 1)"
  by (rule response_types) (simp_all add: is_stun_request_type_def k_stun_type_mask_def)

end
