(* ===== verification/IceDefs.thy ===== *)
theory IceDefs
  imports StunCodec
begin

unbundle bit_operations_syntax

text \<open>
  The small shared types of the ICE part: the constants of \<open>ice/ice_def.cpp\<close>, candidates and
  their priority (\<open>ice/candidate.cpp\<close>), ICE parameters (\<open>ice/ice_credentials.h\<close>), the state of a
  candidate pair, and the services of \<open>rtc_base\<close> that the ICE code calls, as the parameter
  \<open>lib\<close> with the laws of the locale \<open>rtc_lib_laws\<close>.
\<close>

subsection \<open>Constants\<close>

definition ICE_UFRAG_LENGTH :: nat where "ICE_UFRAG_LENGTH = 4"
definition ICE_PWD_LENGTH :: nat where "ICE_PWD_LENGTH = 24"

definition STUN_PACKET_SIZE :: int where "STUN_PACKET_SIZE = 60 * 8"
definition WEAK_PING_INTERVAL :: int where "WEAK_PING_INTERVAL = 1000 * STUN_PACKET_SIZE div 10000"
definition STRONG_PING_INTERVAL :: int where
  "STRONG_PING_INTERVAL = 1000 * STUN_PACKET_SIZE div 1000"

definition STABLING_CONNECTION_PING_INTERVAL :: int where
  "STABLING_CONNECTION_PING_INTERVAL = 900"
definition STABLE_CONNECTION_PING_INTERVAL :: int where
  "STABLE_CONNECTION_PING_INTERVAL = 2500"
definition MIN_PINGS_AT_WEAK_PING_INTERVAL :: int where
  "MIN_PINGS_AT_WEAK_PING_INTERVAL = 3"
definition WEAK_CONNECTION_RECEIVE_TIMEOUT :: int where
  "WEAK_CONNECTION_RECEIVE_TIMEOUT = 2500"
definition CONNECTION_WRITE_CONNECT_FAILS :: nat where "CONNECTION_WRITE_CONNECT_FAILS = 5"
definition CONNECTION_WRITE_CONNECT_TIMEOUT :: int where
  "CONNECTION_WRITE_CONNECT_TIMEOUT = 5000"
definition CONNECTION_WRITE_TIMEOUT :: int where "CONNECTION_WRITE_TIMEOUT = 15000"

lemmas ice_consts =
  STUN_PACKET_SIZE_def WEAK_PING_INTERVAL_def STRONG_PING_INTERVAL_def
  STABLING_CONNECTION_PING_INTERVAL_def STABLE_CONNECTION_PING_INTERVAL_def
  MIN_PINGS_AT_WEAK_PING_INTERVAL_def WEAK_CONNECTION_RECEIVE_TIMEOUT_def
  CONNECTION_WRITE_CONNECT_FAILS_def CONNECTION_WRITE_CONNECT_TIMEOUT_def
  CONNECTION_WRITE_TIMEOUT_def

datatype ice_component = RTP | RTCP

fun component_id :: "ice_component \<Rightarrow> int" where
  "component_id RTP = 1"
| "component_id RTCP = 2"

definition ICE_TYPE_PREFERENCE_RELAY_UDP :: u32 where "ICE_TYPE_PREFERENCE_RELAY_UDP = 2"
definition ICE_TYPE_PREFERENCE_SRFLX :: u32 where "ICE_TYPE_PREFERENCE_SRFLX = 100"
definition ICE_TYPE_PREFERENCE_PRFLX :: u32 where "ICE_TYPE_PREFERENCE_PRFLX = 110"
definition ICE_TYPE_PREFERENCE_HOST :: u32 where "ICE_TYPE_PREFERENCE_HOST = 126"

definition LOCAL_PORT_TYPE :: string where "LOCAL_PORT_TYPE = ''host''"
definition PRFLX_PORT_TYPE :: string where "PRFLX_PORT_TYPE = ''prflx''"

datatype candidate_pair_state = WAITING | IN_PROGRESS | SUCCEEDED | FAILED

record ice_parameters =
  ice_ufrag :: bytes
  ice_pwd :: bytes

definition create_random_ice_credentials :: "(nat \<Rightarrow> bytes) \<Rightarrow> (nat \<Rightarrow> bytes) \<Rightarrow> ice_parameters" where
  "create_random_ice_credentials rnd1 rnd2 =
     \<lparr>ice_ufrag = rnd1 ICE_UFRAG_LENGTH, ice_pwd = rnd2 ICE_PWD_LENGTH\<rparr>"

subsection \<open>The services of the library\<close>

text \<open>
  \<open>lib_split\<close> is \<open>rtc::split\<close>, \<open>lib_next_average\<close> is \<open>rtc::GetNextMovingAverage\<close>,
  \<open>lib_ip_precedence\<close> is \<open>rtc::IPAddressPrecedence\<close> and \<open>lib_host_uri\<close> is
  \<open>SocketAddress::HostAsURIString\<close>.
\<close>

record rtc_lib =
  lib_split :: "bytes \<Rightarrow> byte \<Rightarrow> bytes list"
  lib_next_average :: "int \<Rightarrow> int \<Rightarrow> int \<Rightarrow> int"
  lib_ip_precedence :: "ip_address \<Rightarrow> int"
  lib_host_uri :: "ip_address \<Rightarrow> string"

fun join_fields :: "byte \<Rightarrow> bytes list \<Rightarrow> bytes" where
  "join_fields c [] = []"
| "join_fields c [x] = x"
| "join_fields c (x # xs) = x @ c # join_fields c xs"

lemma first_separator:
  "c \<notin> set x \<Longrightarrow> c \<notin> set y \<Longrightarrow> x @ c # r = y @ c # s \<Longrightarrow> x = y \<and> r = s"
proof (induction x arbitrary: y)
  case Nil
  then show ?case by (cases y) auto
next
  case (Cons a x)
  then show ?case by (cases y) auto
qed

locale rtc_lib_laws =
  fixes lib :: rtc_lib
  assumes split_join: "join_fields c (lib_split lib s c) = s"
    and split_no_sep: "f \<in> set (lib_split lib s c) \<Longrightarrow> c \<notin> set f"
    and split_ne: "lib_split lib s c \<noteq> []"
    and average_between:
      "0 \<le> r \<Longrightarrow> min p x \<le> lib_next_average lib p x r \<and> lib_next_average lib p x r \<le> max p x"
begin

lemma join_unique:
  "join_fields c xs = join_fields c ys \<Longrightarrow> xs \<noteq> [] \<Longrightarrow> ys \<noteq> [] \<Longrightarrow>
   \<forall>f \<in> set xs. c \<notin> set f \<Longrightarrow> \<forall>f \<in> set ys. c \<notin> set f \<Longrightarrow> xs = ys"
proof (induction c xs arbitrary: ys rule: join_fields.induct)
  case (1 c)
  then show ?case by simp
next
  case (2 c x)
  then show ?case by (cases ys; cases "tl ys") auto
next
  case (3 c x x' xs)
  then obtain y ys' where ys: "ys = y # ys'" by (cases ys) auto
  show ?case
  proof (cases ys')
    case Nil
    then show ?thesis using 3 ys by auto
  next
    case (Cons y' ys'')
    then have e: "x @ c # join_fields c (x' # xs) = y @ c # join_fields c (y' # ys'')"
      using 3(2) ys by simp
    have "c \<notin> set x" "c \<notin> set y" using 3 ys by auto
    then have "x = y \<and> join_fields c (x' # xs) = join_fields c (y' # ys'')"
      by (rule first_separator [OF _ _ e])
    then show ?thesis using 3(1) [of ys'] 3 ys Cons by auto
  qed
qed

lemma split_fields:
  "xs \<noteq> [] \<Longrightarrow> \<forall>f \<in> set xs. c \<notin> set f \<Longrightarrow> lib_split lib (join_fields c xs) c = xs"
  by (rule join_unique) (auto simp: split_join split_ne dest: split_no_sep)

lemma split_pair:
  "c \<notin> set x \<Longrightarrow> c \<notin> set y \<Longrightarrow> lib_split lib (x @ c # y) c = [x, y]"
  using split_fields [of "[x, y]" c] by simp

end

fun split_on :: "byte \<Rightarrow> bytes \<Rightarrow> bytes list" where
  "split_on c [] = [[]]"
| "split_on c (b # bs) =
     (if b = c then [] # split_on c bs
      else (b # hd (split_on c bs)) # tl (split_on c bs))"

definition demo_lib :: rtc_lib where
  "demo_lib =
     \<lparr>lib_split = (\<lambda>s c. split_on c s), lib_next_average = (\<lambda>p x r. (p * r + x) div (r + 1)),
      lib_ip_precedence = (\<lambda>ip. case ip of IPv4 _ \<Rightarrow> 35 | _ \<Rightarrow> 0),
      lib_host_uri = (\<lambda>ip. ''10.0.0.1'')\<rparr>"

lemma split_on_ne [simp]: "split_on c s \<noteq> []"
  by (induction s) auto

lemma join_split_on: "join_fields c (split_on c s) = s"
proof (induction s)
  case (Cons b s)
  then show ?case by (cases "split_on c s"; cases "tl (split_on c s)") auto
qed simp

lemma split_on_no_sep: "f \<in> set (split_on c s) \<Longrightarrow> c \<notin> set f"
proof (induction s arbitrary: f)
  case (Cons b s)
  then show ?case by (cases "split_on c s") (auto split: if_splits)
qed simp

lemma average_bounds:
  fixes p x r :: int
  assumes "0 \<le> r"
  shows "min p x \<le> (p * r + x) div (r + 1) \<and> (p * r + x) div (r + 1) \<le> max p x"
proof -
  have "min p x * (r + 1) \<le> p * r + x" "p * r + x \<le> max p x * (r + 1)"
    using assms mult_right_mono [of "min p x" p r] mult_right_mono [of p "max p x" r]
    by (auto simp: algebra_simps)
  then have "min p x * (r + 1) div (r + 1) \<le> (p * r + x) div (r + 1)"
    "(p * r + x) div (r + 1) \<le> max p x * (r + 1) div (r + 1)"
    using assms by (simp_all only: zdiv_mono1)
  then show ?thesis using assms by simp
qed

interpretation demo: rtc_lib_laws demo_lib
  by unfold_locales
     (use average_bounds in \<open>auto simp: demo_lib_def join_split_on dest: split_on_no_sep\<close>)

subsection \<open>Candidates\<close>

record candidate =
  cand_component :: ice_component
  cand_protocol :: string
  cand_address :: socket_address
  cand_port :: int
  cand_priority :: u32
  cand_username :: bytes
  cand_password :: bytes
  cand_type :: string
  cand_foundation :: string

text \<open>
  The sum of the \<open>int\<close> preferences is converted to \<open>uint32_t\<close> when it is combined with the
  type preference.
\<close>

definition get_priority :: "rtc_lib \<Rightarrow> candidate \<Rightarrow> u32 \<Rightarrow> int \<Rightarrow> int \<Rightarrow> u32" where
  "get_priority lib c type_preference network_adapter_preference relay_preference =
     (let addr_ref = lib_ip_precedence lib (sa_ip (cand_address c));
          local_pref = (push_bit 8 network_adapter_preference OR addr_ref) + relay_preference
      in push_bit 24 type_preference OR of_int (push_bit 8 local_pref)
         OR of_int (256 - component_id (cand_component c)))"

lemma u32_or3:
  "uint (push_bit 24 (tp :: u32) OR of_int x OR of_int y)
     = take_bit 32 (push_bit 24 (uint tp) OR (x OR y))"
proof -
  have "uint (push_bit 24 tp) = take_bit 32 (push_bit 24 (uint tp))"
    using unsigned_push_bit_eq [of 24 tp] by simp
  moreover have "uint (of_int z :: u32) = take_bit 32 z" for z by (simp add: uint_word_of_int_eq)
  ultimately show ?thesis by (simp only: unsigned_or_eq take_bit_or or.assoc)
qed

text \<open>For preferences in their ranges the candidate priority is the formula of the comment:
  2^24 times the type preference, plus 2^8 times the local preference, plus 256 minus the
  component id; the three parts do not overlap and nothing wraps.\<close>

theorem priority_formula:
  assumes "unat tp < 256" "0 \<le> nap" "0 \<le> relay" "0 \<le> lib_ip_precedence lib (sa_ip (cand_address c))"
    "lib_ip_precedence lib (sa_ip (cand_address c)) < 256"
    "nap * 256 + lib_ip_precedence lib (sa_ip (cand_address c)) + relay < 65536"
  shows "uint (get_priority lib c tp nap relay) =
     2 ^ 24 * uint tp + 2 ^ 8 * (nap * 256 + lib_ip_precedence lib (sa_ip (cand_address c)) + relay)
       + (256 - component_id (cand_component c))"
proof -
  define p where "p = lib_ip_precedence lib (sa_ip (cand_address c))"
  define l where "l = nap * 256 + p + relay"
  define k where "k = 256 - component_id (cand_component c)"
  have k: "0 \<le> k" "k < 2 ^ 8" by (cases "cand_component c"; simp add: k_def)+
  have l: "0 \<le> l" "l < 2 ^ 16" using assms by (simp_all add: l_def p_def)
  have "uint tp = int (unat tp)" by simp
  then have tp: "0 \<le> uint tp" "uint tp < 256" using assms(1) by linarith+
  have lp: "(push_bit 8 nap OR p) + relay = l"
    using assms int_or_plus [of p 8 nap] by (simp add: l_def p_def)
  have lk: "push_bit 8 l OR k = l * 2 ^ 8 + k" using int_or_plus [of k 8 l] k by simp
  have all: "push_bit 24 (uint tp) OR (l * 2 ^ 8 + k) = uint tp * 2 ^ 24 + (l * 2 ^ 8 + k)"
    using int_or_plus [of "l * 2 ^ 8 + k" 24 "uint tp"] k l by simp
  have "uint (get_priority lib c tp nap relay)
      = take_bit 32 (push_bit 24 (uint tp) OR (push_bit 8 l OR k))"
    unfolding get_priority_def Let_def p_def [symmetric] lp k_def [symmetric] u32_or3 ..
  also have "\<dots> = uint tp * 2 ^ 24 + (l * 2 ^ 8 + k)"
    unfolding lk all by (rule take_bit_int_eq_self) (use tp k l in simp_all)
  finally show ?thesis by (simp add: l_def k_def p_def)
qed

definition demo_addr :: socket_address where
  "demo_addr = \<lparr>sa_ip = IPv4 [10, 0, 0, 1], sa_port = 9000\<rparr>"

definition demo_candidate :: candidate where
  "demo_candidate =
     \<lparr>cand_component = RTP, cand_protocol = ''udp'', cand_address = demo_addr, cand_port = 9000,
      cand_priority = 0, cand_username = [], cand_password = [], cand_type = LOCAL_PORT_TYPE,
      cand_foundation = ''1''\<rparr>"

theorem priority_formula_witness:
  "uint (get_priority demo_lib demo_candidate ICE_TYPE_PREFERENCE_HOST 0 0) =
     2 ^ 24 * uint ICE_TYPE_PREFERENCE_HOST
       + 2 ^ 8 * (0 * 256 + lib_ip_precedence demo_lib (sa_ip (cand_address demo_candidate)) + 0)
       + (256 - component_id (cand_component demo_candidate))"
  by (rule priority_formula)
     (simp_all add: demo_lib_def demo_candidate_def demo_addr_def ICE_TYPE_PREFERENCE_HOST_def)

end
