(* ===== verification/UdpPort.thy ===== *)
theory UdpPort
  imports IceDefs
begin

unbundle bit_operations_syntax

text \<open>
  The ICE port (\<open>ice/udp_port.h\<close>, \<open>ice/udp_port.cpp\<close>): its local candidate, the map from remote
  addresses to connections, and the filter for incoming STUN packets. Connections are named by
  their address on the channel's heap. The results of the socket calls are the parameter
  \<open>net\<close>; an operation that sends returns the bytes handed to the socket. The method
  \<open>_on_read_packet\<close>, which calls into the connection, is in the channel theory.
\<close>

record udp_port =
  up_transport_name :: string
  up_component :: ice_component
  up_ice_params :: ice_parameters
  up_socket :: int
  up_has_async :: bool
  up_local_addr :: socket_address
  up_candidates :: "candidate list"
  up_connections :: "socket_address \<Rightarrow> nat option"

definition new_udp_port :: "string \<Rightarrow> ice_component \<Rightarrow> ice_parameters \<Rightarrow> udp_port" where
  "new_udp_port name component params =
     \<lparr>up_transport_name = name, up_component = component, up_ice_params = params, up_socket = - 1,
      up_has_async = False, up_local_addr = \<lparr>sa_ip = IPUnspec, sa_port = 0\<rparr>, up_candidates = [],
      up_connections = (\<lambda>_. None)\<rparr>"

definition compute_foundation ::
  "byte_io \<Rightarrow> rtc_lib \<Rightarrow> string \<Rightarrow> string \<Rightarrow> string \<Rightarrow> socket_address \<Rightarrow> string" where
  "compute_foundation io lib ty protocol relay_protocol base =
     show_nat (unat (crc32 io (bytes_of
       (ty @ lib_host_uri lib (sa_ip base) @ protocol @ relay_protocol))))"

text \<open>What the socket functions return for the new socket.\<close>

record net_results =
  net_socket :: int
  net_nonblock :: int
  net_bind :: int
  net_address :: "int option"

definition create_ice_candidate ::
  "byte_io \<Rightarrow> rtc_lib \<Rightarrow> net_results \<Rightarrow> ip_address \<Rightarrow> candidate \<Rightarrow> udp_port
     \<Rightarrow> int \<times> candidate \<times> udp_port" where
  "create_ice_candidate io lib net ip c p =
     (let p1 = p\<lparr>up_socket := net_socket net\<rparr> in
      if net_socket net < 0 then (- 1, c, p1)
      else if net_nonblock net \<noteq> 0 then (- 1, c, p1)
      else if net_bind net \<noteq> 0 then (- 1, c, p1)
      else (case net_address net of
              None \<Rightarrow> (- 1, c, p1)
            | Some port \<Rightarrow>
                (let addr = \<lparr>sa_ip = ip, sa_port = of_int port\<rparr>;
                     c1 = c\<lparr>cand_component := up_component p, cand_protocol := ''udp'',
                            cand_address := addr, cand_port := port\<rparr>;
                     c2 = c1\<lparr>cand_priority := get_priority lib c1 ICE_TYPE_PREFERENCE_HOST 0 0,
                             cand_username := ice_ufrag (up_ice_params p),
                             cand_password := ice_pwd (up_ice_params p),
                             cand_type := LOCAL_PORT_TYPE\<rparr>;
                     c3 = c2\<lparr>cand_foundation := compute_foundation io lib (cand_type c2)
                               (cand_protocol c2) '''' (cand_address c2)\<rparr>
                 in (0, c3, p1\<lparr>up_local_addr := addr, up_has_async := True,
                               up_candidates := up_candidates p @ [c3]\<rparr>))))"

text \<open>\<open>create_connection\<close>: the map entry; the newest connection replaces an older one.\<close>

definition port_add_connection :: "socket_address \<Rightarrow> nat \<Rightarrow> udp_port \<Rightarrow> udp_port" where
  "port_add_connection addr a p =
     p\<lparr>up_connections := (up_connections p)(addr \<mapsto> a)\<rparr>"

definition get_connection :: "socket_address \<Rightarrow> udp_port \<Rightarrow> nat option" where
  "get_connection addr p = up_connections p addr"

definition create_stun_username :: "udp_port \<Rightarrow> bytes \<Rightarrow> bytes" where
  "create_stun_username p remote_username =
     remote_username @ bytes_of '':'' @ ice_ufrag (up_ice_params p)"

definition parse_stun_username :: "rtc_lib \<Rightarrow> stun_message \<Rightarrow> bool \<times> bytes \<times> bytes" where
  "parse_stun_username lib m =
     (case get_byte_string STUN_ATTR_USERNAME m of
        None \<Rightarrow> (False, [], [])
      | Some a \<Rightarrow>
          (case lib_split lib (get_string a) 58 of
             [l, r] \<Rightarrow> (True, l, r)
           | _ \<Rightarrow> (False, [], [])))"

definition send_binding_error_response ::
  "byte_io \<Rightarrow> udp_port \<Rightarrow> stun_message \<Rightarrow> int \<Rightarrow> bytes \<Rightarrow> bytes option" where
  "send_binding_error_response io p m err_code reason =
     (if \<not> up_has_async p then None
      else
        (let r0 = new_stun_message\<lparr>msg_type := STUN_BINDING_ERROR_RESPONSE,
                                    msg_transaction_id := msg_transaction_id m\<rparr>;
             r1 = add_attribute (set_reason reason (set_code err_code create_error_code)) r0;
             r2 = (if err_code \<noteq> STUN_ERROR_BAD_REQUEST \<and> err_code \<noteq> STUN_ERROR_UNAUTHORIZED
                   then snd (add_message_integrity io (ice_pwd (up_ice_params p)) r1) else r1);
             r3 = snd (add_fingerprint io r2)
         in stun_write io r3))"

text \<open>
  The result: the value returned, the message and the user name handed out, and the error
  response sent. \<open>None\<close> is the over-read of the integrity check.
\<close>

definition get_stun_message ::
  "byte_io \<Rightarrow> rtc_lib \<Rightarrow> udp_port \<Rightarrow> bytes \<Rightarrow> bytes
     \<Rightarrow> (bool \<times> stun_message option \<times> bytes \<times> bytes option) option" where
  "get_stun_message io lib p data username =
     (if \<not> validate_fingerprint io data then Some (False, None, username, None)
      else
        (case stun_read io data of
           None \<Rightarrow> None
         | Some None \<Rightarrow> Some (False, None, [], None)
         | Some (Some m) \<Rightarrow>
             if msg_type m = STUN_BINDING_REQUEST
             then
               (if get_byte_string STUN_ATTR_USERNAME m = None
                   \<or> get_byte_string STUN_ATTR_MESSAGE_INTEGRITY m = None
                then Some (True, None, [],
                       send_binding_error_response io p m STUN_ERROR_BAD_REQUEST
                         STUN_ERROR_REASON_BAD_QEQUEST)
                else
                  (let (parsed, local_ufrag, remote_ufrag) = parse_stun_username lib m in
                   if \<not> parsed \<or> local_ufrag \<noteq> ice_ufrag (up_ice_params p)
                   then Some (True, None, [],
                          send_binding_error_response io p m STUN_ERROR_UNAUTHORIZED
                            STUN_ERROR_REASON_UNAUTHORIZED)
                   else
                     (case validate_message_integrity io (ice_pwd (up_ice_params p)) m of
                        None \<Rightarrow> None
                      | Some (st, m') \<Rightarrow>
                          if st \<noteq> k_integrity_ok
                          then Some (True, None, [],
                                 send_binding_error_response io p m' STUN_ERROR_UNAUTHORIZED
                                   STUN_ERROR_REASON_UNAUTHORIZED)
                          else Some (True, Some m', remote_ufrag, None))))
             else Some (True, Some m, [], None)))"

text \<open>
  The binding request a connection sends (\<open>ConnectionRequest::prepare\<close> of
  \<open>ice/ice_connection.cpp\<close>): \<open>remote\<close> is the candidate of the peer and \<open>local\<close> the first
  candidate of the port.
\<close>

definition prflx_priority :: "candidate \<Rightarrow> u32" where
  "prflx_priority local =
     push_bit 24 ICE_TYPE_PREFERENCE_PRFLX OR (cand_priority local AND 0x00FFFFFF)"

definition request_prepare ::
  "byte_io \<Rightarrow> udp_port \<Rightarrow> candidate \<Rightarrow> candidate \<Rightarrow> stun_message \<Rightarrow> stun_message" where
  "request_prepare io p remote local msg =
     (let m0 = msg\<lparr>msg_type := STUN_BINDING_REQUEST\<rparr>;
          username = create_stun_username p (cand_username remote);
          m1 = add_attribute (byte_string_attr STUN_ATTR_USERNAME username) m0;
          m2 = add_attribute (uint64_attr STUN_ATTR_ICE_CONTROLLING 0) m1;
          m3 = add_attribute (byte_string_len_attr STUN_ATTR_USE_CANDIDATE 0) m2;
          m4 = add_attribute (uint32_attr STUN_ATTR_PRIORITY (prflx_priority local)) m3;
          m5 = snd (add_message_integrity io (cand_password remote) m4)
      in snd (add_fingerprint io m5))"

subsection \<open>Only authenticated requests pass\<close>

lemma validate_ok_fields:
  "validate_message_integrity io pw m = Some (st, m') \<Longrightarrow>
     msg_integrity m' = st \<and> msg_type m' = msg_type m \<and> msg_transaction_id m' = msg_transaction_id m
     \<and> msg_attrs m' = msg_attrs m \<and> msg_buffer m' = msg_buffer m"
  by (auto simp: validate_message_integrity_def Let_def split: option.splits if_splits)

lemma request_checked:
  assumes "get_stun_message io lib p data u0 = Some (True, Some m, u, out)"
    and "msg_type m = STUN_BINDING_REQUEST"
  shows "integrity_ok m \<and> parse_stun_username lib m = (True, ice_ufrag (up_ice_params p), u)
     \<and> get_byte_string STUN_ATTR_MESSAGE_INTEGRITY m \<noteq> None
     \<and> validate_message_integrity_of_type io STUN_ATTR_MESSAGE_INTEGRITY
          k_stun_message_integrity_size data (ice_pwd (up_ice_params p)) = Some True
     \<and> validate_fingerprint io data \<and> out = None"
proof -
  obtain r where fp: "validate_fingerprint io data" and rd: "stun_read io data = Some (Some r)"
    using assms(1) by (auto simp: get_stun_message_def split: if_splits option.splits)
  show ?thesis
  proof (cases "msg_type r = STUN_BINDING_REQUEST")
    case False
    then have "m = r" using assms(1) fp rd by (simp add: get_stun_message_def)
    then show ?thesis using False assms(2) by simp
  next
    case True
    obtain b l ru where pu: "parse_stun_username lib r = (b, l, ru)" by (metis prod_cases3)
    obtain st m' where v: "validate_message_integrity io (ice_pwd (up_ice_params p)) r = Some (st, m')"
      and eq: "st = k_integrity_ok" "m = m'" "u = ru" "out = None" "b" "l = ice_ufrag (up_ice_params p)"
      and mi: "get_byte_string STUN_ATTR_MESSAGE_INTEGRITY r \<noteq> None"
      using assms(1) fp rd True pu
      by (auto simp: get_stun_message_def Let_def split: if_splits option.splits prod.splits)
    have f: "msg_integrity m' = st" "msg_attrs m' = msg_attrs r"
      using validate_ok_fields [OF v] by simp_all
    then have g: "get_byte_string t m' = get_byte_string t r" for t
      by (simp add: get_byte_string_def get_attribute_def)
    then have pe: "parse_stun_username lib m' = parse_stun_username lib r"
      by (simp add: parse_stun_username_def)
    have buf: "msg_buffer r = data" using stun_read_typed (2) [OF rd] .
    have "validate_message_integrity_of_type io STUN_ATTR_MESSAGE_INTEGRITY
          k_stun_message_integrity_size data (ice_pwd (up_ice_params p)) = Some True"
      using v eq(1) buf
      by (auto simp: validate_message_integrity_def Let_def split: if_splits option.splits)
    then show ?thesis using eq fp f g mi pe pu by (simp add: integrity_ok_def)
  qed
qed

lemma request_is_parsed:
  assumes "get_stun_message io lib p data u0 = Some (True, Some m, u, out)"
    and "msg_type m = STUN_BINDING_REQUEST"
  shows "\<exists>r. stun_read io data = Some (Some r)
     \<and> m = r\<lparr>msg_password := ice_pwd (up_ice_params p), msg_integrity := k_integrity_ok\<rparr>"
proof -
  obtain r where rd: "validate_fingerprint io data" "stun_read io data = Some (Some r)"
    using assms(1) by (auto simp: get_stun_message_def split: if_splits option.splits)
  have "msg_type r = STUN_BINDING_REQUEST"
  proof (rule ccontr)
    assume "msg_type r \<noteq> STUN_BINDING_REQUEST"
    then show False using assms rd by (simp add: get_stun_message_def)
  qed
  then have "validate_message_integrity io (ice_pwd (up_ice_params p)) r = Some (k_integrity_ok, m)"
    using assms(1) rd by (auto simp: get_stun_message_def Let_def split: if_splits option.splits prod.splits)
  then have "m = r\<lparr>msg_password := ice_pwd (up_ice_params p), msg_integrity := k_integrity_ok\<rparr>"
    by (auto simp: validate_message_integrity_def Let_def split: if_splits option.splits)
  then show ?thesis using rd(2) by blast
qed

text \<open>C14: A binding request that \<open>get_stun_message\<close> hands out is the message parsed from the packet
  (with the port's password stored in it and its integrity marked as checked): it carries the port's own
  user fragment and the returned remote fragment, the packet's MESSAGE-INTEGRITY is valid under the port's
  password and its FINGERPRINT is valid, and no error response was sent for it.\<close>

theorem requests_authenticated:
  assumes "get_stun_message io lib p data u0 = Some (True, Some m, u, out)"
    and "msg_type m = STUN_BINDING_REQUEST"
  shows "(\<exists>r. stun_read io data = Some (Some r)
       \<and> m = r\<lparr>msg_password := ice_pwd (up_ice_params p), msg_integrity := k_integrity_ok\<rparr>)
     \<and> integrity_ok m \<and> parse_stun_username lib m = (True, ice_ufrag (up_ice_params p), u)
     \<and> get_byte_string STUN_ATTR_MESSAGE_INTEGRITY m \<noteq> None
     \<and> validate_message_integrity_of_type io STUN_ATTR_MESSAGE_INTEGRITY
          k_stun_message_integrity_size data (ice_pwd (up_ice_params p)) = Some True
     \<and> validate_fingerprint io data \<and> out = None"
  using request_is_parsed [OF assms] request_checked [OF assms] by (rule conjI)

subsection \<open>Every rejected request is answered\<close>

context byte_io_laws
begin

lemma fingerprinted_message:
  assumes wf: "msg_wf m" "msg_typed m" and L: "attrs_span (msg_attrs m) + 8 < 65536"
  shows "\<exists>m' b r. add_fingerprint io m = (True, m') \<and> stun_write io m' = Some b \<and> validate_fingerprint io b
     \<and> stun_read io b = Some (Some r) \<and> msg_type r = msg_type m \<and> msg_transaction_id r = msg_transaction_id m"
proof -
  obtain w where w: "write_attrs io (msg_attrs m) = Some w"
    using write_attrs_wf [of "msg_attrs m"] wf by (auto simp: msg_wf_def)
  from fingerprinted_parse [OF wf L w] show ?thesis by (fastforce simp: parsed_of_def with_fields)
qed

text \<open>The error response before its integrity and fingerprint.\<close>

lemma error_response_base:
  fixes c :: int
  assumes tid: "length tid = 12" and r: "length reason \<le> 1000"
  defines "m \<equiv> add_attribute (set_reason reason (set_code c create_error_code))
      (new_stun_message\<lparr>msg_type := STUN_BINDING_ERROR_RESPONSE, msg_transaction_id := tid\<rparr>)"
  shows "msg_wf m" "msg_typed m" "attrs_span (msg_attrs m) \<le> 1012"
    "\<forall>a \<in> set (msg_attrs m). attr_type a \<noteq> STUN_ATTR_MESSAGE_INTEGRITY"
    "msg_type m = STUN_BINDING_ERROR_RESPONSE" "msg_transaction_id m = tid"
proof -
  define at where "at = set_reason reason (set_code c create_error_code)"
  have e: "unat (4 + of_nat (length reason) :: u16) = 4 + length reason"
    using unat_of_nat_u16 [of "4 + length reason"] r by simp
  have at: "attr_type at = STUN_ATTR_ERROR_CODE" "unat (attr_length at) = 4 + length reason" "attr_wf at"
    using r e by (auto simp: at_def set_reason_def set_code_def create_error_code_def
        error_MIN_SIZE_def attr_wf_def)
  have sp: "attr_span at \<le> 1012"
    using r at(2) pad4_less [of "4 + length reason"] unfolding attr_span_def by simp
  have m: "msg_attrs m = [at]" by (simp add: m_def at_def new_stun_message_def)
  show "msg_wf m"
    unfolding m_def at_def [symmetric] by (rule add_attribute_wf)
      (use tid at sp in \<open>simp_all add: msg_wf_def new_stun_message_def STUN_BINDING_ERROR_RESPONSE_def\<close>)
  show "msg_typed m"
    using at(1) by (simp add: msg_typed_def m attr_typed_def get_attribute_value_type_def stun_types)
  show "attrs_span (msg_attrs m) \<le> 1012" using sp by (simp add: m)
  show "\<forall>a \<in> set (msg_attrs m). attr_type a \<noteq> STUN_ATTR_MESSAGE_INTEGRITY"
    using at(1) by (simp add: m stun_types)
qed (simp_all add: m_def)

lemma error_response_written:
  assumes tid: "length (msg_transaction_id m) = 12" and a: "up_has_async p"
    and c: "0 \<le> c" "c < 25600" and r: "length reason \<le> 1000"
  shows "\<exists>b r. send_binding_error_response io p m c reason = Some b
     \<and> validate_fingerprint io b \<and> stun_read io b = Some (Some r)
     \<and> msg_type r = STUN_BINDING_ERROR_RESPONSE \<and> msg_transaction_id r = msg_transaction_id m"
proof -
  define r1 where "r1 = add_attribute (set_reason reason (set_code c create_error_code))
      (new_stun_message\<lparr>msg_type := STUN_BINDING_ERROR_RESPONSE, msg_transaction_id := msg_transaction_id m\<rparr>)"
  note base = error_response_base [OF tid r, of c, folded r1_def]
  show ?thesis
  proof (cases "c \<noteq> STUN_ERROR_BAD_REQUEST \<and> c \<noteq> STUN_ERROR_UNAUTHORIZED")
    case True
    have L: "attrs_span (msg_attrs r1) + 32 < 65536" using base(3) by simp
    from protected_message [OF base(1,2) L base(4), of "ice_pwd (up_ice_params p)"] True a base(5,6)
    show ?thesis by (auto simp: send_binding_error_response_def r1_def [symmetric])
  next
    case False
    have L: "attrs_span (msg_attrs r1) + 8 < 65536" using base(3) by simp
    from fingerprinted_message [OF base(1,2) L] False a base(5,6)
    show ?thesis by (auto simp: send_binding_error_response_def r1_def [symmetric])
  qed
qed

lemma fingerprinted_tid:
  assumes "validate_fingerprint io data" "stun_read io data = Some (Some m)"
  shows "length (msg_transaction_id m) = 12"
proof -
  obtain ty b1 len b2 where 1: "rd_u16 io data = Some (ty, b1)" and 2: "rd_u16 io b1 = Some (len, b2)"
    and 4: "4 \<le> length b2" and 12: "12 \<le> length b2 - 4"
    and tid: "msg_transaction_id m =
      (if ntoh32 io (take 4 b2) \<noteq> k_stun_magic_cookie then take 4 b2 @ take 12 (drop 4 b2)
       else take 12 (drop 4 b2))"
    using assms(2)
    by (auto simp: stun_read_def Let_def stun_consts rd_bytes_eq new_stun_message_def
        split: option.splits if_splits prod.splits)
  have d: "drop 4 data = b2"
    using rd16_Some [OF 1] rd16_Some [OF 2] by (simp add: len_wr16)
  obtain v r where "rd_u32 io b2 = Some (v, r)" using rd32_enough [OF 4] by force
  then have b2: "b2 = wr_u32 io v @ r" by (rule rd32_Some)
  have "get_be32 io (drop 4 data) = k_stun_magic_cookie"
    using assms(1) by (auto simp: validate_fingerprint_def Let_def stun_consts split: if_splits)
  then have "v = k_stun_magic_cookie" unfolding d b2 by (simp add: get32_wr32)
  then have "ntoh32 io (take 4 b2) = k_stun_magic_cookie" by (simp add: b2 len_wr32 ntoh_wr32)
  then show ?thesis using tid 4 12 by (simp add: min_def)
qed

lemma rejected_answered:
  assumes a: "up_has_async p" and g: "get_stun_message io lib p data u0 = Some (True, None, u, out)"
  shows "\<exists>m b r. stun_read io data = Some (Some m) \<and> msg_type m = STUN_BINDING_REQUEST
     \<and> out = Some b \<and> validate_fingerprint io b \<and> stun_read io b = Some (Some r)
     \<and> msg_type r = STUN_BINDING_ERROR_RESPONSE \<and> msg_transaction_id r = msg_transaction_id m"
proof -
  obtain m where fp: "validate_fingerprint io data" and rd: "stun_read io data = Some (Some m)"
    and ty: "msg_type m = STUN_BINDING_REQUEST"
    using g by (auto simp: get_stun_message_def split: if_splits option.splits)
  have t: "length (msg_transaction_id m) = 12" by (rule fingerprinted_tid [OF fp rd])
  obtain m' c reason where out: "out = send_binding_error_response io p m' c reason"
    and m': "msg_transaction_id m' = msg_transaction_id m"
    and c: "0 \<le> c" "c < 25600" "length reason \<le> 1000"
  proof (cases "get_byte_string STUN_ATTR_USERNAME m = None
                \<or> get_byte_string STUN_ATTR_MESSAGE_INTEGRITY m = None")
    case True
    then have "out = send_binding_error_response io p m STUN_ERROR_BAD_REQUEST
                       STUN_ERROR_REASON_BAD_QEQUEST"
      using g fp rd ty by (simp add: get_stun_message_def)
    then show ?thesis
      by (rule that) (simp_all add: STUN_ERROR_BAD_REQUEST_def STUN_ERROR_REASON_BAD_QEQUEST_def)
  next
    case False
    obtain b l ru where pu: "parse_stun_username lib m = (b, l, ru)" by (metis prod_cases3)
    have "\<exists>m'. out = send_binding_error_response io p m' STUN_ERROR_UNAUTHORIZED
              STUN_ERROR_REASON_UNAUTHORIZED \<and> msg_transaction_id m' = msg_transaction_id m"
    proof (cases "\<not> b \<or> l \<noteq> ice_ufrag (up_ice_params p)")
      case True
      then show ?thesis using g fp rd ty False pu by (auto simp: get_stun_message_def Let_def)
    next
      case good: False
      obtain st m' where v: "validate_message_integrity io (ice_pwd (up_ice_params p)) m = Some (st, m')"
        using g fp rd ty False pu good by (auto simp: get_stun_message_def Let_def split: option.splits)
      then have "out = send_binding_error_response io p m' STUN_ERROR_UNAUTHORIZED
              STUN_ERROR_REASON_UNAUTHORIZED"
        using g fp rd ty False pu good by (auto simp: get_stun_message_def Let_def split: if_splits)
      then show ?thesis using validate_ok_fields [OF v] by blast
    qed
    then show ?thesis
      using that by (auto simp: STUN_ERROR_UNAUTHORIZED_def STUN_ERROR_REASON_UNAUTHORIZED_def)
  qed
  have t': "length (msg_transaction_id m') = 12" using t m' by simp
  show ?thesis using error_response_written [OF t' a c] out m' rd ty by auto
qed

end

subsection \<open>A connection's request is accepted by its peer\<close>

lemma find_filter: "(\<And>x. P x \<Longrightarrow> Q x) \<Longrightarrow> find P (filter Q xs) = find P xs"
  by (induction xs) auto

definition base_request :: "udp_port \<Rightarrow> candidate \<Rightarrow> candidate \<Rightarrow> stun_message \<Rightarrow> stun_message" where
  "base_request p remote local msg =
     add_attribute (uint32_attr STUN_ATTR_PRIORITY (prflx_priority local))
      (add_attribute (byte_string_len_attr STUN_ATTR_USE_CANDIDATE 0)
       (add_attribute (uint64_attr STUN_ATTR_ICE_CONTROLLING 0)
        (add_attribute (byte_string_attr STUN_ATTR_USERNAME (create_stun_username p (cand_username remote)))
         (msg\<lparr>msg_type := STUN_BINDING_REQUEST\<rparr>))))"

lemma base_request_facts:
  fixes local :: candidate
  assumes msg: "msg_attrs msg = []" "msg_length msg = 0" "length (msg_transaction_id msg) = 12"
    and len: "length (cand_username remote) + length (ice_ufrag (up_ice_params p)) \<le> 1000"
  defines "m \<equiv> base_request p remote local msg"
    and "name \<equiv> create_stun_username p (cand_username remote)"
  shows "msg_wf m" "msg_typed m" "attrs_span (msg_attrs m) + 32 < 65536"
    "msg_type m = STUN_BINDING_REQUEST" "msg_transaction_id m = msg_transaction_id msg"
    "msg_attrs m = [byte_string_attr STUN_ATTR_USERNAME name, uint64_attr STUN_ATTR_ICE_CONTROLLING 0,
       byte_string_len_attr STUN_ATTR_USE_CANDIDATE 0,
       uint32_attr STUN_ATTR_PRIORITY (prflx_priority local)]"
proof -
  let ?u = "byte_string_attr STUN_ATTR_USERNAME name"
  have l: "length name \<le> 1001" using len by (simp add: name_def create_stun_username_def)
  then have ul: "unat (attr_length ?u) = length name" "attr_wf ?u"
    by (simp_all add: byte_string_attr_def copy_bytes_def attr_wf_def)
  have us: "attr_span ?u \<le> 1008"
    using l ul(1) pad4_less [of "length name"] unfolding attr_span_def by simp
  have m: "m = add_attribute (uint32_attr STUN_ATTR_PRIORITY (prflx_priority local))
      (add_attribute (byte_string_len_attr STUN_ATTR_USE_CANDIDATE 0)
       (add_attribute (uint64_attr STUN_ATTR_ICE_CONTROLLING 0)
        (add_attribute ?u (msg\<lparr>msg_type := STUN_BINDING_REQUEST\<rparr>))))"
    by (simp add: m_def base_request_def name_def)
  show at: "msg_attrs m = [?u, uint64_attr STUN_ATTR_ICE_CONTROLLING 0,
       byte_string_len_attr STUN_ATTR_USE_CANDIDATE 0,
       uint32_attr STUN_ATTR_PRIORITY (prflx_priority local)]"
    using msg by (simp add: m)
  have sp: "attr_span (uint64_attr STUN_ATTR_ICE_CONTROLLING 0) = 12"
    "attr_span (byte_string_len_attr STUN_ATTR_USE_CANDIDATE 0) = 4"
    "attr_span (uint32_attr STUN_ATTR_PRIORITY v) = 8" for v
    by (simp_all add: attr_span_def uint64_attr_def byte_string_len_attr_def uint32_attr_def)
  have w: "attr_wf (uint64_attr STUN_ATTR_ICE_CONTROLLING 0)"
    "attr_wf (byte_string_len_attr STUN_ATTR_USE_CANDIDATE 0)"
    "attr_wf (uint32_attr STUN_ATTR_PRIORITY v)" for v
    by (simp_all add: attr_wf_def uint64_attr_def byte_string_len_attr_def uint32_attr_def)
  have "msg_wf (msg\<lparr>msg_type := STUN_BINDING_REQUEST\<rparr>)"
    using msg by (simp add: msg_wf_def STUN_BINDING_REQUEST_def)
  then show "msg_wf m"
    unfolding m by (intro add_attribute_wf w ul(2)) (use us msg in \<open>simp_all add: sp\<close>)
  show "attrs_span (msg_attrs m) + 32 < 65536" using us by (simp add: at sp)
  show "msg_typed m"
    by (simp add: at msg_typed_def attr_typed_def byte_string_attr_def copy_bytes_def
        uint64_attr_def byte_string_len_attr_def uint32_attr_def get_attribute_value_type_def stun_types)
  show "msg_type m = STUN_BINDING_REQUEST" "msg_transaction_id m = msg_transaction_id msg"
    by (simp_all add: m)
qed

text \<open>The request as its receiver reads it: what the known attributes say.\<close>

lemma request_readable:
  fixes local :: candidate
  assumes io: "byte_io_laws io"
    and msg: "msg_attrs msg = []" "msg_length msg = 0" "length (msg_transaction_id msg) = 12"
    and len: "length (cand_username remote) + length (ice_ufrag (up_ice_params p)) \<le> 1000"
  defines "name \<equiv> create_stun_username p (cand_username remote)"
  obtains data r m where "stun_write io (request_prepare io p remote local msg) = Some data"
    "validate_fingerprint io data" "stun_read io data = Some (Some r)"
    "msg_type r = STUN_BINDING_REQUEST" "msg_transaction_id r = msg_transaction_id msg"
    "validate_message_integrity io (cand_password remote) r = Some (k_integrity_ok, m)"
    "get_byte_string STUN_ATTR_USERNAME r = Some (byte_string_attr STUN_ATTR_USERNAME name)"
    "get_uint32 STUN_ATTR_PRIORITY r = Some (uint32_attr STUN_ATTR_PRIORITY (prflx_priority local))"
proof -
  define b where "b = base_request p remote local msg"
  note facts = base_request_facts [OF msg len, of local, folded b_def name_def]
  have "\<forall>a \<in> set (msg_attrs b). attr_type a \<noteq> STUN_ATTR_MESSAGE_INTEGRITY"
    by (simp add: facts byte_string_attr_def copy_bytes_def uint64_attr_def
        byte_string_len_attr_def uint32_attr_def stun_types)
  from byte_io_laws.protected_message [OF io facts(1-3) this, of "cand_password remote"]
  obtain m1 m2 data r s where
    1: "add_message_integrity io (cand_password remote) b = (True, m1)"
      "add_fingerprint io m1 = (True, m2)" "stun_write io m2 = Some data"
    and 2: "validate_fingerprint io data" "stun_read io data = Some (Some r)"
      "msg_type r = STUN_BINDING_REQUEST" "msg_transaction_id r = msg_transaction_id msg"
    and fl: "filter (\<lambda>a. attr_type a \<noteq> STUN_ATTR_MESSAGE_INTEGRITY) (msg_attrs r)
         = filter attr_known (msg_attrs b)"
    and v: "\<And>pw'. map_option fst (validate_message_integrity io pw' r) =
          Some (if hmac_sha1 io (cand_password remote) s = hmac_sha1 io pw' s
                then k_integrity_ok else k_integrity_bad)"
    unfolding facts by blast
  have prep: "request_prepare io p remote local msg = m2"
    using 1 unfolding request_prepare_def b_def base_request_def name_def by (simp add: Let_def)
  obtain m where m: "validate_message_integrity io (cand_password remote) r = Some (k_integrity_ok, m)"
    using v [of "cand_password remote"] by auto
  have kn: "filter attr_known (msg_attrs b) = [byte_string_attr STUN_ATTR_USERNAME name,
      uint32_attr STUN_ATTR_PRIORITY (prflx_priority local)]"
    by (simp add: facts attr_known_def byte_string_attr_def copy_bytes_def uint64_attr_def
        byte_string_len_attr_def uint32_attr_def get_attribute_value_type_def stun_types)
  have ga: "get_attribute t r = find (\<lambda>a. attr_type a = t) [byte_string_attr STUN_ATTR_USERNAME name,
      uint32_attr STUN_ATTR_PRIORITY (prflx_priority local)]"
    if "t \<noteq> STUN_ATTR_MESSAGE_INTEGRITY" for t
    using that find_filter [of "\<lambda>a. attr_type a = t"
        "\<lambda>a. attr_type a \<noteq> STUN_ATTR_MESSAGE_INTEGRITY" "msg_attrs r"]
    by (simp add: get_attribute_def fl kn)
  have "get_byte_string STUN_ATTR_USERNAME r = Some (byte_string_attr STUN_ATTR_USERNAME name)"
    "get_uint32 STUN_ATTR_PRIORITY r = Some (uint32_attr STUN_ATTR_PRIORITY (prflx_priority local))"
    by (simp_all add: get_byte_string_def get_uint32_def ga stun_types byte_string_attr_def copy_bytes_def
        uint32_attr_def)
  then show ?thesis using that 1(3) 2 m unfolding prep by blast
qed

lemma request_accepted:
  assumes io: "byte_io_laws io" and lib: "rtc_lib_laws lib"
    and msg: "msg_attrs msg = []" "msg_length msg = 0" "length (msg_transaction_id msg) = 12"
    and len: "length (cand_username remote) + length (ice_ufrag (up_ice_params p)) \<le> 1000"
    and sep: "58 \<notin> set (cand_username remote)" "58 \<notin> set (ice_ufrag (up_ice_params p))"
    and cred: "up_ice_params q = \<lparr>ice_ufrag = cand_username remote, ice_pwd = cand_password remote\<rparr>"
  shows "\<exists>data m. stun_write io (request_prepare io p remote local msg) = Some data
     \<and> get_stun_message io lib q data u0 = Some (True, Some m, ice_ufrag (up_ice_params p), None)
     \<and> msg_type m = STUN_BINDING_REQUEST \<and> msg_transaction_id m = msg_transaction_id msg
     \<and> get_uint32 STUN_ATTR_PRIORITY m = Some (uint32_attr STUN_ATTR_PRIORITY (prflx_priority local))"
proof -
  define name where "name = create_stun_username p (cand_username remote)"
  obtain data r m where 1: "stun_write io (request_prepare io p remote local msg) = Some data"
    and fp: "validate_fingerprint io data" and rd: "stun_read io data = Some (Some r)"
    and ty: "msg_type r = STUN_BINDING_REQUEST" "msg_transaction_id r = msg_transaction_id msg"
    and m: "validate_message_integrity io (cand_password remote) r = Some (k_integrity_ok, m)"
    and un: "get_byte_string STUN_ATTR_USERNAME r = Some (byte_string_attr STUN_ATTR_USERNAME name)"
    and pr: "get_uint32 STUN_ATTR_PRIORITY r = Some (uint32_attr STUN_ATTR_PRIORITY (prflx_priority local))"
    using request_readable [OF io msg len, of local] unfolding name_def by blast
  have mi: "get_byte_string STUN_ATTR_MESSAGE_INTEGRITY r \<noteq> None"
    using m by (auto simp: validate_message_integrity_def Let_def get_byte_string_def
        get_attribute_def split: if_splits)
  have "length name \<le> 1001" using len by (simp add: name_def create_stun_username_def)
  then have "get_string (byte_string_attr STUN_ATTR_USERNAME name) = name"
    by (simp add: get_string_def byte_string_attr_def copy_bytes_def)
  moreover have "lib_split lib name 58 = [cand_username remote, ice_ufrag (up_ice_params p)]"
    using rtc_lib_laws.split_pair [OF lib sep]
    by (simp add: name_def create_stun_username_def bytes_of_def)
  ultimately have pu: "parse_stun_username lib r =
      (True, cand_username remote, ice_ufrag (up_ice_params p))"
    by (simp add: parse_stun_username_def un)
  have "get_stun_message io lib q data u0 = Some (True, Some m, ice_ufrag (up_ice_params p), None)"
    using fp rd ty un mi pu m by (simp add: get_stun_message_def cred)
  moreover have "msg_type m = STUN_BINDING_REQUEST" "msg_transaction_id m = msg_transaction_id msg"
    "msg_attrs m = msg_attrs r"
    using validate_ok_fields [OF m] ty by simp_all
  ultimately show ?thesis using 1 pr by (auto simp: get_uint32_def get_attribute_def)
qed

text \<open>The binding request that \<open>ConnectionRequest::prepare\<close> makes for a peer candidate is
  accepted by a port that has that candidate's user name and password: the port hands out the
  request, with the sender's user fragment as the remote fragment and the peer-reflexive priority
  of the sender, and sends no error. The fragments hold no colon and are at most 1000 bytes.\<close>

theorem prepared_request_accepted:
  assumes "byte_io_laws io" "rtc_lib_laws lib"
    and "msg_attrs msg = []" "msg_length msg = 0" "length (msg_transaction_id msg) = 12"
    and "length (cand_username remote) + length (ice_ufrag (up_ice_params p)) \<le> 1000"
    and "58 \<notin> set (cand_username remote)" "58 \<notin> set (ice_ufrag (up_ice_params p))"
    and "up_ice_params q = \<lparr>ice_ufrag = cand_username remote, ice_pwd = cand_password remote\<rparr>"
  shows "\<exists>data m. stun_write io (request_prepare io p remote local msg) = Some data
     \<and> get_stun_message io lib q data u0 = Some (True, Some m, ice_ufrag (up_ice_params p), None)
     \<and> msg_type m = STUN_BINDING_REQUEST \<and> msg_transaction_id m = msg_transaction_id msg
     \<and> get_uint32 STUN_ATTR_PRIORITY m = Some (uint32_attr STUN_ATTR_PRIORITY (prflx_priority local))"
  by (rule request_accepted [OF assms])

definition demo_port :: udp_port where
  "demo_port = (new_udp_port ''audio'' RTP \<lparr>ice_ufrag = bytes_of ''abcd'', ice_pwd = bytes_of ''pw1''\<rparr>)
     \<lparr>up_has_async := True, up_candidates := [demo_candidate]\<rparr>"

definition demo_peer :: udp_port where
  "demo_peer = (new_udp_port ''audio'' RTP \<lparr>ice_ufrag = bytes_of ''wxyz'', ice_pwd = bytes_of ''pw2''\<rparr>)
     \<lparr>up_has_async := True\<rparr>"

definition demo_remote :: candidate where
  "demo_remote = demo_candidate\<lparr>cand_username := bytes_of ''wxyz'', cand_password := bytes_of ''pw2''\<rparr>"

lemmas demo_port_defs = demo_port_def demo_peer_def demo_remote_def new_udp_port_def bytes_of_def

theorem prepared_request_accepted_witness:
  "\<exists>data m. stun_write be_io (request_prepare be_io demo_port demo_remote demo_candidate new_stun_message)
       = Some data
     \<and> get_stun_message be_io demo_lib demo_peer data [] =
         Some (True, Some m, ice_ufrag (up_ice_params demo_port), None)
     \<and> msg_type m = STUN_BINDING_REQUEST
     \<and> msg_transaction_id m = msg_transaction_id new_stun_message
     \<and> get_uint32 STUN_ATTR_PRIORITY m =
         Some (uint32_attr STUN_ATTR_PRIORITY (prflx_priority demo_candidate))"
  by (rule prepared_request_accepted [OF be.byte_io_laws_axioms demo.rtc_lib_laws_axioms])
     (simp_all add: demo_port_defs new_stun_message_def EMPTY_TRANSACTION_ID_def)

lemma demo_accepted:
  "\<exists>data m. get_stun_message be_io demo_lib demo_peer data [] =
       Some (True, Some m, bytes_of ''abcd'', None) \<and> msg_type m = STUN_BINDING_REQUEST"
proof -
  have "ice_ufrag (up_ice_params demo_port) = bytes_of ''abcd''"
    by (simp add: demo_port_defs)
  then show ?thesis
    using request_accepted [OF be.byte_io_laws_axioms demo.rtc_lib_laws_axioms,
        of new_stun_message demo_remote demo_port demo_peer demo_candidate "[]"]
    by (auto simp: demo_port_defs new_stun_message_def EMPTY_TRANSACTION_ID_def)
qed

theorem requests_authenticated_witness:
  "\<exists>data m r. stun_read be_io data = Some (Some r) \<and> msg_type m = STUN_BINDING_REQUEST
     \<and> m = r\<lparr>msg_password := bytes_of ''pw2'', msg_integrity := k_integrity_ok\<rparr>
     \<and> parse_stun_username demo_lib m = (True, bytes_of ''wxyz'', bytes_of ''abcd'')
     \<and> validate_fingerprint be_io data"
proof -
  obtain data m where m: "get_stun_message be_io demo_lib demo_peer data [] =
      Some (True, Some m, bytes_of ''abcd'', None)" "msg_type m = STUN_BINDING_REQUEST"
    using demo_accepted by blast
  have "ice_pwd (up_ice_params demo_peer) = bytes_of ''pw2''" "ice_ufrag (up_ice_params demo_peer) = bytes_of ''wxyz''"
    by (simp_all add: demo_peer_def new_udp_port_def)
  with requests_authenticated [OF m] obtain r where r: "stun_read be_io data = Some (Some r)"
      "m = r\<lparr>msg_password := bytes_of ''pw2'', msg_integrity := k_integrity_ok\<rparr>"
      "parse_stun_username demo_lib m = (True, bytes_of ''wxyz'', bytes_of ''abcd'')" "validate_fingerprint be_io data"
    by metis
  show ?thesis by (intro exI conjI) (fact r m)+
qed

text \<open>A STUN request that fails a check (no user name or integrity attribute, a wrong user
  name, a wrong MESSAGE-INTEGRITY) is answered: when the port has its socket, an error response is
  sent that parses, passes the fingerprint check and carries the transaction id of the request.\<close>

theorem rejected_request_answered:
  assumes "byte_io_laws io" "up_has_async p"
    and "get_stun_message io lib p data u0 = Some (True, None, u, out)"
  shows "\<exists>m b r. stun_read io data = Some (Some m) \<and> msg_type m = STUN_BINDING_REQUEST
     \<and> out = Some b \<and> validate_fingerprint io b \<and> stun_read io b = Some (Some r)
     \<and> msg_type r = STUN_BINDING_ERROR_RESPONSE \<and> msg_transaction_id r = msg_transaction_id m"
  by (rule byte_io_laws.rejected_answered [OF assms])

lemma demo_rejected:
  "\<exists>data u out. get_stun_message be_io demo_lib demo_peer data [] = Some (True, None, u, out)"
proof -
  let ?m = "new_stun_message\<lparr>msg_type := STUN_BINDING_REQUEST\<rparr>"
  have wf: "msg_wf ?m" "msg_typed ?m"
    by (simp_all add: msg_wf_def msg_typed_def new_stun_message_def EMPTY_TRANSACTION_ID_def
        STUN_BINDING_REQUEST_def)
  have L: "attrs_span (msg_attrs ?m) + 8 < 65536" by (simp add: new_stun_message_def)
  obtain x b where x: "add_fingerprint be_io ?m = (True, with_fingerprint x ?m)"
    and b: "stun_write be_io (with_fingerprint x ?m) = Some b" "validate_fingerprint be_io b"
    using be.validate_with_fingerprint [OF wf(1) L] be.add_fingerprint_result (1) [OF wf(1) L]
    by (fastforce simp: new_stun_message_def)
  have wf2: "msg_wf (with_fingerprint x ?m)"
    unfolding with_fingerprint_def
    by (rule add_attribute_wf) (use wf L in \<open>simp_all add: attr_wf_def uint32_attr_def attr_span_def\<close>)
  have ty2: "msg_typed (with_fingerprint x ?m)"
    by (simp add: msg_typed_def be.with_fields attr_typed_def new_stun_message_def
        uint32_attr_def get_attribute_value_type_def stun_types)
  have rd: "stun_read be_io b = Some (Some (parsed_of (with_fingerprint x ?m) b))"
    by (rule be.stun_read_write [OF wf2 ty2 b(1)])
  have "get_byte_string STUN_ATTR_USERNAME (parsed_of (with_fingerprint x ?m) b) = None"
    by (simp add: get_byte_string_def get_attribute_def parsed_of_def be.with_fields
        new_stun_message_def attr_known_def uint32_attr_def get_attribute_value_type_def stun_types)
  moreover have "msg_type (parsed_of (with_fingerprint x ?m) b) = STUN_BINDING_REQUEST"
    by (simp add: parsed_of_def be.with_fields)
  ultimately show ?thesis using b rd by (auto simp: get_stun_message_def)
qed

theorem rejected_request_answered_witness:
  "\<exists>data m b r. stun_read be_io data = Some (Some m) \<and> msg_type m = STUN_BINDING_REQUEST
     \<and> validate_fingerprint be_io b \<and> stun_read be_io b = Some (Some r)
     \<and> msg_type r = STUN_BINDING_ERROR_RESPONSE \<and> msg_transaction_id r = msg_transaction_id m"
proof -
  obtain data u out where g: "get_stun_message be_io demo_lib demo_peer data [] = Some (True, None, u, out)"
    using demo_rejected by blast
  have "up_has_async demo_peer" by (simp add: demo_peer_def)
  from rejected_request_answered [OF be.byte_io_laws_axioms this g] show ?thesis by blast
qed

end
