(* ===== verification/StunRequest.thy ===== *)
theory StunRequest
  imports StunCodec "HOL-Library.AList"
begin

text \<open>
  Outstanding STUN requests (\<open>ice/stun_request.h\<close>, \<open>ice/stun_request.cpp\<close>). Requests are objects
  on a heap and the manager maps transaction ids to their addresses; deleting an object that is
  already gone, or using it, is the value \<open>None\<close>. The \<open>std::map\<close> is an association list with
  distinct keys: only the destructor walks it, and the order it deletes in is not observable.

  The manager is a member of another object (the connection), which a callback may destroy while
  \<open>check_response\<close> runs; so \<open>check_response\<close> works on a state \<open>'s\<close> that gives access to the
  manager while it exists. The locale \<open>manager_slot\<close> is that access.
\<close>

record stun_request =
  req_msg :: stun_message
  req_ts :: int
  req_managed :: bool

record request_manager =
  mgr_requests :: "(bytes \<times> nat) list"
  mgr_heap :: "nat \<Rightarrow> stun_request option"
  mgr_alloc :: nat

definition new_request_manager :: request_manager where
  "new_request_manager = \<lparr>mgr_requests = [], mgr_heap = (\<lambda>_. None), mgr_alloc = 0\<rparr>"

definition request_id :: "stun_request \<Rightarrow> bytes" where
  "request_id r = msg_transaction_id (req_msg r)"

definition request_type :: "stun_request \<Rightarrow> u16" where
  "request_type r = msg_type (req_msg r)"

definition new_request ::
  "bytes \<Rightarrow> stun_message \<Rightarrow> request_manager \<Rightarrow> nat \<times> request_manager" where
  "new_request random_id msg m =
     (let a = mgr_alloc m;
          r = \<lparr>req_msg = msg\<lparr>msg_transaction_id := random_id\<rparr>, req_ts = 0, req_managed = False\<rparr>
      in (a, m\<lparr>mgr_heap := (mgr_heap m)(a \<mapsto> r), mgr_alloc := Suc a\<rparr>))"

definition request_elapsed :: "int \<Rightarrow> stun_request \<Rightarrow> int" where
  "request_elapsed now r = int32 (now - req_ts r)"

text \<open>
  \<open>send\<close>: the bytes handed to \<open>signal_send_packet\<close>, if the message can be written.
\<close>

definition mgr_send ::
  "byte_io \<Rightarrow> (stun_message \<Rightarrow> stun_message) \<Rightarrow> int \<Rightarrow> nat \<Rightarrow> request_manager
     \<Rightarrow> (bytes option \<times> request_manager) option" where
  "mgr_send io prepare now a m =
     (case mgr_heap m a of
        None \<Rightarrow> None
      | Some r \<Rightarrow>
          (let r1 = r\<lparr>req_managed := True, req_msg := prepare (req_msg r)\<rparr>;
               r2 = r1\<lparr>req_ts := now\<rparr>
           in Some (stun_write io (req_msg r2),
                    m\<lparr>mgr_requests := AList.update (request_id r1) a (mgr_requests m),
                      mgr_heap := (mgr_heap m)(a \<mapsto> r2)\<rparr>)))"

definition mgr_remove :: "bytes \<Rightarrow> request_manager \<Rightarrow> request_manager" where
  "mgr_remove i m = m\<lparr>mgr_requests := AList.delete i (mgr_requests m)\<rparr>"

definition request_destroy :: "nat \<Rightarrow> request_manager \<Rightarrow> request_manager option" where
  "request_destroy a m =
     (case mgr_heap m a of
        None \<Rightarrow> None
      | Some r \<Rightarrow>
          (let m1 = (if req_managed r then mgr_remove (request_id r) m else m)
           in Some (m1\<lparr>mgr_heap := (mgr_heap m1)(a := None)\<rparr>)))"

lemma request_destroy_shrinks:
  "request_destroy a m = Some m' \<Longrightarrow> length (mgr_requests m') \<le> length (mgr_requests m)"
  by (auto simp: request_destroy_def mgr_remove_def Let_def length_delete_le split: option.splits if_splits)

function mgr_destroy :: "request_manager \<Rightarrow> request_manager option" where
  "mgr_destroy m =
     (case mgr_requests m of
        [] \<Rightarrow> Some m
      | (i, a) # rest \<Rightarrow>
          (case request_destroy a (m\<lparr>mgr_requests := rest\<rparr>) of
             None \<Rightarrow> None
           | Some m' \<Rightarrow> mgr_destroy m'))"
  by pat_completeness auto
termination
  by (relation "measure (\<lambda>m. length (mgr_requests m))") (auto dest!: request_destroy_shrinks)

declare mgr_destroy.simps [simp del]

text \<open>
  \<open>check_response\<close>. \<open>mgr s\<close> is \<open>None\<close> once the owner of the manager has been deleted; the
  \<open>delete request\<close> that follows a callback then touches freed memory.
\<close>

definition destroy_in ::
  "('s \<Rightarrow> request_manager option) \<Rightarrow> ((request_manager \<Rightarrow> request_manager) \<Rightarrow> 's \<Rightarrow> 's)
     \<Rightarrow> nat \<Rightarrow> 's \<Rightarrow> 's option" where
  "destroy_in mgr upd a s =
     (case mgr s of
        None \<Rightarrow> None
      | Some m \<Rightarrow>
          (case request_destroy a m of None \<Rightarrow> None | Some m' \<Rightarrow> Some (upd (\<lambda>_. m') s)))"

definition check_response ::
  "('s \<Rightarrow> request_manager option) \<Rightarrow> ((request_manager \<Rightarrow> request_manager) \<Rightarrow> 's \<Rightarrow> 's)
     \<Rightarrow> (stun_request \<Rightarrow> stun_message \<Rightarrow> 's \<Rightarrow> 's option)
     \<Rightarrow> (stun_request \<Rightarrow> stun_message \<Rightarrow> 's \<Rightarrow> 's option)
     \<Rightarrow> stun_message \<Rightarrow> 's \<Rightarrow> (bool \<times> 's) option" where
  "check_response mgr upd on_response on_error msg s =
     (case mgr s of
        None \<Rightarrow> None
      | Some m \<Rightarrow>
          (case map_of (mgr_requests m) (msg_transaction_id msg) of
             None \<Rightarrow> Some (False, s)
           | Some a \<Rightarrow>
               (case mgr_heap m a of
                  None \<Rightarrow> None
                | Some r \<Rightarrow>
                    if ucast (msg_type msg) = get_stun_success_response (ucast (request_type r))
                    then (case on_response r msg s of
                            None \<Rightarrow> None
                          | Some s1 \<Rightarrow> map_option (Pair True) (destroy_in mgr upd a s1))
                    else if ucast (msg_type msg) = get_stun_error_response (ucast (request_type r))
                    then (case on_error r msg s of
                            None \<Rightarrow> None
                          | Some s1 \<Rightarrow> map_option (Pair True) (destroy_in mgr upd a s1))
                    else map_option (Pair False) (destroy_in mgr upd a s))))"

subsection \<open>The invariant of the manager\<close>

definition mgr_wf :: "request_manager \<Rightarrow> bool" where
  "mgr_wf m \<longleftrightarrow>
     distinct (map fst (mgr_requests m))
     \<and> (\<forall>(i, a) \<in> set (mgr_requests m).
          case mgr_heap m a of None \<Rightarrow> False | Some r \<Rightarrow> request_id r = i \<and> req_managed r)
     \<and> (\<forall>a \<ge> mgr_alloc m. mgr_heap m a = None)"

lemma mgr_wfE:
  assumes "mgr_wf m" "map_of (mgr_requests m) i = Some a"
  obtains r where "mgr_heap m a = Some r" "request_id r = i" "req_managed r"
  using assms unfolding mgr_wf_def by (fastforce dest!: map_of_SomeD split: option.splits)

lemma mgr_wfI:
  assumes "distinct (map fst (mgr_requests m))"
    and "\<And>i a. map_of (mgr_requests m) i = Some a \<Longrightarrow>
           \<exists>r. mgr_heap m a = Some r \<and> request_id r = i \<and> req_managed r"
    and "\<And>a. mgr_alloc m \<le> a \<Longrightarrow> mgr_heap m a = None"
  shows "mgr_wf m"
  using assms unfolding mgr_wf_def by (fastforce split: option.splits)

lemma new_manager_wf: "mgr_wf new_request_manager"
  by (simp add: mgr_wf_def new_request_manager_def)

lemma new_request_wf:
  assumes "mgr_wf m" "new_request i msg m = (a, m')"
  shows "mgr_wf m'" "mgr_requests m' = mgr_requests m" "a = mgr_alloc m"
    "mgr_heap m' a = Some \<lparr>req_msg = msg\<lparr>msg_transaction_id := i\<rparr>, req_ts = 0, req_managed = False\<rparr>"
proof -
  have m': "m' = m\<lparr>mgr_heap := (mgr_heap m)(mgr_alloc m \<mapsto>
      \<lparr>req_msg = msg\<lparr>msg_transaction_id := i\<rparr>, req_ts = 0, req_managed = False\<rparr>),
      mgr_alloc := Suc (mgr_alloc m)\<rparr>" and a: "a = mgr_alloc m"
    using assms(2) by (auto simp: new_request_def Let_def)
  show "mgr_requests m' = mgr_requests m" "a = mgr_alloc m"
    "mgr_heap m' a = Some \<lparr>req_msg = msg\<lparr>msg_transaction_id := i\<rparr>, req_ts = 0, req_managed = False\<rparr>"
    by (simp_all add: m' a)
  show "mgr_wf m'"
  proof (rule mgr_wfI)
    show "distinct (map fst (mgr_requests m'))" using assms(1) by (simp add: mgr_wf_def m')
    fix j b
    assume "map_of (mgr_requests m') j = Some b"
    then have "map_of (mgr_requests m) j = Some b" by (simp add: m')
    from mgr_wfE [OF assms(1) this]
    obtain r where r: "mgr_heap m b = Some r" "request_id r = j" "req_managed r" .
    moreover have "b \<noteq> mgr_alloc m" using r assms(1) by (auto simp: mgr_wf_def)
    ultimately show "\<exists>r. mgr_heap m' b = Some r \<and> request_id r = j \<and> req_managed r"
      by (simp add: m')
  next
    fix b
    assume "mgr_alloc m' \<le> b"
    then show "mgr_heap m' b = None" using assms(1) by (simp add: mgr_wf_def m')
  qed
qed

lemma mgr_send_wf:
  assumes wf: "mgr_wf m" and a: "mgr_heap m a = Some r" and u: "\<not> req_managed r"
    and p: "msg_transaction_id (prepare (req_msg r)) = request_id r"
  obtains out m' where "mgr_send io prepare now a m = Some (out, m')" "mgr_wf m'"
    "map_of (mgr_requests m') = (map_of (mgr_requests m))(request_id r \<mapsto> a)"
    "out = stun_write io (prepare (req_msg r))"
proof -
  define r2 where "r2 = r\<lparr>req_managed := True, req_msg := prepare (req_msg r), req_ts := now\<rparr>"
  define m' where "m' = m\<lparr>mgr_requests := AList.update (request_id r) a (mgr_requests m),
                          mgr_heap := (mgr_heap m)(a \<mapsto> r2)\<rparr>"
  have r2: "request_id r2 = request_id r" "req_managed r2"
    using p by (simp_all add: r2_def request_id_def)
  have i: "request_id (r\<lparr>req_managed := True, req_msg := prepare (req_msg r)\<rparr>) = request_id r"
    using p by (simp add: request_id_def)
  have w: "req_msg r2 = prepare (req_msg r)" by (simp add: r2_def)
  have s: "mgr_send io prepare now a m = Some (stun_write io (prepare (req_msg r)), m')"
    unfolding mgr_send_def Let_def a option.case i m'_def r2_def [symmetric] w by (rule refl)
  have mo: "map_of (mgr_requests m') = (map_of (mgr_requests m))(request_id r \<mapsto> a)"
    by (simp add: m'_def update_conv')
  have "mgr_wf m'"
  proof (rule mgr_wfI)
    show "distinct (map fst (mgr_requests m'))"
      using wf by (simp add: mgr_wf_def m'_def distinct_update)
    fix j b
    assume "map_of (mgr_requests m') j = Some b"
    then consider "j = request_id r" "b = a" | "map_of (mgr_requests m) j = Some b"
      unfolding mo by (cases "j = request_id r") simp_all
    then show "\<exists>r. mgr_heap m' b = Some r \<and> request_id r = j \<and> req_managed r"
    proof cases
      case 1
      then show ?thesis using r2 by (simp add: m'_def)
    next
      case 2
      from mgr_wfE [OF wf this]
      obtain q where q: "mgr_heap m b = Some q" "request_id q = j" "req_managed q" .
      then have "b \<noteq> a" using a u by auto
      then show ?thesis using q by (simp add: m'_def)
    qed
  next
    fix b
    assume "mgr_alloc m' \<le> b"
    then have "mgr_heap m b = None" using wf by (simp add: mgr_wf_def m'_def)
    then show "mgr_heap m' b = None" using a by (auto simp: m'_def)
  qed
  then show ?thesis using that s mo by blast
qed

lemma request_destroy_wf:
  assumes wf: "mgr_wf m" and l: "map_of (mgr_requests m) i = Some a"
  obtains m' where "request_destroy a m = Some m'" "mgr_wf m'"
    "mgr_requests m' = AList.delete i (mgr_requests m)" "mgr_heap m' = (mgr_heap m)(a := None)"
proof -
  obtain r where r: "mgr_heap m a = Some r" "request_id r = i" "req_managed r"
    using wf l by (rule mgr_wfE)
  define m' where "m' = m\<lparr>mgr_requests := AList.delete i (mgr_requests m),
                          mgr_heap := (mgr_heap m)(a := None)\<rparr>"
  have d: "request_destroy a m = Some m'"
    using r by (simp add: request_destroy_def m'_def mgr_remove_def)
  have "mgr_wf m'"
  proof (rule mgr_wfI)
    show "distinct (map fst (mgr_requests m'))"
      using wf by (simp add: mgr_wf_def m'_def distinct_delete)
    fix j b
    assume "map_of (mgr_requests m') j = Some b"
    then have j: "j \<noteq> i" "map_of (mgr_requests m) j = Some b"
      by (auto simp: m'_def delete_conv' split: if_splits)
    obtain q where q: "mgr_heap m b = Some q" "request_id q = j" "req_managed q"
      using wf j(2) by (rule mgr_wfE)
    then have "b \<noteq> a" using r j by auto
    then show "\<exists>r. mgr_heap m' b = Some r \<and> request_id r = j \<and> req_managed r"
      using q by (simp add: m'_def)
  next
    fix b
    assume "mgr_alloc m' \<le> b"
    then show "mgr_heap m' b = None" using wf by (simp add: mgr_wf_def m'_def)
  qed
  then show ?thesis using that d by (simp add: m'_def)
qed

lemma mgr_destroy_ok:
  "mgr_wf m \<Longrightarrow> \<exists>m'. mgr_destroy m = Some m' \<and> mgr_requests m' = []
     \<and> (\<forall>i a. map_of (mgr_requests m) i = Some a \<longrightarrow> mgr_heap m' a = None)
     \<and> (\<forall>a. mgr_heap m a = None \<longrightarrow> mgr_heap m' a = None)"
proof (induction "length (mgr_requests m)" arbitrary: m rule: less_induct)
  case less
  show ?case
  proof (cases "mgr_requests m")
    case Nil
    then show ?thesis by (subst mgr_destroy.simps) simp
  next
    case (Cons p rest)
    obtain i a where p: "p = (i, a)" by force
    then have "map_of (mgr_requests m) i = Some a" using Cons by simp
    from request_destroy_wf [OF less.prems this] mgr_wfE [OF less.prems this]
    obtain m1 r where r: "mgr_heap m a = Some r" "request_id r = i" "req_managed r"
      and m1: "request_destroy a m = Some m1" "mgr_wf m1"
        "mgr_requests m1 = AList.delete i (mgr_requests m)" "mgr_heap m1 = (mgr_heap m)(a := None)"
      by metis
    have "i \<notin> fst ` set rest" using less.prems Cons p by (simp add: mgr_wf_def)
    then have del: "AList.delete i rest = rest" "AList.delete i (mgr_requests m) = rest"
      by (auto simp: Cons p delete_id)
    have "request_destroy a (m\<lparr>mgr_requests := rest\<rparr>) = request_destroy a m"
      using r by (simp add: request_destroy_def mgr_remove_def Let_def del)
    then have step: "mgr_destroy m = mgr_destroy m1"
      using Cons p m1(1) by (subst mgr_destroy.simps) simp
    have "length (mgr_requests m1) < length (mgr_requests m)" using m1(3) del Cons by simp
    from less.hyps [OF this m1(2)] obtain m' where m': "mgr_destroy m1 = Some m'"
      "mgr_requests m' = []" "\<And>i a. map_of (mgr_requests m1) i = Some a \<Longrightarrow> mgr_heap m' a = None"
      "\<And>a. mgr_heap m1 a = None \<Longrightarrow> mgr_heap m' a = None"
      by blast
    have "mgr_heap m' b = None" if "map_of (mgr_requests m) j = Some b" for j b
    proof (cases "j = i")
      case True
      then show ?thesis using that m'(4) m1(4) Cons p by simp
    next
      case False
      then have "map_of (mgr_requests m1) j = Some b" using that m1(3) del Cons p by simp
      then show ?thesis by (rule m'(3))
    qed
    moreover have "mgr_heap m' b = None" if "mgr_heap m b = None" for b
      using that m'(4) m1(4) by simp
    ultimately show ?thesis using m' step by auto
  qed
qed

subsection \<open>Answering a request\<close>

text \<open>The access to a manager that is part of a larger state.\<close>

locale manager_slot =
  fixes mgr :: "'s \<Rightarrow> request_manager option"
    and upd :: "(request_manager \<Rightarrow> request_manager) \<Rightarrow> 's \<Rightarrow> 's"
  assumes mgr_upd: "mgr (upd f s) = map_option f (mgr s)"
begin

lemma destroy_in_ok:
  assumes "mgr s = Some m" "mgr_wf m" "map_of (mgr_requests m) i = Some a"
  obtains m' where "destroy_in mgr upd a s = Some (upd (\<lambda>_. m') s)" "mgr (upd (\<lambda>_. m') s) = Some m'"
    "mgr_wf m'" "map_of (mgr_requests m') = (map_of (mgr_requests m))(i := None)"
proof -
  from request_destroy_wf [OF assms(2,3)] obtain m' where
    "request_destroy a m = Some m'" "mgr_wf m'" "mgr_requests m' = AList.delete i (mgr_requests m)"
    by metis
  then show ?thesis using that [of m'] assms(1)
    by (simp add: destroy_in_def mgr_upd delete_conv')
qed

text \<open>A success response runs the callback once and ends the request.\<close>

lemma success_answered:
  assumes s: "mgr s = Some m" "mgr_wf m" "map_of (mgr_requests m) (msg_transaction_id msg) = Some a"
    "mgr_heap m a = Some r"
    and ty: "ucast (msg_type msg) = get_stun_success_response (ucast (request_type r))"
    and ok: "on_response r msg s = Some s1" "mgr s1 = mgr s"
  obtains m' where
    "check_response mgr upd on_response on_error msg s = Some (True, upd (\<lambda>_. m') s1)"
    "mgr (upd (\<lambda>_. m') s1) = Some m'" "mgr_wf m'"
    "map_of (mgr_requests m') = (map_of (mgr_requests m))(msg_transaction_id msg := None)"
proof -
  obtain m' where m': "destroy_in mgr upd a s1 = Some (upd (\<lambda>_. m') s1)"
    "mgr (upd (\<lambda>_. m') s1) = Some m'" "mgr_wf m'"
    "map_of (mgr_requests m') = (map_of (mgr_requests m))(msg_transaction_id msg := None)"
    using destroy_in_ok [of s1 m, OF _ s(2,3)] ok(2) s(1) by metis
  have "check_response mgr upd on_response on_error msg s = Some (True, upd (\<lambda>_. m') s1)"
    using s ty ok m'(1) by (simp add: check_response_def)
  then show ?thesis using that m'(2-4) by blast
qed

lemma unknown_ignored:
  assumes "mgr s = Some m" "map_of (mgr_requests m) (msg_transaction_id msg) = None"
  shows "check_response mgr upd on_response on_error msg s = Some (False, s)"
  using assms by (simp add: check_response_def)

lemma owner_destroyed:
  assumes s: "mgr s = Some m" "map_of (mgr_requests m) (msg_transaction_id msg) = Some a"
    "mgr_heap m a = Some r"
    and ty: "ucast (msg_type msg) = get_stun_error_response (ucast (request_type r))"
      "ucast (msg_type msg) \<noteq> get_stun_success_response (ucast (request_type r))"
    and gone: "\<And>s'. on_error r msg s = Some s' \<Longrightarrow> mgr s' = None"
  shows "check_response mgr upd on_response on_error msg s = None"
  using s ty gone by (auto simp: check_response_def destroy_in_def split: option.splits)

end

end
