(* ===== verification/IceConnection.thy ===== *)
theory IceConnection
  imports UdpPort StunRequest
begin

unbundle bit_operations_syntax

text \<open>
  An ICE connection (\<open>ice/ice_connection.h\<close>, \<open>ice/ice_connection.cpp\<close>): write and receive state,
  round-trip time, pings and their answers, and the STUN packets it handles.

  A method may raise a signal whose listener (the channel) changes its own state and this
  connection's \<open>_selected\<close> flag before the method goes on. So every operation works on a pair of
  the connection and a state \<open>'s\<close> of everything else, and the signals and the port are the
  fields of the environment \<open>env\<close>. The locale \<open>connection_env\<close> states what the connection needs
  of its listener; the channel theory interprets it on the channel. \<open>None\<close> is an access to freed
  memory; a connection that has deleted itself is \<open>None\<close> in the first component.
  Logging and \<open>to_string\<close> have no effect on the state and are left out.
\<close>

subsection \<open>State\<close>

datatype write_state =
  STATE_WRITABLE | STATE_WRITE_UNRELIABLE | STATE_WRITE_INIT | STATE_WRITE_TIMEOUT

fun write_state_code :: "write_state \<Rightarrow> nat" where
  "write_state_code STATE_WRITABLE = 0"
| "write_state_code STATE_WRITE_UNRELIABLE = 1"
| "write_state_code STATE_WRITE_INIT = 2"
| "write_state_code STATE_WRITE_TIMEOUT = 3"

lemma write_state_code_inj: "write_state_code a = write_state_code b \<longleftrightarrow> a = b"
  by (cases a; cases b) auto

instantiation write_state :: linorder
begin

definition "less_eq_write_state a b = (write_state_code a \<le> write_state_code b)"
definition "less_write_state a b = (write_state_code a < write_state_code b)"

instance
  by standard (auto simp: less_eq_write_state_def less_write_state_def write_state_code_inj
      dest: order.antisym)

end

record ice_conn =
  c_port :: nat
  c_remote :: candidate
  c_write_state :: write_state
  c_receiving :: bool
  c_selected :: bool
  c_last_ping_sent :: int
  c_last_ping_received :: int
  c_last_ping_response :: int
  c_last_data :: int
  c_num_pings_sent :: int
  c_pings :: "(bytes \<times> int) list"
  c_requests :: request_manager
  c_rtt :: int
  c_rtt_samples :: int
  c_state :: candidate_pair_state

definition new_ice_conn :: "nat \<Rightarrow> candidate \<Rightarrow> ice_conn" where
  "new_ice_conn port remote =
     \<lparr>c_port = port, c_remote = remote, c_write_state = STATE_WRITE_INIT, c_receiving = False,
      c_selected = False, c_last_ping_sent = 0, c_last_ping_received = 0,
      c_last_ping_response = 0, c_last_data = 0, c_num_pings_sent = 0, c_pings = [],
      c_requests = new_request_manager, c_rtt = 3000, c_rtt_samples = 0, c_state = WAITING\<rparr>"

record 's conn_env =
  env_io :: byte_io
  env_lib :: rtc_lib
  env_port :: "'s \<Rightarrow> udp_port"
  env_send :: "bytes \<Rightarrow> socket_address \<Rightarrow> 's \<Rightarrow> int \<times> 's"
  env_changed :: "ice_conn \<Rightarrow> 's \<Rightarrow> (ice_conn \<times> 's) option"
  env_destroyed :: "ice_conn \<Rightarrow> 's \<Rightarrow> (ice_conn \<times> 's) option"
  env_packet :: "bytes \<Rightarrow> int \<Rightarrow> 's \<Rightarrow> 's"

definition RTT_RATIO :: int where "RTT_RATIO = 3"
definition MIN_RTT :: int where "MIN_RTT = 100"
definition MAX_RTT :: int where "MAX_RTT = 60000"

definition conn_writable :: "ice_conn \<Rightarrow> bool" where
  "conn_writable c = (c_write_state c = STATE_WRITABLE)"

definition conn_weak :: "ice_conn \<Rightarrow> bool" where
  "conn_weak c = (\<not> (conn_writable c \<and> c_receiving c))"

definition conn_active :: "ice_conn \<Rightarrow> bool" where
  "conn_active c = (c_write_state c \<noteq> STATE_WRITE_TIMEOUT)"

text \<open>A port that receives packets has a socket, and so its candidate.\<close>

definition local_candidate :: "udp_port \<Rightarrow> candidate" where
  "local_candidate p = hd (up_candidates p)"

definition last_received :: "ice_conn \<Rightarrow> int" where
  "last_received c = max (max (c_last_ping_received c) (c_last_ping_response c)) (c_last_data c)"

definition receiving_timeout :: int where
  "receiving_timeout = WEAK_CONNECTION_RECEIVE_TIMEOUT"

definition set_state :: "candidate_pair_state \<Rightarrow> ice_conn \<Rightarrow> ice_conn" where
  "set_state st c = c\<lparr>c_state := st\<rparr>"

definition set_write_state ::
  "'s conn_env \<Rightarrow> write_state \<Rightarrow> ice_conn \<Rightarrow> 's \<Rightarrow> (ice_conn \<times> 's) option" where
  "set_write_state env st c s =
     (let old_state = c_write_state c;
          c1 = c\<lparr>c_write_state := st\<rparr>
      in if old_state \<noteq> st then env_changed env c1 s else Some (c1, s))"

definition update_receiving ::
  "'s conn_env \<Rightarrow> int \<Rightarrow> ice_conn \<Rightarrow> 's \<Rightarrow> (ice_conn \<times> 's) option" where
  "update_receiving env now c s =
     (let receiving =
            (if c_last_ping_sent c < c_last_ping_response c then True
             else last_received c > 0 \<and> now < last_received c + receiving_timeout)
      in if c_receiving c = receiving then Some (c, s)
         else env_changed env (c\<lparr>c_receiving := receiving\<rparr>) s)"

definition received_ping_response ::
  "'s conn_env \<Rightarrow> int \<Rightarrow> int \<Rightarrow> ice_conn \<Rightarrow> 's \<Rightarrow> (ice_conn \<times> 's) option" where
  "received_ping_response env rtt now c s =
     (let c1 = c\<lparr>c_rtt := (if c_rtt_samples c > 0
                           then lib_next_average (env_lib env) (c_rtt c) rtt RTT_RATIO else rtt),
                 c_rtt_samples := c_rtt_samples c + 1,
                 c_last_ping_response := now,
                 c_pings := []\<rparr>
      in case update_receiving env now c1 s of
           None \<Rightarrow> None
         | Some (c2, s2) \<Rightarrow>
             (case set_write_state env STATE_WRITABLE c2 s2 of
                None \<Rightarrow> None
              | Some (c3, s3) \<Rightarrow> Some (set_state SUCCEEDED c3, s3)))"

text \<open>\<open>t\<close> is the time \<open>elapsed\<close> reads, \<open>now\<close> the time \<open>received_ping_response\<close> reads.\<close>

definition on_request_response ::
  "'s conn_env \<Rightarrow> int \<Rightarrow> int \<Rightarrow> stun_request \<Rightarrow> ice_conn \<Rightarrow> 's \<Rightarrow> (ice_conn \<times> 's) option" where
  "on_request_response env t now request c s =
     received_ping_response env (request_elapsed t request) now c s"

text \<open>\<open>destroy\<close>: the signal, then \<open>delete this\<close> with the requests still outstanding.\<close>

definition conn_destroy ::
  "'s conn_env \<Rightarrow> ice_conn \<Rightarrow> 's \<Rightarrow> (ice_conn option \<times> 's) option" where
  "conn_destroy env c s =
     (case env_destroyed env c s of
        None \<Rightarrow> None
      | Some (c1, s1) \<Rightarrow>
          (case mgr_destroy (c_requests c1) of None \<Rightarrow> None | Some _ \<Rightarrow> Some (None, s1)))"

definition fail_and_destroy ::
  "'s conn_env \<Rightarrow> ice_conn \<Rightarrow> 's \<Rightarrow> (ice_conn option \<times> 's) option" where
  "fail_and_destroy env c s = conn_destroy env (set_state FAILED c) s"

definition on_request_error_response ::
  "'s conn_env \<Rightarrow> stun_message \<Rightarrow> ice_conn \<Rightarrow> 's \<Rightarrow> (ice_conn option \<times> 's) option" where
  "on_request_error_response env msg c s =
     (let error_code = get_error_code_value msg in
      if error_code = STUN_ERROR_UNAUTHORIZED \<or> error_code = STUN_ERROR_UNKNOWN_ATTRIBUTE
         \<or> error_code = STUN_ERROR_SERVER_ERROR
      then Some (Some c, s)
      else fail_and_destroy env c s)"

text \<open>\<open>expected_response_time\<close> is an \<open>int\<close>.\<close>

definition too_many_ping_fails :: "nat \<Rightarrow> int \<Rightarrow> int \<Rightarrow> ice_conn \<Rightarrow> bool" where
  "too_many_ping_fails max_pings rtt now c =
     (if length (c_pings c) < max_pings then False
      else now > int32 (snd (c_pings c ! (max_pings - 1)) + rtt))"

definition too_long_without_response :: "int \<Rightarrow> int \<Rightarrow> ice_conn \<Rightarrow> bool" where
  "too_long_without_response min_time now c =
     (case c_pings c of [] \<Rightarrow> False | p # _ \<Rightarrow> now > snd p + min_time)"

definition clamped_rtt :: "ice_conn \<Rightarrow> int" where
  "clamped_rtt c =
     (let rtt = 2 * c_rtt c in if rtt < MIN_RTT then MIN_RTT else if rtt > MAX_RTT then MAX_RTT else rtt)"

definition update_state ::
  "'s conn_env \<Rightarrow> int \<Rightarrow> ice_conn \<Rightarrow> 's \<Rightarrow> (ice_conn \<times> 's) option" where
  "update_state env now c s =
     (let rtt = clamped_rtt c in
      case (if c_write_state c = STATE_WRITABLE
               \<and> too_many_ping_fails CONNECTION_WRITE_CONNECT_FAILS rtt now c
               \<and> too_long_without_response CONNECTION_WRITE_CONNECT_TIMEOUT now c
            then set_write_state env STATE_WRITE_UNRELIABLE c s else Some (c, s)) of
        None \<Rightarrow> None
      | Some (c1, s1) \<Rightarrow>
          (case (if (c_write_state c1 = STATE_WRITE_UNRELIABLE \<or> c_write_state c1 = STATE_WRITE_INIT)
                    \<and> too_long_without_response CONNECTION_WRITE_TIMEOUT now c1
                 then set_write_state env STATE_WRITE_TIMEOUT c1 s1 else Some (c1, s1)) of
             None \<Rightarrow> None
           | Some (c2, s2) \<Rightarrow> update_receiving env now c2 s2))"

text \<open>The product \<open>2 * std::max(g, d)\<close> is computed in 32 bits.\<close>

definition conn_priority :: "udp_port \<Rightarrow> ice_conn \<Rightarrow> u64" where
  "conn_priority p c =
     (let g = cand_priority (local_candidate p);
          d = cand_priority (c_remote c);
          priority = push_bit 32 (ucast (min g d) :: u64)
      in priority + ucast (2 * max g d) + (if g > d then 1 else 0))"

definition send_response_message ::
  "'s conn_env \<Rightarrow> stun_message \<Rightarrow> ice_conn \<Rightarrow> 's \<Rightarrow> 's" where
  "send_response_message env response c s =
     (case stun_write (env_io env) response of
        None \<Rightarrow> s
      | Some buf \<Rightarrow> snd (env_send env buf (cand_address (c_remote c)) s))"

definition binding_response :: "byte_io \<Rightarrow> udp_port \<Rightarrow> candidate \<Rightarrow> stun_message \<Rightarrow> stun_message" where
  "binding_response io p remote msg =
     (let r0 = new_stun_message\<lparr>msg_type := STUN_BINDING_RESPONSE,
                                 msg_transaction_id := msg_transaction_id msg\<rparr>;
          r1 = add_attribute (xor_address_attr STUN_ATTR_XOR_MAPPED_ADDRESS (cand_address remote)) r0;
          r2 = snd (add_message_integrity io (ice_pwd (up_ice_params p)) r1)
      in snd (add_fingerprint io r2))"

definition send_stun_binding_response ::
  "'s conn_env \<Rightarrow> stun_message \<Rightarrow> ice_conn \<Rightarrow> 's \<Rightarrow> 's" where
  "send_stun_binding_response env msg c s =
     (if get_byte_string STUN_ATTR_USERNAME msg = None then s
      else send_response_message env (binding_response (env_io env) (env_port env s) (c_remote c) msg) c s)"

definition handle_stun_binding_request ::
  "'s conn_env \<Rightarrow> stun_message \<Rightarrow> ice_conn \<Rightarrow> 's \<Rightarrow> 's" where
  "handle_stun_binding_request env msg c s = send_stun_binding_response env msg c s"

definition send_optional :: "'s conn_env \<Rightarrow> socket_address \<Rightarrow> bytes option \<Rightarrow> 's \<Rightarrow> 's" where
  "send_optional env addr out s =
     (case out of None \<Rightarrow> s | Some b \<Rightarrow> snd (env_send env b addr s))"

text \<open>The connection's request manager, inside the pair \<open>check_response\<close> works on.\<close>

definition conn_mgr :: "ice_conn option \<times> 's \<Rightarrow> request_manager option" where
  "conn_mgr x = map_option c_requests (fst x)"

definition conn_mgr_upd ::
  "(request_manager \<Rightarrow> request_manager) \<Rightarrow> ice_conn option \<times> 's \<Rightarrow> ice_conn option \<times> 's" where
  "conn_mgr_upd f x = (map_option (c_requests_update f) (fst x), snd x)"

definition response_callback ::
  "'s conn_env \<Rightarrow> int \<Rightarrow> int \<Rightarrow> stun_request \<Rightarrow> stun_message \<Rightarrow> ice_conn option \<times> 's
     \<Rightarrow> (ice_conn option \<times> 's) option" where
  "response_callback env t now request msg x =
     (case x of
        (None, s) \<Rightarrow> None
      | (Some c, s) \<Rightarrow> map_option (\<lambda>(c', s'). (Some c', s')) (on_request_response env t now request c s))"

definition error_callback ::
  "'s conn_env \<Rightarrow> stun_request \<Rightarrow> stun_message \<Rightarrow> ice_conn option \<times> 's
     \<Rightarrow> (ice_conn option \<times> 's) option" where
  "error_callback env request msg x =
     (case x of (None, s) \<Rightarrow> None | (Some c, s) \<Rightarrow> on_request_error_response env msg c s)"

definition on_read_packet ::
  "'s conn_env \<Rightarrow> bytes \<Rightarrow> int \<Rightarrow> int \<Rightarrow> int \<Rightarrow> ice_conn \<Rightarrow> 's \<Rightarrow> (ice_conn option \<times> 's) option" where
  "on_read_packet env buf ts t now c s =
     (let p = env_port env s; addr = cand_address (c_remote c) in
      case get_stun_message (env_io env) (env_lib env) p buf [] of
        None \<Rightarrow> None
      | Some (ok, m, remote_ufrag, err) \<Rightarrow>
          (let s1 = send_optional env addr err s in
           if \<not> ok then Some (Some c, env_packet env buf ts s1)
           else
             (case m of
                None \<Rightarrow> Some (Some c, s1)
              | Some msg \<Rightarrow>
                  if msg_type msg = STUN_BINDING_REQUEST
                  then
                    (if remote_ufrag \<noteq> cand_username (c_remote c)
                     then Some (Some c, send_optional env addr
                            (send_binding_error_response (env_io env) p msg STUN_ERROR_UNAUTHORIZED
                               STUN_ERROR_REASON_UNAUTHORIZED) s1)
                     else Some (Some c, handle_stun_binding_request env msg c s1))
                  else if msg_type msg = STUN_BINDING_RESPONSE
                          \<or> msg_type msg = STUN_BINDING_ERROR_RESPONSE
                  then
                    (case validate_message_integrity (env_io env) (cand_password (c_remote c)) msg of
                       None \<Rightarrow> None
                     | Some (_, msg') \<Rightarrow>
                         if integrity_ok msg'
                         then map_option snd
                                (check_response conn_mgr conn_mgr_upd (response_callback env t now)
                                   (error_callback env) msg' (Some c, s1))
                         else Some (Some c, s1))
                  else Some (Some c, s1))))"

definition maybe_set_remote_ice_params :: "ice_parameters \<Rightarrow> ice_conn \<Rightarrow> ice_conn" where
  "maybe_set_remote_ice_params params c =
     (if cand_username (c_remote c) = ice_ufrag params \<and> cand_password (c_remote c) = []
      then c\<lparr>c_remote := (c_remote c)\<lparr>cand_password := ice_pwd params\<rparr>\<rparr> else c)"

definition miss_response :: "int \<Rightarrow> ice_conn \<Rightarrow> bool" where
  "miss_response now c =
     (case c_pings c of [] \<Rightarrow> False | p # _ \<Rightarrow> int32 (now - snd p) > 2 * c_rtt c)"

definition conn_stable :: "int \<Rightarrow> ice_conn \<Rightarrow> bool" where
  "conn_stable now c = (c_rtt_samples c > RTT_RATIO + 1 \<and> \<not> miss_response now c)"

text \<open>\<open>t\<close> is the time read when the request is sent; \<open>rid\<close> is the random transaction id.\<close>

definition conn_ping ::
  "'s conn_env \<Rightarrow> int \<Rightarrow> int \<Rightarrow> bytes \<Rightarrow> ice_conn \<Rightarrow> 's \<Rightarrow> (ice_conn \<times> 's) option" where
  "conn_ping env now t rid c s =
     (let (a, m1) = new_request rid new_stun_message (c_requests c);
          p = env_port env s;
          prepare = request_prepare (env_io env) p (c_remote c) (local_candidate p)
      in case mgr_send (env_io env) prepare t a m1 of
           None \<Rightarrow> None
         | Some (out, m2) \<Rightarrow>
             Some (c\<lparr>c_last_ping_sent := now,
                     c_pings := c_pings c @ [(rid, now)],
                     c_requests := m2,
                     c_state := IN_PROGRESS,
                     c_num_pings_sent := c_num_pings_sent c + 1\<rparr>,
                   send_optional env (cand_address (c_remote c)) out s))"

definition conn_send_packet :: "'s conn_env \<Rightarrow> bytes \<Rightarrow> ice_conn \<Rightarrow> 's \<Rightarrow> int \<times> 's" where
  "conn_send_packet env data c s = env_send env data (cand_address (c_remote c)) s"

lemma conn_ping_returns: "\<exists>c' s'. conn_ping env now t rid c s = Some (c', s')"
  by (auto simp: conn_ping_def new_request_def mgr_send_def Let_def split: option.split)

subsection \<open>What the connection needs of its environment\<close>

text \<open>Everything but the flag \<open>_selected\<close>, which the listener owns.\<close>

definition conn_core :: "ice_conn \<Rightarrow> ice_conn" where
  "conn_core c = c\<lparr>c_selected := False\<rparr>"

lemma conn_core_fields:
  assumes "conn_core c' = conn_core c"
  shows "c_port c' = c_port c" "c_remote c' = c_remote c" "c_write_state c' = c_write_state c"
    "c_receiving c' = c_receiving c" "c_last_ping_sent c' = c_last_ping_sent c"
    "c_last_ping_received c' = c_last_ping_received c"
    "c_last_ping_response c' = c_last_ping_response c" "c_last_data c' = c_last_data c"
    "c_num_pings_sent c' = c_num_pings_sent c" "c_pings c' = c_pings c"
    "c_requests c' = c_requests c" "c_rtt c' = c_rtt c" "c_rtt_samples c' = c_rtt_samples c"
    "c_state c' = c_state c"
  using assms by (cases c; cases c'; simp add: conn_core_def)+

lemma conn_core_updates:
  "conn_core (c\<lparr>c_write_state := st\<rparr>) = (conn_core c)\<lparr>c_write_state := st\<rparr>"
  "conn_core (c\<lparr>c_receiving := b\<rparr>) = (conn_core c)\<lparr>c_receiving := b\<rparr>"
  by (simp_all add: conn_core_def)

lemma conn_core_idem [simp]: "conn_core (conn_core c) = conn_core c"
  by (simp add: conn_core_def)

definition receiving_at :: "int \<Rightarrow> ice_conn \<Rightarrow> bool" where
  "receiving_at now c \<longleftrightarrow> c_last_ping_sent c < c_last_ping_response c
     \<or> (last_received c > 0 \<and> now < last_received c + receiving_timeout)"

text \<open>The abstract write-state machine of \<open>update_state\<close>.\<close>

definition next_write_state :: "int \<Rightarrow> ice_conn \<Rightarrow> write_state" where
  "next_write_state now c =
     (let failing = too_many_ping_fails CONNECTION_WRITE_CONNECT_FAILS (clamped_rtt c) now c
                    \<and> too_long_without_response CONNECTION_WRITE_CONNECT_TIMEOUT now c;
          silent = too_long_without_response CONNECTION_WRITE_TIMEOUT now c
      in case c_write_state c of
           STATE_WRITABLE \<Rightarrow>
             (if failing then if silent then STATE_WRITE_TIMEOUT else STATE_WRITE_UNRELIABLE
              else STATE_WRITABLE)
         | STATE_WRITE_UNRELIABLE \<Rightarrow> if silent then STATE_WRITE_TIMEOUT else STATE_WRITE_UNRELIABLE
         | STATE_WRITE_INIT \<Rightarrow> if silent then STATE_WRITE_TIMEOUT else STATE_WRITE_INIT
         | STATE_WRITE_TIMEOUT \<Rightarrow> STATE_WRITE_TIMEOUT)"

lemma next_write_state_ge: "c_write_state c \<le> next_write_state now c"
  by (cases "c_write_state c") (auto simp: next_write_state_def less_eq_write_state_def Let_def)

text \<open>
  \<open>sinv\<close> is what always holds of the rest of the state; \<open>sync c s\<close> says that the listener's own
  view agrees with the write state and the receiving flag of the connection. The listener
  brings itself into agreement whenever the connection signals a change.
\<close>

locale connection_env =
  fixes env :: "'s conn_env" and sinv :: "'s \<Rightarrow> bool" and sync :: "ice_conn \<Rightarrow> 's \<Rightarrow> bool"
  assumes changed: "sinv s \<Longrightarrow>
      \<exists>c' s'. env_changed env c s = Some (c', s') \<and> conn_core c' = conn_core c \<and> sinv s' \<and> sync c' s'"
    and sync_view: "sync c s \<Longrightarrow> c_write_state c' = c_write_state c \<Longrightarrow>
      c_receiving c' = c_receiving c \<Longrightarrow> sync c' s"
    and send_inv: "sinv s \<Longrightarrow> sinv (snd (env_send env b a s))"
    and send_sync: "sync c s \<Longrightarrow> sync c (snd (env_send env b a s))"
    and packet_inv: "sinv s \<Longrightarrow> sinv (env_packet env d t s)"
    and packet_sync: "sync c s \<Longrightarrow> sync c (env_packet env d t s)"
begin

lemma set_write_state_ok:
  assumes "sinv s" "sync c s"
  obtains c' s' where "set_write_state env st c s = Some (c', s')" "sinv s'" "sync c' s'"
    "conn_core c' = conn_core (c\<lparr>c_write_state := st\<rparr>)"
proof (cases "c_write_state c = st")
  case True
  then have "set_write_state env st c s = Some (c\<lparr>c_write_state := st\<rparr>, s)"
    by (simp add: set_write_state_def)
  moreover have "sync (c\<lparr>c_write_state := st\<rparr>) s"
    by (rule sync_view [OF assms(2)]) (simp_all add: True)
  ultimately show ?thesis using that assms(1) by blast
next
  case False
  then show ?thesis using that changed [OF assms(1), of "c\<lparr>c_write_state := st\<rparr>"]
    by (auto simp: set_write_state_def Let_def)
qed

lemma update_receiving_ok:
  assumes "sinv s" "sync c s"
  obtains c' s' where "update_receiving env now c s = Some (c', s')" "sinv s'" "sync c' s'"
    "conn_core c' = conn_core (c\<lparr>c_receiving := receiving_at now c\<rparr>)"
proof -
  define r where "r = receiving_at now c"
  have u: "update_receiving env now c s =
      (if c_receiving c = r then Some (c, s) else env_changed env (c\<lparr>c_receiving := r\<rparr>) s)"
  proof -
    have "(if c_last_ping_sent c < c_last_ping_response c then True
           else last_received c > 0 \<and> now < last_received c + receiving_timeout) = r"
      by (simp add: r_def receiving_at_def)
    then show ?thesis unfolding update_receiving_def Let_def by simp
  qed
  show ?thesis
  proof (cases "c_receiving c = r")
    case True
    then have "conn_core c = conn_core (c\<lparr>c_receiving := r\<rparr>)" by (cases c) simp
    then show ?thesis using that [of c s] assms u True unfolding r_def by simp
  next
    case False
    obtain c' s' where "env_changed env (c\<lparr>c_receiving := r\<rparr>) s = Some (c', s')"
      "conn_core c' = conn_core (c\<lparr>c_receiving := r\<rparr>)" "sinv s'" "sync c' s'"
      using changed [OF assms(1)] by blast
    then show ?thesis using that u False by (simp add: r_def)
  qed
qed

lemma pings_only:
  assumes "conn_core c1 = conn_core (c\<lparr>c_write_state := st\<rparr>)"
  shows "c_write_state c1 = st" "too_long_without_response t now c1 = too_long_without_response t now c"
    "receiving_at now c1 = receiving_at now c"
  using conn_core_fields [OF assms]
  by (simp_all add: too_long_without_response_def receiving_at_def last_received_def)

lemma conditional_write_state:
  assumes "sinv s" "sync c s"
  obtains c' s' where "(if b then set_write_state env st c s else Some (c, s)) = Some (c', s')"
    "sinv s'" "sync c' s'"
    "conn_core c' = conn_core (c\<lparr>c_write_state := (if b then st else c_write_state c)\<rparr>)"
proof (cases b)
  case True
  obtain c' s' where "set_write_state env st c s = Some (c', s')" "sinv s'" "sync c' s'"
    "conn_core c' = conn_core (c\<lparr>c_write_state := st\<rparr>)"
    using set_write_state_ok [OF assms] by blast
  then show ?thesis using that True by simp
next
  case False
  then show ?thesis using that [of c s] assms by simp
qed

lemma update_state_ok:
  assumes "sinv s" "sync c s"
  obtains c' s' where "update_state env now c s = Some (c', s')" "sinv s'" "sync c' s'"
    "conn_core c' = conn_core (c\<lparr>c_write_state := next_write_state now c,
                                c_receiving := receiving_at now c\<rparr>)"
proof -
  define failing where "failing \<longleftrightarrow>
    too_many_ping_fails CONNECTION_WRITE_CONNECT_FAILS (clamped_rtt c) now c
    \<and> too_long_without_response CONNECTION_WRITE_CONNECT_TIMEOUT now c"
  define silent where "silent = too_long_without_response CONNECTION_WRITE_TIMEOUT now c"
  define st1 where "st1 = (if c_write_state c = STATE_WRITABLE \<and> failing
                           then STATE_WRITE_UNRELIABLE else c_write_state c)"
  define st2 where "st2 = (if (st1 = STATE_WRITE_UNRELIABLE \<or> st1 = STATE_WRITE_INIT) \<and> silent
                           then STATE_WRITE_TIMEOUT else st1)"
  have st2: "st2 = next_write_state now c"
    by (cases "c_write_state c") (simp_all add: st2_def st1_def next_write_state_def failing_def
        silent_def Let_def)
  obtain c1 s1 where 1: "(if c_write_state c = STATE_WRITABLE \<and> failing
        then set_write_state env STATE_WRITE_UNRELIABLE c s else Some (c, s)) = Some (c1, s1)"
    and i1: "sinv s1" "sync c1 s1" and k1: "conn_core c1 = conn_core (c\<lparr>c_write_state := st1\<rparr>)"
    unfolding st1_def using conditional_write_state [OF assms] by blast
  note p1 = pings_only [OF k1]
  obtain c2 s2 where 2: "(if (st1 = STATE_WRITE_UNRELIABLE \<or> st1 = STATE_WRITE_INIT) \<and> silent
        then set_write_state env STATE_WRITE_TIMEOUT c1 s1 else Some (c1, s1)) = Some (c2, s2)"
    and i2: "sinv s2" "sync c2 s2" and k2: "conn_core c2 = conn_core (c1\<lparr>c_write_state := st2\<rparr>)"
    unfolding st2_def p1(1) [symmetric] using conditional_write_state [OF i1] by blast
  note p2 = pings_only [OF k2]
  obtain c3 s3 where 3: "update_receiving env now c2 s2 = Some (c3, s3)" "sinv s3" "sync c3 s3"
    "conn_core c3 = conn_core (c2\<lparr>c_receiving := receiving_at now c2\<rparr>)"
    using update_receiving_ok [OF i2] by blast
  have u: "update_state env now c s = Some (c3, s3)"
    using 1 2 3(1) p1 unfolding failing_def silent_def
    by (simp add: update_state_def Let_def)
  have "conn_core c3 = conn_core (c\<lparr>c_write_state := st2, c_receiving := receiving_at now c\<rparr>)"
    using 3(4) k2 k1 p1(3) p2(3) by (simp add: conn_core_updates)
  then show ?thesis using that u 3(2,3) st2 by simp
qed

lemma received_ping_response_ok:
  assumes "sinv s" "sync c s" "0 < now"
  obtains c' s' where "received_ping_response env rtt now c s = Some (c', s')" "sinv s'" "sync c' s'"
    "conn_core c' = conn_core (c
       \<lparr>c_rtt := (if c_rtt_samples c > 0
                 then lib_next_average (env_lib env) (c_rtt c) rtt RTT_RATIO else rtt),
        c_rtt_samples := c_rtt_samples c + 1, c_last_ping_response := now, c_pings := [],
        c_receiving := True, c_write_state := STATE_WRITABLE, c_state := SUCCEEDED\<rparr>)"
proof -
  define c1 where "c1 = c
       \<lparr>c_rtt := (if c_rtt_samples c > 0
                 then lib_next_average (env_lib env) (c_rtt c) rtt RTT_RATIO else rtt),
        c_rtt_samples := c_rtt_samples c + 1, c_last_ping_response := now, c_pings := []\<rparr>"
  have y1: "sync c1 s" by (rule sync_view [OF assms(2)]) (simp_all add: c1_def)
  have "receiving_at now c1"
    using assms(3) by (simp add: receiving_at_def last_received_def c1_def receiving_timeout_def
        WEAK_CONNECTION_RECEIVE_TIMEOUT_def max_def)
  then obtain c2 s2 where 2: "update_receiving env now c1 s = Some (c2, s2)" "sinv s2" "sync c2 s2"
    "conn_core c2 = conn_core (c1\<lparr>c_receiving := True\<rparr>)"
    using update_receiving_ok [OF assms(1) y1, of now] by metis
  obtain c3 s3 where 3: "set_write_state env STATE_WRITABLE c2 s2 = Some (c3, s3)" "sinv s3" "sync c3 s3"
    "conn_core c3 = conn_core (c2\<lparr>c_write_state := STATE_WRITABLE\<rparr>)"
    using set_write_state_ok [OF 2(2,3)] by blast
  have r: "received_ping_response env rtt now c s = Some (set_state SUCCEEDED c3, s3)"
    unfolding received_ping_response_def Let_def c1_def [symmetric] by (simp add: 2(1) 3(1))
  have y: "sync (set_state SUCCEEDED c3) s3"
    by (rule sync_view [OF 3(3)]) (simp_all add: set_state_def)
  have "conn_core (set_state SUCCEEDED c3) = conn_core (c1\<lparr>c_receiving := True,
      c_write_state := STATE_WRITABLE, c_state := SUCCEEDED\<rparr>)"
    using 2(4) 3(4) unfolding conn_core_def set_state_def
    by (cases c1; cases c2; cases c3; simp)
  then show ?thesis using that r 3(2) y by (simp add: c1_def)
qed

end

subsection \<open>The manager of a connection\<close>

interpretation conn: manager_slot conn_mgr conn_mgr_upd
  by unfold_locales (simp add: conn_mgr_def conn_mgr_upd_def option.map_comp comp_def)

lemma fail_and_destroy_gone:
  "fail_and_destroy env c s = Some (co, s') \<Longrightarrow> co = None"
  by (auto simp: fail_and_destroy_def conn_destroy_def split: option.splits)

subsection \<open>The properties of a connection\<close>

definition demo_env :: "(bytes \<times> socket_address) list conn_env" where
  "demo_env =
     \<lparr>env_io = be_io, env_lib = demo_lib, env_port = (\<lambda>_. demo_port),
      env_send = (\<lambda>b a s. (int (length b), s @ [(b, a)])), env_changed = (\<lambda>c s. Some (c, s)),
      env_destroyed = (\<lambda>c s. Some (c, s)), env_packet = (\<lambda>d t s. s)\<rparr>"

lemma demo_connection_env: "connection_env demo_env (\<lambda>_. True) (\<lambda>_ _. True)"
  by unfold_locales (auto simp: demo_env_def)

definition demo_conn :: ice_conn where
  "demo_conn = new_ice_conn 0 demo_remote"

text \<open>C22: Whatever the listener of the state signal does within its contract, \<open>update_state\<close>
  returns, moves the write state by the machine \<open>next_write_state\<close> (which only ever degrades it:
  writable, unreliable, timed out, or initial, timed out), sets the receiving flag by
  \<open>receiving_at\<close>, and changes nothing else of the connection but its selected flag.\<close>

theorem update_state_machine:
  assumes "connection_env env sinv sync" "sinv s" "sync c s"
  shows "\<exists>c' s'. update_state env now c s = Some (c', s') \<and> sinv s' \<and> sync c' s'
     \<and> c_write_state c' = next_write_state now c \<and> c_write_state c \<le> c_write_state c'
     \<and> c_receiving c' = receiving_at now c
     \<and> conn_core c' = conn_core (c\<lparr>c_write_state := c_write_state c', c_receiving := c_receiving c'\<rparr>)"
proof -
  obtain c' s' where 1: "update_state env now c s = Some (c', s')" "sinv s'" "sync c' s'"
    and k: "conn_core c' = conn_core (c\<lparr>c_write_state := next_write_state now c,
                                       c_receiving := receiving_at now c\<rparr>)"
    using connection_env.update_state_ok [OF assms] by blast
  have "c_write_state c' = next_write_state now c" "c_receiving c' = receiving_at now c"
    using conn_core_fields (3,4) [OF k] by simp_all
  then show ?thesis using 1 k next_write_state_ge [of c now] by simp
qed

theorem update_state_machine_witness:
  "\<exists>c' s'. update_state demo_env 20000 (demo_conn\<lparr>c_pings := [([1], 0)]\<rparr>) [] = Some (c', s')
     \<and> c_write_state c' = next_write_state 20000 (demo_conn\<lparr>c_pings := [([1], 0)]\<rparr>)"
  using update_state_machine [OF demo_connection_env, where s = "[]" and now = 20000
      and c = "demo_conn\<lparr>c_pings := [([1], 0)]\<rparr>"] by blast

text \<open>C29: A connection that gets no answer ends in the timed-out state: once its oldest unanswered
  ping is more than 15 seconds old, \<open>update_state\<close> times it out from the initial and the
  unreliable state, and in one call also from the writable state when five pings are unanswered
  and the fifth is older than twice the round-trip time (in the range of \<open>int\<close>).\<close>

theorem silent_connection_times_out:
  assumes env: "connection_env env sinv sync" "sinv s" "sync c s"
    and p: "c_pings c = p # ps" "now > snd p + CONNECTION_WRITE_TIMEOUT"
    and w: "c_write_state c = STATE_WRITABLE \<Longrightarrow>
        CONNECTION_WRITE_CONNECT_FAILS \<le> length (c_pings c)
        \<and> 0 \<le> snd (c_pings c ! 4) \<and> snd (c_pings c ! 4) + clamped_rtt c < 2 ^ 31
        \<and> snd (c_pings c ! 4) + clamped_rtt c < now"
  shows "\<exists>c' s'. update_state env now c s = Some (c', s') \<and> c_write_state c' = STATE_WRITE_TIMEOUT
     \<and> \<not> conn_active c'"
proof -
  have rtt: "0 \<le> clamped_rtt c"
    by (simp add: clamped_rtt_def Let_def MIN_RTT_def MAX_RTT_def)
  have "next_write_state now c = STATE_WRITE_TIMEOUT"
  proof (cases "c_write_state c")
    case STATE_WRITABLE
    then have w': "5 \<le> length (c_pings c)" "int32 (snd (c_pings c ! 4) + clamped_rtt c) < now"
      using w int32_id [of "snd (c_pings c ! 4) + clamped_rtt c"] rtt by (simp_all add: ice_consts)
    then have "\<not> length (c_pings c) < 5" by simp
    then show ?thesis using STATE_WRITABLE p w'(2)
      by (simp add: next_write_state_def Let_def too_many_ping_fails_def
          too_long_without_response_def ice_consts)
  qed (use p in \<open>simp_all add: next_write_state_def Let_def too_long_without_response_def\<close>)
  moreover obtain c' s' where "update_state env now c s = Some (c', s')"
    "conn_core c' = conn_core (c\<lparr>c_write_state := next_write_state now c,
                                c_receiving := receiving_at now c\<rparr>)"
    using connection_env.update_state_ok [OF env] by blast
  ultimately show ?thesis using conn_core_fields (3) [of c'] by (auto simp: conn_active_def)
qed

theorem silent_connection_times_out_witness:
  "\<exists>c' s'. update_state demo_env 20000 (demo_conn\<lparr>c_pings := [([1], 0)]\<rparr>) [] = Some (c', s')
     \<and> c_write_state c' = STATE_WRITE_TIMEOUT \<and> \<not> conn_active c'"
  by (rule silent_connection_times_out [OF demo_connection_env, where p = "([1], 0)" and ps = "[]"])
     (simp_all add: demo_conn_def new_ice_conn_def ice_consts)

text \<open>The deadline of the fifth ping is kept in a 32-bit \<open>int\<close>. Once the clock has passed
  2^31 milliseconds (about 25 days) it is negative, and the connection counts as having too
  many failed pings at any time, also right after the pings were sent.\<close>

theorem ping_deadline_narrowed:
  assumes "CONNECTION_WRITE_CONNECT_FAILS \<le> length (c_pings c)" "0 \<le> now"
    and "2 ^ 31 \<le> snd (c_pings c ! 4) + rtt" "snd (c_pings c ! 4) + rtt < 2 ^ 32"
  shows "too_many_ping_fails CONNECTION_WRITE_CONNECT_FAILS rtt now c"
proof -
  let ?x = "snd (c_pings c ! 4) + rtt"
  have "int32 ?x = int32 (?x - 2 ^ 32)"
    unfolding int32_def signed_take_bit_eq_iff_take_bit_eq
    by (simp add: take_bit_eq_mod mod_diff_right_eq [of ?x, symmetric])
  also have "\<dots> = ?x - 2 ^ 32" by (rule int32_id) (use assms in simp_all)
  finally have "int32 ?x < 0" using assms by simp
  then show ?thesis using assms by (simp add: too_many_ping_fails_def ice_consts)
qed

theorem ping_deadline_narrowed_witness:
  "too_many_ping_fails CONNECTION_WRITE_CONNECT_FAILS 6000 2147483648
     (demo_conn\<lparr>c_pings := replicate 5 ([1], 2147483648)\<rparr>)"
  by (rule ping_deadline_narrowed) (simp_all add: ice_consts)

lemma pair_word:
  fixes a b :: u32 and e :: u64
  assumes "uint b + uint e < 2 ^ 32"
  shows "uint (push_bit 32 (ucast a :: u64) + ucast b + e) = 2 ^ 32 * uint a + uint b + uint e"
proof -
  have a: "0 \<le> uint a" "uint a < 2 ^ 32" using unsigned_less [of a] by simp_all
  have n: "(2 :: int) ^ 32 = 4294967296" "(2 :: int) ^ 64 = 18446744073709551616" by simp_all
  have uv: "0 \<le> uint e" "0 \<le> uint b" by simp_all
  have ua: "uint (ucast a :: u64) = uint a" by (rule uint_up_ucast) (simp add: is_up)
  have ub: "uint (ucast b :: u64) = uint b" by (rule uint_up_ucast) (simp add: is_up)
  have p: "uint (push_bit 32 (ucast a :: u64)) = 2 ^ 32 * uint a"
    unfolding push_bit_eq_mult uint_word_ariths ua using a by (simp add: mod_pos_pos_trivial)
  have "2 ^ 32 * uint a + uint b < 2 ^ 64" "2 ^ 32 * uint a + uint b + uint e < 2 ^ 64"
    using a assms uv unfolding n by linarith+
  then show ?thesis
    using a uv
    by (simp add: uint_word_ariths p ub mod_pos_pos_trivial)
qed

text \<open>The pair priority is 2^32 times the smaller candidate priority, plus twice the larger
  one reduced to 32 bits, plus one when the local priority is larger. It is the formula of RFC 5245
  when both priorities are below 2^31; above, the top bit of the doubled priority is lost.\<close>

theorem conn_priority_formula:
  "uint (conn_priority p c) =
     2 ^ 32 * min (uint (cand_priority (local_candidate p))) (uint (cand_priority (c_remote c)))
     + (2 * max (uint (cand_priority (local_candidate p))) (uint (cand_priority (c_remote c)))) mod 2 ^ 32
     + (if uint (cand_priority (local_candidate p)) > uint (cand_priority (c_remote c)) then 1 else 0)"
proof -
  define g d where "g = cand_priority (local_candidate p)" and "d = cand_priority (c_remote c)"
  have m: "uint (min g d) = min (uint g) (uint d)" "uint (max g d) = max (uint g) (uint d)"
    by (simp_all add: min_def max_def word_le_def)
  have t: "uint (2 * max g d) = (2 * uint (max g d)) mod 2 ^ 32"
    by (simp add: uint_word_ariths)
  have e: "uint (2 * max g d) + 1 < 2 ^ 32"
  proof -
    have "even ((2 * uint (max g d)) mod 2 ^ 32)" by (simp add: dvd_mod)
    then obtain k where "(2 * uint (max g d)) mod 2 ^ 32 = 2 * k" by (rule evenE)
    moreover have "(2 * uint (max g d)) mod 2 ^ 32 < 4294967296" by simp
    ultimately show ?thesis unfolding t by simp
  qed
  have "uint (conn_priority p c)
      = 2 ^ 32 * uint (min g d) + uint (2 * max g d) + (if g > d then 1 else 0)"
  proof -
    have "conn_priority p c = push_bit 32 (ucast (min g d)) + ucast (2 * max g d)
        + (if g > d then 1 else 0)"
      unfolding conn_priority_def Let_def g_def d_def ..
    moreover have "uint (push_bit 32 (ucast (min g d) :: u64) + ucast (2 * max g d) + (if g > d then 1 else 0))
        = 2 ^ 32 * uint (min g d) + uint (2 * max g d) + uint (if g > d then 1 else 0 :: u64)"
      by (rule pair_word) (use e in \<open>cases "g > d"; simp\<close>)
    ultimately show ?thesis by (simp only: if_distrib [of uint] uint_1 unsigned_0)
  qed
  then show ?thesis
    unfolding m t word_less_def by (simp add: g_def d_def)
qed

subsection \<open>Responses\<close>

lemma get_stun_message_response:
  assumes "validate_fingerprint io data" "stun_read io data = Some (Some r)"
    "msg_type r \<noteq> STUN_BINDING_REQUEST"
  shows "get_stun_message io lib p data u0 = Some (True, Some r, [], None)"
  using assms by (simp add: get_stun_message_def)

lemma get_attribute_attrs: "msg_attrs m = msg_attrs m' \<Longrightarrow> get_attribute t m = get_attribute t m'"
  by (simp add: get_attribute_def)

text \<open>
  A packet either leaves the connection as it is, with packets sent or handed up, or it is a response
  that passes the integrity check and goes to the request manager.
\<close>

lemma on_read_packet_cases:
  assumes r: "on_read_packet env buf ts t now c s = Some (co, s')"
  obtains (kept) err where "co = Some c"
      "\<exists>s1. s1 = send_optional env (cand_address (c_remote c)) err s \<and>
         (s' = s1 \<or> s' = env_packet env buf ts s1 \<or> (\<exists>out. s' = send_optional env (cand_address (c_remote c)) out s1)
          \<or> (\<exists>msg. s' = handle_stun_binding_request env msg c s1))"
    | (response) msg st msg' b where "stun_read (env_io env) buf = Some (Some msg)"
      "validate_message_integrity (env_io env) (cand_password (c_remote c)) msg = Some (st, msg')"
      "check_response conn_mgr conn_mgr_upd (response_callback env t now) (error_callback env) msg' (Some c, s)
         = Some (b, co, s')"
proof -
  obtain ok m ufrag err where g:
    "get_stun_message (env_io env) (env_lib env) (env_port env s) buf [] = Some (ok, m, ufrag, err)"
    using r by (auto simp: on_read_packet_def Let_def split: option.splits)
  show ?thesis
  proof (cases "\<exists>msg. ok \<and> m = Some msg \<and> msg_type msg \<noteq> STUN_BINDING_REQUEST")
    case False
    then show ?thesis using r g kept [of err]
      by (auto simp: on_read_packet_def Let_def split: option.splits if_splits)
  next
    case True
    then obtain msg where msg: "ok" "m = Some msg" "msg_type msg \<noteq> STUN_BINDING_REQUEST" by blast
    then have rd: "stun_read (env_io env) buf = Some (Some msg)" and err: "err = None"
      using g by (auto simp: get_stun_message_def Let_def split: if_splits option.splits prod.splits
          dest: validate_ok_fields)
    then show ?thesis using r g msg kept [of None] response [OF rd]
      by (auto simp: on_read_packet_def send_optional_def Let_def split: option.splits if_splits)
  qed
qed

context connection_env
begin

lemma send_optional_ok:
  "sinv s \<Longrightarrow> sinv (send_optional env a out s)" "sync c s \<Longrightarrow> sync c (send_optional env a out s)"
  by (auto simp: send_optional_def send_inv send_sync split: option.splits)

lemma handle_request_ok:
  "sinv s \<Longrightarrow> sinv (handle_stun_binding_request env msg c1 s)"
  "sync c s \<Longrightarrow> sync c (handle_stun_binding_request env msg c1 s)"
  by (auto simp: handle_stun_binding_request_def send_stun_binding_response_def
      send_response_message_def send_inv send_sync split: option.splits)

lemma destroy_in_conn:
  assumes "destroy_in conn_mgr conn_mgr_upd a (co, s) = Some x"
  shows "\<exists>c m. co = Some c \<and> x = (Some (c\<lparr>c_requests := m\<rparr>), s)"
proof -
  from assms obtain c where c: "co = Some c"
    by (cases co) (auto simp: destroy_in_def conn_mgr_def)
  with assms obtain m where "request_destroy a (c_requests c) = Some m"
    "x = (Some (c_requests_update (\<lambda>_. m) c), s)"
    by (auto simp: destroy_in_def conn_mgr_def conn_mgr_upd_def split: option.splits)
  then show ?thesis using c by auto
qed

lemma check_response_ok:
  assumes s: "sinv s" "sync c s" "0 < now"
    and code: "get_error_code_value msg = STUN_ERROR_GLOBAL_FAIL"
    and r: "check_response conn_mgr conn_mgr_upd (response_callback env t now) (error_callback env) msg
              (Some c, s) = Some (b, co, s')"
  obtains c' where "co = Some c'" "sinv s'" "sync c' s'" "c_port c' = c_port c"
proof -
  have gone: "co1 = None" if "error_callback env rq msg (Some c, s) = Some (co1, s1)" for rq co1 s1
    using that fail_and_destroy_gone [of env c s] code
    by (auto simp: error_callback_def on_request_error_response_def stun_errors Let_def)
  have fin: thesis if d: "destroy_in conn_mgr conn_mgr_upd a (Some c1, s1) = Some (co, s')"
    and d': "sinv s1" "sync c1 s1" "c_port c1 = c_port c" for a c1 s1
  proof -
    obtain m where "co = Some (c1\<lparr>c_requests := m\<rparr>)" "s' = s1"
      using destroy_in_conn [OF d] by auto
    moreover have "sync (c1\<lparr>c_requests := m\<rparr>) s1" by (rule sync_view [OF d'(2)]) simp_all
    ultimately show ?thesis using \<open>\<And>c'. co = Some c' \<Longrightarrow> sinv s' \<Longrightarrow> sync c' s' \<Longrightarrow> c_port c' = c_port c \<Longrightarrow> thesis\<close> d'
      by simp
  qed
  consider "co = Some c" "s' = s"
    | a x where "destroy_in conn_mgr conn_mgr_upd a x = Some (co, s')" "x = (Some c, s)"
    | a x rq where "destroy_in conn_mgr conn_mgr_upd a x = Some (co, s')"
        "response_callback env t now rq msg (Some c, s) = Some x"
    | a x rq where "destroy_in conn_mgr conn_mgr_upd a x = Some (co, s')"
        "error_callback env rq msg (Some c, s) = Some x"
    using r unfolding check_response_def
    by (auto split: option.splits if_splits)
  then show ?thesis
  proof cases
    case 1
    then show ?thesis using that s by simp
  next
    case 2
    then show ?thesis using fin s by simp
  next
    case 3
    obtain c1 s1 where 1: "received_ping_response env (request_elapsed t rq) now c s = Some (c1, s1)"
      "sinv s1" "sync c1 s1" and k: "conn_core c1 = conn_core (c
       \<lparr>c_rtt := (if c_rtt_samples c > 0
                 then lib_next_average (env_lib env) (c_rtt c) (request_elapsed t rq) RTT_RATIO
                 else request_elapsed t rq),
        c_rtt_samples := c_rtt_samples c + 1, c_last_ping_response := now, c_pings := [],
        c_receiving := True, c_write_state := STATE_WRITABLE, c_state := SUCCEEDED\<rparr>)"
      using received_ping_response_ok [OF s] by blast
    have "x = (Some c1, s1)"
      using 3(2) 1(1) by (simp add: response_callback_def on_request_response_def)
    then show ?thesis using fin 3(1) 1 conn_core_fields (1) [OF k] by simp
  next
    case 4
    obtain co1 s1 where x: "x = (co1, s1)" by force
    then have "co1 = None" using gone 4(2) by blast
    then show ?thesis using 4(1) x by (simp add: destroy_in_def conn_mgr_def)
  qed
qed

lemma on_read_packet_ok:
  assumes s: "sinv s" "sync c s" "0 < now"
    and r: "on_read_packet env buf ts t now c s = Some (co, s')"
  obtains c' where "co = Some c'" "sinv s'" "sync c' s'" "c_port c' = c_port c"
proof -
  have same: thesis if "co = Some c" "sinv s'" "sync c s'"
    using that \<open>\<And>c'. co = Some c' \<Longrightarrow> sinv s' \<Longrightarrow> sync c' s' \<Longrightarrow> c_port c' = c_port c \<Longrightarrow> thesis\<close> by blast
  from r show ?thesis
  proof (cases rule: on_read_packet_cases)
    case (kept err)
    let ?s1 = "send_optional env (cand_address (c_remote c)) err s"
    have "sinv ?s1" "sync c ?s1" using s send_optional_ok by simp_all
    then have "sinv s'" "sync c s'"
      using kept(2) send_optional_ok handle_request_ok packet_inv packet_sync by auto
    then show ?thesis using same kept(1) by blast
  next
    case (response msg st msg' b)
    have "get_error_code_value msg' = STUN_ERROR_GLOBAL_FAIL"
      using no_error_code [OF response(1)] validate_ok_fields [OF response(2)]
      by (simp add: get_error_code_value_def get_error_code_def get_attribute_def)
    from check_response_ok [OF s this response(3)] that show ?thesis by blast
  qed
qed

lemma conn_ping_ok:
  assumes "sinv s" "sync c s" "conn_ping env now t rid c s = Some (c', s')"
  shows "sinv s' \<and> sync c' s' \<and> c_port c' = c_port c"
proof -
  have y: "sync (c\<lparr>c_last_ping_sent := n, c_pings := ps, c_requests := m, c_state := st,
      c_num_pings_sent := k\<rparr>) (send_optional env a out s)" for n ps m st k a out
    by (rule sync_view [OF send_optional_ok(2) [OF assms(2)]]) simp_all
  show ?thesis using assms(3) y send_optional_ok(1) [OF assms(1)]
    by (auto simp: conn_ping_def Let_def split: option.splits prod.splits)
qed

end

text \<open>C39: An error response that answers an outstanding request and passes the integrity check
  makes the connection use freed memory: the parsed message has no error code, so the connection
  destroys itself inside \<open>check_response\<close>, with its request manager and the request, and
  \<open>check_response\<close> then deletes the request again.\<close>

theorem error_response_use_after_free:
  assumes "validate_fingerprint (env_io env) data"
    and "stun_read (env_io env) data = Some (Some msg)" "msg_type msg = STUN_BINDING_ERROR_RESPONSE"
    and "validate_message_integrity (env_io env) (cand_password (c_remote c)) msg
           = Some (k_integrity_ok, msg')"
    and "map_of (mgr_requests (c_requests c)) (msg_transaction_id msg) = Some a"
    and "mgr_heap (c_requests c) a = Some r" "request_type r = STUN_BINDING_REQUEST"
  shows "on_read_packet env data ts t now c s = None"
proof -
  note v = validate_ok_fields [OF assms(4)]
  have code: "get_error_code_value msg' = STUN_ERROR_GLOBAL_FAIL"
    using no_error_code [OF assms(2)] get_attribute_attrs [of msg' msg] v
    by (simp add: get_error_code_value_def get_error_code_def)
  have gone: "conn_mgr x = None" if "error_callback env r msg' (Some c, s') = Some x" for s' x
    using that fail_and_destroy_gone [of env c s'] code
    by (cases x) (auto simp: error_callback_def on_request_error_response_def conn_mgr_def
        stun_errors Let_def)
  have ty: "ucast (msg_type msg') = get_stun_error_response (ucast (request_type r))"
    "ucast (msg_type msg') \<noteq> get_stun_success_response (ucast (request_type r))"
    using v assms(3,7)
    by (simp_all add: get_stun_error_response_def get_stun_success_response_def
        is_stun_request_type_def k_stun_type_mask_def STUN_BINDING_ERROR_RESPONSE_def
        STUN_BINDING_REQUEST_def)
  have "check_response conn_mgr conn_mgr_upd (response_callback env t now) (error_callback env) msg'
          (Some c, s) = None"
    by (rule conn.owner_destroyed [where a = a and r = r and m = "c_requests c"])
       (use assms(5-7) v ty gone in \<open>simp_all add: conn_mgr_def\<close>)
  moreover have "integrity_ok msg'" using v by (simp add: integrity_ok_def)
  ultimately show ?thesis
    using get_stun_message_response [OF assms(1,2)] assms(3,4)
    by (simp add: on_read_packet_def send_optional_def STUN_BINDING_ERROR_RESPONSE_def
        STUN_BINDING_REQUEST_def STUN_BINDING_RESPONSE_def Let_def)
qed

lemma binding_response_accepted:
  assumes io: "byte_io_laws io" and tid: "length (msg_transaction_id msg) = 12"
    and ip: "sa_ip (cand_address remote) = IPv4 b4" "length b4 = 4"
  shows "\<exists>data r m. stun_write io (binding_response io q remote msg) = Some data
     \<and> validate_fingerprint io data \<and> stun_read io data = Some (Some r)
     \<and> msg_type r = STUN_BINDING_RESPONSE \<and> msg_transaction_id r = msg_transaction_id msg
     \<and> validate_message_integrity io (ice_pwd (up_ice_params q)) r = Some (k_integrity_ok, m)"
proof -
  let ?a = "xor_address_attr STUN_ATTR_XOR_MAPPED_ADDRESS (cand_address remote)"
  define r1 where "r1 = add_attribute ?a (new_stun_message\<lparr>msg_type := STUN_BINDING_RESPONSE,
                                 msg_transaction_id := msg_transaction_id msg\<rparr>)"
  have a: "attr_wf ?a" "attr_span ?a = 12" "attr_type ?a = STUN_ATTR_XOR_MAPPED_ADDRESS"
    using ip by (simp_all add: attr_wf_def xor_address_attr_def address_size_def
        address_family_def attr_span_def)
  have at: "msg_attrs r1 = [?a]" by (simp add: r1_def new_stun_message_def)
  have wf: "msg_wf r1" unfolding r1_def
    by (rule add_attribute_wf)
      (use a tid in \<open>simp_all add: msg_wf_def new_stun_message_def STUN_BINDING_RESPONSE_def\<close>)
  have ty: "msg_typed r1"
    using a(3) by (simp add: msg_typed_def at attr_typed_def get_attribute_value_type_def stun_types)
  have L: "attrs_span (msg_attrs r1) + 32 < 65536" by (simp add: at a)
  have "\<forall>x \<in> set (msg_attrs r1). attr_type x \<noteq> STUN_ATTR_MESSAGE_INTEGRITY"
    by (simp add: at a(3)) (simp add: stun_types)
  from byte_io_laws.protected_message [OF io wf ty L this, of "ice_pwd (up_ice_params q)"]
  obtain m1 m2 data r s where
    1: "add_message_integrity io (ice_pwd (up_ice_params q)) r1 = (True, m1)"
      "add_fingerprint io m1 = (True, m2)" "stun_write io m2 = Some data"
    and 2: "validate_fingerprint io data" "stun_read io data = Some (Some r)"
      "msg_type r = msg_type r1" "msg_transaction_id r = msg_transaction_id r1"
    and v: "\<And>pw'. map_option fst (validate_message_integrity io pw' r) =
          Some (if hmac_sha1 io (ice_pwd (up_ice_params q)) s = hmac_sha1 io pw' s
                then k_integrity_ok else k_integrity_bad)"
    by blast
  obtain m where "validate_message_integrity io (ice_pwd (up_ice_params q)) r = Some (k_integrity_ok, m)"
    using v [of "ice_pwd (up_ice_params q)"] by auto
  moreover have "binding_response io q remote msg = m2"
    using 1 by (simp add: binding_response_def Let_def r1_def)
  ultimately show ?thesis using 1(3) 2 by (auto simp: r1_def)
qed

lemma answer_received:
  assumes env: "connection_env env sinv sync" "sinv s" "sync c s" "0 < now" "byte_io_laws (env_io env)"
    and req: "mgr_wf (c_requests c)" "map_of (mgr_requests (c_requests c)) rid = Some a"
      "mgr_heap (c_requests c) a = Some r" "request_type r = STUN_BINDING_REQUEST"
    and peer: "msg_transaction_id msg = rid" "length rid = 12"
      "ice_pwd (up_ice_params q) = cand_password (c_remote c)"
      "sa_ip (cand_address remote) = IPv4 b4" "length b4 = 4"
  shows "\<exists>data c' s'. stun_write (env_io env) (binding_response (env_io env) q remote msg) = Some data
     \<and> on_read_packet env data ts t now c s = Some (Some c', s') \<and> sinv s'
     \<and> c_write_state c' = STATE_WRITABLE \<and> c_receiving c' \<and> c_state c' = SUCCEEDED
     \<and> c_pings c' = [] \<and> c_rtt_samples c' = c_rtt_samples c + 1
     \<and> c_rtt c' = (if c_rtt_samples c > 0
          then lib_next_average (env_lib env) (c_rtt c) (request_elapsed t r) RTT_RATIO
          else request_elapsed t r)
     \<and> mgr_wf (c_requests c')
     \<and> map_of (mgr_requests (c_requests c')) = (map_of (mgr_requests (c_requests c)))(rid := None)"
proof -
  obtain data resp m where w: "stun_write (env_io env) (binding_response (env_io env) q remote msg) = Some data"
    and fp: "validate_fingerprint (env_io env) data" and rd: "stun_read (env_io env) data = Some (Some resp)"
    and ty: "msg_type resp = STUN_BINDING_RESPONSE" "msg_transaction_id resp = rid"
    and v: "validate_message_integrity (env_io env) (cand_password (c_remote c)) resp = Some (k_integrity_ok, m)"
    using binding_response_accepted [OF env(5), of msg remote b4 q] peer by auto
  note vf = validate_ok_fields [OF v]
  obtain c1 s1 where 1: "received_ping_response env (request_elapsed t r) now c s = Some (c1, s1)" "sinv s1" "sync c1 s1"
    and k: "conn_core c1 = conn_core (c
       \<lparr>c_rtt := (if c_rtt_samples c > 0
                 then lib_next_average (env_lib env) (c_rtt c) (request_elapsed t r) RTT_RATIO
                 else request_elapsed t r),
        c_rtt_samples := c_rtt_samples c + 1, c_last_ping_response := now, c_pings := [],
        c_receiving := True, c_write_state := STATE_WRITABLE, c_state := SUCCEEDED\<rparr>)"
    using connection_env.received_ping_response_ok [OF env(1-4)] by blast
  note f = conn_core_fields [OF k, simplified]
  have cb: "response_callback env t now r m (Some c, s) = Some (Some c1, s1)"
    by (simp add: response_callback_def on_request_response_def 1)
  have sty: "ucast (msg_type m) = get_stun_success_response (ucast (request_type r))"
    using vf ty req(4) by (simp add: get_stun_success_response_def is_stun_request_type_def
        k_stun_type_mask_def STUN_BINDING_RESPONSE_def STUN_BINDING_REQUEST_def)
  obtain m' where cr: "check_response conn_mgr conn_mgr_upd (response_callback env t now)
       (error_callback env) m (Some c, s) = Some (True, conn_mgr_upd (\<lambda>_. m') (Some c1, s1))"
    and m': "mgr_wf m'" "map_of (mgr_requests m') = (map_of (mgr_requests (c_requests c)))(rid := None)"
  proof (rule conn.success_answered [of "(Some c, s)" "c_requests c" m a r
        "response_callback env t now" "(Some c1, s1)" "error_callback env"])
    show "conn_mgr (Some c, s) = Some (c_requests c)" by (simp add: conn_mgr_def)
    show "map_of (mgr_requests (c_requests c)) (msg_transaction_id m) = Some a"
      using req(2) vf ty by simp
    show "conn_mgr (Some c1, s1) = conn_mgr (Some c, s)" using f by (simp add: conn_mgr_def)
  qed (use req sty cb vf ty that in \<open>simp_all\<close>)
  have "integrity_ok m" using vf by (simp add: integrity_ok_def)
  then have "on_read_packet env data ts t now c s = Some (conn_mgr_upd (\<lambda>_. m') (Some c1, s1))"
    using get_stun_message_response [OF fp rd] ty v cr
    by (simp add: on_read_packet_def send_optional_def STUN_BINDING_REQUEST_def
        STUN_BINDING_RESPONSE_def Let_def)
  then show ?thesis using w m' f 1(2) by (auto simp: conn_mgr_upd_def)
qed

text \<open>The answer to a ping. When a connection has an outstanding request and the peer answers
  a request with its transaction id, under the password the connection has for the peer, the
  answer can be written, and on receiving it the connection ends the request, becomes writable and
  receiving, its pair succeeds, and no ping counts as unanswered any more.\<close>

theorem ping_answered:
  assumes env: "connection_env env sinv sync" "sinv s" "sync c s" "0 < now" "byte_io_laws (env_io env)"
    and req: "mgr_wf (c_requests c)" "map_of (mgr_requests (c_requests c)) rid = Some a"
      "mgr_heap (c_requests c) a = Some r" "request_type r = STUN_BINDING_REQUEST"
    and peer: "msg_transaction_id msg = rid" "length rid = 12"
      "ice_pwd (up_ice_params q) = cand_password (c_remote c)"
      "sa_ip (cand_address remote) = IPv4 b4" "length b4 = 4"
  shows "\<exists>data c' s'. stun_write (env_io env) (binding_response (env_io env) q remote msg) = Some data
     \<and> on_read_packet env data ts t now c s = Some (Some c', s') \<and> sinv s'
     \<and> c_write_state c' = STATE_WRITABLE \<and> c_receiving c' \<and> c_state c' = SUCCEEDED
     \<and> c_pings c' = [] \<and> c_rtt_samples c' = c_rtt_samples c + 1
     \<and> mgr_wf (c_requests c')
     \<and> map_of (mgr_requests (c_requests c')) = (map_of (mgr_requests (c_requests c)))(rid := None)"
  using answer_received [OF assms] by blast

definition demo_outstanding :: ice_conn where
  "demo_outstanding = demo_conn\<lparr>c_requests :=
     \<lparr>mgr_requests = [(EMPTY_TRANSACTION_ID, 0)],
      mgr_heap = [0 \<mapsto> \<lparr>req_msg = new_stun_message\<lparr>msg_type := STUN_BINDING_REQUEST\<rparr>, req_ts = 0,
                      req_managed = True\<rparr>],
      mgr_alloc = 1\<rparr>\<rparr>"

lemma demo_outstanding_facts:
  "mgr_wf (c_requests demo_outstanding)"
  "map_of (mgr_requests (c_requests demo_outstanding)) EMPTY_TRANSACTION_ID = Some 0"
  "mgr_heap (c_requests demo_outstanding) 0 =
     Some \<lparr>req_msg = new_stun_message\<lparr>msg_type := STUN_BINDING_REQUEST\<rparr>, req_ts = 0, req_managed = True\<rparr>"
  "c_remote demo_outstanding = demo_remote"
  by (simp_all add: demo_outstanding_def mgr_wf_def request_id_def new_stun_message_def
      demo_conn_def new_ice_conn_def)

theorem ping_answered_witness:
  "\<exists>data c' s'. stun_write be_io (binding_response be_io demo_peer demo_candidate demo_request) = Some data
     \<and> on_read_packet demo_env data 0 5 6 demo_outstanding [] = Some (Some c', s')
     \<and> c_write_state c' = STATE_WRITABLE \<and> c_receiving c'"
proof -
  have io: "env_io demo_env = be_io" by (simp add: demo_env_def)
  have "byte_io_laws (env_io demo_env)" unfolding io by (rule be.byte_io_laws_axioms)
  note w = ping_answered [OF demo_connection_env _ _ _ this demo_outstanding_facts(1-3),
      where s = "[]" and now = 6 and t = 5 and ts = 0 and msg = demo_request and q = demo_peer
        and remote = demo_candidate and ?b4.0 = "[10, 0, 0, 1]"]
  show ?thesis
    using w by (auto simp: io request_type_def demo_request_attrs EMPTY_TRANSACTION_ID_def
        demo_outstanding_facts demo_port_defs demo_candidate_def demo_addr_def)
qed

theorem error_response_use_after_free_witness:
  "\<exists>data. on_read_packet demo_env data 0 5 6 demo_outstanding [] = None"
proof -
  let ?m = "new_stun_message\<lparr>msg_type := STUN_BINDING_ERROR_RESPONSE\<rparr>"
  have wf: "msg_wf ?m" "msg_typed ?m" "attrs_span (msg_attrs ?m) + 32 < 65536"
    "\<forall>a \<in> set (msg_attrs ?m). attr_type a \<noteq> STUN_ATTR_MESSAGE_INTEGRITY"
    by (simp_all add: msg_wf_def msg_typed_def new_stun_message_def EMPTY_TRANSACTION_ID_def
        STUN_BINDING_ERROR_RESPONSE_def)
  from be.protected_message [OF wf, of "cand_password demo_remote"]
  obtain data r s where 1: "validate_fingerprint be_io data" "stun_read be_io data = Some (Some r)"
      "msg_type r = STUN_BINDING_ERROR_RESPONSE" "msg_transaction_id r = EMPTY_TRANSACTION_ID"
    and v: "\<And>pw'. map_option fst (validate_message_integrity be_io pw' r) =
          Some (if hmac_sha1 be_io (cand_password demo_remote) s = hmac_sha1 be_io pw' s
                then k_integrity_ok else k_integrity_bad)"
    by (auto simp: new_stun_message_def)
  obtain m where m: "validate_message_integrity be_io (cand_password demo_remote) r = Some (k_integrity_ok, m)"
    using v [of "cand_password demo_remote"] by auto
  have io: "env_io demo_env = be_io" by (simp add: demo_env_def)
  have "on_read_packet demo_env data 0 5 6 demo_outstanding [] = None"
    by (rule error_response_use_after_free [where msg = r and msg' = m and a = 0 and r =
          "\<lparr>req_msg = new_stun_message\<lparr>msg_type := STUN_BINDING_REQUEST\<rparr>, req_ts = 0, req_managed = True\<rparr>"])
       (use 1 m in \<open>simp_all add: io demo_outstanding_facts request_type_def\<close>)
  then show ?thesis by blast
qed

end
