(* ===== verification/StableSort.thy ===== *)
theory StableSort
  imports Main "HOL-Library.Multiset"
begin

text \<open>
  The stable sort of the standard library by a comparator (\<open>absl::c_stable_sort\<close>). The C++
  standard asks a strict weak order of the comparator: this is the locale \<open>strict_weak_order\<close>,
  in which the result is shown to be a permutation, sorted, and stable. \<open>sort_by\<close> is executable.
\<close>

fun insert_by :: "('a \<Rightarrow> 'a \<Rightarrow> bool) \<Rightarrow> 'a \<Rightarrow> 'a list \<Rightarrow> 'a list" where
  "insert_by lt x [] = [x]"
| "insert_by lt x (y # ys) = (if lt y x then y # insert_by lt x ys else x # y # ys)"

definition sort_by :: "('a \<Rightarrow> 'a \<Rightarrow> bool) \<Rightarrow> 'a list \<Rightarrow> 'a list" where
  "sort_by lt xs = foldr (insert_by lt) xs []"

definition sorted_by :: "('a \<Rightarrow> 'a \<Rightarrow> bool) \<Rightarrow> 'a list \<Rightarrow> bool" where
  "sorted_by lt xs = sorted_wrt (\<lambda>x y. \<not> lt y x) xs"

lemma mset_insert_by [simp]: "mset (insert_by lt x ys) = add_mset x (mset ys)"
  by (induction ys) auto

lemma mset_sort_by [simp]: "mset (sort_by lt xs) = mset xs"
  unfolding sort_by_def by (induction xs) auto

lemma set_sort_by [simp]: "set (sort_by lt xs) = set xs"
  by (metis mset_sort_by set_mset_mset)

lemma set_insert_by [simp]: "set (insert_by lt x ys) = insert x (set ys)"
  by (induction ys) auto

lemma length_sort_by [simp]: "length (sort_by lt xs) = length xs"
  by (metis mset_sort_by size_mset)

locale strict_weak_order =
  fixes lt :: "'a \<Rightarrow> 'a \<Rightarrow> bool"
  assumes irrefl: "\<not> lt x x"
    and trans: "lt x y \<Longrightarrow> lt y z \<Longrightarrow> lt x z"
    and incomparable_trans:
      "\<not> lt x y \<Longrightarrow> \<not> lt y x \<Longrightarrow> \<not> lt y z \<Longrightarrow> \<not> lt z y \<Longrightarrow> \<not> lt x z \<and> \<not> lt z x"
begin

lemma not_less_trans: "\<not> lt y x \<Longrightarrow> \<not> lt z y \<Longrightarrow> \<not> lt z x"
  using trans incomparable_trans irrefl by metis

lemma sorted_insert_by: "sorted_by lt ys \<Longrightarrow> sorted_by lt (insert_by lt x ys)"
proof (induction ys)
  case Nil
  then show ?case by (simp add: sorted_by_def)
next
  case (Cons y ys)
  show ?case
  proof (cases "lt y x")
    case True
    then have "\<not> lt x y" using trans irrefl by blast
    then show ?thesis using Cons True by (auto simp: sorted_by_def)
  next
    case False
    then show ?thesis using Cons not_less_trans by (auto simp: sorted_by_def)
  qed
qed

lemma sorted_sort_by: "sorted_by lt (sort_by lt xs)"
  unfolding sort_by_def
  by (induction xs) (simp add: sorted_by_def, simp add: sorted_insert_by)

text \<open>Elements that are equivalent to \<open>a\<close> keep their order.\<close>

definition equiv_to :: "'a \<Rightarrow> 'a \<Rightarrow> bool" where
  "equiv_to a x \<longleftrightarrow> \<not> lt a x \<and> \<not> lt x a"

lemma filter_insert_by:
  "filter (equiv_to a) (insert_by lt x ys) = (if equiv_to a x then x # filter (equiv_to a) ys
     else filter (equiv_to a) ys)"
proof (induction ys)
  case Nil
  then show ?case by simp
next
  case (Cons y ys)
  have "\<not> (lt y x \<and> equiv_to a x \<and> equiv_to a y)"
    using incomparable_trans [of y a x] by (auto simp: equiv_to_def)
  then show ?case using Cons by auto
qed

lemma stable_sort_by: "filter (equiv_to a) (sort_by lt xs) = filter (equiv_to a) xs"
  unfolding sort_by_def by (induction xs) (auto simp: filter_insert_by)

lemma hd_least: "sort_by lt xs = y # ys \<Longrightarrow> z \<in> set xs \<Longrightarrow> \<not> lt z y"
proof -
  assume a: "sort_by lt xs = y # ys" "z \<in> set xs"
  then have "z \<in> set (y # ys)" by (metis set_sort_by)
  moreover have "sorted_by lt (y # ys)" using sorted_sort_by [of xs] a by simp
  ultimately show ?thesis using irrefl by (auto simp: sorted_by_def)
qed

end

end
