(* ===== verification/IceController.thy ===== *)
theory IceController
  imports IceConnection StableSort "HOL-Library.Product_Lexorder"
begin

text \<open>
  The ICE controller (\<open>ice/ice_controller.h\<close>, \<open>ice/ice_controller.cpp\<close>): which connection to ping
  next, and which connection should be the selected one. Connections are addresses on a heap
  \<open>h\<close>; a dereference of an address that is not on the heap is \<open>None\<close>. The two
  \<open>std::set\<close>s of pointers are sets of addresses, walked in increasing order. \<open>prio\<close> is the
  priority of a connection, which depends on its port.
\<close>

type_synonym conn_heap = "nat \<Rightarrow> ice_conn option"

record ice_controller =
  k_selected :: "nat option"
  k_connections :: "nat list"
  k_unpinged :: "nat set"
  k_pinged :: "nat set"

definition new_ice_controller :: ice_controller where
  "new_ice_controller =
     \<lparr>k_selected = None, k_connections = [], k_unpinged = {}, k_pinged = {}\<rparr>"

definition k_min_improvement :: int where "k_min_improvement = 10"
definition a_is_better :: int where "a_is_better = 1"
definition b_is_better :: int where "b_is_better = - 1"

definition k_add_connection :: "nat \<Rightarrow> ice_controller \<Rightarrow> ice_controller" where
  "k_add_connection a k =
     k\<lparr>k_connections := k_connections k @ [a], k_unpinged := insert a (k_unpinged k)\<rparr>"

definition k_connection_destroyed :: "nat \<Rightarrow> ice_controller \<Rightarrow> ice_controller" where
  "k_connection_destroyed a k =
     k\<lparr>k_pinged := k_pinged k - {a}, k_unpinged := k_unpinged k - {a},
       k_connections := remove1 a (k_connections k)\<rparr>"

definition set_selected_connection :: "nat \<Rightarrow> ice_controller \<Rightarrow> ice_controller" where
  "set_selected_connection a k = k\<lparr>k_selected := Some a\<rparr>"

definition k_weak :: "conn_heap \<Rightarrow> ice_controller \<Rightarrow> bool option" where
  "k_weak h k = (case k_selected k of None \<Rightarrow> Some True | Some a \<Rightarrow> map_option conn_weak (h a))"

definition ping_interval ::
  "conn_heap \<Rightarrow> ice_controller \<Rightarrow> int \<Rightarrow> ice_conn \<Rightarrow> int option" where
  "ping_interval h k now c =
     (if c_num_pings_sent c < MIN_PINGS_AT_WEAK_PING_INTERVAL then Some WEAK_PING_INTERVAL
      else (case k_weak h k of
              None \<Rightarrow> None
            | Some w \<Rightarrow>
                if w \<or> \<not> conn_stable now c then Some STABLING_CONNECTION_PING_INTERVAL
                else Some STABLE_CONNECTION_PING_INTERVAL))"

definition past_ping_interval ::
  "conn_heap \<Rightarrow> ice_controller \<Rightarrow> int \<Rightarrow> ice_conn \<Rightarrow> bool option" where
  "past_ping_interval h k now c =
     (case ping_interval h k now c of
        None \<Rightarrow> None
      | Some interval \<Rightarrow> Some (now \<ge> c_last_ping_sent c + interval))"

definition is_pingable :: "conn_heap \<Rightarrow> ice_controller \<Rightarrow> int \<Rightarrow> nat \<Rightarrow> bool option" where
  "is_pingable h k now a =
     (case h a of
        None \<Rightarrow> None
      | Some c \<Rightarrow>
          if cand_username (c_remote c) = [] \<or> cand_password (c_remote c) = [] then Some False
          else (case k_weak h k of
                  None \<Rightarrow> None
                | Some w \<Rightarrow> if w then Some True else past_ping_interval h k now c))"

fun any_pingable :: "conn_heap \<Rightarrow> ice_controller \<Rightarrow> int \<Rightarrow> nat list \<Rightarrow> bool option" where
  "any_pingable h k now [] = Some False"
| "any_pingable h k now (a # as) =
     (case is_pingable h k now a of
        None \<Rightarrow> None
      | Some True \<Rightarrow> Some True
      | Some False \<Rightarrow> any_pingable h k now as)"

definition has_pingable_connection ::
  "conn_heap \<Rightarrow> int \<Rightarrow> ice_controller \<Rightarrow> bool option" where
  "has_pingable_connection h now k = any_pingable h k now (k_connections k)"

definition more_pingable :: "ice_conn \<Rightarrow> ice_conn option \<Rightarrow> bool" where
  "more_pingable conn1 conn2 =
     (case conn2 of
        None \<Rightarrow> True
      | Some c2 \<Rightarrow>
          if c_last_ping_sent conn1 < c_last_ping_sent c2 then True
          else if c_last_ping_sent conn1 > c_last_ping_sent c2 then False
          else False)"

text \<open>The loop that keeps the connection to ping; \<open>best\<close> is \<open>find_conn\<close>.\<close>

fun pick_pingable ::
  "conn_heap \<Rightarrow> ice_controller \<Rightarrow> int \<Rightarrow> nat list \<Rightarrow> nat option \<Rightarrow> nat option option" where
  "pick_pingable h k now [] best = Some best"
| "pick_pingable h k now (a # as) best =
     (case is_pingable h k now a of
        None \<Rightarrow> None
      | Some False \<Rightarrow> pick_pingable h k now as best
      | Some True \<Rightarrow>
          (case h a of
             None \<Rightarrow> None
           | Some c \<Rightarrow>
               (case best of
                  None \<Rightarrow> pick_pingable h k now as (if more_pingable c None then Some a else best)
                | Some b \<Rightarrow>
                    (case h b of
                       None \<Rightarrow> None
                     | Some cb \<Rightarrow>
                         pick_pingable h k now as
                           (if more_pingable c (Some cb) then Some a else best)))))"

text \<open>The first test: the selected connection when it is writable and due.\<close>

definition selected_due :: "conn_heap \<Rightarrow> ice_controller \<Rightarrow> int \<Rightarrow> bool option" where
  "selected_due h k now =
     (case k_selected k of
        None \<Rightarrow> Some False
      | Some a \<Rightarrow>
          (case h a of
             None \<Rightarrow> None
           | Some c \<Rightarrow> if conn_writable c then past_ping_interval h k now c else Some False))"

definition find_next_pingable ::
  "conn_heap \<Rightarrow> int \<Rightarrow> ice_controller \<Rightarrow> (nat option \<times> ice_controller) option" where
  "find_next_pingable h now k =
     (case selected_due h k now of
        None \<Rightarrow> None
      | Some True \<Rightarrow> Some (k_selected k, k)
      | Some False \<Rightarrow>
          (case any_pingable h k now (sorted_list_of_set (k_unpinged k)) of
             None \<Rightarrow> None
           | Some has_pingable \<Rightarrow>
               (let k1 = (if has_pingable then k
                          else k\<lparr>k_unpinged := k_unpinged k \<union> k_pinged k, k_pinged := {}\<rparr>)
                in map_option (\<lambda>r. (r, k1))
                     (pick_pingable h k1 now (sorted_list_of_set (k_unpinged k1)) None))))"

fun needs_more_pings :: "conn_heap \<Rightarrow> nat list \<Rightarrow> bool option" where
  "needs_more_pings h [] = Some False"
| "needs_more_pings h (a # as) =
     (case h a of
        None \<Rightarrow> None
      | Some c \<Rightarrow> if c_num_pings_sent c < MIN_PINGS_AT_WEAK_PING_INTERVAL then Some True
                  else needs_more_pings h as)"

text \<open>The \<open>PingResult\<close>: the connection to ping, if any, and the interval.\<close>

definition select_connection_to_ping ::
  "conn_heap \<Rightarrow> int \<Rightarrow> int \<Rightarrow> ice_controller \<Rightarrow> (nat option \<times> int \<times> ice_controller) option" where
  "select_connection_to_ping h now last_ping_sent_ms k =
     (case needs_more_pings h (k_connections k) of
        None \<Rightarrow> None
      | Some few \<Rightarrow>
          (case k_weak h k of
             None \<Rightarrow> None
           | Some w \<Rightarrow>
               (let interval = (if w \<or> few then WEAK_PING_INTERVAL else STRONG_PING_INTERVAL) in
                if now \<ge> last_ping_sent_ms + interval
                then map_option (\<lambda>(a, k'). (a, interval, k')) (find_next_pingable h now k)
                else Some (None, interval, k))))"

definition compare_connections :: "(ice_conn \<Rightarrow> u64) \<Rightarrow> ice_conn \<Rightarrow> ice_conn \<Rightarrow> int" where
  "compare_connections prio a b =
     (if conn_writable a \<and> \<not> conn_writable b then a_is_better
      else if \<not> conn_writable a \<and> conn_writable b then b_is_better
      else if c_write_state a < c_write_state b then a_is_better
      else if c_write_state a > c_write_state b then b_is_better
      else if c_receiving a \<and> \<not> c_receiving b then a_is_better
      else if \<not> c_receiving a \<and> c_receiving b then b_is_better
      else if prio a > prio b then a_is_better
      else if prio a < prio b then b_is_better
      else 0)"

definition conn_less :: "(ice_conn \<Rightarrow> u64) \<Rightarrow> ice_conn \<Rightarrow> ice_conn \<Rightarrow> bool" where
  "conn_less prio a b =
     (let cmp = compare_connections prio a b in
      if cmp \<noteq> 0 then cmp > 0 else c_rtt a < c_rtt b)"

definition ready_to_send :: "ice_conn \<Rightarrow> bool" where
  "ready_to_send c = (conn_writable c \<or> c_write_state c = STATE_WRITE_UNRELIABLE)"

fun load_conns :: "conn_heap \<Rightarrow> nat list \<Rightarrow> (nat \<times> ice_conn) list option" where
  "load_conns h [] = Some []"
| "load_conns h (a # as) =
     (case h a of
        None \<Rightarrow> None
      | Some c \<Rightarrow> map_option ((#) (a, c)) (load_conns h as))"

definition sort_and_switch ::
  "(ice_conn \<Rightarrow> u64) \<Rightarrow> conn_heap \<Rightarrow> ice_controller \<Rightarrow> (nat option \<times> ice_controller) option" where
  "sort_and_switch prio h k =
     (case load_conns h (k_connections k) of
        None \<Rightarrow> None
      | Some cs \<Rightarrow>
          (let sorted = sort_by (\<lambda>x y. conn_less prio (snd x) (snd y)) cs;
               k1 = k\<lparr>k_connections := map fst sorted\<rparr>
           in case sorted of
                [] \<Rightarrow> Some (None, k1)
              | (ta, tc) # _ \<Rightarrow>
                  if \<not> ready_to_send tc \<or> k_selected k = Some ta then Some (None, k1)
                  else
                    (case k_selected k of
                       None \<Rightarrow> Some (Some ta, k1)
                     | Some a \<Rightarrow>
                         (case h a of
                            None \<Rightarrow> None
                          | Some sc \<Rightarrow>
                              if c_rtt tc \<le> c_rtt sc - k_min_improvement then Some (Some ta, k1)
                              else Some (None, k1)))))"

definition mark_connection_pinged :: "nat \<Rightarrow> ice_controller \<Rightarrow> ice_controller" where
  "mark_connection_pinged a k =
     (if a \<notin> k_pinged k
      then k\<lparr>k_pinged := insert a (k_pinged k), k_unpinged := k_unpinged k - {a}\<rparr> else k)"

subsection \<open>The order of connections\<close>

definition conn_key :: "(ice_conn \<Rightarrow> u64) \<Rightarrow> ice_conn \<Rightarrow> nat \<times> nat \<times> int \<times> int" where
  "conn_key prio c =
     (write_state_code (c_write_state c), if c_receiving c then 0 else 1, - uint (prio c), c_rtt c)"

lemma conn_less_key: "conn_less prio a b \<longleftrightarrow> conn_key prio a < conn_key prio b"
  by (cases "c_write_state a"; cases "c_write_state b")
     (auto simp: conn_less_def compare_connections_def conn_key_def conn_writable_def Let_def
       less_write_state_def a_is_better_def b_is_better_def word_less_def)

lemma key_strict_weak:
  fixes key :: "'a \<Rightarrow> 'k::linorder"
  shows "strict_weak_order (\<lambda>x y. key x < key y)"
  by unfold_locales auto

interpretation conn_order: strict_weak_order "\<lambda>x y. conn_less prio (snd x) (snd y)" for prio
  unfolding conn_less_key by (rule key_strict_weak)

subsection \<open>The invariant\<close>

definition k_wf :: "ice_controller \<Rightarrow> bool" where
  "k_wf k \<longleftrightarrow> distinct (k_connections k)
     \<and> set (k_connections k) = k_unpinged k \<union> k_pinged k \<and> k_unpinged k \<inter> k_pinged k = {}"

definition k_live :: "conn_heap \<Rightarrow> ice_controller \<Rightarrow> bool" where
  "k_live h k \<longleftrightarrow> (\<forall>a \<in> set (k_connections k). h a \<noteq> None)
     \<and> (case k_selected k of None \<Rightarrow> True | Some a \<Rightarrow> h a \<noteq> None)"

lemma k_wf_new: "k_wf new_ice_controller"
  by (simp add: k_wf_def new_ice_controller_def)

lemma k_wf_add: "k_wf k \<Longrightarrow> a \<notin> set (k_connections k) \<Longrightarrow> k_wf (k_add_connection a k)"
  by (auto simp: k_wf_def k_add_connection_def)

lemma k_wf_destroyed: "k_wf k \<Longrightarrow> k_wf (k_connection_destroyed a k)"
  by (auto simp: k_wf_def k_connection_destroyed_def)

lemma k_wf_mark: "k_wf k \<Longrightarrow> a \<in> set (k_connections k) \<Longrightarrow> k_wf (mark_connection_pinged a k)"
  by (auto simp: k_wf_def mark_connection_pinged_def)

lemma k_wf_finite: "k_wf k \<Longrightarrow> finite (k_unpinged k) \<and> finite (k_pinged k)"
  by (metis List.finite_set finite_Un k_wf_def)

subsection \<open>Selection of the connection to ping\<close>

definition weak_now :: "conn_heap \<Rightarrow> ice_controller \<Rightarrow> bool" where
  "weak_now h k = (case k_selected k of None \<Rightarrow> True | Some a \<Rightarrow> conn_weak (the (h a)))"

definition due :: "conn_heap \<Rightarrow> ice_controller \<Rightarrow> int \<Rightarrow> ice_conn \<Rightarrow> bool" where
  "due h k now c \<longleftrightarrow> c_last_ping_sent c +
     (if c_num_pings_sent c < MIN_PINGS_AT_WEAK_PING_INTERVAL then WEAK_PING_INTERVAL
      else if weak_now h k \<or> \<not> conn_stable now c then STABLING_CONNECTION_PING_INTERVAL
      else STABLE_CONNECTION_PING_INTERVAL) \<le> now"

definition pingable :: "conn_heap \<Rightarrow> ice_controller \<Rightarrow> int \<Rightarrow> nat \<Rightarrow> bool" where
  "pingable h k now a \<longleftrightarrow>
     cand_username (c_remote (the (h a))) \<noteq> [] \<and> cand_password (c_remote (the (h a))) \<noteq> []
     \<and> (weak_now h k \<or> due h k now (the (h a)))"

lemma k_weak_eq: "k_live h k \<Longrightarrow> k_weak h k = Some (weak_now h k)"
  by (auto simp: k_weak_def weak_now_def k_live_def split: option.splits)

lemma past_eq: "k_live h k \<Longrightarrow> past_ping_interval h k now c = Some (due h k now c)"
  by (simp add: past_ping_interval_def ping_interval_def k_weak_eq due_def)

lemma is_pingable_eq: "k_live h k \<Longrightarrow> h a \<noteq> None \<Longrightarrow> is_pingable h k now a = Some (pingable h k now a)"
  by (auto simp: is_pingable_def k_weak_eq past_eq pingable_def)

lemma any_pingable_eq:
  "k_live h k \<Longrightarrow> \<forall>a \<in> set as. h a \<noteq> None \<Longrightarrow>
   any_pingable h k now as = Some (\<exists>a \<in> set as. pingable h k now a)"
proof (induction as)
  case Nil
  then show ?case by simp
next
  case (Cons a as)
  have "is_pingable h k now a = Some (pingable h k now a)"
    by (rule is_pingable_eq) (use Cons.prems in auto)
  then show ?case using Cons by (cases "pingable h k now a") auto
qed

definition last_ping :: "conn_heap \<Rightarrow> nat \<Rightarrow> int" where
  "last_ping h a = c_last_ping_sent (the (h a))"

text \<open>A pingable connection replaces the best one so far when that was pinged later.\<close>

lemma pick_pingable_step:
  assumes "is_pingable h k now a = Some True" "h a = Some c" "case best of None \<Rightarrow> True | Some b \<Rightarrow> h b \<noteq> None"
  obtains d where "pick_pingable h k now (a # as) best = pick_pingable h k now as (Some d)" "h d \<noteq> None"
    "d = a \<or> best = Some d" "last_ping h d \<le> last_ping h a"
    "\<And>b. best = Some b \<Longrightarrow> last_ping h d \<le> last_ping h b"
proof (cases best)
  case None
  then have "pick_pingable h k now (a # as) best = pick_pingable h k now as (Some a)"
    using assms(1,2) by (simp add: more_pingable_def)
  then show ?thesis using that [of a] assms(2) None by simp
next
  case (Some b)
  then obtain cb where cb: "h b = Some cb" using assms(3) by auto
  define d where "d = (if last_ping h a < last_ping h b then a else b)"
  have "pick_pingable h k now (a # as) best = pick_pingable h k now as (Some d)"
    using assms(1,2) cb Some by (simp add: d_def more_pingable_def last_ping_def)
  then show ?thesis using that [of d] assms(2) cb Some by (simp add: d_def split: if_splits)
qed

lemma pick_pingable_eq:
  "k_live h k \<Longrightarrow> \<forall>a \<in> set as. h a \<noteq> None \<Longrightarrow> (case best of None \<Rightarrow> True | Some b \<Rightarrow> h b \<noteq> None) \<Longrightarrow>
   \<exists>r. pick_pingable h k now as best = Some r
     \<and> (r = None \<longrightarrow> best = None \<and> (\<forall>a \<in> set as. \<not> pingable h k now a))
     \<and> (\<forall>a. r = Some a \<longrightarrow> (best = Some a \<or> a \<in> set as \<and> pingable h k now a)
          \<and> (\<forall>b \<in> set as. pingable h k now b \<longrightarrow> last_ping h a \<le> last_ping h b)
          \<and> (\<forall>b. best = Some b \<longrightarrow> last_ping h a \<le> last_ping h b))"
proof (induction as arbitrary: best)
  case Nil
  then show ?case by simp
next
  case (Cons a as)
  obtain c where c: "h a = Some c" using Cons.prems by auto
  have p: "is_pingable h k now a = Some (pingable h k now a)"
    by (rule is_pingable_eq) (use Cons.prems in auto)
  have rest: "\<forall>a \<in> set as. h a \<noteq> None" using Cons.prems by simp
  show ?case
  proof (cases "pingable h k now a")
    case False
    then show ?thesis using Cons.IH [OF Cons.prems(1) rest Cons.prems(3)] p by auto
  next
    case True
    then have "is_pingable h k now a = Some True" using p by simp
    from pick_pingable_step [OF this c Cons.prems(3), where as = as]
    obtain d where d: "pick_pingable h k now (a # as) best = pick_pingable h k now as (Some d)" "h d \<noteq> None"
      "d = a \<or> best = Some d" "last_ping h d \<le> last_ping h a"
      "\<And>b. best = Some b \<Longrightarrow> last_ping h d \<le> last_ping h b" by blast
    obtain x where r: "pick_pingable h k now as (Some d) = Some (Some x)"
      and x: "d = x \<or> x \<in> set as \<and> pingable h k now x" "last_ping h x \<le> last_ping h d"
        "\<And>b. b \<in> set as \<Longrightarrow> pingable h k now b \<Longrightarrow> last_ping h x \<le> last_ping h b"
      using Cons.IH [OF Cons.prems(1) rest, of "Some d"] d(2) by auto
    have "best = Some x \<or> x \<in> set (a # as) \<and> pingable h k now x" using x(1) d(3) True by auto
    moreover have "\<forall>b \<in> set (a # as). pingable h k now b \<longrightarrow> last_ping h x \<le> last_ping h b"
      using x(2,3) d(4) by auto
    moreover have "\<forall>b. best = Some b \<longrightarrow> last_ping h x \<le> last_ping h b"
      using d(5) x(2) order_trans by blast
    ultimately show ?thesis using d(1) r by simp
  qed
qed

text \<open>The choice from a set, in the order of the addresses.\<close>

lemma pick_from_set:
  assumes "k_live h k" "finite A" "\<forall>a \<in> A. h a \<noteq> None"
  obtains r where "pick_pingable h k now (sorted_list_of_set A) None = Some r"
    "case r of None \<Rightarrow> \<forall>a \<in> A. \<not> pingable h k now a
     | Some a \<Rightarrow> a \<in> A \<and> pingable h k now a \<and> (\<forall>b \<in> A. pingable h k now b \<longrightarrow> last_ping h a \<le> last_ping h b)"
proof -
  have "\<forall>a \<in> set (sorted_list_of_set A). h a \<noteq> None" using assms(2,3) by simp
  from pick_pingable_eq [OF assms(1) this, of None now] that show ?thesis
    using assms(2) by (fastforce split: option.splits)
qed

lemma pingable_cong: "k_selected k' = k_selected k \<Longrightarrow> pingable h k' now a = pingable h k now a"
  by (simp add: pingable_def weak_now_def due_def)

lemma selected_due_eq:
  "k_live h k \<Longrightarrow> selected_due h k now = Some (case k_selected k of None \<Rightarrow> False
     | Some a \<Rightarrow> conn_writable (the (h a)) \<and> due h k now (the (h a)))"
  by (auto simp: selected_due_def k_live_def past_eq split: option.splits)

text \<open>The round that \<open>find_next_pingable\<close> searches: the current one or, when nothing in it can be pinged, a new one.\<close>

lemma next_round:
  fixes now :: int
  assumes "k_wf k" "k_live h k"
  defines "has \<equiv> \<exists>b \<in> k_unpinged k. pingable h k now b"
  defines "k1 \<equiv> (if has then k else k\<lparr>k_unpinged := k_unpinged k \<union> k_pinged k, k_pinged := {}\<rparr>)"
  shows "k_wf k1" "k_connections k1 = k_connections k" "k_selected k1 = k_selected k"
    "k_unpinged k1 = (if has then k_unpinged k else set (k_connections k))"
    "any_pingable h k now (sorted_list_of_set (k_unpinged k)) = Some has"
    "\<forall>a \<in> k_unpinged k1. h a \<noteq> None"
proof -
  have fin: "finite (k_unpinged k)" using k_wf_finite [OF assms(1)] by simp
  have sub: "k_unpinged k \<subseteq> set (k_connections k)" and
    un: "k_unpinged k \<union> k_pinged k = set (k_connections k)"
    using assms(1) by (auto simp: k_wf_def)
  have live: "a \<in> set (k_connections k) \<Longrightarrow> h a \<noteq> None" for a
    using assms(2) by (simp add: k_live_def)
  show "k_wf k1" "k_connections k1 = k_connections k" "k_selected k1 = k_selected k"
    and u: "k_unpinged k1 = (if has then k_unpinged k else set (k_connections k))"
    using assms(1) un by (auto simp: k1_def k_wf_def)
  show "any_pingable h k now (sorted_list_of_set (k_unpinged k)) = Some has"
    using any_pingable_eq [OF assms(2), of "sorted_list_of_set (k_unpinged k)" now] sub live fin
    by (auto simp: has_def)
  show "\<forall>a \<in> k_unpinged k1. h a \<noteq> None" using live sub u by (auto split: if_splits)
qed

lemma next_ping_rule:
  assumes "k_wf k" "k_live h k"
  shows "\<exists>r k'. find_next_pingable h now k = Some (r, k') \<and> k_wf k'
     \<and> k_connections k' = k_connections k \<and> k_selected k' = k_selected k
     \<and> (if (case k_selected k of None \<Rightarrow> False
           | Some a \<Rightarrow> conn_writable (the (h a)) \<and> due h k now (the (h a)))
        then r = k_selected k \<and> k' = k
        else k_unpinged k' = (if \<exists>b \<in> k_unpinged k. pingable h k now b then k_unpinged k
                              else set (k_connections k))
           \<and> (case r of
                None \<Rightarrow> \<forall>a \<in> set (k_connections k). \<not> pingable h k now a
              | Some a \<Rightarrow> a \<in> k_unpinged k' \<and> pingable h k now a
                  \<and> (\<forall>b \<in> k_unpinged k'. pingable h k now b \<longrightarrow> last_ping h a \<le> last_ping h b)))"
proof -
  define has where "has \<longleftrightarrow> (\<exists>b \<in> k_unpinged k. pingable h k now b)"
  define k1 where "k1 = (if has then k
      else k\<lparr>k_unpinged := k_unpinged k \<union> k_pinged k, k_pinged := {}\<rparr>)"
  note k1 = next_round [OF assms, of now, folded has_def, folded k1_def]
  have l1: "k_live h k1" using assms(2) k1 by (simp add: k_live_def)
  from pick_from_set [OF l1 conjunct1 [OF k_wf_finite [OF k1(1)]] k1(6), of now]
  obtain r where r: "pick_pingable h k1 now (sorted_list_of_set (k_unpinged k1)) None = Some r"
    "case r of None \<Rightarrow> \<forall>a \<in> k_unpinged k1. \<not> pingable h k1 now a
     | Some a \<Rightarrow> a \<in> k_unpinged k1 \<and> pingable h k1 now a
         \<and> (\<forall>b \<in> k_unpinged k1. pingable h k1 now b \<longrightarrow> last_ping h a \<le> last_ping h b)" .
  note pc = pingable_cong [OF k1(3)]
  show ?thesis
  proof (cases "case k_selected k of None \<Rightarrow> False
           | Some a \<Rightarrow> conn_writable (the (h a)) \<and> due h k now (the (h a))")
    case True
    then have "find_next_pingable h now k = Some (k_selected k, k)"
      using selected_due_eq [OF assms(2), of now] by (simp add: find_next_pingable_def)
    then show ?thesis using True assms(1) by auto
  next
    case False
    then have f: "find_next_pingable h now k = Some (r, k1)"
      using selected_due_eq [OF assms(2), of now] k1(5) r(1)
      by (simp add: find_next_pingable_def k1_def Let_def)
    have none: "\<forall>a \<in> set (k_connections k). \<not> pingable h k now a"
      if "\<forall>a \<in> k_unpinged k1. \<not> pingable h k now a"
      using that k1(4) unfolding has_def by metis
    have "case r of None \<Rightarrow> \<forall>a \<in> set (k_connections k). \<not> pingable h k now a
        | Some a \<Rightarrow> a \<in> k_unpinged k1 \<and> pingable h k now a
            \<and> (\<forall>b \<in> k_unpinged k1. pingable h k now b \<longrightarrow> last_ping h a \<le> last_ping h b)"
      using r(2) none unfolding pc by (cases r) simp_all
    then show ?thesis using f False k1 by (auto simp: has_def)
  qed
qed

text \<open>C5: With its connections alive, the controller always finds an answer. It is the selected
  connection when that is writable and due for a ping; otherwise a connection that can be pinged,
  not yet pinged in this round, whose last ping is the oldest among those; and there is none only
  when no connection can be pinged. A new round starts exactly when no connection of the current
  one can be pinged, and the pinged and unpinged sets stay a partition of the connections.\<close>

theorem next_ping_sound:
  assumes "k_wf k" "k_live h k"
  shows "\<exists>r k'. find_next_pingable h now k = Some (r, k') \<and> k_wf k'
     \<and> k_connections k' = k_connections k \<and> k_selected k' = k_selected k
     \<and> (if (case k_selected k of None \<Rightarrow> False
           | Some a \<Rightarrow> conn_writable (the (h a)) \<and> due h k now (the (h a)))
        then r = k_selected k \<and> k' = k
        else k_unpinged k' = (if \<exists>b \<in> k_unpinged k. pingable h k now b then k_unpinged k
                              else set (k_connections k))
           \<and> (case r of
                None \<Rightarrow> \<forall>a \<in> set (k_connections k). \<not> pingable h k now a
              | Some a \<Rightarrow> a \<in> k_unpinged k' \<and> pingable h k now a
                  \<and> (\<forall>b \<in> k_unpinged k'. pingable h k now b \<longrightarrow> last_ping h a \<le> last_ping h b)))"
  by (rule next_ping_rule [OF assms])

definition demo_heap :: conn_heap where
  "demo_heap = [1 \<mapsto> demo_conn\<lparr>c_write_state := STATE_WRITE_TIMEOUT, c_rtt := 5\<rparr>,
                2 \<mapsto> demo_conn\<lparr>c_write_state := STATE_WRITABLE, c_receiving := True, c_rtt := 5\<rparr>]"

definition demo_controller :: ice_controller where
  "demo_controller = \<lparr>k_selected = Some 1, k_connections = [1, 2], k_unpinged = {1, 2}, k_pinged = {}\<rparr>"

lemma demo_controller_ok: "k_wf demo_controller" "k_live demo_heap demo_controller"
  by (auto simp: k_wf_def k_live_def demo_controller_def demo_heap_def)

theorem next_ping_sound_witness:
  "\<exists>r k'. find_next_pingable demo_heap 100 demo_controller = Some (r, k') \<and> k_wf k'
     \<and> k_connections k' = [1, 2]"
proof -
  from next_ping_sound [OF demo_controller_ok, of 100] obtain r k' where
    "find_next_pingable demo_heap 100 demo_controller = Some (r, k')" "k_wf k'"
    "k_connections k' = k_connections demo_controller"
    by (elim exE conjE)
  then show ?thesis by (simp add: demo_controller_def)
qed

lemma needs_more_pings_live:
  "\<forall>a \<in> set as. h a \<noteq> None \<Longrightarrow> \<exists>b. needs_more_pings h as = Some b"
  by (induction as) auto

lemma select_connection_ok:
  assumes "k_wf k" "k_live h k"
  obtains r i k' where "select_connection_to_ping h now tl0 k = Some (r, i, k')" "k_wf k'"
    "k_connections k' = k_connections k" "k_selected k' = k_selected k"
    "\<And>a. r = Some a \<Longrightarrow> k_selected k = Some a \<or> a \<in> set (k_connections k)"
proof -
  obtain few where few: "needs_more_pings h (k_connections k) = Some few"
    using needs_more_pings_live assms(2) unfolding k_live_def by blast
  obtain r k' where f: "find_next_pingable h now k = Some (r, k')" "k_wf k'"
    "k_connections k' = k_connections k" "k_selected k' = k_selected k"
    and or: "r = k_selected k \<or> (\<forall>a. r = Some a \<longrightarrow> a \<in> k_unpinged k')"
    using next_ping_rule [OF assms, of now] by (elim exE conjE) (auto split: if_splits option.splits)
  have sel: "k_selected k = Some a \<or> a \<in> set (k_connections k)" if "r = Some a" for a
    using or that f(2,3) by (auto simp: k_wf_def)
  define i where "i = (if weak_now h k \<or> few then WEAK_PING_INTERVAL else STRONG_PING_INTERVAL)"
  show ?thesis
  proof (cases "now \<ge> tl0 + i")
    case True
    then have "select_connection_to_ping h now tl0 k = Some (r, i, k')"
      using few k_weak_eq [OF assms(2)] f(1)
      by (simp add: select_connection_to_ping_def i_def [symmetric])
    then show ?thesis using that f sel by blast
  next
    case False
    then have "select_connection_to_ping h now tl0 k = Some (None, i, k)"
      using few k_weak_eq [OF assms(2)]
      by (simp add: select_connection_to_ping_def i_def [symmetric])
    then show ?thesis using that assms(1) by blast
  qed
qed

subsection \<open>Sorting and switching\<close>

lemma load_conns_eq:
  "\<forall>a \<in> set as. h a \<noteq> None \<Longrightarrow> load_conns h as = Some (map (\<lambda>a. (a, the (h a))) as)"
  by (induction as) auto

text \<open>The order on addresses that the sort uses.\<close>

definition better :: "(ice_conn \<Rightarrow> u64) \<Rightarrow> conn_heap \<Rightarrow> nat \<Rightarrow> nat \<Rightarrow> bool" where
  "better prio h a b = conn_less prio (the (h a)) (the (h b))"

lemma sorted_conns:
  assumes "sort_by (\<lambda>x y. conn_less prio (snd x) (snd y)) (map (\<lambda>a. (a, the (h a))) as) = xs"
  shows "mset (map fst xs) = mset as" "\<forall>(a, c) \<in> set xs. c = the (h a) \<and> a \<in> set as"
    "sorted_by (better prio h) (map fst xs)"
proof -
  have m: "mset xs = mset (map (\<lambda>a. (a, the (h a))) as)"
    unfolding assms [symmetric] by (rule mset_sort_by)
  then have "mset (map fst xs) = mset (map fst (map (\<lambda>a. (a, the (h a))) as))"
    by (simp only: mset_map)
  also have "map fst (map (\<lambda>a. (a, the (h a))) as) = as" by (simp add: comp_def)
  finally show "mset (map fst xs) = mset as" .
  have "set xs = set (map (\<lambda>a. (a, the (h a))) as)"
    using arg_cong [OF m, of set_mset] by (simp only: set_mset_mset)
  then show mem: "\<forall>(a, c) \<in> set xs. c = the (h a) \<and> a \<in> set as" by auto
  have "sorted_by (\<lambda>x y. conn_less prio (snd x) (snd y)) xs"
    using conn_order.sorted_sort_by [of prio "map (\<lambda>a. (a, the (h a))) as"] assms by simp
  then show "sorted_by (better prio h) (map fst xs)"
    unfolding sorted_by_def sorted_wrt_map
  proof (rule sorted_wrt_mono_rel [rotated])
    fix x y
    assume xy: "x \<in> set xs" "y \<in> set xs" and n: "\<not> conn_less prio (snd y) (snd x)"
    have "snd x = the (h (fst x))" "snd y = the (h (fst y))"
      using bspec [OF mem xy(1)] bspec [OF mem xy(2)] by (simp_all add: case_prod_unfold)
    then show "\<not> better prio h (fst y) (fst x)" using n by (simp add: better_def)
  qed
qed

lemma switch_rule:
  assumes "k_live h k"
  shows "\<exists>r cs. sort_and_switch prio h k = Some (r, k\<lparr>k_connections := cs\<rparr>)
     \<and> mset cs = mset (k_connections k) \<and> sorted_by (better prio h) cs
     \<and> (r \<noteq> None \<longleftrightarrow> cs \<noteq> [] \<and> ready_to_send (the (h (hd cs))) \<and> k_selected k \<noteq> Some (hd cs)
          \<and> (\<forall>s. k_selected k = Some s \<longrightarrow> c_rtt (the (h (hd cs))) \<le> c_rtt (the (h s)) - k_min_improvement))
     \<and> (\<forall>a. r = Some a \<longrightarrow> a = hd cs \<and> (\<forall>b \<in> set (k_connections k). \<not> better prio h b a))"
proof -
  define xs where "xs = sort_by (\<lambda>x y. conn_less prio (snd x) (snd y))
                          (map (\<lambda>a. (a, the (h a))) (k_connections k))"
  note xs = sorted_conns [OF xs_def [symmetric]]
  have load: "load_conns h (k_connections k) = Some (map (\<lambda>a. (a, the (h a))) (k_connections k))"
    by (rule load_conns_eq) (use assms in \<open>simp add: k_live_def\<close>)
  have sel: "k_selected k = Some s \<Longrightarrow> h s \<noteq> None" for s
    using assms by (auto simp: k_live_def)
  have best: "\<forall>b \<in> set (k_connections k). \<not> better prio h b (hd (map fst xs))" if ne: "xs \<noteq> []"
  proof -
    have st: "set (k_connections k) = set (map fst xs)" using xs(1) by (metis set_mset_mset)
    obtain y ys where ys: "map fst xs = y # ys" using ne by (cases xs) auto
    have "\<not> better prio h y y" using conn_order.irrefl by (simp add: better_def conn_less_key)
    then show ?thesis using xs(3) unfolding st ys by (auto simp: sorted_by_def)
  qed
  have ss: "sort_and_switch prio h k =
      (case xs of
         [] \<Rightarrow> Some (None, k\<lparr>k_connections := map fst xs\<rparr>)
       | (ta, tc) # _ \<Rightarrow>
           if \<not> ready_to_send tc \<or> k_selected k = Some ta then Some (None, k\<lparr>k_connections := map fst xs\<rparr>)
           else (case k_selected k of
                   None \<Rightarrow> Some (Some ta, k\<lparr>k_connections := map fst xs\<rparr>)
                 | Some a \<Rightarrow>
                     (case h a of
                        None \<Rightarrow> None
                      | Some sc \<Rightarrow>
                          if c_rtt tc \<le> c_rtt sc - k_min_improvement
                          then Some (Some ta, k\<lparr>k_connections := map fst xs\<rparr>)
                          else Some (None, k\<lparr>k_connections := map fst xs\<rparr>))))"
    unfolding sort_and_switch_def load option.case Let_def xs_def ..
  show ?thesis
  proof (cases xs)
    case Nil
    then show ?thesis using xs ss
      by (intro exI [of _ None] exI [of _ "[]"]) (simp add: sorted_by_def)
  next
    case (Cons x xs')
    obtain ta tc where x: "x = (ta, tc)" by force
    have tc: "tc = the (h ta)" using xs(2) Cons x by auto
    have hd: "hd (map fst xs) = ta" using Cons x by simp
    show ?thesis
      using ss best sel xs(1,3) hd Cons x tc
      by (intro exI [of _ "case sort_and_switch prio h k of Some (r, _) \<Rightarrow> r"] exI [of _ "map fst xs"])
         (auto split: option.split)
  qed
qed

text \<open>C20: Sorting and switching. With the connections alive, the call returns; it only reorders
  the list, which ends sorted by the comparison of the code; and it proposes a connection exactly
  when the first of the sorted list is ready to send, is not the selected one, and there is no
  selected connection or the first has a round-trip time better by at least 10 ms. No
  connection is better than the one proposed.\<close>

theorem switch_decision:
  assumes "k_live h k"
  shows "\<exists>r cs. sort_and_switch prio h k = Some (r, k\<lparr>k_connections := cs\<rparr>)
     \<and> mset cs = mset (k_connections k) \<and> sorted_by (better prio h) cs
     \<and> (r \<noteq> None \<longleftrightarrow> cs \<noteq> [] \<and> ready_to_send (the (h (hd cs))) \<and> k_selected k \<noteq> Some (hd cs)
          \<and> (\<forall>s. k_selected k = Some s \<longrightarrow> c_rtt (the (h (hd cs))) \<le> c_rtt (the (h s)) - k_min_improvement))
     \<and> (\<forall>a. r = Some a \<longrightarrow> a = hd cs \<and> (\<forall>b \<in> set (k_connections k). \<not> better prio h b a))"
  by (rule switch_rule [OF assms])

theorem switch_decision_witness:
  "\<exists>r cs. sort_and_switch (\<lambda>_. 0) demo_heap demo_controller
            = Some (r, demo_controller\<lparr>k_connections := cs\<rparr>) \<and> mset cs = {#1, 2#}"
  using switch_decision [OF demo_controller_ok(2), of "\<lambda>_. 0"] by (auto simp: demo_controller_def)

text \<open>The selected connection is kept even after it has timed out, however good the others
  are, as long as none of them has a round-trip time better by 10 ms.\<close>

theorem dead_selection_kept:
  assumes "k_live h k" "k_selected k = Some s" "c_write_state (the (h s)) = STATE_WRITE_TIMEOUT"
    and "\<forall>a \<in> set (k_connections k). c_rtt (the (h s)) - k_min_improvement < c_rtt (the (h a))"
  shows "\<exists>k'. sort_and_switch prio h k = Some (None, k')"
proof -
  obtain r cs where rc: "sort_and_switch prio h k = Some (r, k\<lparr>k_connections := cs\<rparr>)"
    and m: "mset cs = mset (k_connections k)"
    and iff: "r \<noteq> None \<longleftrightarrow> cs \<noteq> [] \<and> ready_to_send (the (h (hd cs))) \<and> k_selected k \<noteq> Some (hd cs)
          \<and> (\<forall>s. k_selected k = Some s \<longrightarrow> c_rtt (the (h (hd cs))) \<le> c_rtt (the (h s)) - k_min_improvement)"
    using switch_rule [OF assms(1), of prio] by blast
  have "set cs = set (k_connections k)" using m by (metis set_mset_mset)
  then have "cs \<noteq> [] \<Longrightarrow> hd cs \<in> set (k_connections k)" by (metis hd_in_set)
  then have "r = None" using iff assms(2,4) by (meson not_less)
  then show ?thesis using rc by blast
qed

theorem dead_selection_kept_witness:
  "(\<exists>k'. sort_and_switch (\<lambda>_. 0) demo_heap demo_controller = Some (None, k'))
     \<and> conn_writable (the (demo_heap 2)) \<and> \<not> conn_active (the (demo_heap 1))"
proof -
  have "\<exists>k'. sort_and_switch (\<lambda>_. 0) demo_heap demo_controller = Some (None, k')"
    by (rule dead_selection_kept [OF demo_controller_ok(2), of 1])
       (simp_all add: demo_controller_def demo_heap_def k_min_improvement_def)
  then show ?thesis by (simp add: demo_heap_def conn_writable_def conn_active_def)
qed

end
