(* ===== verification/IceTransportChannel.thy ===== *)
theory IceTransportChannel
  imports IceController
begin

text \<open>
  The ICE transport channel (\<open>ice/ice_transport_channel.h\<close>, \<open>ice/ice_transport_channel.cpp\<close>): it
  owns the ports, the connections and the controller, and turns their changes into the channel's
  own state. The second half of \<open>UDPPort::_on_read_packet\<close> is here too, since it calls into the
  connection and back into the channel.

  The signals to the layer above, the timer calls and the packets handed to a socket are
  appended to \<open>ch_events\<close>; what the listeners above do in response is not part of this state.
  All reads of the clock within one handler give the same time \<open>now\<close>. A new object gets any
  address that is free. \<open>None\<close> is an access to freed memory.
\<close>

datatype ice_transport_state =
  k_new | k_checking | k_connected | k_completed | k_failed | k_disconnected | k_closed

datatype ice_event =
    EvCandidates "candidate list"
  | EvReceiving bool
  | EvWritable bool
  | EvState ice_transport_state
  | EvPacket bytes int
  | EvSend nat bytes socket_address
  | EvStartTimer int
  | EvStopTimer
  | EvDeleteTimer

record ice_channel =
  ch_name :: string
  ch_component :: ice_component
  ch_ice_params :: ice_parameters
  ch_remote_ice_params :: ice_parameters
  ch_local_candidates :: "candidate list"
  ch_ports :: "udp_port list"
  ch_heap :: conn_heap
  ch_controller :: ice_controller
  ch_start_pinging :: bool
  ch_cur_ping_interval :: int
  ch_last_ping_sent_ms :: int
  ch_selected :: "nat option"
  ch_receiving :: bool
  ch_writable :: bool
  ch_state :: ice_transport_state
  ch_had_connection :: bool
  ch_has_been_connection :: bool
  ch_events :: "ice_event list"

text \<open>The library, and the result of handing a datagram to the socket of a port.\<close>

record ice_services =
  sv_io :: byte_io
  sv_lib :: rtc_lib
  sv_send :: "bytes \<Rightarrow> socket_address \<Rightarrow> int"

definition PING_INTERVAL_DIFF :: int where "PING_INTERVAL_DIFF = 5"

definition new_ice_channel :: "string \<Rightarrow> ice_component \<Rightarrow> ice_channel" where
  "new_ice_channel name component =
     \<lparr>ch_name = name, ch_component = component,
      ch_ice_params = \<lparr>ice_ufrag = [], ice_pwd = []\<rparr>,
      ch_remote_ice_params = \<lparr>ice_ufrag = [], ice_pwd = []\<rparr>, ch_local_candidates = [],
      ch_ports = [], ch_heap = (\<lambda>_. None), ch_controller = new_ice_controller,
      ch_start_pinging = False, ch_cur_ping_interval = WEAK_PING_INTERVAL,
      ch_last_ping_sent_ms = 0, ch_selected = None, ch_receiving = False, ch_writable = False,
      ch_state = k_new, ch_had_connection = False, ch_has_been_connection = False,
      ch_events = []\<rparr>"

definition emit :: "ice_event \<Rightarrow> ice_channel \<Rightarrow> ice_channel" where
  "emit e ch = ch\<lparr>ch_events := ch_events ch @ [e]\<rparr>"

definition ch_prio :: "ice_channel \<Rightarrow> ice_conn \<Rightarrow> u64" where
  "ch_prio ch c = conn_priority (ch_ports ch ! c_port c) c"

definition put_conn :: "nat \<Rightarrow> ice_conn \<Rightarrow> ice_channel \<Rightarrow> ice_channel" where
  "put_conn a c ch = ch\<lparr>ch_heap := (ch_heap ch)(a \<mapsto> c)\<rparr>"

subsection \<open>The state of the channel\<close>

definition set_writable :: "bool \<Rightarrow> ice_channel \<Rightarrow> ice_channel" where
  "set_writable w ch =
     (if ch_writable ch = w then ch
      else emit (EvWritable w)
             (ch\<lparr>ch_has_been_connection := (if w then True else ch_has_been_connection ch),
                 ch_writable := w\<rparr>))"

definition set_receiving :: "bool \<Rightarrow> ice_channel \<Rightarrow> ice_channel" where
  "set_receiving r ch =
     (if ch_receiving ch = r then ch else emit (EvReceiving r) (ch\<lparr>ch_receiving := r\<rparr>))"

fun any_conn :: "(ice_conn \<Rightarrow> bool) \<Rightarrow> conn_heap \<Rightarrow> nat list \<Rightarrow> bool option" where
  "any_conn P h [] = Some False"
| "any_conn P h (a # as) =
     (case h a of None \<Rightarrow> None | Some c \<Rightarrow> if P c then Some True else any_conn P h as)"

definition compute_ice_transport_state :: "ice_channel \<Rightarrow> ice_transport_state option" where
  "compute_ice_transport_state ch =
     (case any_conn conn_active (ch_heap ch) (k_connections (ch_controller ch)) of
        None \<Rightarrow> None
      | Some has_connection \<Rightarrow>
          Some (if ch_had_connection ch \<and> \<not> has_connection then k_failed
                else if ch_has_been_connection ch \<and> \<not> ch_writable ch then k_disconnected
                else if \<not> ch_had_connection ch \<and> \<not> has_connection then k_new
                else if has_connection \<and> \<not> ch_writable ch then k_checking
                else k_connected))"

definition selected_writable :: "ice_channel \<Rightarrow> bool option" where
  "selected_writable ch =
     (case ch_selected ch of
        None \<Rightarrow> Some False
      | Some a \<Rightarrow> map_option conn_writable (ch_heap ch a))"

definition ch_update_state :: "ice_channel \<Rightarrow> ice_channel option" where
  "ch_update_state ch =
     (case selected_writable ch of
        None \<Rightarrow> None
      | Some w \<Rightarrow>
          (let ch1 = set_writable w ch in
           case any_conn c_receiving (ch_heap ch1) (k_connections (ch_controller ch1)) of
             None \<Rightarrow> None
           | Some r \<Rightarrow>
               (let ch2 = set_receiving r ch1 in
                case compute_ice_transport_state ch2 of
                  None \<Rightarrow> None
                | Some st \<Rightarrow>
                    Some (if st \<noteq> ch_state ch2 then emit (EvState st) (ch2\<lparr>ch_state := st\<rparr>)
                          else ch2))))"

text \<open>\<open>_switch_selected_connection\<close>: a null argument leaves the controller as it is.\<close>

definition switch_selected_connection :: "nat option \<Rightarrow> ice_channel \<Rightarrow> ice_channel option" where
  "switch_selected_connection r ch =
     (let old = ch_selected ch;
          ch1 = ch\<lparr>ch_selected := r\<rparr>
      in case (case old of
                 None \<Rightarrow> Some ch1
               | Some b \<Rightarrow>
                   (case ch_heap ch1 b of
                      None \<Rightarrow> None
                    | Some c \<Rightarrow> Some (put_conn b (c\<lparr>c_selected := False\<rparr>) ch1))) of
           None \<Rightarrow> None
         | Some ch2 \<Rightarrow>
             (case r of
                None \<Rightarrow> Some ch2
              | Some a \<Rightarrow>
                  (case ch_heap ch2 a of
                     None \<Rightarrow> None
                   | Some c \<Rightarrow>
                       Some ((put_conn a (c\<lparr>c_selected := True\<rparr>) ch2)
                         \<lparr>ch_controller := set_selected_connection a (ch_controller ch2)\<rparr>))))"

definition maybe_switch_selected_connection ::
  "nat option \<Rightarrow> ice_channel \<Rightarrow> ice_channel option" where
  "maybe_switch_selected_connection r ch =
     (case r of None \<Rightarrow> Some ch | Some a \<Rightarrow> switch_selected_connection (Some a) ch)"

definition maybe_start_pinging :: "int \<Rightarrow> ice_channel \<Rightarrow> ice_channel option" where
  "maybe_start_pinging now ch =
     (if ch_start_pinging ch then Some ch
      else (case has_pingable_connection (ch_heap ch) now (ch_controller ch) of
              None \<Rightarrow> None
            | Some p \<Rightarrow>
                Some (if p then (emit (EvStartTimer (ch_cur_ping_interval ch * 1000)) ch)
                                  \<lparr>ch_start_pinging := True\<rparr>
                      else ch)))"

definition sort_connections_and_update_state :: "int \<Rightarrow> ice_channel \<Rightarrow> ice_channel option" where
  "sort_connections_and_update_state now ch =
     (case sort_and_switch (ch_prio ch) (ch_heap ch) (ch_controller ch) of
        None \<Rightarrow> None
      | Some (r, k) \<Rightarrow>
          (case maybe_switch_selected_connection r (ch\<lparr>ch_controller := k\<rparr>) of
             None \<Rightarrow> None
           | Some ch1 \<Rightarrow>
               (case ch_update_state ch1 of
                  None \<Rightarrow> None
                | Some ch2 \<Rightarrow> maybe_start_pinging now ch2)))"

definition on_connection_destroyed :: "int \<Rightarrow> nat \<Rightarrow> ice_channel \<Rightarrow> ice_channel option" where
  "on_connection_destroyed now a ch =
     (let ch1 = ch\<lparr>ch_controller := k_connection_destroyed a (ch_controller ch)\<rparr> in
      if ch_selected ch1 = Some a
      then (case switch_selected_connection None ch1 of
              None \<Rightarrow> None
            | Some ch2 \<Rightarrow> sort_connections_and_update_state now ch2)
      else ch_update_state ch1)"

subsection \<open>Running an operation of a connection\<close>

text \<open>
  The environment of the connection at address \<open>a\<close>, whose port has index \<open>pi\<close>: while the
  operation runs, the connection is held by it, and it is written back before a signal is raised
  and read again after.
\<close>

definition with_listener ::
  "(ice_channel \<Rightarrow> ice_channel option) \<Rightarrow> nat \<Rightarrow> ice_conn \<Rightarrow> ice_channel
     \<Rightarrow> (ice_conn \<times> ice_channel) option" where
  "with_listener f a c ch =
     (case f (put_conn a c ch) of
        None \<Rightarrow> None
      | Some ch' \<Rightarrow> (case ch_heap ch' a of None \<Rightarrow> None | Some c' \<Rightarrow> Some (c', ch')))"

definition port_send ::
  "ice_services \<Rightarrow> nat \<Rightarrow> bytes \<Rightarrow> socket_address \<Rightarrow> ice_channel \<Rightarrow> int \<times> ice_channel" where
  "port_send sv pi b addr ch =
     (if up_has_async (ch_ports ch ! pi) then (sv_send sv b addr, emit (EvSend pi b addr) ch)
      else (- 1, ch))"

definition channel_env :: "ice_services \<Rightarrow> int \<Rightarrow> nat \<Rightarrow> nat \<Rightarrow> ice_channel conn_env" where
  "channel_env sv now pi a =
     \<lparr>env_io = sv_io sv, env_lib = sv_lib sv, env_port = (\<lambda>ch. ch_ports ch ! pi),
      env_send = port_send sv pi,
      env_changed = with_listener (sort_connections_and_update_state now) a,
      env_destroyed = with_listener (on_connection_destroyed now a) a,
      env_packet = (\<lambda>d ts. emit (EvPacket d ts))\<rparr>"

definition run_conn ::
  "ice_services \<Rightarrow> int \<Rightarrow> nat
     \<Rightarrow> (ice_channel conn_env \<Rightarrow> ice_conn \<Rightarrow> ice_channel \<Rightarrow> (ice_conn option \<times> ice_channel) option)
     \<Rightarrow> ice_channel \<Rightarrow> ice_channel option" where
  "run_conn sv now a f ch =
     (case ch_heap ch a of
        None \<Rightarrow> None
      | Some c \<Rightarrow>
          (case f (channel_env sv now (c_port c) a) c ch of
             None \<Rightarrow> None
           | Some (co, ch') \<Rightarrow> Some (ch'\<lparr>ch_heap := (ch_heap ch')(a := co)\<rparr>)))"

definition keep_conn :: "(ice_conn \<times> ice_channel) option \<Rightarrow> (ice_conn option \<times> ice_channel) option" where
  "keep_conn = map_option (\<lambda>(c, ch). (Some c, ch))"

subsection \<open>Handlers\<close>

definition set_ice_params :: "ice_parameters \<Rightarrow> ice_channel \<Rightarrow> ice_channel" where
  "set_ice_params params ch = ch\<lparr>ch_ice_params := params\<rparr>"

fun set_params_of ::
  "ice_parameters \<Rightarrow> nat list \<Rightarrow> ice_channel \<Rightarrow> ice_channel option" where
  "set_params_of params [] ch = Some ch"
| "set_params_of params (a # as) ch =
     (case ch_heap ch a of
        None \<Rightarrow> None
      | Some c \<Rightarrow> set_params_of params as (put_conn a (maybe_set_remote_ice_params params c) ch))"

definition set_remote_ice_params ::
  "int \<Rightarrow> ice_parameters \<Rightarrow> ice_channel \<Rightarrow> ice_channel option" where
  "set_remote_ice_params now params ch =
     (case set_params_of params (k_connections (ch_controller ch)) (ch\<lparr>ch_remote_ice_params := params\<rparr>) of
        None \<Rightarrow> None
      | Some ch1 \<Rightarrow> sort_connections_and_update_state now ch1)"

text \<open>One element of \<open>nets\<close> per network: its address and what the socket calls return.\<close>

fun gather_ports ::
  "ice_services \<Rightarrow> candidate \<Rightarrow> (ip_address \<times> net_results) list \<Rightarrow> ice_channel \<Rightarrow> ice_channel" where
  "gather_ports sv c0 [] ch = ch"
| "gather_ports sv c0 ((ip, net) # nets) ch =
     (let (ret, c, p) = create_ice_candidate (sv_io sv) (sv_lib sv) net ip c0
                          (new_udp_port (ch_name ch) (ch_component ch) (ch_ice_params ch));
          ch1 = ch\<lparr>ch_ports := ch_ports ch @ [p]\<rparr>
      in gather_ports sv c0 nets
           (if ret \<noteq> 0 then ch1
            else ch1\<lparr>ch_local_candidates := ch_local_candidates ch1 @ [c]\<rparr>))"

definition gathering_candidate ::
  "ice_services \<Rightarrow> candidate \<Rightarrow> (ip_address \<times> net_results) list \<Rightarrow> ice_channel \<Rightarrow> ice_channel" where
  "gathering_candidate sv c0 nets ch =
     (if ice_ufrag (ch_ice_params ch) = [] \<or> ice_pwd (ch_ice_params ch) = [] then ch
      else if nets = [] then ch
      else (let ch1 = gather_ports sv c0 nets ch
            in emit (EvCandidates (ch_local_candidates ch1)) ch1))"

definition ch_add_connection :: "nat \<Rightarrow> ice_channel \<Rightarrow> ice_channel" where
  "ch_add_connection a ch =
     ch\<lparr>ch_had_connection := True, ch_controller := k_add_connection a (ch_controller ch)\<rparr>"

text \<open>\<open>new\<close> never returns null, so the branch for a failed \<open>create_connection\<close> is not taken.\<close>

definition on_unknown_address ::
  "ice_services \<Rightarrow> int \<Rightarrow> nat \<Rightarrow> nat \<Rightarrow> socket_address \<Rightarrow> stun_message \<Rightarrow> bytes
     \<Rightarrow> ice_channel \<Rightarrow> ice_channel option" where
  "on_unknown_address sv now a pi addr msg remote_ufrag ch =
     (case get_uint32 STUN_ATTR_PRIORITY msg of
        None \<Rightarrow> Some ch
      | Some priority_attr \<Rightarrow>
          (let remote = \<lparr>cand_component = ch_component ch, cand_protocol = ''udp'',
                         cand_address = addr, cand_port = 0,
                         cand_priority = uint32_value priority_attr,
                         cand_username = remote_ufrag,
                         cand_password = ice_pwd (ch_remote_ice_params ch),
                         cand_type = PRFLX_PORT_TYPE, cand_foundation = ''''\<rparr>;
               c = new_ice_conn pi remote;
               p = ch_ports ch ! pi;
               ch1 = put_conn a c (ch\<lparr>ch_ports := (ch_ports ch)[pi := port_add_connection addr a p]\<rparr>);
               ch2 = ch_add_connection a ch1;
               ch3 = handle_stun_binding_request (channel_env sv now pi a) msg c ch2
           in sort_connections_and_update_state now ch3))"

definition port_on_read_packet ::
  "ice_services \<Rightarrow> int \<Rightarrow> nat \<Rightarrow> nat \<Rightarrow> bytes \<Rightarrow> socket_address \<Rightarrow> int \<Rightarrow> ice_channel
     \<Rightarrow> ice_channel option" where
  "port_on_read_packet sv now a pi buf addr ts ch =
     (case get_connection addr (ch_ports ch ! pi) of
        Some b \<Rightarrow> run_conn sv now b (\<lambda>env. on_read_packet env buf ts now now) ch
      | None \<Rightarrow>
          (case get_stun_message (sv_io sv) (sv_lib sv) (ch_ports ch ! pi) buf [] of
             None \<Rightarrow> None
           | Some (res, m, remote_ufrag, err) \<Rightarrow>
               (let ch1 = send_optional (channel_env sv now pi a) addr err ch in
                case (if res then m else None) of
                  None \<Rightarrow> Some ch1
                | Some msg \<Rightarrow>
                    if msg_type msg = STUN_BINDING_REQUEST
                    then on_unknown_address sv now a pi addr msg remote_ufrag ch1
                    else Some ch1)))"

fun update_connections :: "ice_services \<Rightarrow> int \<Rightarrow> nat list \<Rightarrow> ice_channel \<Rightarrow> ice_channel option" where
  "update_connections sv now [] ch = Some ch"
| "update_connections sv now (a # as) ch =
     (case run_conn sv now a (\<lambda>env c s. keep_conn (update_state env now c s)) ch of
        None \<Rightarrow> None
      | Some ch1 \<Rightarrow> update_connections sv now as ch1)"

definition update_connection_states :: "ice_services \<Rightarrow> int \<Rightarrow> ice_channel \<Rightarrow> ice_channel option" where
  "update_connection_states sv now ch =
     update_connections sv now (k_connections (ch_controller ch)) ch"

definition ping_connection :: "ice_services \<Rightarrow> int \<Rightarrow> bytes \<Rightarrow> nat \<Rightarrow> ice_channel \<Rightarrow> ice_channel option" where
  "ping_connection sv now rid a ch =
     run_conn sv now a (\<lambda>env c s. keep_conn (conn_ping env now now rid c s))
       (ch\<lparr>ch_last_ping_sent_ms := now\<rparr>)"

definition on_check_and_ping ::
  "ice_services \<Rightarrow> int \<Rightarrow> bytes \<Rightarrow> ice_channel \<Rightarrow> ice_channel option" where
  "on_check_and_ping sv now rid ch =
     (case update_connection_states sv now ch of
        None \<Rightarrow> None
      | Some ch1 \<Rightarrow>
          (case select_connection_to_ping (ch_heap ch1) now
                  (ch_last_ping_sent_ms ch1 - PING_INTERVAL_DIFF) (ch_controller ch1) of
             None \<Rightarrow> None
           | Some (r, interval, k) \<Rightarrow>
               (let ch2 = ch1\<lparr>ch_controller := k\<rparr> in
                case (case r of
                        None \<Rightarrow> Some ch2
                      | Some a \<Rightarrow>
                          (case ping_connection sv now rid a ch2 of
                             None \<Rightarrow> None
                           | Some ch3 \<Rightarrow>
                               Some (ch3\<lparr>ch_controller := mark_connection_pinged a (ch_controller ch3)\<rparr>))) of
                  None \<Rightarrow> None
                | Some ch4 \<Rightarrow>
                    Some (if ch_cur_ping_interval ch4 \<noteq> interval
                          then emit (EvStartTimer (interval * 1000))
                                 (emit EvStopTimer (ch4\<lparr>ch_cur_ping_interval := interval\<rparr>))
                          else ch4))))"

definition ch_send_packet :: "ice_services \<Rightarrow> bytes \<Rightarrow> ice_channel \<Rightarrow> (int \<times> ice_channel) option" where
  "ch_send_packet sv data ch =
     (case ch_selected ch of
        None \<Rightarrow> Some (- 1, ch)
      | Some a \<Rightarrow>
          (case ch_heap ch a of
             None \<Rightarrow> None
           | Some c \<Rightarrow>
               if \<not> ready_to_send c then Some (- 1, ch)
               else Some (conn_send_packet (channel_env sv 0 (c_port c) a) data c ch)))"

fun destroy_connections :: "ice_services \<Rightarrow> int \<Rightarrow> nat list \<Rightarrow> ice_channel \<Rightarrow> ice_channel option" where
  "destroy_connections sv now [] ch = Some ch"
| "destroy_connections sv now (a # as) ch =
     (case run_conn sv now a conn_destroy ch of
        None \<Rightarrow> None
      | Some ch1 \<Rightarrow> destroy_connections sv now as ch1)"

text \<open>The destructor.\<close>

definition channel_destroy :: "ice_services \<Rightarrow> int \<Rightarrow> ice_channel \<Rightarrow> ice_channel option" where
  "channel_destroy sv now ch =
     (let ch1 = emit EvDeleteTimer ch in
      case destroy_connections sv now (k_connections (ch_controller ch1)) ch1 of
        None \<Rightarrow> None
      | Some ch2 \<Rightarrow> Some (ch2\<lparr>ch_ports := []\<rparr>))"

end
