(* ===== verification/IceChannelInvariant.thy ===== *)
theory IceChannelInvariant
  imports IceTransportChannel
begin

text \<open>
  The invariant of the ICE transport channel, preserved by all its handlers: the controller and
  the channel agree on the selected connection, every pointer they hold is live, and the
  channel's writable flag, receiving flag and state are those of its connections.
\<close>

definition ch_inv :: "ice_channel \<Rightarrow> bool" where
  "ch_inv ch \<longleftrightarrow> k_wf (ch_controller ch) \<and> k_live (ch_heap ch) (ch_controller ch)
     \<and> ch_selected ch = k_selected (ch_controller ch)
     \<and> (\<forall>a. ch_selected ch = Some a \<longrightarrow> a \<in> set (k_connections (ch_controller ch)))
     \<and> (\<forall>p \<in> set (ch_ports ch). \<forall>addr b. up_connections p addr = Some b \<longrightarrow> ch_heap ch b \<noteq> None)"

definition ch_sync :: "ice_channel \<Rightarrow> bool" where
  "ch_sync ch \<longleftrightarrow> selected_writable ch = Some (ch_writable ch)
     \<and> any_conn c_receiving (ch_heap ch) (k_connections (ch_controller ch)) = Some (ch_receiving ch)
     \<and> compute_ice_transport_state ch = Some (ch_state ch)"

subsection \<open>Heaps that agree\<close>

text \<open>Two heaps with the same live addresses and, at each, the same connection up to its selected flag.\<close>

definition same_core :: "conn_heap \<Rightarrow> conn_heap \<Rightarrow> bool" where
  "same_core h h' \<longleftrightarrow> (\<forall>b. map_option conn_core (h' b) = map_option conn_core (h b))"

lemma same_core_refl [simp]: "same_core h h"
  by (simp add: same_core_def)

lemma same_core_trans: "same_core h h' \<Longrightarrow> same_core h' h'' \<Longrightarrow> same_core h h''"
  by (simp add: same_core_def)

lemma same_core_live: "same_core h h' \<Longrightarrow> h' b = None \<longleftrightarrow> h b = None"
  by (metis map_option_is_None same_core_def)

lemma same_core_at: "same_core h h' \<Longrightarrow> h b = Some c \<Longrightarrow> \<exists>c'. h' b = Some c' \<and> conn_core c' = conn_core c"
  unfolding same_core_def by (metis map_option_eq_Some)

lemma same_core_put: "h a = Some c \<Longrightarrow> same_core h (h(a \<mapsto> c\<lparr>c_selected := b\<rparr>))"
  by (simp add: same_core_def conn_core_def)

definition same_view :: "ice_conn option \<Rightarrow> ice_conn option \<Rightarrow> bool" where
  "same_view x y \<longleftrightarrow> map_option (\<lambda>c. (c_write_state c, c_receiving c)) x
                    = map_option (\<lambda>c. (c_write_state c, c_receiving c)) y"

lemma any_conn_cong:
  assumes P: "\<And>c c'. c_write_state c = c_write_state c' \<Longrightarrow> c_receiving c = c_receiving c' \<Longrightarrow> P c = P c'"
    and v: "\<And>b. same_view (h b) (h' b)"
  shows "any_conn P h as = any_conn P h' as"
proof (induction as)
  case Nil
  then show ?case by simp
next
  case (Cons a as)
  show ?case
  proof (cases "h a")
    case None
    then show ?thesis using v [of a] by (simp add: same_view_def)
  next
    case (Some c)
    then obtain c' where "h' a = Some c'" "c_write_state c' = c_write_state c" "c_receiving c' = c_receiving c"
      using v [of a] by (cases "h' a") (auto simp: same_view_def)
    then show ?thesis using Cons Some P [of c c'] by simp
  qed
qed

lemma any_conn_live: "\<forall>a \<in> set as. h a \<noteq> None \<Longrightarrow> \<exists>r. any_conn P h as = Some r"
  by (induction as) auto

lemma ch_sync_cong:
  assumes "ch_sync ch" "\<And>b. same_view (ch_heap ch b) (ch_heap ch' b)"
    and "ch_selected ch' = ch_selected ch" "ch_writable ch' = ch_writable ch"
    "ch_receiving ch' = ch_receiving ch" "ch_state ch' = ch_state ch"
    "k_connections (ch_controller ch') = k_connections (ch_controller ch)"
    "ch_had_connection ch' = ch_had_connection ch"
    "ch_has_been_connection ch' = ch_has_been_connection ch"
  shows "ch_sync ch'"
proof -
  have a: "any_conn conn_active (ch_heap ch') as = any_conn conn_active (ch_heap ch) as" for as
    by (rule any_conn_cong [symmetric]) (use assms(2) in \<open>auto simp: conn_active_def\<close>)
  have r: "any_conn c_receiving (ch_heap ch') as = any_conn c_receiving (ch_heap ch) as" for as
    by (rule any_conn_cong [symmetric]) (use assms(2) in auto)
  have w: "map_option conn_writable (ch_heap ch' b) = map_option conn_writable (ch_heap ch b)" for b
    using assms(2) [of b] by (cases "ch_heap ch b"; cases "ch_heap ch' b")
      (auto simp: same_view_def conn_writable_def)
  show ?thesis using assms(1)
    unfolding ch_sync_def selected_writable_def compute_ice_transport_state_def
    by (simp only: a r w assms(3-9))
qed

subsection \<open>Updating the state of the channel\<close>

lemma ch_inv_live:
  assumes "ch_inv ch"
  shows "\<forall>a \<in> set (k_connections (ch_controller ch)). ch_heap ch a \<noteq> None"
    "ch_selected ch = Some a \<Longrightarrow> \<exists>c. ch_heap ch a = Some c"
  using assms by (auto simp: ch_inv_def k_live_def)

lemma selected_writable_cong:
  "ch_selected ch' = ch_selected ch \<Longrightarrow> ch_heap ch' = ch_heap ch \<Longrightarrow>
     selected_writable ch' = selected_writable ch"
  by (cases "ch_selected ch") (simp_all add: selected_writable_def)

lemma ch_update_state_ok:
  assumes live: "\<forall>a \<in> set (k_connections (ch_controller ch)). ch_heap ch a \<noteq> None"
    and sel: "\<And>a. ch_selected ch = Some a \<Longrightarrow> \<exists>c. ch_heap ch a = Some c"
  obtains w r st hb ev where
    "ch_update_state ch = Some (ch\<lparr>ch_writable := w, ch_receiving := r, ch_state := st,
       ch_has_been_connection := hb, ch_events := ev\<rparr>)"
    "ch_sync (ch\<lparr>ch_writable := w, ch_receiving := r, ch_state := st,
       ch_has_been_connection := hb, ch_events := ev\<rparr>)"
proof -
  obtain w where w: "selected_writable ch = Some w"
    using sel by (cases "ch_selected ch") (auto simp: selected_writable_def)
  obtain r where r: "any_conn c_receiving (ch_heap ch) (k_connections (ch_controller ch)) = Some r"
    using any_conn_live [OF live] by blast
  obtain act where act: "any_conn conn_active (ch_heap ch) (k_connections (ch_controller ch)) = Some act"
    using any_conn_live [OF live] by blast
  define hb where "hb = (if ch_writable ch \<noteq> w \<and> w then True else ch_has_been_connection ch)"
  define st where "st = (if ch_had_connection ch \<and> \<not> act then k_failed
                else if hb \<and> \<not> w then k_disconnected
                else if \<not> ch_had_connection ch \<and> \<not> act then k_new
                else if act \<and> \<not> w then k_checking else k_connected)"
  define ch1 where "ch1 = set_writable w ch"
  define ch2 where "ch2 = set_receiving r ch1"
  have c1: "\<exists>ev. ch1 = ch\<lparr>ch_writable := w, ch_has_been_connection := hb, ch_events := ev\<rparr>"
    by (cases ch) (auto simp: ch1_def set_writable_def hb_def emit_def)
  then obtain ev1 where c1: "ch1 = ch\<lparr>ch_writable := w, ch_has_been_connection := hb, ch_events := ev1\<rparr>"
    by blast
  have "\<exists>ev. ch2 = ch\<lparr>ch_writable := w, ch_receiving := r, ch_has_been_connection := hb, ch_events := ev\<rparr>"
    unfolding ch2_def c1 by (cases ch) (auto simp: set_receiving_def emit_def)
  then obtain ev2 where c2: "ch2 = ch\<lparr>ch_writable := w, ch_receiving := r,
      ch_has_been_connection := hb, ch_events := ev2\<rparr>"
    by blast
  have comp: "compute_ice_transport_state ch2 = Some st"
    using act unfolding c2 by (simp add: compute_ice_transport_state_def st_def)
  have u: "ch_update_state ch = Some (if st \<noteq> ch_state ch2 then emit (EvState st) (ch2\<lparr>ch_state := st\<rparr>) else ch2)"
  proof -
    have h: "any_conn c_receiving (ch_heap ch1) (k_connections (ch_controller ch1)) = Some r"
      using r by (simp add: c1)
    show ?thesis
      unfolding ch_update_state_def w option.case Let_def ch1_def [symmetric] h ch2_def [symmetric] comp ..
  qed
  then obtain ev where "ch_update_state ch = Some (ch\<lparr>ch_writable := w, ch_receiving := r,
      ch_state := st, ch_has_been_connection := hb, ch_events := ev\<rparr>)"
    unfolding c2 by (cases ch) (auto simp: emit_def split: if_splits)
  moreover have "ch_sync (ch\<lparr>ch_writable := w, ch_receiving := r, ch_state := st,
       ch_has_been_connection := hb, ch_events := ev\<rparr>)"
    using w r act selected_writable_cong [of "ch\<lparr>ch_writable := w, ch_receiving := r, ch_state := st,
       ch_has_been_connection := hb, ch_events := ev\<rparr>" ch]
    by (simp add: ch_sync_def compute_ice_transport_state_def st_def)
  ultimately show ?thesis by (rule that)
qed

lemma switch_ok:
  assumes old: "\<And>b. ch_selected ch = Some b \<Longrightarrow> ch_heap ch b \<noteq> None" and new: "ch_heap ch a \<noteq> None"
  obtains h' where "same_core (ch_heap ch) h'"
    "switch_selected_connection (Some a) ch = Some (ch\<lparr>ch_selected := Some a, ch_heap := h',
       ch_controller := set_selected_connection a (ch_controller ch)\<rparr>)"
proof -
  define h1 where "h1 = (case ch_selected ch of None \<Rightarrow> ch_heap ch
      | Some b \<Rightarrow> (ch_heap ch)(b \<mapsto> (the (ch_heap ch b))\<lparr>c_selected := False\<rparr>))"
  have s1: "same_core (ch_heap ch) h1"
    using old by (auto simp: h1_def same_core_put split: option.split)
  then obtain c where c: "h1 a = Some c" using new same_core_live by fastforce
  define h2 where "h2 = h1(a \<mapsto> c\<lparr>c_selected := True\<rparr>)"
  have "same_core (ch_heap ch) h2"
    unfolding h2_def by (rule same_core_trans [OF s1]) (rule same_core_put [of h1 a c, OF c])
  moreover have "switch_selected_connection (Some a) ch = Some (ch\<lparr>ch_selected := Some a, ch_heap := h2,
       ch_controller := set_selected_connection a (ch_controller ch)\<rparr>)"
  proof (cases "ch_selected ch")
    case None
    then show ?thesis using c
      by (simp add: switch_selected_connection_def h2_def h1_def put_conn_def)
  next
    case (Some b)
    then obtain cb where "ch_heap ch b = Some cb" using old by blast
    then show ?thesis using c Some
      by (simp add: switch_selected_connection_def h2_def h1_def put_conn_def del: fun_upd_apply)
  qed
  ultimately show ?thesis using that by blast
qed

subsection \<open>Sorting, switching and updating\<close>

lemma k_live_same_core: "same_core h h' \<Longrightarrow> k_live h k \<Longrightarrow> k_live h' k"
  by (auto simp: k_live_def same_core_live split: option.splits)

text \<open>What \<open>sort_connections_and_update_state\<close> leaves alone.\<close>

definition ch_kept :: "ice_channel \<Rightarrow> ice_channel \<Rightarrow> bool" where
  "ch_kept ch ch' \<longleftrightarrow> same_core (ch_heap ch) (ch_heap ch') \<and> ch_ports ch' = ch_ports ch
     \<and> set (k_connections (ch_controller ch')) = set (k_connections (ch_controller ch))
     \<and> ch_had_connection ch' = ch_had_connection ch"

lemma emit_fields [simp]:
  "ch_heap (emit e ch) = ch_heap ch" "ch_ports (emit e ch) = ch_ports ch"
  "ch_controller (emit e ch) = ch_controller ch" "ch_selected (emit e ch) = ch_selected ch"
  by (simp_all add: emit_def)

lemma ch_inv_emit:
  "ch_inv ch \<Longrightarrow> ch_inv (emit e ch)" "ch_sync ch \<Longrightarrow> ch_sync (emit e ch)"
  using ch_sync_cong [of ch "emit e ch"] by (simp_all add: emit_def ch_inv_def same_view_def)

lemma maybe_start_pinging_ok:
  assumes "ch_inv ch" "ch_sync ch"
  obtains ch' where "maybe_start_pinging now ch = Some ch'" "ch_inv ch'" "ch_sync ch'" "ch_kept ch ch'"
proof -
  have live: "k_live (ch_heap ch) (ch_controller ch)" using assms(1) by (simp add: ch_inv_def)
  obtain p where p: "has_pingable_connection (ch_heap ch) now (ch_controller ch) = Some p"
    using any_pingable_eq [OF live, of "k_connections (ch_controller ch)" now] live
    by (auto simp: has_pingable_connection_def k_live_def)
  have e: "ch_inv (ch\<lparr>ch_events := ev, ch_start_pinging := b\<rparr>)" "ch_sync (ch\<lparr>ch_events := ev, ch_start_pinging := b\<rparr>)"
    "ch_kept ch (ch\<lparr>ch_events := ev, ch_start_pinging := b\<rparr>)" for ev b
    using assms(1) ch_sync_cong [OF assms(2), of "ch\<lparr>ch_events := ev, ch_start_pinging := b\<rparr>"]
    by (simp_all add: ch_inv_def ch_kept_def same_view_def)
  have k: "ch_kept ch ch" by (simp add: ch_kept_def)
  show ?thesis
  proof (cases "ch_start_pinging ch \<or> \<not> p")
    case True
    then have "maybe_start_pinging now ch = Some ch" using p by (auto simp: maybe_start_pinging_def)
    then show ?thesis using that assms k by blast
  next
    case False
    then have "maybe_start_pinging now ch = Some (ch\<lparr>ch_events := ch_events ch
        @ [EvStartTimer (ch_cur_ping_interval ch * 1000)], ch_start_pinging := True\<rparr>)"
      using p by (simp add: maybe_start_pinging_def emit_def)
    then show ?thesis using that e by blast
  qed
qed

text \<open>Switching to the connection the controller proposes, after it has sorted its connections to \<open>cs\<close>.\<close>

lemma maybe_switch_ok:
  assumes inv: "ch_inv ch" and cs: "set cs = set (k_connections (ch_controller ch))" "distinct cs"
    and r: "\<And>a. r = Some a \<Longrightarrow> a \<in> set cs" and k1_def: "k1 = (ch_controller ch)\<lparr>k_connections := cs\<rparr>"
  shows "\<exists>h' s' k'. maybe_switch_selected_connection r (ch\<lparr>ch_controller := k1\<rparr>)
          = Some (ch\<lparr>ch_selected := s', ch_heap := h', ch_controller := k'\<rparr>)
        \<and> same_core (ch_heap ch) h' \<and> k_wf k' \<and> k_live h' k' \<and> s' = k_selected k' \<and> k_connections k' = cs
        \<and> (\<forall>a. s' = Some a \<longrightarrow> a \<in> set cs)"
proof -
  have k1: "k_wf k1" "k_live (ch_heap ch) k1" "k_selected k1 = k_selected (ch_controller ch)" "k_connections k1 = cs"
    using inv cs by (simp_all add: ch_inv_def k1_def k_wf_def k_live_def)
  show ?thesis
  proof (cases r)
    case None
    have "maybe_switch_selected_connection r (ch\<lparr>ch_controller := k1\<rparr>)
        = Some (ch\<lparr>ch_selected := ch_selected ch, ch_heap := ch_heap ch, ch_controller := k1\<rparr>)"
      by (simp add: None maybe_switch_selected_connection_def)
    moreover have "ch_selected ch = k_selected k1" "\<forall>a. ch_selected ch = Some a \<longrightarrow> a \<in> set cs"
      using inv k1(3) cs(1) by (simp_all add: ch_inv_def)
    ultimately show ?thesis using k1 same_core_refl by metis
  next
    case (Some a)
    then have a: "a \<in> set cs" using r by blast
    then have al: "ch_heap ch a \<noteq> None" using k1 by (simp add: k_live_def)
    obtain h' where h': "same_core (ch_heap ch) h'"
      "switch_selected_connection (Some a) (ch\<lparr>ch_controller := k1\<rparr>) = Some (ch\<lparr>ch_controller := k1,
         ch_selected := Some a, ch_heap := h', ch_controller := set_selected_connection a k1\<rparr>)"
      using switch_ok [of "ch\<lparr>ch_controller := k1\<rparr>" a] al ch_inv_live (2) [OF inv] by auto
    have "k_live h' (set_selected_connection a k1)"
      using k_live_same_core [OF h'(1) k1(2)] same_core_live [OF h'(1)] al
      by (auto simp: k_live_def set_selected_connection_def)
    then show ?thesis using h' k1 a Some
      by (intro exI [of _ h'] exI [of _ "Some a"] exI [of _ "set_selected_connection a k1"])
         (simp add: maybe_switch_selected_connection_def set_selected_connection_def k_wf_def)
  qed
qed

lemma sort_and_update_ok:
  assumes inv: "ch_inv ch"
  obtains ch' where "sort_connections_and_update_state now ch = Some ch'"
    "ch_inv ch'" "ch_sync ch'" "ch_kept ch ch'"
proof -
  let ?k = "ch_controller ch"
  have wf: "k_wf ?k" and live: "k_live (ch_heap ch) ?k"
    and ports: "\<forall>p \<in> set (ch_ports ch). \<forall>addr b. up_connections p addr = Some b \<longrightarrow> ch_heap ch b \<noteq> None"
    using inv by (simp_all add: ch_inv_def)
  obtain r cs where rc: "sort_and_switch (ch_prio ch) (ch_heap ch) ?k = Some (r, ?k\<lparr>k_connections := cs\<rparr>)"
    and m: "mset cs = mset (k_connections ?k)" and r: "r \<noteq> None \<Longrightarrow> cs \<noteq> []" "\<And>a. r = Some a \<Longrightarrow> a = hd cs"
    using switch_rule [OF live, of "ch_prio ch"] by blast
  have cs: "set cs = set (k_connections ?k)" "distinct cs"
    using m wf by (metis set_mset_mset, metis k_wf_def mset_eq_imp_distinct_iff)
  define k1 where "k1 = ?k\<lparr>k_connections := cs\<rparr>"
  obtain h' s' k' where sw: "maybe_switch_selected_connection r (ch\<lparr>ch_controller := k1\<rparr>)
          = Some (ch\<lparr>ch_selected := s', ch_heap := h', ch_controller := k'\<rparr>)"
    and h': "same_core (ch_heap ch) h'" and k': "k_wf k'" "k_live h' k'" "s' = k_selected k'"
      "k_connections k' = cs" and s': "\<forall>a. s' = Some a \<longrightarrow> a \<in> set cs"
    using maybe_switch_ok [OF inv cs _ k1_def, of r] r by fastforce
  define ch1 where "ch1 = ch\<lparr>ch_selected := s', ch_heap := h', ch_controller := k'\<rparr>"
  have i1: "ch_inv ch1"
    using k' s' ports same_core_live [OF h'] by (simp add: ch1_def ch_inv_def)
  obtain w rv st hb ev where u: "ch_update_state ch1 = Some (ch1\<lparr>ch_writable := w, ch_receiving := rv,
       ch_state := st, ch_has_been_connection := hb, ch_events := ev\<rparr>)"
    and sy: "ch_sync (ch1\<lparr>ch_writable := w, ch_receiving := rv, ch_state := st,
       ch_has_been_connection := hb, ch_events := ev\<rparr>)"
    using ch_update_state_ok [OF ch_inv_live (1) [OF i1]] ch_inv_live (2) [OF i1] by metis
  define ch2 where "ch2 = ch1\<lparr>ch_writable := w, ch_receiving := rv, ch_state := st,
       ch_has_been_connection := hb, ch_events := ev\<rparr>"
  have i2: "ch_inv ch2" using i1 by (simp add: ch2_def ch_inv_def)
  have kept: "ch_kept ch ch2" using h' cs k'(4) by (simp add: ch2_def ch1_def ch_kept_def)
  obtain ch3 where 3: "maybe_start_pinging now ch2 = Some ch3" "ch_inv ch3" "ch_sync ch3" "ch_kept ch2 ch3"
    using maybe_start_pinging_ok [OF i2] sy by (auto simp: ch2_def)
  have "sort_connections_and_update_state now ch = Some ch3"
    unfolding sort_connections_and_update_state_def rc
    using sw u 3(1) by (simp add: k1_def [symmetric] ch1_def [symmetric] ch2_def [symmetric])
  moreover have "ch_kept ch ch3"
    using kept 3(4) same_core_trans unfolding ch_kept_def by metis
  ultimately show ?thesis using that 3 by blast
qed

subsection \<open>The channel is a listener of its connections\<close>

definition slot_inv :: "nat set \<Rightarrow> ice_channel \<Rightarrow> bool" where
  "slot_inv D ch \<longleftrightarrow> ch_inv ch \<and> (\<forall>b \<in> D. ch_heap ch b \<noteq> None)"

definition slot_sync :: "nat \<Rightarrow> ice_conn \<Rightarrow> ice_channel \<Rightarrow> bool" where
  "slot_sync a c ch = ch_sync (put_conn a c ch)"

lemma ch_inv_put: "ch_inv ch \<Longrightarrow> ch_inv (put_conn a c ch)"
  by (auto simp: ch_inv_def put_conn_def k_live_def split: option.splits)

lemma put_conn_at: "ch_heap (put_conn a c ch) a = Some c"
  by (simp add: put_conn_def)

lemma put_conn_idem: "ch_heap ch a = Some c \<Longrightarrow> put_conn a c ch = ch"
  by (cases ch) (auto simp: put_conn_def fun_upd_idem)

lemma put_conn_emit: "put_conn a c (emit e ch) = emit e (put_conn a c ch)"
  by (simp add: put_conn_def emit_def)

interpretation listener: connection_env "channel_env sv now pi a" "slot_inv (insert a D)" "slot_sync a"
  for sv now pi a D
proof (unfold_locales, goal_cases)
  case (1 ch c)
  then have i: "ch_inv (put_conn a c ch)" using ch_inv_put by (simp add: slot_inv_def)
  obtain ch' where ch': "sort_connections_and_update_state now (put_conn a c ch) = Some ch'"
    "ch_inv ch'" "ch_sync ch'" "ch_kept (put_conn a c ch) ch'"
    using sort_and_update_ok [OF i] by blast
  obtain c' where c': "ch_heap ch' a = Some c'" "conn_core c' = conn_core c"
    using same_core_at [of "ch_heap (put_conn a c ch)" "ch_heap ch'" a c] ch'(4) put_conn_at
    unfolding ch_kept_def by blast
  have sc: "same_core (ch_heap (put_conn a c ch)) (ch_heap ch')" using ch'(4) by (simp add: ch_kept_def)
  have alive: "\<forall>b \<in> insert a D. ch_heap ch' b \<noteq> None"
    using 1 same_core_live [OF sc] by (auto simp: slot_inv_def put_conn_def)
  have "slot_sync a c' ch'" using ch'(3) c'(1) by (simp add: slot_sync_def put_conn_idem)
  then show ?case using ch' c' alive
    by (intro exI [of _ c'] exI [of _ ch'])
       (simp add: channel_env_def with_listener_def slot_inv_def)
next
  case (2 c ch c')
  show ?case unfolding slot_sync_def
    by (rule ch_sync_cong [OF 2(1) [unfolded slot_sync_def]])
       (use 2(2,3) in \<open>simp_all add: put_conn_def same_view_def\<close>)
next
  case (3 ch b addr)
  then show ?case
    by (auto simp: slot_inv_def channel_env_def port_send_def ch_inv_emit)
next
  case (4 c ch b addr)
  then show ?case
    by (auto simp: slot_sync_def channel_env_def port_send_def put_conn_emit ch_inv_emit)
next
  case (5 ch d ts)
  then show ?case
    by (auto simp: slot_inv_def channel_env_def ch_inv_emit)
next
  case (6 c ch d ts)
  then show ?case
    by (auto simp: slot_sync_def channel_env_def put_conn_emit ch_inv_emit)
qed

definition ch_ok :: "ice_channel \<Rightarrow> bool" where
  "ch_ok ch \<longleftrightarrow> ch_inv ch \<and> ch_sync ch"

lemma update_conn_ok:
  assumes ok: "ch_ok ch" and a: "ch_heap ch a \<noteq> None" and D: "\<forall>b \<in> D. ch_heap ch b \<noteq> None"
  obtains ch' where "run_conn sv now a (\<lambda>env c s. keep_conn (update_state env now c s)) ch = Some ch'"
    "ch_ok ch'" "\<forall>b \<in> D. ch_heap ch' b \<noteq> None"
proof -
  obtain c where c: "ch_heap ch a = Some c" using a by blast
  have s: "slot_inv (insert a D) ch" "slot_sync a c ch"
    using ok c D by (simp_all add: slot_inv_def slot_sync_def put_conn_idem ch_ok_def)
  obtain c' ch1 where u: "update_state (channel_env sv now (c_port c) a) now c ch = Some (c', ch1)"
    "slot_inv (insert a D) ch1" "slot_sync a c' ch1"
    using listener.update_state_ok [OF s] by metis
  have "run_conn sv now a (\<lambda>env c s. keep_conn (update_state env now c s)) ch = Some (put_conn a c' ch1)"
    using c u(1) by (simp add: run_conn_def keep_conn_def put_conn_def)
  moreover have "ch_ok (put_conn a c' ch1)"
    using u(2,3) ch_inv_put by (simp add: ch_ok_def slot_inv_def slot_sync_def)
  moreover have "\<forall>b \<in> D. ch_heap (put_conn a c' ch1) b \<noteq> None"
    using u(2) by (auto simp: slot_inv_def put_conn_def)
  ultimately show ?thesis by (rule that)
qed

subsection \<open>The handlers\<close>

lemma update_connections_ok:
  "ch_ok ch \<Longrightarrow> \<forall>b \<in> set as. ch_heap ch b \<noteq> None \<Longrightarrow>
   \<exists>ch'. update_connections sv now as ch = Some ch' \<and> ch_ok ch'"
proof (induction as arbitrary: ch)
  case Nil
  then show ?case by simp
next
  case (Cons a as)
  obtain ch1 where "run_conn sv now a (\<lambda>env c s. keep_conn (update_state env now c s)) ch = Some ch1"
    "ch_ok ch1" "\<forall>b \<in> set (a # as). ch_heap ch1 b \<noteq> None"
    using update_conn_ok [OF Cons.prems(1) _ Cons.prems(2)] Cons.prems(2) by (metis list.set_intros(1))
  then show ?case using Cons.IH [of ch1] by auto
qed

lemma ch_ok_controller:
  assumes "ch_ok ch" "k_wf k" "k_connections k = k_connections (ch_controller ch)"
    "k_selected k = k_selected (ch_controller ch)"
  shows "ch_ok (ch\<lparr>ch_controller := k\<rparr>)"
  using assms ch_sync_cong [of ch "ch\<lparr>ch_controller := k\<rparr>"]
  by (simp add: ch_ok_def ch_inv_def k_live_def same_view_def)

lemma ch_ok_update:
  "ch_ok ch \<Longrightarrow> ch_ok (ch\<lparr>ch_last_ping_sent_ms := t\<rparr>)"
  "ch_ok ch \<Longrightarrow> ch_ok (ch\<lparr>ch_cur_ping_interval := i\<rparr>)"
  "ch_ok ch \<Longrightarrow> ch_ok (ch\<lparr>ch_ice_params := ip\<rparr>)"
  "ch_ok ch \<Longrightarrow> ch_ok (ch\<lparr>ch_remote_ice_params := ip\<rparr>)"
  "ch_ok ch \<Longrightarrow> ch_ok (emit e ch)"
  using ch_sync_cong [of ch "ch\<lparr>ch_last_ping_sent_ms := t\<rparr>"]
    ch_sync_cong [of ch "ch\<lparr>ch_cur_ping_interval := i\<rparr>"]
    ch_sync_cong [of ch "ch\<lparr>ch_ice_params := ip\<rparr>"]
    ch_sync_cong [of ch "ch\<lparr>ch_remote_ice_params := ip\<rparr>"]
  by (simp_all add: ch_ok_def ch_inv_def same_view_def ch_inv_emit) (simp add: ch_inv_def emit_def)?

lemma send_optional_frame:
  "ch_controller (send_optional (channel_env sv now pi a) addr out ch) = ch_controller ch"
  "ch_heap (send_optional (channel_env sv now pi a) addr out ch) = ch_heap ch"
  "ch_ports (send_optional (channel_env sv now pi a) addr out ch) = ch_ports ch"
  "ch_ok ch \<Longrightarrow> ch_ok (send_optional (channel_env sv now pi a) addr out ch)"
  by (auto simp: send_optional_def channel_env_def port_send_def ch_ok_update split: option.split)

lemma ping_connection_ok:
  assumes ok: "ch_ok ch" and a: "ch_heap ch a \<noteq> None"
  obtains ch' where "ping_connection sv now rid a ch = Some ch'" "ch_ok ch'"
    "ch_controller ch' = ch_controller ch"
proof -
  define ch0 where "ch0 = ch\<lparr>ch_last_ping_sent_ms := now\<rparr>"
  have ok0: "ch_ok ch0" using ok by (simp add: ch0_def ch_ok_update)
  obtain c where c: "ch_heap ch0 a = Some c" using a by (auto simp: ch0_def)
  let ?env = "channel_env sv now (c_port c) a"
  have s: "slot_inv (insert a {}) ch0" "slot_sync a c ch0"
    using ok0 c by (simp_all add: slot_inv_def slot_sync_def put_conn_idem ch_ok_def)
  obtain c' ch1 where p: "conn_ping ?env now now rid c ch0 = Some (c', ch1)"
    using conn_ping_returns by metis
  have k: "slot_inv (insert a {}) ch1" "slot_sync a c' ch1"
    using listener.conn_ping_ok [OF s p] by simp_all
  have "ch_controller ch1 = ch_controller ch0"
    using p by (auto simp: conn_ping_def Let_def send_optional_frame split: option.splits prod.splits)
  moreover have "ping_connection sv now rid a ch = Some (put_conn a c' ch1)"
    using c p by (simp add: ping_connection_def ch0_def [symmetric] run_conn_def keep_conn_def put_conn_def)
  moreover have "ch_ok (put_conn a c' ch1)"
    using k ch_inv_put by (simp add: ch_ok_def slot_inv_def slot_sync_def)
  ultimately show ?thesis using that by (simp add: ch0_def put_conn_def)
qed

text \<open>Pinging the connection the controller has chosen.\<close>

lemma ping_choice_ok:
  assumes ok2: "ch_ok ch2" and r: "\<And>a. r = Some a \<Longrightarrow> a \<in> set (k_connections (ch_controller ch2))"
  shows "\<exists>ch4. (case r of
       None \<Rightarrow> Some ch2
     | Some a \<Rightarrow>
         (case ping_connection sv now rid a ch2 of
            None \<Rightarrow> None
          | Some ch3 \<Rightarrow> Some (ch3\<lparr>ch_controller := mark_connection_pinged a (ch_controller ch3)\<rparr>))) = Some ch4 \<and> ch_ok ch4"
proof (cases r)
  case None
  then show ?thesis using ok2 by simp
next
  case (Some a)
  then have a: "a \<in> set (k_connections (ch_controller ch2))" using r by blast
  have wf: "k_wf (ch_controller ch2)" using ok2 by (simp add: ch_ok_def ch_inv_def)
  have "ch_heap ch2 a \<noteq> None" using ok2 a by (simp add: ch_ok_def ch_inv_def k_live_def)
  then obtain ch3 where 3: "ping_connection sv now rid a ch2 = Some ch3" "ch_ok ch3"
    "ch_controller ch3 = ch_controller ch2"
    using ping_connection_ok [OF ok2] by blast
  have "ch_ok (ch3\<lparr>ch_controller := mark_connection_pinged a (ch_controller ch3)\<rparr>)"
    by (rule ch_ok_controller [OF 3(2)])
       (use k_wf_mark [OF wf] a 3(3) in \<open>simp_all add: mark_connection_pinged_def\<close>)
  then show ?thesis using Some 3(1) by simp
qed

lemma check_and_ping_ok:
  assumes ok: "ch_ok ch"
  shows "\<exists>ch'. on_check_and_ping sv now rid ch = Some ch' \<and> ch_ok ch'"
proof -
  obtain ch1 where 1: "update_connection_states sv now ch = Some ch1" "ch_ok ch1"
    using update_connections_ok [OF ok] ok unfolding update_connection_states_def
    by (metis ch_inv_live(1) ch_ok_def)
  have wf: "k_wf (ch_controller ch1)" and live: "k_live (ch_heap ch1) (ch_controller ch1)"
    and sel: "\<And>a. k_selected (ch_controller ch1) = Some a \<Longrightarrow> a \<in> set (k_connections (ch_controller ch1))"
    using 1(2) by (auto simp: ch_ok_def ch_inv_def)
  obtain r i k where k: "select_connection_to_ping (ch_heap ch1) now
      (ch_last_ping_sent_ms ch1 - PING_INTERVAL_DIFF) (ch_controller ch1) = Some (r, i, k)" "k_wf k"
      "k_connections k = k_connections (ch_controller ch1)" "k_selected k = k_selected (ch_controller ch1)"
      "\<And>a. r = Some a \<Longrightarrow> a \<in> set (k_connections (ch_controller ch1))"
    using select_connection_ok [OF wf live] sel by metis
  define ch2 where "ch2 = ch1\<lparr>ch_controller := k\<rparr>"
  have ok2: "ch_ok ch2" unfolding ch2_def by (rule ch_ok_controller [OF 1(2) k(2-4)])
  have "k_connections (ch_controller ch2) = k_connections (ch_controller ch1)" by (simp add: ch2_def k(3))
  then obtain ch4 where 4: "(case r of
                        None \<Rightarrow> Some ch2
                      | Some a \<Rightarrow>
                          (case ping_connection sv now rid a ch2 of
                             None \<Rightarrow> None
                           | Some ch3 \<Rightarrow>
                               Some (ch3\<lparr>ch_controller := mark_connection_pinged a (ch_controller ch3)\<rparr>)))
        = Some ch4" "ch_ok ch4" using ping_choice_ok [OF ok2, of r sv now rid] k(5) by auto
  show ?thesis
    unfolding on_check_and_ping_def 1(1) option.case k(1) prod.case Let_def ch2_def [symmetric] 4(1)
    using 4(2) by (simp add: ch_ok_update)
qed

lemma set_params_of_ok:
  "ch_ok ch \<Longrightarrow> \<forall>b \<in> set as. ch_heap ch b \<noteq> None \<Longrightarrow>
   \<exists>ch'. set_params_of params as ch = Some ch' \<and> ch_ok ch'"
proof (induction as arbitrary: ch)
  case Nil
  then show ?case by simp
next
  case (Cons a as)
  then obtain c where c: "ch_heap ch a = Some c" by auto
  define ch1 where "ch1 = put_conn a (maybe_set_remote_ice_params params c) ch"
  have "same_view (ch_heap ch b) (ch_heap ch1 b)" for b
    using c by (simp add: ch1_def put_conn_def same_view_def maybe_set_remote_ice_params_def)
  then have "ch_sync ch1"
    using ch_sync_cong [of ch ch1] Cons.prems(1) by (simp add: ch_ok_def ch1_def put_conn_def)
  then have "ch_ok ch1" using ch_inv_put Cons.prems(1) by (simp add: ch_ok_def ch1_def)
  moreover have "\<forall>b \<in> set as. ch_heap ch1 b \<noteq> None"
    using Cons.prems(2) by (simp add: ch1_def put_conn_def)
  ultimately show ?case using Cons.IH [of ch1] c by (simp add: ch1_def)
qed

lemma set_remote_ice_params_ok:
  assumes "ch_ok ch"
  shows "\<exists>ch'. set_remote_ice_params now params ch = Some ch' \<and> ch_ok ch'"
proof -
  have ok0: "ch_ok (ch\<lparr>ch_remote_ice_params := params\<rparr>)" using assms by (simp add: ch_ok_update)
  have "\<forall>b \<in> set (k_connections (ch_controller ch)). ch_heap (ch\<lparr>ch_remote_ice_params := params\<rparr>) b \<noteq> None"
    using ch_inv_live (1) [of ch] assms by (simp add: ch_ok_def)
  from set_params_of_ok [OF ok0 this, of params] obtain ch1 where
    1: "set_params_of params (k_connections (ch_controller ch)) (ch\<lparr>ch_remote_ice_params := params\<rparr>) = Some ch1"
    "ch_ok ch1" by blast
  obtain ch2 where "sort_connections_and_update_state now ch1 = Some ch2" "ch_inv ch2" "ch_sync ch2"
    using sort_and_update_ok [of ch1] 1(2) by (auto simp: ch_ok_def)
  then show ?thesis using 1(1) by (auto simp: set_remote_ice_params_def ch_ok_def)
qed

lemma create_ice_candidate_connections:
  "create_ice_candidate io lib net ip c p = (ret, c', p') \<Longrightarrow> up_connections p' = up_connections p"
  by (auto simp: create_ice_candidate_def Let_def split: if_splits option.splits)

lemma gather_ports_ok: "ch_ok ch \<Longrightarrow> ch_ok (gather_ports sv c0 nets ch)"
proof (induction sv c0 nets ch rule: gather_ports.induct)
  case (1 sv c0 ch)
  then show ?case by simp
next
  case (2 sv c0 ip net nets ch)
  obtain ret c p where p: "create_ice_candidate (sv_io sv) (sv_lib sv) net ip c0
      (new_udp_port (ch_name ch) (ch_component ch) (ch_ice_params ch)) = (ret, c, p)"
    by (metis prod_cases3)
  have "up_connections p = (\<lambda>_. None)"
    using create_ice_candidate_connections [OF p] by (simp add: new_udp_port_def)
  then have inv: "ch_inv (ch\<lparr>ch_ports := ch_ports ch @ [p], ch_local_candidates := cs\<rparr>)" for cs
    using 2(2) by (simp add: ch_ok_def ch_inv_def)
  have "ch_sync (ch\<lparr>ch_ports := ch_ports ch @ [p], ch_local_candidates := cs\<rparr>)" for cs
    using ch_sync_cong [of ch "ch\<lparr>ch_ports := ch_ports ch @ [p], ch_local_candidates := cs\<rparr>"] 2(2)
    by (simp add: ch_ok_def same_view_def)
  with inv have ok: "ch_ok (ch\<lparr>ch_ports := ch_ports ch @ [p], ch_local_candidates := cs\<rparr>)" for cs
    by (simp add: ch_ok_def)
  have "ch_ok (if ret \<noteq> 0 then ch\<lparr>ch_ports := ch_ports ch @ [p]\<rparr>
      else ch\<lparr>ch_ports := ch_ports ch @ [p], ch_local_candidates := ch_local_candidates ch @ [c]\<rparr>)"
    using ok [of "ch_local_candidates ch"] ok by simp
  then show ?case using 2(1) [OF p [symmetric] refl refl refl] p
    by (cases "ret = 0") (simp_all add: Let_def)
qed

lemma gathering_candidate_ok: "ch_ok ch \<Longrightarrow> ch_ok (gathering_candidate sv c0 nets ch)"
  by (simp add: gathering_candidate_def Let_def gather_ports_ok ch_ok_update)

text \<open>A new connection in the controller, the heap and the map of its port.\<close>

lemma new_connection_inv:
  assumes inv: "ch_inv ch" and a: "ch_heap ch a = None" and pi: "pi < length (ch_ports ch)"
    and ch2_def: "ch2 = ch_add_connection a (put_conn a c
      (ch\<lparr>ch_ports := (ch_ports ch)[pi := port_add_connection addr a (ch_ports ch ! pi)]\<rparr>))"
  shows "ch_inv ch2"
proof -
  define p where "p = ch_ports ch ! pi"
  have an: "a \<notin> set (k_connections (ch_controller ch))" using inv a by (auto simp: ch_inv_def k_live_def)
  have wf: "k_wf (ch_controller ch2)"
    using k_wf_add [OF _ an] inv by (simp add: ch2_def ch_add_connection_def put_conn_def ch_inv_def)
  have live: "k_live (ch_heap ch2) (ch_controller ch2)"
    using inv by (auto simp: ch2_def ch_add_connection_def put_conn_def ch_inv_def k_live_def
        k_add_connection_def split: option.splits)
  have pmap: "x \<in> set (ch_ports ch) \<Longrightarrow> up_connections x y = Some z \<Longrightarrow> ch_heap ch z \<noteq> None" for x y z
    using inv unfolding ch_inv_def by blast
  have pm: "ch_heap ch2 b \<noteq> None"
    if q: "q \<in> set (ch_ports ch2)" "up_connections q ad = Some b" for q ad b
  proof -
    have "q = port_add_connection addr a p \<or> q \<in> set (ch_ports ch)"
      using q(1) set_update_subset_insert [of "ch_ports ch" pi "port_add_connection addr a p"]
      by (auto simp: ch2_def ch_add_connection_def put_conn_def p_def)
    moreover have "p \<in> set (ch_ports ch)" using pi by (simp add: p_def)
    ultimately have "b = a \<or> ch_heap ch b \<noteq> None"
      using q(2) pmap [of p ad b] pmap [of q ad b]
      by (cases "ad = addr") (auto simp: port_add_connection_def)
    then show ?thesis by (auto simp: ch2_def ch_add_connection_def put_conn_def)
  qed
  show ?thesis
    unfolding ch_inv_def
  proof (intro conjI ballI allI impI)
    show "ch_selected ch2 = k_selected (ch_controller ch2)"
      using inv by (simp add: ch_inv_def ch2_def ch_add_connection_def put_conn_def k_add_connection_def)
    fix b
    assume "ch_selected ch2 = Some b"
    then show "b \<in> set (k_connections (ch_controller ch2))"
      using inv by (simp add: ch_inv_def ch2_def ch_add_connection_def put_conn_def k_add_connection_def)
  qed (use wf live pm in auto)
qed

lemma unknown_address_ok:
  assumes ok: "ch_ok ch" and a: "ch_heap ch a = None" and pi: "pi < length (ch_ports ch)"
    and r: "on_unknown_address sv now a pi addr msg ufrag ch = Some ch'"
  shows "ch_ok ch'"
proof (cases "get_uint32 STUN_ATTR_PRIORITY msg")
  case None
  then show ?thesis using r ok by (simp add: on_unknown_address_def)
next
  case (Some pa)
  define remote where "remote = \<lparr>cand_component = ch_component ch, cand_protocol = ''udp'',
                         cand_address = addr, cand_port = 0, cand_priority = uint32_value pa,
                         cand_username = ufrag, cand_password = ice_pwd (ch_remote_ice_params ch),
                         cand_type = PRFLX_PORT_TYPE, cand_foundation = ''''\<rparr>"
  define c where "c = new_ice_conn pi remote"
  define ch2 where "ch2 = ch_add_connection a (put_conn a c
      (ch\<lparr>ch_ports := (ch_ports ch)[pi := port_add_connection addr a (ch_ports ch ! pi)]\<rparr>))"
  have "ch_inv ch" using ok by (simp add: ch_ok_def)
  then have "ch_inv ch2" by (rule new_connection_inv [OF _ a pi ch2_def])
  then have "slot_inv (insert a {}) ch2"
    by (simp add: slot_inv_def ch2_def ch_add_connection_def put_conn_def)
  then have "slot_inv (insert a {}) (handle_stun_binding_request (channel_env sv now pi a) msg c ch2)"
    by (rule listener.handle_request_ok (1))
  then have "ch_inv (handle_stun_binding_request (channel_env sv now pi a) msg c ch2)"
    by (simp add: slot_inv_def)
  then obtain ch3 where "sort_connections_and_update_state now
      (handle_stun_binding_request (channel_env sv now pi a) msg c ch2) = Some ch3"
    "ch_inv ch3" "ch_sync ch3"
    using sort_and_update_ok by metis
  moreover have "on_unknown_address sv now a pi addr msg ufrag ch = sort_connections_and_update_state now
      (handle_stun_binding_request (channel_env sv now pi a) msg c ch2)"
    using Some by (simp add: on_unknown_address_def Let_def ch2_def c_def remote_def)
  ultimately show ?thesis using r by (simp add: ch_ok_def)
qed

lemma read_packet_ok:
  assumes ok: "ch_ok ch" and a: "ch_heap ch a = None" and pi: "pi < length (ch_ports ch)" and now: "0 < now"
    and r: "port_on_read_packet sv now a pi buf addr ts ch = Some ch'"
  shows "ch_ok ch'"
proof (cases "get_connection addr (ch_ports ch ! pi)")
  case (Some b)
  then obtain c co ch1 where c: "ch_heap ch b = Some c"
    and p: "on_read_packet (channel_env sv now (c_port c) b) buf ts now now c ch = Some (co, ch1)"
    and ch': "ch' = ch1\<lparr>ch_heap := (ch_heap ch1)(b := co)\<rparr>"
    using r by (auto simp: port_on_read_packet_def run_conn_def split: option.splits)
  have s: "slot_inv (insert b {}) ch" "slot_sync b c ch"
    using ok c by (simp_all add: slot_inv_def slot_sync_def put_conn_idem ch_ok_def)
  obtain c' where "co = Some c'" "slot_inv (insert b {}) ch1" "slot_sync b c' ch1"
    using listener.on_read_packet_ok [OF s now p] by blast
  then show ?thesis using ch' ch_inv_put
    by (simp add: ch_ok_def slot_inv_def slot_sync_def put_conn_def)
next
  case None
  obtain res m ufrag err where
    g: "get_stun_message (sv_io sv) (sv_lib sv) (ch_ports ch ! pi) buf [] = Some (res, m, ufrag, err)"
    using r None by (auto simp: port_on_read_packet_def split: option.splits)
  define ch1 where "ch1 = send_optional (channel_env sv now pi a) addr err ch"
  have ch1: "ch_ok ch1" "ch_heap ch1 a = None" "pi < length (ch_ports ch1)"
    using ok a pi by (simp_all add: ch1_def send_optional_frame)
  have "ch' = ch1 \<or> (\<exists>msg. on_unknown_address sv now a pi addr msg ufrag ch1 = Some ch')"
    using r None g
    by (auto simp: port_on_read_packet_def ch1_def [symmetric] Let_def split: option.splits if_splits)
  then show ?thesis using ch1 unknown_address_ok by blast
qed

subsection \<open>Reachable states\<close>

text \<open>
  The inputs of a channel. A timer tick carries a random transaction id; a packet carries the
  address a new connection would get, the port it came in on, and its source. The steps are those
  that do not touch freed memory.
\<close>

datatype channel_input =
    InIceParams ice_parameters
  | InRemoteIceParams ice_parameters
  | InGather candidate "(ip_address \<times> net_results) list"
  | InPacket nat nat bytes socket_address int
  | InTimer bytes
  | InSend bytes

definition channel_input_ok :: "channel_input \<Rightarrow> ice_channel \<Rightarrow> bool" where
  "channel_input_ok i ch =
     (case i of
        InPacket a pi _ _ _ \<Rightarrow> ch_heap ch a = None \<and> pi < length (ch_ports ch)
      | _ \<Rightarrow> True)"

definition channel_step ::
  "ice_services \<Rightarrow> int \<Rightarrow> channel_input \<Rightarrow> ice_channel \<Rightarrow> ice_channel option" where
  "channel_step sv now i ch =
     (case i of
        InIceParams params \<Rightarrow> Some (set_ice_params params ch)
      | InRemoteIceParams params \<Rightarrow> set_remote_ice_params now params ch
      | InGather c0 nets \<Rightarrow> Some (gathering_candidate sv c0 nets ch)
      | InPacket a pi buf addr ts \<Rightarrow> port_on_read_packet sv now a pi buf addr ts ch
      | InTimer rid \<Rightarrow> on_check_and_ping sv now rid ch
      | InSend data \<Rightarrow> map_option snd (ch_send_packet sv data ch))"

inductive channel_reachable :: "ice_services \<Rightarrow> string \<Rightarrow> ice_component \<Rightarrow> ice_channel \<Rightarrow> bool"
  for sv name component where
  start: "channel_reachable sv name component (new_ice_channel name component)"
| step: "channel_reachable sv name component ch \<Longrightarrow> 0 < now \<Longrightarrow> channel_input_ok i ch \<Longrightarrow>
    channel_step sv now i ch = Some ch' \<Longrightarrow> channel_reachable sv name component ch'"

lemma new_channel_ok: "ch_ok (new_ice_channel name component)"
  by (simp add: ch_ok_def ch_inv_def ch_sync_def new_ice_channel_def new_ice_controller_def k_wf_def
      k_live_def selected_writable_def compute_ice_transport_state_def)

lemma send_packet_ok:
  assumes "ch_ok ch" "ch_send_packet sv data ch = Some (n, ch')"
  shows "ch_ok ch'"
  using assms
  by (auto simp: ch_send_packet_def conn_send_packet_def channel_env_def port_send_def ch_ok_update
      split: option.splits if_splits)

lemma channel_step_ok:
  assumes "ch_ok ch" "0 < now" "channel_input_ok i ch" "channel_step sv now i ch = Some ch'"
  shows "ch_ok ch'"
proof (cases i)
  case (InIceParams x1)
  then show ?thesis using assms by (auto simp: channel_step_def set_ice_params_def ch_ok_update)
next
  case (InRemoteIceParams params)
  then show ?thesis using assms set_remote_ice_params_ok [OF assms(1), of now params]
    by (auto simp: channel_step_def)
next
  case (InGather x31 x32)
  then show ?thesis using assms by (auto simp: channel_step_def gathering_candidate_ok)
next
  case (InPacket x41 x42 x43 x44 x45)
  then show ?thesis using assms read_packet_ok [OF assms(1) _ _ assms(2)]
    by (auto simp: channel_step_def channel_input_ok_def)
next
  case (InTimer rid)
  then show ?thesis using assms check_and_ping_ok [OF assms(1), of sv now rid]
    by (auto simp: channel_step_def)
next
  case (InSend x6)
  then show ?thesis using assms send_packet_ok [OF assms(1)] by (auto simp: channel_step_def)
qed

lemma reachable_ok: "channel_reachable sv name component ch \<Longrightarrow> ch_ok ch"
proof (induction rule: channel_reachable.induct)
  case start
  then show ?case by (rule new_channel_ok)
next
  case (step ch now i ch')
  then show ?case using channel_step_ok by blast
qed

subsection \<open>The properties of the channel\<close>

lemma any_conn_eq:
  "\<forall>a \<in> set as. h a \<noteq> None \<Longrightarrow> any_conn P h as = Some (\<exists>a \<in> set as. P (the (h a)))"
  by (induction as) auto

lemma ch_ok_view:
  assumes "ch_ok ch"
  defines "conns \<equiv> set (k_connections (ch_controller ch))"
    and "conn \<equiv> \<lambda>a. the (ch_heap ch a)"
  shows "(\<forall>a \<in> conns. ch_heap ch a \<noteq> None)
     \<and> ch_selected ch = k_selected (ch_controller ch)
     \<and> (\<forall>a. ch_selected ch = Some a \<longrightarrow> a \<in> conns)
     \<and> ch_writable ch = (case ch_selected ch of None \<Rightarrow> False | Some a \<Rightarrow> conn_writable (conn a))
     \<and> ch_receiving ch = (\<exists>a \<in> conns. c_receiving (conn a))
     \<and> ch_state ch =
         (if ch_had_connection ch \<and> \<not> (\<exists>a \<in> conns. conn_active (conn a)) then k_failed
          else if ch_has_been_connection ch \<and> \<not> ch_writable ch then k_disconnected
          else if \<not> ch_had_connection ch \<and> \<not> (\<exists>a \<in> conns. conn_active (conn a)) then k_new
          else if (\<exists>a \<in> conns. conn_active (conn a)) \<and> \<not> ch_writable ch then k_checking
          else k_connected)"
proof -
  have inv: "ch_inv ch" and sync: "ch_sync ch" using assms(1) by (simp_all add: ch_ok_def)
  have live: "\<forall>a \<in> conns. ch_heap ch a \<noteq> None" using ch_inv_live (1) [OF inv] by (simp add: conns_def)
  have any: "any_conn P (ch_heap ch) (k_connections (ch_controller ch)) = Some (\<exists>a \<in> conns. P (conn a))" for P
    using any_conn_eq [of "k_connections (ch_controller ch)"] live by (simp add: conns_def conn_def)
  have w: "selected_writable ch = Some (ch_writable ch)" and r: "(\<exists>a \<in> conns. c_receiving (conn a)) = ch_receiving ch"
    and st: "compute_ice_transport_state ch = Some (ch_state ch)"
    using sync any by (simp_all add: ch_sync_def)
  have wr: "ch_writable ch = (case ch_selected ch of None \<Rightarrow> False | Some a \<Rightarrow> conn_writable (conn a))"
    using w by (cases "ch_selected ch") (auto simp: selected_writable_def conn_def)
  have se: "ch_selected ch = k_selected (ch_controller ch)" "\<forall>a. ch_selected ch = Some a \<longrightarrow> a \<in> conns"
    using inv by (simp_all add: ch_inv_def conns_def)
  have "ch_state ch =
         (if ch_had_connection ch \<and> \<not> (\<exists>a \<in> conns. conn_active (conn a)) then k_failed
          else if ch_has_been_connection ch \<and> \<not> ch_writable ch then k_disconnected
          else if \<not> ch_had_connection ch \<and> \<not> (\<exists>a \<in> conns. conn_active (conn a)) then k_new
          else if (\<exists>a \<in> conns. conn_active (conn a)) \<and> \<not> ch_writable ch then k_checking
          else k_connected)"
    using st unfolding compute_ice_transport_state_def any option.case option.inject by (rule sym)
  then show ?thesis using live se wr r by blast
qed

text \<open>C1: In every reachable state of a channel the channel and its controller hold the same
  selected connection, which is one of the live connections; the writable flag is that of the
  selected connection; the receiving flag is set when some connection is receiving; and the state
  is the one the connections give: failed when there were connections and none is active,
  disconnected when it was connected and is not writable, new, checking or connected.\<close>

theorem channel_in_sync:
  assumes "channel_reachable sv name component ch"
  defines "conns \<equiv> set (k_connections (ch_controller ch))"
    and "conn \<equiv> \<lambda>a. the (ch_heap ch a)"
  shows "(\<forall>a \<in> conns. ch_heap ch a \<noteq> None)
     \<and> ch_selected ch = k_selected (ch_controller ch)
     \<and> (\<forall>a. ch_selected ch = Some a \<longrightarrow> a \<in> conns)
     \<and> ch_writable ch = (case ch_selected ch of None \<Rightarrow> False | Some a \<Rightarrow> conn_writable (conn a))
     \<and> ch_receiving ch = (\<exists>a \<in> conns. c_receiving (conn a))
     \<and> ch_state ch =
         (if ch_had_connection ch \<and> \<not> (\<exists>a \<in> conns. conn_active (conn a)) then k_failed
          else if ch_has_been_connection ch \<and> \<not> ch_writable ch then k_disconnected
          else if \<not> ch_had_connection ch \<and> \<not> (\<exists>a \<in> conns. conn_active (conn a)) then k_new
          else if (\<exists>a \<in> conns. conn_active (conn a)) \<and> \<not> ch_writable ch then k_checking
          else k_connected)"
  unfolding conns_def conn_def by (rule ch_ok_view [OF reachable_ok [OF assms(1)]])

definition demo_services :: ice_services where
  "demo_services = \<lparr>sv_io = be_io, sv_lib = demo_lib, sv_send = (\<lambda>b a. int (length b))\<rparr>"

definition demo_net :: net_results where
  "demo_net = \<lparr>net_socket = 5, net_nonblock = 0, net_bind = 0, net_address = Some 9000\<rparr>"

definition demo_channel :: ice_channel where
  "demo_channel = gathering_candidate demo_services demo_candidate [(IPv4 [10, 0, 0, 1], demo_net)]
     (set_ice_params \<lparr>ice_ufrag = bytes_of ''abcd'', ice_pwd = bytes_of ''pw1''\<rparr>
       (new_ice_channel ''audio'' RTP))"

lemma demo_channel_reachable: "channel_reachable demo_services ''audio'' RTP demo_channel"
proof -
  let ?p = "\<lparr>ice_ufrag = bytes_of ''abcd'', ice_pwd = bytes_of ''pw1''\<rparr>"
  have "channel_reachable demo_services ''audio'' RTP (set_ice_params ?p (new_ice_channel ''audio'' RTP))"
    by (rule channel_reachable.step [OF channel_reachable.start, of 1 "InIceParams ?p"])
       (simp_all add: channel_input_ok_def channel_step_def)
  from channel_reachable.step [OF this, of 1 "InGather demo_candidate [(IPv4 [10, 0, 0, 1], demo_net)]"]
  show ?thesis by (simp add: channel_input_ok_def channel_step_def demo_channel_def)
qed

theorem channel_in_sync_witness:
  "ch_selected demo_channel = k_selected (ch_controller demo_channel)
     \<and> ch_receiving demo_channel = (\<exists>a \<in> set (k_connections (ch_controller demo_channel)).
          c_receiving (the (ch_heap demo_channel a)))"
  using channel_in_sync [OF demo_channel_reachable] by blast

text \<open>C23: The ping timer is safe and total: in every reachable state a tick updates the
  connections, selects and pings without touching freed memory, and ends in a state where the
  channel's flags again agree with its connections.\<close>

theorem timer_tick_safe:
  assumes "channel_reachable sv name component ch"
  shows "\<exists>ch'. on_check_and_ping sv now rid ch = Some ch' \<and> ch_ok ch'"
  by (rule check_and_ping_ok [OF reachable_ok [OF assms]])

theorem timer_tick_safe_witness:
  "\<exists>ch'. on_check_and_ping demo_services 100 [1] demo_channel = Some ch' \<and> ch_ok ch'"
  by (rule timer_tick_safe [OF demo_channel_reachable])

lemma destroy_only_connection:
  assumes ok: "ch_ok ch" and k: "k_connections (ch_controller ch) = [a]"
    and sel: "ch_selected ch = Some a" and c: "ch_heap ch a = Some c" and m: "mgr_wf (c_requests c)"
  shows "\<exists>ch'. run_conn sv now a conn_destroy ch = Some ch' \<and> ch_selected ch' = None
     \<and> k_selected (ch_controller ch') = Some a \<and> k_connections (ch_controller ch') = []
     \<and> ch_heap ch' a = None"
proof -
  have ks: "k_selected (ch_controller ch) = Some a" using ok sel by (simp add: ch_ok_def ch_inv_def)
  define k1 where "k1 = k_connection_destroyed a (ch_controller ch)"
  have k1: "k_connections k1 = []" "k_selected k1 = Some a"
    using k ks by (simp_all add: k1_def k_connection_destroyed_def)
  define ch1 where "ch1 = (put_conn a c ch)\<lparr>ch_controller := k1\<rparr>"
  have h1: "ch_heap ch1 a = Some c" by (simp add: ch1_def put_conn_def)
  define ch2 where "ch2 = ch1\<lparr>ch_selected := None, ch_heap := (ch_heap ch1)(a \<mapsto> c\<lparr>c_selected := False\<rparr>)\<rparr>"
  have sw: "switch_selected_connection None ch1 = Some ch2"
    using sel h1 by (simp add: switch_selected_connection_def ch2_def ch1_def put_conn_def)
  have ss: "sort_and_switch (ch_prio ch2) (ch_heap ch2) (ch_controller ch2) = Some (None, k1)"
    using k1 by (cases k1) (simp add: sort_and_switch_def ch2_def ch1_def sort_by_def)
  have e: "ch2\<lparr>ch_controller := k1\<rparr> = ch2" by (simp add: ch2_def ch1_def)
  obtain w r st hb ev where u: "ch_update_state ch2 = Some (ch2\<lparr>ch_writable := w, ch_receiving := r,
       ch_state := st, ch_has_been_connection := hb, ch_events := ev\<rparr>)"
    by (rule ch_update_state_ok [of ch2]) (use k1 in \<open>simp_all add: ch2_def ch1_def\<close>)
  define ch3 where "ch3 = ch2\<lparr>ch_writable := w, ch_receiving := r, ch_state := st,
       ch_has_been_connection := hb, ch_events := ev\<rparr>"
  have "maybe_start_pinging now ch3 = Some ch3"
    using k1 by (simp add: maybe_start_pinging_def has_pingable_connection_def ch3_def ch2_def ch1_def)
  then have so: "sort_connections_and_update_state now ch2 = Some ch3"
    using ss u by (simp add: sort_connections_and_update_state_def maybe_switch_selected_connection_def e ch3_def)
  have "on_connection_destroyed now a (put_conn a c ch) = Some ch3"
    using sel sw so by (simp add: on_connection_destroyed_def Let_def ch1_def k1_def put_conn_def)
  moreover have h3: "ch_heap ch3 a = Some (c\<lparr>c_selected := False\<rparr>)" by (simp add: ch3_def ch2_def)
  moreover obtain m' where "mgr_destroy (c_requests c) = Some m'" using mgr_destroy_ok [OF m] by blast
  ultimately have "run_conn sv now a conn_destroy ch = Some (ch3\<lparr>ch_heap := (ch_heap ch3)(a := None)\<rparr>)"
    using c by (simp add: run_conn_def conn_destroy_def channel_env_def with_listener_def)
  then show ?thesis using k1 by (simp add: ch3_def ch2_def ch1_def)
qed

text \<open>Destroying the selected connection of a channel leaves the controller's own pointer to
  it in place: \<open>_switch_selected_connection(nullptr)\<close> clears the channel's pointer only. After
  the only connection is destroyed, the next tick of the ping timer reads freed memory.\<close>

theorem destroyed_selection_dangles:
  assumes "ch_ok ch" "k_connections (ch_controller ch) = [a]" "ch_selected ch = Some a"
    and "ch_heap ch a = Some c" "mgr_wf (c_requests c)"
  shows "\<exists>ch'. run_conn sv now a conn_destroy ch = Some ch' \<and> ch_selected ch' = None
     \<and> k_selected (ch_controller ch') = Some a \<and> ch_heap ch' a = None
     \<and> (\<forall>t rid. on_check_and_ping sv t rid ch' = None)"
proof -
  obtain ch' where ch': "run_conn sv now a conn_destroy ch = Some ch'" "ch_selected ch' = None"
     "k_selected (ch_controller ch') = Some a" "k_connections (ch_controller ch') = []"
     "ch_heap ch' a = None"
    using destroy_only_connection [OF assms] by blast
  have "on_check_and_ping sv t rid ch' = None" for t rid
    using ch' by (simp add: on_check_and_ping_def update_connection_states_def
        select_connection_to_ping_def k_weak_def)
  then show ?thesis using ch' by blast
qed

definition demo_selected :: ice_channel where
  "demo_selected = demo_channel
     \<lparr>ch_heap := [7 \<mapsto> demo_conn\<lparr>c_write_state := STATE_WRITABLE\<rparr>],
      ch_controller := \<lparr>k_selected = Some 7, k_connections = [7], k_unpinged = {7}, k_pinged = {}\<rparr>,
      ch_selected := Some 7, ch_writable := True, ch_receiving := False, ch_state := k_connected,
      ch_had_connection := True, ch_has_been_connection := True, ch_ports := []\<rparr>"

theorem destroyed_selection_dangles_witness:
  "\<exists>ch'. run_conn demo_services 100 7 conn_destroy demo_selected = Some ch'
     \<and> on_check_and_ping demo_services 200 [1] ch' = None"
proof -
  have "ch_ok demo_selected"
    by (simp add: demo_selected_def ch_ok_def ch_inv_def ch_sync_def k_wf_def k_live_def
        selected_writable_def compute_ice_transport_state_def conn_writable_def conn_active_def
        demo_conn_def new_ice_conn_def)
  moreover have "mgr_wf (c_requests (demo_conn\<lparr>c_write_state := STATE_WRITABLE\<rparr>))"
    by (simp add: demo_conn_def new_ice_conn_def new_manager_wf)
  ultimately show ?thesis
    using destroyed_selection_dangles [of demo_selected 7 "demo_conn\<lparr>c_write_state := STATE_WRITABLE\<rparr>"
        demo_services 100]
    by (auto simp: demo_selected_def)
qed

end
