(* ===== verification/IceAgent.thy ===== *)
theory IceAgent
  imports IceChannelInvariant
begin

text \<open>
  The ICE agent (\<open>ice/ice_agent.h\<close>, \<open>ice/ice_agent.cpp\<close>): the list of channels and the aggregate
  of their states. The signals to the layer above are appended to \<open>ag_events\<close>.
\<close>

datatype agent_event =
    AgCandidates string ice_component "candidate list"
  | AgState ice_transport_state

record ice_agent =
  ag_channels :: "ice_channel list"
  ag_state :: ice_transport_state
  ag_events :: "agent_event list"

definition new_ice_agent :: ice_agent where
  "new_ice_agent = \<lparr>ag_channels = [], ag_state = k_new, ag_events = []\<rparr>"

definition same_channel :: "string \<Rightarrow> ice_component \<Rightarrow> ice_channel \<Rightarrow> bool" where
  "same_channel name component ch = (name = ch_name ch \<and> component = ch_component ch)"

definition get_channel :: "string \<Rightarrow> ice_component \<Rightarrow> ice_agent \<Rightarrow> ice_channel option" where
  "get_channel name component ag = find (same_channel name component) (ag_channels ag)"

definition create_channel :: "string \<Rightarrow> ice_component \<Rightarrow> ice_agent \<Rightarrow> bool \<times> ice_agent" where
  "create_channel name component ag =
     (if get_channel name component ag \<noteq> None then (True, ag)
      else (True, ag\<lparr>ag_channels := ag_channels ag @ [new_ice_channel name component]\<rparr>))"

definition on_candidate_allocate_done ::
  "ice_channel \<Rightarrow> candidate list \<Rightarrow> ice_agent \<Rightarrow> ice_agent" where
  "on_candidate_allocate_done ch cs ag =
     ag\<lparr>ag_events := ag_events ag @ [AgCandidates (ch_name ch) (ch_component ch) cs]\<rparr>"

definition state_count :: "ice_transport_state \<Rightarrow> ice_channel list \<Rightarrow> nat" where
  "state_count st chs = length (filter (\<lambda>ch. ch_state ch = st) chs)"

definition aggregate_state :: "ice_channel list \<Rightarrow> ice_transport_state" where
  "aggregate_state chs =
     (let total_ice_new = state_count k_new chs;
          total_ice_checking = state_count k_checking chs;
          total_ice_connected = state_count k_connected chs;
          total_ice_completed = state_count k_completed chs;
          total_ice_failed = state_count k_failed chs;
          total_ice_disconnected = state_count k_disconnected chs;
          total_ice_closed = state_count k_closed chs;
          total_ice = length chs
      in if total_ice_failed > 0 then k_failed
         else if total_ice_disconnected > 0 then k_disconnected
         else if total_ice_new + total_ice_closed = total_ice then k_new
         else if total_ice_new + total_ice_checking > 0 then k_checking
         else if total_ice_completed + total_ice_closed = total_ice then k_completed
         else if total_ice_connected + total_ice_completed + total_ice_closed = total_ice
         then k_connected
         else k_new)"

definition agent_update_state :: "ice_agent \<Rightarrow> ice_agent" where
  "agent_update_state ag =
     (let st = aggregate_state (ag_channels ag) in
      if ag_state ag \<noteq> st
      then (let ev = (if ag_state ag = k_checking \<and> st = k_completed then [AgState k_connected] else [])
            in ag\<lparr>ag_state := st, ag_events := ag_events ag @ ev @ [AgState st]\<rparr>)
      else ag)"

fun update_first :: "('a \<Rightarrow> bool) \<Rightarrow> ('a \<Rightarrow> 'a option) \<Rightarrow> 'a list \<Rightarrow> 'a list option" where
  "update_first P f [] = Some []"
| "update_first P f (x # xs) =
     (if P x then map_option (\<lambda>y. y # xs) (f x) else map_option ((#) x) (update_first P f xs))"

definition ag_set_ice_params ::
  "string \<Rightarrow> ice_component \<Rightarrow> ice_parameters \<Rightarrow> ice_agent \<Rightarrow> ice_agent option" where
  "ag_set_ice_params name component params ag =
     map_option (\<lambda>chs. ag\<lparr>ag_channels := chs\<rparr>)
       (update_first (same_channel name component) (\<lambda>ch. Some (set_ice_params params ch)) (ag_channels ag))"

definition ag_set_remote_ice_params ::
  "int \<Rightarrow> string \<Rightarrow> ice_component \<Rightarrow> ice_parameters \<Rightarrow> ice_agent \<Rightarrow> ice_agent option" where
  "ag_set_remote_ice_params now name component params ag =
     map_option (\<lambda>chs. ag\<lparr>ag_channels := chs\<rparr>)
       (update_first (same_channel name component) (set_remote_ice_params now params) (ag_channels ag))"

text \<open>
  \<open>gathering_candidate\<close>: each channel gathers in order, and its signal is handed on before the
  next one starts. \<open>inp\<close> gives what a channel's gathering gets from the sockets.
\<close>

fun candidates_signalled :: "ice_event list \<Rightarrow> candidate list list" where
  "candidates_signalled [] = []"
| "candidates_signalled (EvCandidates cs # es) = cs # candidates_signalled es"
| "candidates_signalled (_ # es) = candidates_signalled es"

fun gather_channels ::
  "ice_services \<Rightarrow> (ice_channel \<Rightarrow> candidate \<times> (ip_address \<times> net_results) list) \<Rightarrow> ice_channel list
     \<Rightarrow> ice_agent \<Rightarrow> ice_agent" where
  "gather_channels sv inp [] ag = ag"
| "gather_channels sv inp (ch # chs) ag =
     (let ch1 = gathering_candidate sv (fst (inp ch)) (snd (inp ch)) ch;
          css = candidates_signalled (drop (length (ch_events ch)) (ch_events ch1));
          ag1 = foldl (\<lambda>g cs. on_candidate_allocate_done ch1 cs g) (ag\<lparr>ag_channels := ag_channels ag @ [ch1]\<rparr>) css
      in gather_channels sv inp chs ag1)"

definition ag_gathering_candidate ::
  "ice_services \<Rightarrow> (ice_channel \<Rightarrow> candidate \<times> (ip_address \<times> net_results) list) \<Rightarrow> ice_agent \<Rightarrow> ice_agent" where
  "ag_gathering_candidate sv inp ag = gather_channels sv inp (ag_channels ag) (ag\<lparr>ag_channels := []\<rparr>)"

definition agent_destroy :: "ice_agent \<Rightarrow> ice_agent" where
  "agent_destroy ag = ag\<lparr>ag_channels := []\<rparr>"

subsection \<open>The aggregate\<close>

lemma state_count_pos: "0 < state_count st chs \<longleftrightarrow> (\<exists>ch \<in> set chs. ch_state ch = st)"
  by (auto simp: state_count_def filter_empty_conv)

lemma state_count_zero: "state_count st chs = 0 \<longleftrightarrow> (\<forall>ch \<in> set chs. ch_state ch \<noteq> st)"
  by (auto simp: state_count_def filter_empty_conv)

lemma count_all:
  "length (filter P xs) = length xs \<longleftrightarrow> (\<forall>x \<in> set xs. P x)"
  by (metis filter_True length_filter_less less_irrefl)

lemma count_disj:
  "(\<And>x. \<not> (P x \<and> Q x)) \<Longrightarrow> length (filter P xs) + length (filter Q xs) = length (filter (\<lambda>x. P x \<or> Q x) xs)"
  by (induction xs) auto

lemma two_counts:
  "s \<noteq> t \<Longrightarrow> state_count s chs + state_count t chs = length chs
     \<longleftrightarrow> (\<forall>ch \<in> set chs. ch_state ch = s \<or> ch_state ch = t)"
  unfolding state_count_def by (subst count_disj) (auto simp: count_all)

lemma three_counts:
  "s \<noteq> t \<Longrightarrow> s \<noteq> u \<Longrightarrow> t \<noteq> u \<Longrightarrow> state_count s chs + state_count t chs + state_count u chs = length chs
     \<longleftrightarrow> (\<forall>ch \<in> set chs. ch_state ch = s \<or> ch_state ch = t \<or> ch_state ch = u)"
  unfolding state_count_def by (subst count_disj, simp, subst count_disj) (auto simp: count_all)

text \<open>The aggregate of the channel states: failed if any failed; else disconnected if any is;
  else new if all are new or closed; else checking if any is new or checking; else completed if
  all are completed or closed; else connected. The tests of the code are exhaustive: the state
  never falls back to new with channels that are checking or connected.\<close>

theorem aggregate_table:
  fixes chs :: "ice_channel list"
  defines "states \<equiv> ch_state ` set chs"
  shows "aggregate_state chs =
     (if k_failed \<in> states then k_failed
      else if k_disconnected \<in> states then k_disconnected
      else if states \<subseteq> {k_new, k_closed} then k_new
      else if k_new \<in> states \<or> k_checking \<in> states then k_checking
      else if states \<subseteq> {k_completed, k_closed} then k_completed
      else k_connected)"
proof -
  have in_iff: "st \<in> states \<longleftrightarrow> 0 < state_count st chs" for st
    by (auto simp: states_def state_count_pos image_iff)
  have nc: "states \<subseteq> {k_new, k_closed} \<longleftrightarrow> state_count k_new chs + state_count k_closed chs = length chs"
    by (subst two_counts) (auto simp: states_def)
  have cc: "states \<subseteq> {k_completed, k_closed} \<longleftrightarrow>
      state_count k_completed chs + state_count k_closed chs = length chs"
    by (subst two_counts) (auto simp: states_def)
  have rest: "state_count k_connected chs + state_count k_completed chs + state_count k_closed chs = length chs"
    if "k_failed \<notin> states" "k_disconnected \<notin> states" "k_new \<notin> states" "k_checking \<notin> states"
  proof (subst three_counts)
    show "\<forall>ch \<in> set chs. ch_state ch = k_connected \<or> ch_state ch = k_completed \<or> ch_state ch = k_closed"
    proof
      fix ch
      assume "ch \<in> set chs"
      then have "ch_state ch \<in> states" by (simp add: states_def)
      then show "ch_state ch = k_connected \<or> ch_state ch = k_completed \<or> ch_state ch = k_closed"
        using that by (cases "ch_state ch") auto
    qed
  qed simp_all
  have ck: "k_new \<in> states \<or> k_checking \<in> states \<longleftrightarrow> 0 < state_count k_new chs + state_count k_checking chs"
    by (simp add: in_iff)
  show ?thesis
    unfolding aggregate_state_def Let_def nc cc ck in_iff [of k_failed] in_iff [of k_disconnected]
    using rest in_iff by auto
qed

text \<open>The agent signals its state exactly when the aggregate changes, and the last signal is
  the new state, which it also keeps; the channels are unchanged.\<close>

theorem agent_signals:
  "ag_state (agent_update_state ag) = aggregate_state (ag_channels ag)
     \<and> ag_channels (agent_update_state ag) = ag_channels ag
     \<and> (ag_events (agent_update_state ag) = ag_events ag \<longleftrightarrow> ag_state ag = aggregate_state (ag_channels ag))
     \<and> (ag_state ag \<noteq> aggregate_state (ag_channels ag) \<longrightarrow>
          last (ag_events (agent_update_state ag)) = AgState (aggregate_state (ag_channels ag)))"
  by (auto simp: agent_update_state_def Let_def)

definition demo_agent :: ice_agent where
  "demo_agent = new_ice_agent\<lparr>ag_channels := [demo_selected\<lparr>ch_state := k_failed\<rparr>]\<rparr>"

theorem agent_signals_witness:
  "last (ag_events (agent_update_state demo_agent)) = AgState k_failed"
proof -
  have "state_count k_failed (ag_channels demo_agent) = 1"
    by (simp add: demo_agent_def state_count_def)
  then have "aggregate_state (ag_channels demo_agent) = k_failed"
    by (simp add: aggregate_state_def)
  moreover have "ag_state demo_agent = k_new" by (simp add: demo_agent_def new_ice_agent_def)
  ultimately show ?thesis using agent_signals [of demo_agent] by simp
qed

lemma find_snoc: "find P xs = None \<Longrightarrow> P x \<Longrightarrow> find P (xs @ [x]) = Some x"
  by (induction xs) (auto split: if_splits)

lemma create_channel_once:
  "get_channel name component (snd (create_channel name component ag)) \<noteq> None"
proof (cases "get_channel name component ag")
  case None
  then have "find (same_channel name component) (ag_channels ag @ [new_ice_channel name component])
      = Some (new_ice_channel name component)"
    by (intro find_snoc) (simp_all add: get_channel_def same_channel_def new_ice_channel_def)
  then show ?thesis using None by (simp add: create_channel_def get_channel_def)
qed (simp add: create_channel_def)

end
