(* ===== verification/Connectivity.thy ===== *)
theory Connectivity
  imports IceConnection
begin

text \<open>
  A whole connectivity check: a connection's \<open>ping\<close>, the answer the peer's connection gives to it,
  and the receipt of the answer (\<open>ice/ice_connection.cpp\<close>, \<open>ice/udp_port.cpp\<close>,
  \<open>ice/stun_request.cpp\<close>). The theory composes what the codec, the port, the request manager and
  the connection promise; it models no further code.
\<close>

subsection \<open>The ping\<close>

lemma add_message_integrity_fields:
  "msg_type (snd (add_message_integrity io pw m)) = msg_type m"
  "msg_transaction_id (snd (add_message_integrity io pw m)) = msg_transaction_id m"
  by (simp_all add: add_message_integrity_def add_message_integrity_of_type_def add_attribute_fields update_last_attr_def
      Let_def split: option.split)

lemma add_fingerprint_fields:
  "msg_type (snd (add_fingerprint io m)) = msg_type m"
  "msg_transaction_id (snd (add_fingerprint io m)) = msg_transaction_id m"
  by (simp_all add: add_fingerprint_def add_attribute_fields update_last_attr_def
      Let_def split: option.split)

lemma request_prepare_fields:
  "msg_type (request_prepare io p remote local msg) = STUN_BINDING_REQUEST"
  "msg_transaction_id (request_prepare io p remote local msg) = msg_transaction_id msg"
  by (simp_all add: request_prepare_def add_fingerprint_fields add_message_integrity_fields
      add_attribute_fields)

abbreviation ping_message :: "'s conn_env \<Rightarrow> bytes \<Rightarrow> ice_conn \<Rightarrow> 's \<Rightarrow> stun_message" where
  "ping_message env rid c s \<equiv>
     request_prepare (env_io env) (env_port env s) (c_remote c) (local_candidate (env_port env s))
       (new_stun_message\<lparr>msg_transaction_id := rid\<rparr>)"

lemma conn_ping_sent:
  assumes "mgr_wf (c_requests c)"
  obtains c' a r where
    "conn_ping env now t rid c s = Some (c', send_optional env (cand_address (c_remote c))
       (stun_write (env_io env) (ping_message env rid c s)) s)"
    "mgr_wf (c_requests c')" "map_of (mgr_requests (c_requests c')) rid = Some a"
    "mgr_heap (c_requests c') a = Some r" "request_type r = STUN_BINDING_REQUEST" "req_ts r = t"
    "c' = c\<lparr>c_last_ping_sent := now, c_pings := c_pings c @ [(rid, now)],
            c_requests := c_requests c', c_state := IN_PROGRESS,
            c_num_pings_sent := c_num_pings_sent c + 1\<rparr>"
proof -
  define prep where "prep = request_prepare (env_io env) (env_port env s) (c_remote c)
    (local_candidate (env_port env s))"
  obtain a m1 where n: "new_request rid new_stun_message (c_requests c) = (a, m1)" by fastforce
  define r where "r = \<lparr>req_msg = new_stun_message\<lparr>msg_transaction_id := rid\<rparr>, req_ts = 0,
    req_managed = False\<rparr>"
  note m1 = new_request_wf [OF assms n, folded r_def]
  have id: "request_id r = rid" by (simp add: request_id_def r_def)
  have "msg_transaction_id (prep (req_msg r)) = request_id r"
    by (simp add: prep_def request_prepare_fields request_id_def)
  then obtain out m2 where 2: "mgr_send (env_io env) prep t a m1 = Some (out, m2)" "mgr_wf m2"
    "map_of (mgr_requests m2) = (map_of (mgr_requests m1))(request_id r \<mapsto> a)"
    "out = stun_write (env_io env) (prep (req_msg r))"
    using mgr_send_wf [OF m1(1,4)] by (metis r_def stun_request.select_convs(3))
  have h: "mgr_heap m2 a = Some (r\<lparr>req_managed := True, req_msg := prep (req_msg r), req_ts := t\<rparr>)"
    using 2(1) m1(4) by (auto simp: mgr_send_def Let_def)
  show ?thesis
  proof (rule that)
    show "conn_ping env now t rid c s = Some (c\<lparr>c_last_ping_sent := now,
        c_pings := c_pings c @ [(rid, now)], c_requests := m2, c_state := IN_PROGRESS,
        c_num_pings_sent := c_num_pings_sent c + 1\<rparr>,
      send_optional env (cand_address (c_remote c))
        (stun_write (env_io env) (ping_message env rid c s)) s)"
      using 2(1,4) by (simp add: conn_ping_def n prep_def [symmetric] Let_def)
        (simp add: r_def prep_def)
    show "request_type (r\<lparr>req_managed := True, req_msg := prep (req_msg r), req_ts := t\<rparr>) = STUN_BINDING_REQUEST"
      by (simp add: request_type_def prep_def request_prepare_fields)
  qed (use 2(2,3) h id in simp_all)
qed

subsection \<open>The answer of the peer\<close>

lemma ping_received:
  assumes io: "env_io env = io" "byte_io_laws io" and lib: "rtc_lib_laws (env_lib env)"
    and msg: "msg_attrs msg = []" "msg_length msg = 0" "length (msg_transaction_id msg) = 12"
    and len: "length (cand_username remote) + length (ice_ufrag (up_ice_params p)) \<le> 1000"
    and sep: "58 \<notin> set (cand_username remote)" "58 \<notin> set (ice_ufrag (up_ice_params p))"
    and cred: "up_ice_params (env_port env s) =
        \<lparr>ice_ufrag = cand_username remote, ice_pwd = cand_password remote\<rparr>"
      "cand_username (c_remote d) = ice_ufrag (up_ice_params p)"
  obtains req m where "stun_write io (request_prepare io p remote local msg) = Some req"
    "msg_transaction_id m = msg_transaction_id msg"
    "on_read_packet env req ts t now d s = Some (Some d, send_response_message env
       (binding_response io (env_port env s) (c_remote d) m) d s)"
proof -
  obtain req m where 1: "stun_write io (request_prepare io p remote local msg) = Some req"
    "get_stun_message io (env_lib env) (env_port env s) req [] =
       Some (True, Some m, ice_ufrag (up_ice_params p), None)"
    "msg_type m = STUN_BINDING_REQUEST" "msg_transaction_id m = msg_transaction_id msg"
    using request_accepted [OF io(2) lib msg len sep cred(1)] by blast
  have "parse_stun_username (env_lib env) m
      = (True, ice_ufrag (up_ice_params (env_port env s)), ice_ufrag (up_ice_params p))"
    using request_checked [OF 1(2,3)] by blast
  then have "get_byte_string STUN_ATTR_USERNAME m \<noteq> None"
    by (auto simp: parse_stun_username_def split: option.splits)
  then have "on_read_packet env req ts t now d s = Some (Some d, send_response_message env
       (binding_response io (env_port env s) (c_remote d) m) d s)"
    using 1(2,3) cred(2) io(1)
    by (auto simp: on_read_packet_def send_optional_def handle_stun_binding_request_def
        send_stun_binding_response_def)
  with 1 show ?thesis using that by blast
qed

subsection \<open>The whole check\<close>

text \<open>C2: A connectivity check succeeds. Let connection \<open>c\<close> ping the peer at its remote
  candidate, the peer's connection \<open>d\<close> read the packet and \<open>c\<close> read what \<open>d\<close> sent back, while the
  rest of the state on the side of \<open>c\<close> may have changed in between. When each side has the other's
  credentials, both packets are written, the peer keeps its connection and sends exactly the one
  answer, and \<open>c\<close> ends writable and receiving, with its pair succeeded, no ping unanswered, the
  request removed and, as first sample of the round-trip time, the time since the ping.\<close>

theorem connectivity_check:
  assumes env: "connection_env env sinv sync" "0 < now'" "env_io env = io" "env_io env' = io"
    and laws: "byte_io_laws io" "rtc_lib_laws (env_lib env')"
    and c: "mgr_wf (c_requests c)" "length rid = 12"
    and port: "ice_ufrag (up_ice_params (env_port env s)) = ufrag" "58 \<notin> set ufrag"
      "58 \<notin> set (cand_username (c_remote c))"
      "length (cand_username (c_remote c)) + length ufrag \<le> 1000"
    and peer: "up_ice_params (env_port env' z) =
        \<lparr>ice_ufrag = cand_username (c_remote c), ice_pwd = cand_password (c_remote c)\<rparr>"
      "cand_username (c_remote d) = ufrag" "sa_ip (cand_address (c_remote d)) = IPv4 b4" "length b4 = 4"
  shows "\<exists>req resp c1.
       conn_ping env now t rid c s = Some (c1, snd (env_send env req (cand_address (c_remote c)) s))
     \<and> on_read_packet env' req ts u now2 d z
         = Some (Some d, snd (env_send env' resp (cand_address (c_remote d)) z))
     \<and> (\<forall>s1. sinv s1 \<longrightarrow> sync c1 s1 \<longrightarrow>
          (\<exists>c2 s2. on_read_packet env resp ts' t' now' c1 s1 = Some (Some c2, s2) \<and> sinv s2
           \<and> c_write_state c2 = STATE_WRITABLE \<and> c_receiving c2 \<and> c_state c2 = SUCCEEDED
           \<and> c_pings c2 = [] \<and> mgr_wf (c_requests c2)
           \<and> map_of (mgr_requests (c_requests c2)) rid = None
           \<and> (c_rtt_samples c = 0 \<longrightarrow> c_rtt c2 = int32 (t' - t))))"
proof -
  define msg where "msg = new_stun_message\<lparr>msg_transaction_id := rid\<rparr>"
  have msg: "msg_attrs msg = []" "msg_length msg = 0" "length (msg_transaction_id msg) = 12"
    "msg_transaction_id msg = rid"
    using c(2) by (simp_all add: msg_def new_stun_message_def)
  obtain req m where req: "stun_write io (ping_message env rid c s) = Some req"
    "msg_transaction_id m = rid"
    "on_read_packet env' req ts u now2 d z = Some (Some d, send_response_message env'
       (binding_response io (env_port env' z) (c_remote d) m) d z)"
    using ping_received [OF env(4) laws msg(1-3), of "c_remote c" "env_port env s" z d
        "local_candidate (env_port env s)" ts u now2] port peer
    unfolding env(3) msg_def [symmetric] msg(4) by auto
  obtain c1 a r where c1: "conn_ping env now t rid c s =
      Some (c1, snd (env_send env req (cand_address (c_remote c)) s))"
    and m1: "mgr_wf (c_requests c1)" "map_of (mgr_requests (c_requests c1)) rid = Some a"
      "mgr_heap (c_requests c1) a = Some r" "request_type r = STUN_BINDING_REQUEST" "req_ts r = t"
    and eq: "c1 = c\<lparr>c_last_ping_sent := now, c_pings := c_pings c @ [(rid, now)],
            c_requests := c_requests c1, c_state := IN_PROGRESS,
            c_num_pings_sent := c_num_pings_sent c + 1\<rparr>"
    using conn_ping_sent [OF c(1), of env now t rid s] req(1) unfolding env(3) send_optional_def by auto
  have k: "c_remote c1 = c_remote c" "c_rtt_samples c1 = c_rtt_samples c"
    by (subst eq, simp)+
  have pw: "ice_pwd (up_ice_params (env_port env' z)) = cand_password (c_remote c1)"
    using peer(1) k by simp
  obtain resp where resp: "stun_write io (binding_response io (env_port env' z) (c_remote d) m) = Some resp"
    using binding_response_accepted [OF laws(1), of m "c_remote d" b4 "env_port env' z"] req(2) c(2) peer(3,4)
    by auto
  have "\<exists>c2 s2. on_read_packet env resp ts' t' now' c1 s1 = Some (Some c2, s2) \<and> sinv s2
           \<and> c_write_state c2 = STATE_WRITABLE \<and> c_receiving c2 \<and> c_state c2 = SUCCEEDED
           \<and> c_pings c2 = [] \<and> mgr_wf (c_requests c2)
           \<and> map_of (mgr_requests (c_requests c2)) rid = None
           \<and> (c_rtt_samples c = 0 \<longrightarrow> c_rtt c2 = int32 (t' - t))"
    if s1: "sinv s1" "sync c1 s1" for s1
    using answer_received [OF env(1) s1 env(2) laws(1) [folded env(3)] m1(1-4) req(2) c(2) pw peer(3,4),
        of ts' t'] resp m1(5) k
    unfolding env(3) by (auto simp: request_elapsed_def)
  then show ?thesis using req(3) c1 resp env(4) by (auto simp: send_response_message_def)
qed

definition demo_peer_env :: "(bytes \<times> socket_address) list conn_env" where
  "demo_peer_env = demo_env\<lparr>env_port := \<lambda>_. demo_peer\<rparr>"

definition demo_peer_conn :: ice_conn where
  "demo_peer_conn = new_ice_conn 0
     (demo_candidate\<lparr>cand_username := bytes_of ''abcd'', cand_password := bytes_of ''pw1''\<rparr>)"

theorem connectivity_check_witness:
  "\<exists>req resp c1 c2 s2.
       conn_ping demo_env 1000 1000 EMPTY_TRANSACTION_ID demo_conn []
         = Some (c1, [(req, cand_address demo_remote)])
     \<and> on_read_packet demo_peer_env req 0 1010 1010 demo_peer_conn []
         = Some (Some demo_peer_conn, [(resp, cand_address demo_candidate)])
     \<and> on_read_packet demo_env resp 0 1030 1030 c1 [] = Some (Some c2, s2)
     \<and> c_write_state c2 = STATE_WRITABLE \<and> c_receiving c2 \<and> c_rtt c2 = 30"
proof -
  have io: "env_io demo_env = be_io" "env_io demo_peer_env = be_io"
    "env_send demo_env b a s = (int (length b), s @ [(b, a)])"
    "env_send demo_peer_env b a s = (int (length b), s @ [(b, a)])" for b a s
    by (simp_all add: demo_env_def demo_peer_env_def)
  have lib: "rtc_lib_laws (env_lib demo_peer_env)"
    using demo.rtc_lib_laws_axioms by (simp add: demo_env_def demo_peer_env_def)
  have wf: "mgr_wf (c_requests demo_conn)"
    by (simp add: demo_conn_def new_ice_conn_def new_request_manager_def mgr_wf_def)
  have f: "c_remote demo_conn = demo_remote" "c_rtt_samples demo_conn = 0"
    "c_remote demo_peer_conn =
       demo_candidate\<lparr>cand_username := bytes_of ''abcd'', cand_password := bytes_of ''pw1''\<rparr>"
    by (simp_all add: demo_conn_def demo_peer_conn_def new_ice_conn_def)
  have p: "env_port demo_env z = demo_port" "env_port demo_peer_env z = demo_peer" for z
    by (simp_all add: demo_env_def demo_peer_env_def)
  have i: "int32 30 = 30" using int32_id [of 30] by simp
  have "\<exists>req resp c1.
       conn_ping demo_env 1000 1000 EMPTY_TRANSACTION_ID demo_conn []
         = Some (c1, snd (env_send demo_env req (cand_address (c_remote demo_conn)) []))
     \<and> on_read_packet demo_peer_env req 0 1010 1010 demo_peer_conn []
         = Some (Some demo_peer_conn,
             snd (env_send demo_peer_env resp (cand_address (c_remote demo_peer_conn)) []))
     \<and> (\<forall>s1. True \<longrightarrow> True \<longrightarrow>
          (\<exists>c2 s2. on_read_packet demo_env resp 0 1030 1030 c1 s1 = Some (Some c2, s2) \<and> True
           \<and> c_write_state c2 = STATE_WRITABLE \<and> c_receiving c2 \<and> c_state c2 = SUCCEEDED
           \<and> c_pings c2 = [] \<and> mgr_wf (c_requests c2)
           \<and> map_of (mgr_requests (c_requests c2)) EMPTY_TRANSACTION_ID = None
           \<and> (c_rtt_samples demo_conn = 0 \<longrightarrow> c_rtt c2 = int32 (1030 - 1000))))"
    by (rule connectivity_check [OF demo_connection_env _ io(1,2) be.byte_io_laws_axioms lib wf,
        where ufrag = "bytes_of ''abcd''" and ?b4.0 = "[10, 0, 0, 1]"])
      (simp_all add: f p, simp_all add: EMPTY_TRANSACTION_ID_def demo_port_defs demo_candidate_def
        demo_addr_def)
  then show ?thesis by (simp add: io f i) blast
qed

end
