(* ===== verification/ServerDefs.thy ===== *)
theory ServerDefs
  imports Prelude
begin

text \<open>
  The messages between the threads (\<open>xrtcserver_def.h\<close>) and the header of a signaling request
  (\<open>base/xhead.h\<close>). The header is read by a cast of the buffer, so its integers are in the byte
  order of the machine, which is little-endian on the targets of the server.
\<close>

definition CMDNO_PUSH :: int where "CMDNO_PUSH = 1"
definition CMDNO_PULL :: int where "CMDNO_PULL = 2"
definition CMDNO_ANSWER :: int where "CMDNO_ANSWER = 3"
definition CMDNO_STOPPUSH :: int where "CMDNO_STOPPUSH = 4"
definition CMDNO_STOPPULL :: int where "CMDNO_STOPPULL = 5"
definition MAX_RES_BUF :: nat where "MAX_RES_BUF = 4096"

text \<open>Pointers to a worker, to a connection and to the certificate are addresses.\<close>

record rtc_msg =
  m_cmdno :: int
  m_uid :: u64
  m_stream_name :: string
  m_stream_type :: string
  m_audio :: int
  m_video :: int
  m_log_id :: u32
  m_worker :: "nat option"
  m_conn :: "nat option"
  m_fd :: int
  m_sdp :: string
  m_err_no :: int
  m_certificate :: "nat option"

definition new_rtc_msg :: rtc_msg where
  "new_rtc_msg =
     \<lparr>m_cmdno = - 1, m_uid = 0, m_stream_name = '''', m_stream_type = '''', m_audio = 0,
      m_video = 0, m_log_id = 0, m_worker = None, m_conn = None, m_fd = 0, m_sdp = '''',
      m_err_no = 0, m_certificate = None\<rparr>"

definition XHEAD_SIZE :: nat where "XHEAD_SIZE = 36"
definition XHEADER_MAGIC_NUM :: u32 where "XHEADER_MAGIC_NUM = 0xfb202309"

fun le_val :: "bytes \<Rightarrow> nat" where
  "le_val [] = 0"
| "le_val (b # bs) = unat b + 256 * le_val bs"

fun le_bytes :: "nat \<Rightarrow> nat \<Rightarrow> bytes" where
  "le_bytes 0 v = []"
| "le_bytes (Suc n) v = of_nat (v mod 256) # le_bytes n (v div 256)"

lemma length_le_bytes [simp]: "length (le_bytes n v) = n"
  by (induction n arbitrary: v) auto

lemma le_val_le_bytes: "le_val (le_bytes n v) = v mod 256 ^ n"
proof (induction n arbitrary: v)
  case 0
  then show ?case by simp
next
  case (Suc n)
  have "le_val (le_bytes (Suc n) v) = v mod 256 + 256 * (v div 256 mod 256 ^ n)"
    by (simp add: Suc.IH unat_of_nat)
  also have "\<dots> = v mod (256 * 256 ^ n)"
    by (simp add: mod_mult2_eq mult.commute)
  finally show ?case by simp
qed

lemma le_val_bound: "le_val bs < 256 ^ length bs"
proof (induction bs)
  case (Cons b bs)
  have "unat b < 256" using unsigned_less [of b] by simp
  then show ?case using Cons.IH by simp
qed simp

text \<open>The fields of \<open>xhead_t\<close> at their offsets.\<close>

definition head_log_id :: "bytes \<Rightarrow> u32" where
  "head_log_id h = of_nat (le_val (take 4 (drop 4 h)))"

definition head_magic_num :: "bytes \<Rightarrow> u32" where
  "head_magic_num h = of_nat (le_val (take 4 (drop 24 h)))"

definition head_body_len :: "bytes \<Rightarrow> nat" where
  "head_body_len h = le_val (take 4 (drop 32 h))"

definition set_body_len :: "nat \<Rightarrow> bytes \<Rightarrow> bytes" where
  "set_body_len n h = take 32 h @ le_bytes 4 n @ drop 36 h"

definition xhead :: "u16 \<Rightarrow> u16 \<Rightarrow> u32 \<Rightarrow> bytes \<Rightarrow> u32 \<Rightarrow> u32 \<Rightarrow> u32 \<Rightarrow> bytes" where
  "xhead ident version log_id provider magic_num reserved body_len =
     le_bytes 2 (unat ident) @ le_bytes 2 (unat version) @ le_bytes 4 (unat log_id) @ provider
       @ le_bytes 4 (unat magic_num) @ le_bytes 4 (unat reserved) @ le_bytes 4 (unat body_len)"

lemma length_xhead [simp]: "length provider = 16 \<Longrightarrow> length (xhead i v l provider m r b) = XHEAD_SIZE"
  by (simp add: xhead_def XHEAD_SIZE_def)

lemma word32_le_val [simp]: "le_val (le_bytes 4 (unat (w :: u32))) = unat w"
proof -
  have "unat w < 4294967296" using unsigned_less [of w] by simp
  then show ?thesis by (simp add: le_val_le_bytes)
qed

lemma xhead_fields:
  assumes "length provider = 16"
  shows "head_log_id (xhead i v l provider m r b @ rest) = l"
    and "head_magic_num (xhead i v l provider m r b @ rest) = m"
    and "head_body_len (xhead i v l provider m r b @ rest) = unat b"
  using assms by (simp_all add: xhead_def head_log_id_def head_magic_num_def head_body_len_def)

lemma head_body_len_app:
  assumes "XHEAD_SIZE \<le> length h"
  shows "head_body_len (h @ r) = head_body_len h" "head_magic_num (h @ r) = head_magic_num h"
  using assms by (simp_all add: head_body_len_def head_magic_num_def XHEAD_SIZE_def)

lemma head_body_len_bound: "head_body_len h < 2 ^ 32"
proof -
  have "le_val (take 4 (drop 32 h)) < 256 ^ length (take 4 (drop 32 h))" by (rule le_val_bound)
  also have "\<dots> \<le> 256 ^ 4" by (rule power_increasing) simp_all
  finally show ?thesis by (simp add: head_body_len_def)
qed

lemma set_body_len_length [simp]: "36 \<le> length h \<Longrightarrow> length (set_body_len n h) = length h"
  by (simp add: set_body_len_def)

end
