(* ===== verification/Sockets.thy ===== *)
theory Sockets
  imports Prelude
begin

text \<open>
  The socket helpers (\<open>base/socket.cpp\<close>). A system call is an argument: the value it returns, or
  the error number it fails with.
\<close>

datatype errno = EAGAIN | EINTR | EOTHER

datatype sys_result = SysRet int | SysErr errno

definition sock_setnonblock :: "sys_result \<Rightarrow> sys_result \<Rightarrow> int" where
  "sock_setnonblock getfl setfl = 0"

definition sock_setnodelay :: "sys_result \<Rightarrow> int" where
  "sock_setnodelay r = (case r of SysErr _ \<Rightarrow> - 1 | SysRet _ \<Rightarrow> 0)"

definition sock_read_data :: "sys_result \<Rightarrow> int" where
  "sock_read_data r =
     (case r of
        SysErr e \<Rightarrow> if e = EAGAIN then 0 else - 1
      | SysRet n \<Rightarrow> if n = 0 then - 1 else n)"

definition sock_write_data :: "sys_result \<Rightarrow> int" where
  "sock_write_data r =
     (case r of SysErr e \<Rightarrow> if e = EAGAIN then 0 else - 1 | SysRet n \<Rightarrow> n)"

definition sock_recv_from :: "sys_result \<Rightarrow> int" where
  "sock_recv_from r =
     (case r of
        SysErr e \<Rightarrow> if e = EAGAIN then 0 else - 1
      | SysRet n \<Rightarrow> if n = 0 then - 1 else n)"

definition sock_send_to :: "sys_result \<Rightarrow> int" where
  "sock_send_to r =
     (case r of
        SysErr e \<Rightarrow> if e = EAGAIN then 0 else - 1
      | SysRet n \<Rightarrow> if n = 0 then - 1 else n)"

text \<open>
  The port loop of \<open>sock_bind\<close>: \<open>bind_port\<close> is the result of \<open>bind\<close> on the address with the
  given port (\<open>None\<close>: the port the address already has).
\<close>

function bind_from :: "(u16 option \<Rightarrow> int) \<Rightarrow> int \<Rightarrow> int \<Rightarrow> int \<Rightarrow> int" where
  "bind_from bind_port port max_port ret =
     (if port \<le> max_port \<and> ret \<noteq> 0
      then bind_from bind_port (port + 1) max_port (bind_port (Some (word_of_int port)))
      else ret)"
  by pat_completeness auto
termination by (relation "measure (\<lambda>(_, port, max_port, _). nat (max_port + 1 - port))") auto

declare bind_from.simps [simp del]

definition sock_bind :: "(u16 option \<Rightarrow> int) \<Rightarrow> int \<Rightarrow> int \<Rightarrow> int" where
  "sock_bind bind_port min_port max_port =
     (if 0 = min_port \<and> 0 = max_port then bind_port None
      else bind_from bind_port min_port max_port (- 1))"

text \<open>\<open>accept\<close> is retried while it is interrupted; \<open>None\<close>: the results are used up.\<close>

fun generic_accept :: "sys_result list \<Rightarrow> int option" where
  "generic_accept [] = None"
| "generic_accept (SysErr e # rs) = (if e = EINTR then generic_accept rs else Some (- 1))"
| "generic_accept (SysRet fd # rs) = Some fd"

lemma sock_read_data_cases:
  "sock_read_data r = - 1 \<longleftrightarrow> r = SysRet 0 \<or> r = SysRet (- 1) \<or> (\<exists>e. r = SysErr e \<and> e \<noteq> EAGAIN)"
  by (auto simp: sock_read_data_def split: sys_result.splits)

lemma bind_from_zero:
  "bind_from b port max_port ret = 0 \<longleftrightarrow>
     ret = 0 \<or> (\<exists>p. port \<le> p \<and> p \<le> max_port \<and> b (Some (word_of_int p)) = 0)"
proof (induction b port max_port ret rule: bind_from.induct)
  case (1 b port max_port ret)
  show ?case
  proof (cases "port \<le> max_port \<and> ret \<noteq> 0")
    case True
    have "bind_from b port max_port ret = 0 \<longleftrightarrow>
        b (Some (word_of_int port)) = 0
        \<or> (\<exists>p. port + 1 \<le> p \<and> p \<le> max_port \<and> b (Some (word_of_int p)) = 0)"
      using "1.IH" [OF True] True by (simp add: bind_from.simps [of b port])
    also have "\<dots> \<longleftrightarrow> (\<exists>p. port \<le> p \<and> p \<le> max_port \<and> b (Some (word_of_int p)) = 0)"
      using True by (metis add1_zle_eq order_le_less order_refl)
    finally show ?thesis using True by simp
  next
    case False
    then show ?thesis by (auto simp: bind_from.simps [of b port])
  qed
qed

end
