(* ===== verification/SignalingWorker.thy ===== *)
theory SignalingWorker
  imports ServerDefs Sockets LockFreeQueue "HOL-Library.Monad_Syntax"
begin

text \<open>
  The signaling worker (\<open>server/signaling_worker.h\<close>, \<open>server/signaling_worker.cpp\<close>) and its
  connections (\<open>server/tcp_connection.h\<close>): one worker owns an event loop, a table of connections
  indexed by file descriptor, a lock-free queue of accepted descriptors and a mutex-protected
  queue of answers.

  A \<open>TcpConnection*\<close> is an address in \<open>sw_heap\<close>; a function returns \<open>None\<close> when the code
  dereferences a null or freed pointer, reads outside a buffer, or does not return. Calls to the
  event loop, to \<open>close\<close> and to the RTC server are appended to \<open>sw_events\<close>. JSON (jsoncpp) is a
  parameter: \<open>None\<close> from \<open>js_parse\<close> is a parse error, \<open>None\<close> from a getter is a
  \<open>Json::Exception\<close>, and \<open>js_write\<close> prints an object with the given members.
\<close>

datatype json_val = JInt int | JStr string

record 'v json_lib =
  js_parse :: "bytes \<Rightarrow> 'v option"
  js_int :: "'v \<Rightarrow> string \<Rightarrow> int option"
  js_uint64 :: "'v \<Rightarrow> string \<Rightarrow> u64 option"
  js_string :: "'v \<Rightarrow> string \<Rightarrow> string option"
  js_write :: "(string \<times> json_val) list \<Rightarrow> bytes"

datatype conn_state = STATE_HEAD | STATE_BODY

text \<open>
  A reply slice: the initialised bytes of its allocation, and the length the slice claims.
\<close>

record reply =
  rp_buf :: bytes
  rp_len :: nat

record tcp_conn =
  tc_fd :: int
  tc_querybuf :: bytes
  tc_bytes_expected :: nat
  tc_bytes_processed :: nat
  tc_current_state :: conn_state
  tc_last_interaction :: u64
  tc_reply_list :: "reply list"
  tc_cur_resp_pos :: nat

text \<open>
  The timer watcher of a connection carries its address, the I/O watcher its descriptor.
\<close>

datatype worker_event =
    SwRtc rtc_msg
  | SwStartRead int
  | SwStartWrite int
  | SwStopWrite int
  | SwStartTimer nat int
  | SwDeleteTimer nat
  | SwDeleteIo int
  | SwClose int
  | SwSent int bytes
  | SwPipe int
  | SwLoopStop
  | SwJoin

record signaling_worker =
  sw_id :: nat
  sw_timeout :: int
  sw_thread :: bool
  sw_conns :: "nat option list"
  sw_heap :: "nat \<Rightarrow> tcp_conn option"
  sw_q_conn :: "int lfq"
  sw_q_msg :: "rtc_msg list"
  sw_events :: "worker_event list"

definition SW_QUIT :: int where "SW_QUIT = 0"
definition SW_NEW_CONN :: int where "SW_NEW_CONN = 1"
definition SW_RTC_MSG :: int where "SW_RTC_MSG = 2"

definition new_tcp_connection :: "int \<Rightarrow> tcp_conn" where
  "new_tcp_connection fd =
     \<lparr>tc_fd = fd, tc_querybuf = [], tc_bytes_expected = XHEAD_SIZE, tc_bytes_processed = 0,
      tc_current_state = STATE_HEAD, tc_last_interaction = 0, tc_reply_list = [],
      tc_cur_resp_pos = 0\<rparr>"

definition new_signaling_worker :: "nat \<Rightarrow> int \<Rightarrow> signaling_worker" where
  "new_signaling_worker worker_id timeout =
     \<lparr>sw_id = worker_id, sw_timeout = timeout, sw_thread = False, sw_conns = [],
      sw_heap = (\<lambda>_. None), sw_q_conn = lfq_new 0, sw_q_msg = [], sw_events = []\<rparr>"

definition sw_emit :: "worker_event list \<Rightarrow> signaling_worker \<Rightarrow> signaling_worker" where
  "sw_emit es w = w\<lparr>sw_events := sw_events w @ es\<rparr>"

definition put_tc :: "nat \<Rightarrow> tcp_conn \<Rightarrow> signaling_worker \<Rightarrow> signaling_worker" where
  "put_tc a c w = w\<lparr>sw_heap := (sw_heap w)(a \<mapsto> c)\<rparr>"

definition sw_notify :: "int \<Rightarrow> signaling_worker \<Rightarrow> signaling_worker" where
  "sw_notify msg w = sw_emit [SwPipe msg] w"

definition sw_start :: "signaling_worker \<Rightarrow> bool \<times> signaling_worker" where
  "sw_start w = (if sw_thread w then (False, w) else (True, w\<lparr>sw_thread := True\<rparr>))"

definition sw_stop :: "signaling_worker \<Rightarrow> signaling_worker" where
  "sw_stop w = sw_notify SW_QUIT w"

definition sw_join :: "signaling_worker \<Rightarrow> signaling_worker" where
  "sw_join w = (if sw_thread w then sw_emit [SwJoin] w else w)"

text \<open>\<open>_stop\<close>: the descriptors of the pipe are closed after the loop was told to stop.\<close>

definition stop_loop :: "signaling_worker \<Rightarrow> signaling_worker" where
  "stop_loop w = (if \<not> sw_thread w then w else sw_emit [SwLoopStop] w)"

subsection \<open>Replies\<close>

definition add_reply :: "nat \<Rightarrow> reply \<Rightarrow> signaling_worker \<Rightarrow> signaling_worker option" where
  "add_reply a r w =
     (case sw_heap w a of
        None \<Rightarrow> None
      | Some c \<Rightarrow>
          Some (sw_emit [SwStartWrite (tc_fd c)]
                 (put_tc a (c\<lparr>tc_reply_list := tc_reply_list c @ [r]\<rparr>) w)))"

text \<open>
  The reply: the header of the request with the new body length, and the text \<open>snprintf\<close> puts
  into the \<open>MAX_RES_BUF\<close> bytes after it (cut at a NUL or at 4095 characters, then a NUL).
\<close>

definition make_reply :: "bytes \<Rightarrow> bytes \<Rightarrow> reply" where
  "make_reply header json =
     \<lparr>rp_buf = set_body_len (length json) header @ take (MAX_RES_BUF - 1) (takeWhile (\<lambda>b. b \<noteq> 0) json) @ [0],
      rp_len = unat (of_nat (XHEAD_SIZE + length json) :: u32)\<rparr>"

definition offer_members :: "rtc_msg \<Rightarrow> (string \<times> json_val) list" where
  "offer_members msg =
     (if m_err_no msg \<noteq> 0
      then [(''err_no'', JInt (m_err_no msg)), (''err_msg'', JStr ''process error''), (''offer'', JStr '''')]
      else [(''err_no'', JInt (m_err_no msg)), (''err_msg'', JStr ''success''), (''offer'', JStr (m_sdp msg))])"

definition response_server_offer ::
  "'v json_lib \<Rightarrow> rtc_msg \<Rightarrow> signaling_worker \<Rightarrow> signaling_worker option" where
  "response_server_offer js msg w =
     (case m_conn msg of
        None \<Rightarrow> Some w
      | Some a \<Rightarrow>
          if m_fd msg < 0 \<or> nat (m_fd msg) \<ge> length (sw_conns w) then Some w
          else if sw_conns w ! nat (m_fd msg) \<noteq> Some a then Some w
          else (case sw_heap w a of
                  None \<Rightarrow> None
                | Some c \<Rightarrow>
                    if length (tc_querybuf c) < XHEAD_SIZE then None
                    else add_reply a (make_reply (take XHEAD_SIZE (tc_querybuf c))
                                        (js_write js (offer_members msg))) w))"

definition process_rtc_msg :: "'v json_lib \<Rightarrow> signaling_worker \<Rightarrow> signaling_worker option" where
  "process_rtc_msg js w =
     (case pop_msg (sw_q_msg w) of
        (None, _) \<Rightarrow> Some w
      | (Some msg, q) \<Rightarrow>
          (let w1 = w\<lparr>sw_q_msg := q\<rparr> in
           if m_cmdno msg = CMDNO_PULL \<or> m_cmdno msg = CMDNO_PUSH
           then response_server_offer js msg w1 else Some w1))"

definition sw_send_rtc_msg :: "rtc_msg \<Rightarrow> signaling_worker \<Rightarrow> signaling_worker" where
  "sw_send_rtc_msg msg w = sw_notify SW_RTC_MSG (w\<lparr>sw_q_msg := push_msg msg (sw_q_msg w)\<rparr>)"

subsection \<open>Connections\<close>

definition remove_conn :: "nat \<Rightarrow> signaling_worker \<Rightarrow> signaling_worker option" where
  "remove_conn a w =
     (case sw_heap w a of
        None \<Rightarrow> None
      | Some c \<Rightarrow>
          if tc_fd c < 0 \<or> nat (tc_fd c) \<ge> length (sw_conns w) then None
          else Some (sw_emit [SwDeleteTimer a, SwDeleteIo (tc_fd c)]
                 (w\<lparr>sw_conns := (sw_conns w)[nat (tc_fd c) := None],
                    sw_heap := (sw_heap w)(a := None)\<rparr>)))"

definition close_conn :: "nat \<Rightarrow> signaling_worker \<Rightarrow> signaling_worker option" where
  "close_conn a w =
     (case sw_heap w a of
        None \<Rightarrow> None
      | Some c \<Rightarrow> remove_conn a (sw_emit [SwClose (tc_fd c)] w))"

definition process_timeout :: "nat \<Rightarrow> u64 \<Rightarrow> signaling_worker \<Rightarrow> signaling_worker option" where
  "process_timeout a now w =
     (case sw_heap w a of
        None \<Rightarrow> None
      | Some c \<Rightarrow>
          if now - tc_last_interaction c \<ge> word_of_int (sw_timeout w) then close_conn a w else Some w)"

text \<open>
  \<open>_new_conn\<close>; \<open>a\<close> is the address of the new connection. The table is resized to twice the
  descriptor, which for descriptor 0 leaves it empty and the store out of bounds.
\<close>

definition new_conn :: "int \<Rightarrow> nat \<Rightarrow> u64 \<Rightarrow> signaling_worker \<Rightarrow> signaling_worker option" where
  "new_conn fd a now w =
     (if fd < 0 then Some w
      else (let conns = (if nat fd \<ge> length (sw_conns w)
                         then sw_conns w @ replicate (2 * nat fd - length (sw_conns w)) None
                         else sw_conns w);
                c = (new_tcp_connection fd)\<lparr>tc_last_interaction := now\<rparr>
            in if nat fd \<ge> length conns then None
               else Some (sw_emit [SwStartRead fd, SwStartTimer a 100000]
                      (put_tc a c (w\<lparr>sw_conns := conns[nat fd := Some a]\<rparr>)))))"

definition notify_new_conn :: "int \<Rightarrow> signaling_worker \<Rightarrow> signaling_worker option" where
  "notify_new_conn fd w =
     (case lfq_produce fd (sw_q_conn w) of
        None \<Rightarrow> None
      | Some q \<Rightarrow> Some (sw_notify SW_NEW_CONN (w\<lparr>sw_q_conn := q\<rparr>)))"

subsection \<open>Requests\<close>

text \<open>\<open>rs\<close> is the result of \<open>g_rtc_server->send_rtc_msg\<close>.\<close>

definition send_to_rtc_server ::
  "(rtc_msg \<Rightarrow> int) \<Rightarrow> rtc_msg \<Rightarrow> signaling_worker \<Rightarrow> int \<times> signaling_worker" where
  "send_to_rtc_server rs msg w = (rs msg, sw_emit [SwRtc msg] w)"

definition sw_process_push ::
  "'v json_lib \<Rightarrow> (rtc_msg \<Rightarrow> int) \<Rightarrow> int \<Rightarrow> nat \<Rightarrow> int \<Rightarrow> 'v \<Rightarrow> u32 \<Rightarrow> signaling_worker
     \<Rightarrow> int \<times> signaling_worker" where
  "sw_process_push js rs cmdno a fd root log_id w =
     (case do { uid \<leftarrow> js_uint64 js root ''uid'';
                stream_name \<leftarrow> js_string js root ''stream_name'';
                audio \<leftarrow> js_int js root ''audio'';
                video \<leftarrow> js_int js root ''video'';
                Some (uid, stream_name, audio, video) } of
        None \<Rightarrow> (- 1, w)
      | Some (uid, stream_name, audio, video) \<Rightarrow>
          send_to_rtc_server rs
            (new_rtc_msg\<lparr>m_cmdno := cmdno, m_uid := uid, m_stream_name := stream_name,
               m_audio := audio, m_video := video, m_log_id := log_id,
               m_worker := Some (sw_id w), m_conn := Some a, m_fd := fd\<rparr>) w)"

definition sw_process_pull ::
  "'v json_lib \<Rightarrow> (rtc_msg \<Rightarrow> int) \<Rightarrow> int \<Rightarrow> nat \<Rightarrow> int \<Rightarrow> 'v \<Rightarrow> u32 \<Rightarrow> signaling_worker
     \<Rightarrow> int \<times> signaling_worker" where
  "sw_process_pull js rs cmdno a fd root log_id w =
     (case do { uid \<leftarrow> js_uint64 js root ''uid'';
                stream_name \<leftarrow> js_string js root ''stream_name'';
                audio \<leftarrow> js_int js root ''audio'';
                video \<leftarrow> js_int js root ''video'';
                Some (uid, stream_name, audio, video) } of
        None \<Rightarrow> (- 1, w)
      | Some (uid, stream_name, audio, video) \<Rightarrow>
          send_to_rtc_server rs
            (new_rtc_msg\<lparr>m_cmdno := cmdno, m_uid := uid, m_stream_name := stream_name,
               m_audio := audio, m_video := video, m_log_id := log_id,
               m_worker := Some (sw_id w), m_conn := Some a, m_fd := fd\<rparr>) w)"

definition sw_process_stop_push ::
  "'v json_lib \<Rightarrow> (rtc_msg \<Rightarrow> int) \<Rightarrow> int \<Rightarrow> 'v \<Rightarrow> u32 \<Rightarrow> signaling_worker \<Rightarrow> int \<times> signaling_worker" where
  "sw_process_stop_push js rs cmdno root log_id w =
     (case do { uid \<leftarrow> js_uint64 js root ''uid'';
                stream_name \<leftarrow> js_string js root ''stream_name'';
                Some (uid, stream_name) } of
        None \<Rightarrow> (- 1, w)
      | Some (uid, stream_name) \<Rightarrow>
          send_to_rtc_server rs
            (new_rtc_msg\<lparr>m_cmdno := cmdno, m_uid := uid, m_stream_name := stream_name,
               m_log_id := log_id\<rparr>) w)"

definition sw_process_stop_pull ::
  "'v json_lib \<Rightarrow> (rtc_msg \<Rightarrow> int) \<Rightarrow> int \<Rightarrow> 'v \<Rightarrow> u32 \<Rightarrow> signaling_worker \<Rightarrow> int \<times> signaling_worker" where
  "sw_process_stop_pull js rs cmdno root log_id w =
     (case do { uid \<leftarrow> js_uint64 js root ''uid'';
                stream_name \<leftarrow> js_string js root ''stream_name'';
                Some (uid, stream_name) } of
        None \<Rightarrow> (- 1, w)
      | Some (uid, stream_name) \<Rightarrow>
          send_to_rtc_server rs
            (new_rtc_msg\<lparr>m_cmdno := cmdno, m_uid := uid, m_stream_name := stream_name,
               m_log_id := log_id\<rparr>) w)"

definition sw_process_answer ::
  "'v json_lib \<Rightarrow> (rtc_msg \<Rightarrow> int) \<Rightarrow> int \<Rightarrow> 'v \<Rightarrow> u32 \<Rightarrow> signaling_worker \<Rightarrow> int \<times> signaling_worker" where
  "sw_process_answer js rs cmdno root log_id w =
     (case do { uid \<leftarrow> js_uint64 js root ''uid'';
                stream_name \<leftarrow> js_string js root ''stream_name'';
                answer \<leftarrow> js_string js root ''answer'';
                stream_type \<leftarrow> js_string js root ''type'';
                Some (uid, stream_name, answer, stream_type) } of
        None \<Rightarrow> (- 1, w)
      | Some (uid, stream_name, answer, stream_type) \<Rightarrow>
          send_to_rtc_server rs
            (new_rtc_msg\<lparr>m_cmdno := cmdno, m_uid := uid, m_stream_name := stream_name,
               m_sdp := answer, m_stream_type := stream_type, m_log_id := log_id\<rparr>) w)"

definition result_members :: "int \<Rightarrow> (string \<times> json_val) list" where
  "result_members ret =
     (if 0 = ret then [(''err_no'', JInt 0), (''err_msg'', JStr ''success'')]
      else [(''err_no'', JInt (- 1)), (''err_msg'', JStr ''process error'')])"

definition process_request ::
  "'v json_lib \<Rightarrow> (rtc_msg \<Rightarrow> int) \<Rightarrow> nat \<Rightarrow> int \<Rightarrow> bytes \<Rightarrow> bytes \<Rightarrow> signaling_worker
     \<Rightarrow> (int \<times> signaling_worker) option" where
  "process_request js rs a fd header body w =
     (let log_id = head_log_id header in
      case js_parse js body of
        None \<Rightarrow> Some (- 1, w)
      | Some root \<Rightarrow>
          (case js_int js root ''cmdno'' of
             None \<Rightarrow> Some (- 1, w)
           | Some cmdno \<Rightarrow>
               if cmdno = CMDNO_PUSH then Some (sw_process_push js rs cmdno a fd root log_id w)
               else if cmdno = CMDNO_PULL then Some (sw_process_pull js rs cmdno a fd root log_id w)
               else (let (ret, w1) =
                           (if cmdno = CMDNO_STOPPUSH then sw_process_stop_push js rs cmdno root log_id w
                            else if cmdno = CMDNO_STOPPULL then sw_process_stop_pull js rs cmdno root log_id w
                            else if cmdno = CMDNO_ANSWER then sw_process_answer js rs cmdno root log_id w
                            else (- 1, w))
                     in map_option (Pair 0)
                          (add_reply a (make_reply header (js_write js (result_members ret))) w1))))"

text \<open>
  The loop of \<open>_process_query_buffer\<close>. It may not end: \<open>None\<close> is also the value of a loop that
  never returns. \<open>put_tc\<close> writes the fields the loop assigns.
\<close>

partial_function (option) process_query_buffer ::
  "'v json_lib \<Rightarrow> (rtc_msg \<Rightarrow> int) \<Rightarrow> nat \<Rightarrow> signaling_worker \<Rightarrow> (int \<times> signaling_worker) option" where
  "process_query_buffer js rs a w =
     (case sw_heap w a of
        None \<Rightarrow> None
      | Some c \<Rightarrow>
          if length (tc_querybuf c) \<ge> tc_bytes_processed c + tc_bytes_expected c
          then (if tc_current_state c = STATE_HEAD
                then (if XHEADER_MAGIC_NUM \<noteq> head_magic_num (tc_querybuf c) then Some (- 1, w)
                      else process_query_buffer js rs a
                             (put_tc a (c\<lparr>tc_current_state := STATE_BODY,
                                          tc_bytes_processed := head_body_len (tc_querybuf c)\<rparr>) w))
                else if length (tc_querybuf c) < XHEAD_SIZE + head_body_len (tc_querybuf c) then None
                else (case process_request js rs a (tc_fd c) (take XHEAD_SIZE (tc_querybuf c))
                             (take (head_body_len (tc_querybuf c)) (drop XHEAD_SIZE (tc_querybuf c))) w of
                        None \<Rightarrow> None
                      | Some (ret, w1) \<Rightarrow>
                          if ret \<noteq> 0 then Some (- 1, w1)
                          else (case sw_heap w1 a of
                                  None \<Rightarrow> None
                                | Some c1 \<Rightarrow>
                                    process_query_buffer js rs a
                                      (put_tc a (c1\<lparr>tc_bytes_processed := 65535\<rparr>) w1))))
          else Some (0, w))"

text \<open>What \<open>read\<close> delivers: bytes (none at the end of the stream), or an error.\<close>

datatype read_result = RdData bytes | RdErr errno

definition read_code :: "read_result \<Rightarrow> int" where
  "read_code r =
     sock_read_data (case r of RdData bs \<Rightarrow> SysRet (int (length bs)) | RdErr e \<Rightarrow> SysErr e)"

definition read_bytes :: "read_result \<Rightarrow> bytes" where
  "read_bytes r = (case r of RdData bs \<Rightarrow> bs | RdErr _ \<Rightarrow> [])"

definition read_query ::
  "'v json_lib \<Rightarrow> (rtc_msg \<Rightarrow> int) \<Rightarrow> int \<Rightarrow> read_result \<Rightarrow> u64 \<Rightarrow> signaling_worker
     \<Rightarrow> signaling_worker option" where
  "read_query js rs fd r now w =
     (if fd < 0 \<or> nat fd \<ge> length (sw_conns w) then Some w
      else (case sw_conns w ! nat fd of
              None \<Rightarrow> None
            | Some a \<Rightarrow>
                (case sw_heap w a of
                   None \<Rightarrow> None
                 | Some c \<Rightarrow>
                     (let nread = read_code r;
                          c1 = c\<lparr>tc_last_interaction := now\<rparr>;
                          c2 = (if nread > 0 then c1\<lparr>tc_querybuf := tc_querybuf c1 @ read_bytes r\<rparr> else c1)
                      in if nread = - 1 then close_conn a (put_tc a c1 w)
                         else (case process_query_buffer js rs a (put_tc a c2 w) of
                                 None \<Rightarrow> None
                               | Some (ret, w1) \<Rightarrow> if ret \<noteq> 0 then close_conn a w1 else Some w1)))))"

text \<open>
  The loop of \<open>_write_reply\<close>, over the results of its \<open>write\<close> calls; it is still running
  (\<open>None\<close>) when they are used up. Reading a slice beyond its initialised bytes is \<open>None\<close>.
\<close>

fun write_replies ::
  "sys_result list \<Rightarrow> nat \<Rightarrow> u64 \<Rightarrow> signaling_worker \<Rightarrow> signaling_worker option" where
  "write_replies results a now w =
     (case sw_heap w a of
        None \<Rightarrow> None
      | Some c \<Rightarrow>
          (case tc_reply_list c of
             [] \<Rightarrow> Some (sw_emit [SwStopWrite (tc_fd c)] (put_tc a (c\<lparr>tc_last_interaction := now\<rparr>) w))
           | reply # rest \<Rightarrow>
               (case results of
                  [] \<Rightarrow> None
                | r # results1 \<Rightarrow>
                    (let nwritten = sock_write_data r;
                         sent = take (nat nwritten) (drop (tc_cur_resp_pos c) (take (rp_len reply) (rp_buf reply)));
                         w1 = sw_emit [SwSent (tc_fd c) sent] w
                     in if length (rp_buf reply) < rp_len reply then None
                        else if nwritten = - 1 then close_conn a w
                        else if nat nwritten + tc_cur_resp_pos c \<ge> rp_len reply
                        then write_replies results1 a now
                               (put_tc a (c\<lparr>tc_reply_list := rest, tc_cur_resp_pos := 0\<rparr>) w1)
                        else write_replies results1 a now
                               (put_tc a (c\<lparr>tc_cur_resp_pos := tc_cur_resp_pos c + nat nwritten\<rparr>) w1)))))"

declare write_replies.simps [simp del]

definition write_reply ::
  "int \<Rightarrow> sys_result list \<Rightarrow> u64 \<Rightarrow> signaling_worker \<Rightarrow> signaling_worker option" where
  "write_reply fd results now w =
     (if fd \<le> 0 \<or> nat fd \<ge> length (sw_conns w) then Some w
      else (case sw_conns w ! nat fd of
              None \<Rightarrow> Some w
            | Some a \<Rightarrow> write_replies results a now w))"

subsection \<open>Callbacks\<close>

text \<open>\<open>rd\<close> and \<open>wr\<close> are present when the event set has \<open>READ\<close> and \<open>WRITE\<close>.\<close>

definition conn_io_cb ::
  "'v json_lib \<Rightarrow> (rtc_msg \<Rightarrow> int) \<Rightarrow> int \<Rightarrow> read_result option \<Rightarrow> sys_result list option \<Rightarrow> u64
     \<Rightarrow> signaling_worker \<Rightarrow> signaling_worker option" where
  "conn_io_cb js rs fd rd wr now w =
     (case (case rd of None \<Rightarrow> Some w | Some r \<Rightarrow> read_query js rs fd r now w) of
        None \<Rightarrow> None
      | Some w1 \<Rightarrow> (case wr of None \<Rightarrow> Some w1 | Some results \<Rightarrow> write_reply fd results now w1))"

definition conn_time_cb :: "nat \<Rightarrow> u64 \<Rightarrow> signaling_worker \<Rightarrow> signaling_worker option" where
  "conn_time_cb a now w = process_timeout a now w"

definition process_notify ::
  "'v json_lib \<Rightarrow> int \<Rightarrow> nat \<Rightarrow> u64 \<Rightarrow> signaling_worker \<Rightarrow> signaling_worker option" where
  "process_notify js msg a now w =
     (if msg = SW_QUIT then Some (stop_loop w)
      else if msg = SW_NEW_CONN
      then (case lfq_consume (sw_q_conn w) of
              None \<Rightarrow> None
            | Some (None, q) \<Rightarrow> Some (w\<lparr>sw_q_conn := q\<rparr>)
            | Some (Some fd, q) \<Rightarrow> new_conn fd a now (w\<lparr>sw_q_conn := q\<rparr>))
      else if msg = SW_RTC_MSG then process_rtc_msg js w
      else Some w)"

text \<open>The pipe callback: \<open>msg\<close> is \<open>None\<close> when \<open>read\<close> does not deliver a whole \<open>int\<close>.\<close>

definition worker_recv_notify ::
  "'v json_lib \<Rightarrow> int option \<Rightarrow> nat \<Rightarrow> u64 \<Rightarrow> signaling_worker \<Rightarrow> signaling_worker option" where
  "worker_recv_notify js msg a now w =
     (case msg of None \<Rightarrow> Some w | Some m \<Rightarrow> process_notify js m a now w)"

fun close_all :: "nat option list \<Rightarrow> signaling_worker \<Rightarrow> signaling_worker option" where
  "close_all [] w = Some w"
| "close_all (None # cs) w = close_all cs w"
| "close_all (Some a # cs) w =
     (case close_conn a w of None \<Rightarrow> None | Some w1 \<Rightarrow> close_all cs w1)"

text \<open>The destructor.\<close>

definition worker_destroy :: "signaling_worker \<Rightarrow> signaling_worker option" where
  "worker_destroy w =
     map_option (\<lambda>w1. w1\<lparr>sw_conns := [], sw_thread := False\<rparr>) (close_all (sw_conns w) w)"

end
