(* ===== verification/SignalingFraming.thy ===== *)
theory SignalingFraming
  imports SignalingWorker
begin

text \<open>
  The framing of requests on a signaling connection: reading a request in pieces (with callbacks that
  find nothing in between), what happens to bytes after the first request, and requests the query loop
  never gets past, told from requests that fault by the passes of the loop.
\<close>

subsection \<open>What a request changes\<close>

text \<open>The events that leave the set of started watchers as it is.\<close>

fun quiet :: "worker_event \<Rightarrow> bool" where
  "quiet (SwStartRead fd) = False"
| "quiet (SwDeleteIo fd) = False"
| "quiet (SwStartTimer a usec) = False"
| "quiet (SwDeleteTimer a) = False"
| "quiet e = True"

text \<open>
  A request only appends events, which start and delete no watcher, and replies to its own connection;
  \<open>P\<close> is what its replies satisfy.
\<close>

definition request_effect ::
  "(reply \<Rightarrow> bool) \<Rightarrow> nat \<Rightarrow> tcp_conn \<Rightarrow> signaling_worker \<Rightarrow> signaling_worker \<Rightarrow> bool" where
  "request_effect P a c w w1 \<longleftrightarrow>
     (\<exists>rs es. w1 = w\<lparr>sw_heap := (sw_heap w)(a \<mapsto> c\<lparr>tc_reply_list := tc_reply_list c @ rs\<rparr>),
                      sw_events := sw_events w @ es\<rparr> \<and> (\<forall>r \<in> set rs. P r) \<and> list_all quiet es)"

lemma request_effect_emit:
  "sw_heap w a = Some c \<Longrightarrow> list_all quiet es \<Longrightarrow> request_effect P a c w (w\<lparr>sw_events := sw_events w @ es\<rparr>)"
  unfolding request_effect_def
  by (rule exI [of _ "[]"], rule exI [of _ es]) (simp add: fun_upd_idem)

lemma request_effect_refl: "sw_heap w a = Some c \<Longrightarrow> request_effect P a c w w"
  using request_effect_emit [of w a c "[]" P] by simp

lemma send_to_rtc_server_effect:
  "sw_heap w a = Some c \<Longrightarrow> request_effect P a c w (snd (send_to_rtc_server rs msg w))"
  by (simp add: send_to_rtc_server_def sw_emit_def request_effect_emit)

lemma process_effects [frame]:
  assumes "sw_heap w a = Some c"
  shows "request_effect P a c w (snd (sw_process_push js rs cmdno a fd root l w))"
    and "request_effect P a c w (snd (sw_process_pull js rs cmdno a fd root l w))"
    and "request_effect P a c w (snd (sw_process_stop_push js rs cmdno root l w))"
    and "request_effect P a c w (snd (sw_process_stop_pull js rs cmdno root l w))"
    and "request_effect P a c w (snd (sw_process_answer js rs cmdno root l w))"
  unfolding sw_process_push_def sw_process_pull_def sw_process_stop_push_def
    sw_process_stop_pull_def sw_process_answer_def
  by (auto split: option.splits prod.splits intro: request_effect_refl [OF assms]
      simp: send_to_rtc_server_effect [OF assms])

lemma request_effect_heap:
  assumes "request_effect P a c w w1"
  shows "\<exists>rs. sw_heap w1 a = Some (c\<lparr>tc_reply_list := tc_reply_list c @ rs\<rparr>)"
  using assms by (auto simp: request_effect_def)

lemma add_reply_effect:
  assumes "request_effect P a c w w1" "P r"
  shows "\<exists>w2. add_reply a r w1 = Some w2 \<and> request_effect P a c w w2"
proof -
  obtain rs es where w1: "w1 = w\<lparr>sw_heap := (sw_heap w)(a \<mapsto> c\<lparr>tc_reply_list := tc_reply_list c @ rs\<rparr>),
      sw_events := sw_events w @ es\<rparr>" "\<forall>r \<in> set rs. P r" "list_all quiet es"
    using assms(1) by (auto simp: request_effect_def)
  have "add_reply a r w1 = Some (w\<lparr>sw_heap := (sw_heap w)(a \<mapsto> c\<lparr>tc_reply_list := tc_reply_list c @ (rs @ [r])\<rparr>),
      sw_events := sw_events w @ (es @ [SwStartWrite (tc_fd c)])\<rparr>)"
    by (simp add: w1(1) add_reply_def sw_emit_def put_tc_def)
  moreover have "\<forall>r' \<in> set (rs @ [r]). P r'" "list_all quiet (es @ [SwStartWrite (tc_fd c)])"
    using w1(2,3) assms(2) by simp_all
  ultimately show ?thesis unfolding request_effect_def by blast
qed

lemma process_request_effect:
  assumes "sw_heap w a = Some c" "\<And>ret. P (make_reply header (js_write js (result_members ret)))"
  shows "\<exists>ret w1. process_request js rs a fd header body w = Some (ret, w1) \<and> request_effect P a c w w1"
proof (cases "js_parse js body")
  case None
  then show ?thesis by (simp add: process_request_def request_effect_refl [OF assms(1)])
next
  case (Some root)
  note parsed = Some
  show ?thesis
  proof (cases "js_int js root ''cmdno''")
    case None
    then show ?thesis by (simp add: process_request_def parsed request_effect_refl [OF assms(1)])
  next
    case (Some cmdno)
    define res where "res = (if cmdno = CMDNO_STOPPUSH then sw_process_stop_push js rs cmdno root (head_log_id header) w
        else if cmdno = CMDNO_STOPPULL then sw_process_stop_pull js rs cmdno root (head_log_id header) w
        else if cmdno = CMDNO_ANSWER then sw_process_answer js rs cmdno root (head_log_id header) w
        else (- 1, w))"
    have eff: "request_effect P a c w (snd res)"
      unfolding res_def using process_effects [OF assms(1)] request_effect_refl [OF assms(1)] by auto
    obtain w2 where w2: "add_reply a (make_reply header (js_write js (result_members (fst res)))) (snd res) = Some w2"
        "request_effect P a c w w2"
      using add_reply_effect [OF eff assms(2)] by blast
    have eq: "process_request js rs a fd header body w =
        (if cmdno = CMDNO_PUSH then Some (sw_process_push js rs cmdno a fd root (head_log_id header) w)
         else if cmdno = CMDNO_PULL then Some (sw_process_pull js rs cmdno a fd root (head_log_id header) w)
         else Some (0, w2))"
      using w2(1) by (simp add: process_request_def parsed Some Let_def res_def [symmetric] split_beta)
    show ?thesis
      unfolding eq using process_effects [OF assms(1)] w2(2)
      by (cases "cmdno = CMDNO_PUSH"; cases "cmdno = CMDNO_PULL") (auto simp: prod_eq_iff)
  qed
qed

subsection \<open>The query loop\<close>

lemma query_wait:
  assumes "sw_heap w a = Some c"
    and "length (tc_querybuf c) < tc_bytes_processed c + tc_bytes_expected c"
  shows "process_query_buffer js rs a w = Some (0, w)"
  using assms by (simp add: process_query_buffer.simps)

lemma query_head:
  assumes "sw_heap w a = Some c" "tc_current_state c = STATE_HEAD"
    and "tc_bytes_processed c + tc_bytes_expected c \<le> length (tc_querybuf c)"
  shows "process_query_buffer js rs a w =
     (if XHEADER_MAGIC_NUM \<noteq> head_magic_num (tc_querybuf c) then Some (- 1, w)
      else process_query_buffer js rs a
             (put_tc a (c\<lparr>tc_current_state := STATE_BODY,
                          tc_bytes_processed := head_body_len (tc_querybuf c)\<rparr>) w))"
  using assms by (subst process_query_buffer.simps) simp

definition finish_request :: "nat \<Rightarrow> (int \<times> signaling_worker) option \<Rightarrow> (int \<times> signaling_worker) option" where
  "finish_request a res =
     (case res of
        None \<Rightarrow> None
      | Some (ret, w1) \<Rightarrow>
          if ret \<noteq> 0 then Some (- 1, w1)
          else (case sw_heap w1 a of
                  None \<Rightarrow> None
                | Some c1 \<Rightarrow> Some (0, put_tc a (c1\<lparr>tc_bytes_processed := 65535\<rparr>) w1)))"

lemma query_body:
  assumes "sw_heap w a = Some c" "tc_current_state c = STATE_BODY" "tc_bytes_expected c = XHEAD_SIZE"
    and "tc_bytes_processed c + XHEAD_SIZE \<le> length (tc_querybuf c)"
    and "XHEAD_SIZE + head_body_len (tc_querybuf c) \<le> length (tc_querybuf c)"
    and "length (tc_querybuf c) < 65535 + XHEAD_SIZE"
  shows "process_query_buffer js rs a w =
     finish_request a (process_request js rs a (tc_fd c) (take XHEAD_SIZE (tc_querybuf c))
        (take (head_body_len (tc_querybuf c)) (drop XHEAD_SIZE (tc_querybuf c))) w)"
proof -
  obtain ret w1 where r: "process_request js rs a (tc_fd c) (take XHEAD_SIZE (tc_querybuf c))
        (take (head_body_len (tc_querybuf c)) (drop XHEAD_SIZE (tc_querybuf c))) w = Some (ret, w1)"
      and eff: "request_effect (\<lambda>_. True) a c w w1"
    using process_request_effect [OF assms(1), of "\<lambda>_. True"] by blast
  obtain rs' where h: "sw_heap w1 a = Some (c\<lparr>tc_reply_list := tc_reply_list c @ rs'\<rparr>)"
    using request_effect_heap [OF eff] by blast
  have "process_query_buffer js rs a (put_tc a ((c\<lparr>tc_reply_list := tc_reply_list c @ rs'\<rparr>)\<lparr>tc_bytes_processed := 65535\<rparr>) w1)
      = Some (0, put_tc a ((c\<lparr>tc_reply_list := tc_reply_list c @ rs'\<rparr>)\<lparr>tc_bytes_processed := 65535\<rparr>) w1)"
    by (rule query_wait [where c = "(c\<lparr>tc_reply_list := tc_reply_list c @ rs'\<rparr>)\<lparr>tc_bytes_processed := 65535\<rparr>"])
      (use assms in \<open>simp_all add: put_tc_def\<close>)
  then show ?thesis
    using assms by (subst process_query_buffer.simps) (simp add: r h finish_request_def)
qed

subsection \<open>Reassembly\<close>

text \<open>The connection after the first bytes \<open>p\<close> of a request, the last of them read at \<open>now\<close>.\<close>

definition conn_after :: "tcp_conn \<Rightarrow> u64 \<Rightarrow> bytes \<Rightarrow> tcp_conn" where
  "conn_after c now p =
     c\<lparr>tc_querybuf := p, tc_last_interaction := now,
       tc_current_state := (if length p < XHEAD_SIZE then STATE_HEAD else STATE_BODY),
       tc_bytes_processed := (if length p < XHEAD_SIZE then 0 else head_body_len p)\<rparr>"

text \<open>
  What a read of a live connection delivers: some bytes, or nothing yet. The bytes of a sequence of read
  callbacks, and the time of its last one (\<open>t\<close> when there is none).
\<close>

fun delivers :: "read_result \<Rightarrow> bool" where
  "delivers (RdData x) = (x \<noteq> [])"
| "delivers (RdErr e) = (e = EAGAIN)"

definition bytes_read :: "(read_result \<times> u64) list \<Rightarrow> bytes" where
  "bytes_read xs = concat (map (\<lambda>x. read_bytes (fst x)) xs)"

definition last_time :: "u64 \<Rightarrow> (read_result \<times> u64) list \<Rightarrow> u64" where
  "last_time t xs = (if xs = [] then t else snd (last xs))"

lemma bytes_read_simps [simp]:
  "bytes_read [] = []" "bytes_read ((r, now) # xs) = read_bytes r @ bytes_read xs"
  "bytes_read (xs @ ys) = bytes_read xs @ bytes_read ys"
  by (simp_all add: bytes_read_def)

lemma last_time_simps [simp]:
  "last_time t [] = t" "last_time t ((r, now) # xs) = last_time now xs" "last_time t (xs @ [(r, now)]) = now"
  by (simp_all add: last_time_def)

lemma read_bytes_simps [simp]: "read_bytes (RdData x) = x" "read_bytes (RdErr e) = []"
  by (simp_all add: read_bytes_def)

fun feed_reads ::
  "'v json_lib \<Rightarrow> (rtc_msg \<Rightarrow> int) \<Rightarrow> int \<Rightarrow> (read_result \<times> u64) list \<Rightarrow> signaling_worker
     \<Rightarrow> signaling_worker option" where
  "feed_reads js rs fd [] w = Some w"
| "feed_reads js rs fd ((r, now) # xs) w =
     (case read_query js rs fd r now w of
        None \<Rightarrow> None
      | Some w1 \<Rightarrow> feed_reads js rs fd xs w1)"

lemma feed_append:
  "feed_reads js rs fd (xs @ ys) w = Option.bind (feed_reads js rs fd xs w) (feed_reads js rs fd ys)"
  by (induction js rs fd xs w rule: feed_reads.induct) (auto split: option.splits)

lemma read_code_data [simp]: "x \<noteq> [] \<Longrightarrow> read_code (RdData x) = int (length x)"
  by (simp add: read_code_def sock_read_data_def)

lemma read_code_again [simp]: "read_code (RdErr EAGAIN) = 0"
  by (simp add: read_code_def sock_read_data_def)

text \<open>A read of some bytes, with the guards of \<open>_read_query\<close> resolved.\<close>

definition after_query :: "nat \<Rightarrow> (int \<times> signaling_worker) option \<Rightarrow> signaling_worker option" where
  "after_query a res =
     (case res of
        None \<Rightarrow> None
      | Some (ret, w1) \<Rightarrow> if ret \<noteq> 0 then close_conn a w1 else Some w1)"

lemma read_query_kept:
  assumes "0 \<le> fd" "nat fd < length (sw_conns w)" "sw_conns w ! nat fd = Some a" "sw_heap w a = Some c"
    and "read_code r \<noteq> - 1"
  defines "x \<equiv> (if read_code r > 0 then read_bytes r else [])"
  shows "read_query js rs fd r now w = after_query a (process_query_buffer js rs a
     (put_tc a (c\<lparr>tc_last_interaction := now, tc_querybuf := tc_querybuf c @ x\<rparr>) w))"
proof -
  have "(if read_code r > 0 then c\<lparr>tc_last_interaction := now, tc_querybuf := tc_querybuf c @ read_bytes r\<rparr>
      else c\<lparr>tc_last_interaction := now\<rparr>) = c\<lparr>tc_last_interaction := now, tc_querybuf := tc_querybuf c @ x\<rparr>"
    by (simp add: x_def)
  then show ?thesis
    using assms(1-5) by (cases "0 < read_code r") (simp_all add: read_query_def Let_def after_query_def)
qed

lemma read_query_delivers:
  assumes "0 \<le> fd" "nat fd < length (sw_conns w)" "sw_conns w ! nat fd = Some a"
    and "sw_heap w a = Some c" "delivers r"
  shows "read_query js rs fd r now w =
     after_query a (process_query_buffer js rs a
       (put_tc a (c\<lparr>tc_last_interaction := now, tc_querybuf := tc_querybuf c @ read_bytes r\<rparr>) w))"
  using read_query_kept [OF assms(1-4), of r js rs now] assms(5) by (cases r) simp_all

lemma read_query_data:
  assumes "0 \<le> fd" "nat fd < length (sw_conns w)" "sw_conns w ! nat fd = Some a"
    and "sw_heap w a = Some c" "x \<noteq> []"
  shows "read_query js rs fd (RdData x) now w =
     after_query a (process_query_buffer js rs a
       (put_tc a (c\<lparr>tc_last_interaction := now, tc_querybuf := tc_querybuf c @ x\<rparr>) w))"
  using read_query_delivers [OF assms(1-4), of "RdData x" js rs now] assms(5) by simp

lemma conn_after_simps [simp]:
  "tc_querybuf (conn_after c t p) = p" "tc_fd (conn_after c t p) = tc_fd c"
  "tc_bytes_expected (conn_after c t p) = tc_bytes_expected c"
  "tc_reply_list (conn_after c t p) = tc_reply_list c"
  "conn_after (conn_after c t p) t' p' = conn_after c t' p'"
  by (simp_all add: conn_after_def)

lemma head_prefix:
  assumes "XHEAD_SIZE \<le> length p"
  shows "head_body_len (p @ r) = head_body_len p" "head_magic_num (p @ r) = head_magic_num p"
  using head_body_len_app [OF assms] by simp_all

text \<open>A connection whose header is complete waits for the body, or handles the request.\<close>

lemma query_conn_after:
  assumes h: "sw_heap w a = Some (conn_after c t q)" and e: "tc_bytes_expected c = XHEAD_SIZE"
    and len: "XHEAD_SIZE \<le> length q" "length q < 65535 + XHEAD_SIZE"
  shows "process_query_buffer js rs a w =
     (if length q < XHEAD_SIZE + head_body_len q then Some (0, w)
      else finish_request a (process_request js rs a (tc_fd c) (take XHEAD_SIZE q)
             (take (head_body_len q) (drop XHEAD_SIZE q)) w))"
proof -
  have st: "tc_current_state (conn_after c t q) = STATE_BODY" "tc_bytes_processed (conn_after c t q) = head_body_len q"
    using len(1) by (simp_all add: conn_after_def)
  show ?thesis
  proof (cases "length q < XHEAD_SIZE + head_body_len q")
    case True
    have "process_query_buffer js rs a w = Some (0, w)"
      by (rule query_wait [OF h]) (use st e True in simp)
    then show ?thesis using True by simp
  next
    case False
    have "process_query_buffer js rs a w = finish_request a (process_request js rs a (tc_fd c)
        (take XHEAD_SIZE q) (take (head_body_len q) (drop XHEAD_SIZE q)) w)"
      using query_body [OF h st(1)] st(2) e False len(2) by simp
    then show ?thesis using False by simp
  qed
qed

text \<open>One piece: the state after it, or the handling of the complete request.\<close>

lemma query_after_piece:
  fixes p x :: bytes
  assumes e: "tc_bytes_expected c = XHEAD_SIZE"
    and len: "length (p @ x) < 65535 + XHEAD_SIZE"
    and incomplete: "length p < XHEAD_SIZE \<or> length p < XHEAD_SIZE + head_body_len p"
    and magic: "XHEAD_SIZE \<le> length (p @ x) \<Longrightarrow> head_magic_num (p @ x) = XHEADER_MAGIC_NUM"
    and h: "sw_heap w a = Some ((conn_after c t p)\<lparr>tc_last_interaction := now, tc_querybuf := p @ x\<rparr>)"
  shows "process_query_buffer js rs a w =
     (if length (p @ x) < XHEAD_SIZE \<or> length (p @ x) < XHEAD_SIZE + head_body_len (p @ x)
      then Some (0, put_tc a (conn_after c now (p @ x)) w)
      else finish_request a (process_request js rs a (tc_fd c) (take XHEAD_SIZE (p @ x))
             (take (head_body_len (p @ x)) (drop XHEAD_SIZE (p @ x)))
             (put_tc a (conn_after c now (p @ x)) w)))"
proof -
  let ?c = "(conn_after c t p)\<lparr>tc_last_interaction := now, tc_querybuf := p @ x\<rparr>"
  let ?w = "put_tc a (conn_after c now (p @ x)) w"
  have same: "?w = w" if "?c = conn_after c now (p @ x)"
    using h that by (simp add: put_tc_def fun_upd_idem)
  have h': "sw_heap ?w a = Some (conn_after c now (p @ x))" by (simp add: put_tc_def)
  show ?thesis
  proof (cases "length (p @ x) < XHEAD_SIZE")
    case True
    then have eq: "?c = conn_after c now (p @ x)" by (simp add: conn_after_def)
    have "process_query_buffer js rs a w = Some (0, w)"
      by (rule query_wait [OF h]) (use True e in \<open>simp add: conn_after_def\<close>)
    then show ?thesis using True same [OF eq] by simp
  next
    case False
    have "process_query_buffer js rs a w = process_query_buffer js rs a ?w"
    proof (cases "length p < XHEAD_SIZE")
      case True
      have "?c\<lparr>tc_current_state := STATE_BODY, tc_bytes_processed := head_body_len (p @ x)\<rparr> =
          conn_after c now (p @ x)"
        using False by (simp add: conn_after_def)
      then show ?thesis
        using query_head [OF h, of js rs] True False magic e by (simp add: conn_after_def)
    next
      case long: False
      then have "?c = conn_after c now (p @ x)" using head_prefix [of p x] False by (simp add: conn_after_def)
      then show ?thesis using same by simp
    qed
    then show ?thesis using query_conn_after [OF h' e _ len, of js rs] False
      by (simp del: length_append take_append drop_append)
  qed
qed

definition req_incomplete :: "bytes \<Rightarrow> bool" where
  "req_incomplete p \<longleftrightarrow> length p < XHEAD_SIZE \<or> length p < XHEAD_SIZE + head_body_len p"

text \<open>\<open>frame\<close> is one whole request.\<close>

definition whole_request :: "bytes \<Rightarrow> bool" where
  "whole_request frame \<longleftrightarrow> XHEAD_SIZE \<le> length frame
     \<and> length frame = XHEAD_SIZE + head_body_len frame \<and> head_magic_num frame = XHEADER_MAGIC_NUM
     \<and> length frame < 65535 + XHEAD_SIZE"

lemma prefix_incomplete:
  assumes "whole_request (p @ r)" "r \<noteq> []"
  shows "req_incomplete p"
proof (cases "length p < XHEAD_SIZE")
  case False
  then have "head_body_len (p @ r) = head_body_len p" using head_prefix by simp
  then have "length (p @ r) = XHEAD_SIZE + head_body_len p"
    using assms(1) by (simp add: whole_request_def)
  moreover have "0 < length r" using assms(2) by simp
  ultimately have "length p < XHEAD_SIZE + head_body_len p" by (simp only: length_append)
  then show ?thesis by (simp add: req_incomplete_def)
qed (simp add: req_incomplete_def)

lemma prefix_magic:
  assumes "whole_request (p @ r)" "XHEAD_SIZE \<le> length p"
  shows "head_magic_num p = XHEADER_MAGIC_NUM"
  using assms head_prefix(2) [OF assms(2), of r] by (simp add: whole_request_def)

lemma conn_after_id:
  "tc_querybuf c = [] \<Longrightarrow> tc_current_state c = STATE_HEAD \<Longrightarrow> tc_bytes_processed c = 0
     \<Longrightarrow> conn_after c (tc_last_interaction c) [] = c"
  by (simp add: conn_after_def XHEAD_SIZE_def)

lemma put_tc_put_tc [simp]: "put_tc a c (put_tc a c' w) = put_tc a c w"
  by (simp add: put_tc_def)

lemma put_tc_sel [simp]:
  "sw_heap (put_tc a c w) a = Some c" "sw_conns (put_tc a c w) = sw_conns w"
  "sw_events (put_tc a c w) = sw_events w"
  by (simp_all add: put_tc_def)

text \<open>One read callback of a connection whose request is not complete.\<close>

lemma read_piece:
  assumes "0 \<le> fd" "nat fd < length (sw_conns w)" "sw_conns w ! nat fd = Some a"
    and h: "sw_heap w a = Some (conn_after c t p)" and e: "tc_bytes_expected c = XHEAD_SIZE"
    and r: "delivers r" and whole: "whole_request (p @ read_bytes r @ rest)" and inc: "req_incomplete p"
  defines "q \<equiv> p @ read_bytes r"
  shows "read_query js rs fd r now w =
     (if req_incomplete q then Some (put_tc a (conn_after c now q) w)
      else after_query a (finish_request a (process_request js rs a (tc_fd c) (take XHEAD_SIZE q)
             (take (head_body_len q) (drop XHEAD_SIZE q)) (put_tc a (conn_after c now q) w))))"
proof -
  let ?x = "read_bytes r"
  let ?w = "put_tc a ((conn_after c t p)\<lparr>tc_last_interaction := now, tc_querybuf := p @ ?x\<rparr>) w"
  have len: "length (p @ ?x) < 65535 + XHEAD_SIZE" using whole by (auto simp: whole_request_def)
  have magic: "XHEAD_SIZE \<le> length (p @ ?x) \<Longrightarrow> head_magic_num (p @ ?x) = XHEADER_MAGIC_NUM"
    using prefix_magic [of "p @ ?x" rest] whole by simp
  have "read_query js rs fd r now w = after_query a (process_query_buffer js rs a ?w)"
    using read_query_delivers [OF assms(1-4) r] by simp
  moreover have "process_query_buffer js rs a ?w =
     (if req_incomplete (p @ ?x) then Some (0, put_tc a (conn_after c now (p @ ?x)) w)
      else finish_request a (process_request js rs a (tc_fd c) (take XHEAD_SIZE (p @ ?x))
             (take (head_body_len (p @ ?x)) (drop XHEAD_SIZE (p @ ?x))) (put_tc a (conn_after c now (p @ ?x)) w)))"
    using query_after_piece [where w = ?w and a = a and t = t and now = now and c = c and p = p
        and x = ?x and js = js and rs = rs, OF e len _ magic] inc
    by (simp add: req_incomplete_def)
  ultimately show ?thesis by (simp add: q_def after_query_def)
qed

text \<open>The read callbacks before the one that completes the request: the bytes are stored, nothing else.\<close>

lemma feed_incomplete:
  assumes "0 \<le> fd" "nat fd < length (sw_conns w)" "sw_conns w ! nat fd = Some a"
    and "sw_heap w a = Some (conn_after c t p)" "tc_bytes_expected c = XHEAD_SIZE"
    and "\<forall>x \<in> set xs. delivers (fst x)" "whole_request (p @ bytes_read xs @ rest)" "rest \<noteq> []"
  shows "feed_reads js rs fd xs w = Some (put_tc a (conn_after c (last_time t xs) (p @ bytes_read xs)) w)"
  using assms
proof (induction xs arbitrary: p t w)
  case Nil
  then show ?case by (simp add: put_tc_def fun_upd_idem)
next
  case (Cons y xs)
  obtain r now where y: "y = (r, now)" by (cases y)
  let ?x = "read_bytes r"
  have whole: "whole_request (p @ ?x @ bytes_read xs @ rest)" using Cons.prems(7) y by simp
  have inc: "req_incomplete p" "req_incomplete (p @ ?x)"
    using prefix_incomplete [of p "?x @ bytes_read xs @ rest"] prefix_incomplete [of "p @ ?x" "bytes_read xs @ rest"]
      whole Cons.prems(8) by simp_all
  have "read_query js rs fd r now w = Some (put_tc a (conn_after c now (p @ ?x)) w)"
    using read_piece [OF Cons.prems(1-5) _ whole inc(1), of js rs now] Cons.prems(6) inc(2) y by simp
  moreover have "feed_reads js rs fd xs (put_tc a (conn_after c now (p @ ?x)) w) =
      Some (put_tc a (conn_after c (last_time now xs) ((p @ ?x) @ bytes_read xs)) (put_tc a (conn_after c now (p @ ?x)) w))"
    by (rule Cons.IH) (use Cons.prems whole in simp_all)
  ultimately show ?case using y by simp
qed

lemma framed_request:
  assumes "length provider = 16" "length body < 65535"
  shows "whole_request (xhead ident version log_id provider XHEADER_MAGIC_NUM res (of_nat (length body)) @ body)"
proof -
  have "unat (of_nat (length body) :: u32) = length body" using assms(2) by (simp add: unat_of_nat)
  then show ?thesis using assms by (simp add: whole_request_def xhead_fields XHEAD_SIZE_def)
qed

lemma feed_whole_request:
  assumes "0 \<le> fd" "nat fd < length (sw_conns w)" "sw_conns w ! nat fd = Some a"
    and "sw_heap w a = Some c" "tc_fd c = fd" "tc_bytes_expected c = XHEAD_SIZE"
    and "tc_querybuf c = []" "tc_current_state c = STATE_HEAD" "tc_bytes_processed c = 0"
    and "bytes_read xs @ x = xhead ident version log_id provider XHEADER_MAGIC_NUM res (of_nat (length body)) @ body"
    and "length provider = 16" "length body < 65535" "\<forall>y \<in> set xs. delivers (fst y)" "x \<noteq> []"
  shows "feed_reads js rs fd (xs @ [(RdData x, now)]) w = after_query a (finish_request a (process_request js rs a fd
     (xhead ident version log_id provider XHEADER_MAGIC_NUM res (of_nat (length body))) body
     (put_tc a (conn_after c now (bytes_read xs @ x)) w)))"
proof -
  let ?h = "xhead ident version log_id provider XHEADER_MAGIC_NUM res (of_nat (length body))"
  have h: "length ?h = 36" using assms(11) by (simp add: XHEAD_SIZE_def)
  have whole: "whole_request (bytes_read xs @ x)" using framed_request [OF assms(11,12)] assms(10) by simp
  have hc: "sw_heap w a = Some (conn_after c (tc_last_interaction c) [])" using assms(4,7-9) by (simp add: conn_after_id)
  let ?w = "put_tc a (conn_after c (last_time (tc_last_interaction c) xs) (bytes_read xs)) w"
  have 1: "feed_reads js rs fd xs w = Some ?w"
    using feed_incomplete [OF assms(1-3) hc assms(6,13) _ assms(14)] whole by simp
  have inc: "req_incomplete (bytes_read xs)" using prefix_incomplete [OF whole assms(14)] .
  have full: "\<not> req_incomplete (bytes_read xs @ x)" "head_body_len (bytes_read xs @ x) = length body"
    using whole assms(10) h by (auto simp: req_incomplete_def whole_request_def XHEAD_SIZE_def)
  have "read_query js rs fd (RdData x) now ?w = after_query a (finish_request a (process_request js rs a fd ?h body
      (put_tc a (conn_after c now (bytes_read xs @ x)) ?w)))"
    using read_piece [of fd ?w a c "last_time (tc_last_interaction c) xs" "bytes_read xs" "RdData x" "[]" js rs now]
      assms whole inc full h by (simp add: XHEAD_SIZE_def)
  then show ?thesis unfolding feed_append 1 by (simp split: option.splits)
qed

text \<open>C7: A request whose body is shorter than 65535 bytes, arriving in any number of pieces with any number
  of read callbacks that find nothing yet in between, is handled when its last byte arrives, once, with its
  whole header and body. Every callback before that one only stores the bytes and the time: the worker is
  otherwise as it was, with no event. If the request cannot be handled the connection is closed; if it can,
  the connection is marked as served.\<close>

theorem request_reassembled:
  assumes "0 \<le> fd" "nat fd < length (sw_conns w)" "sw_conns w ! nat fd = Some a"
    and "sw_heap w a = Some c" "tc_fd c = fd" "tc_bytes_expected c = XHEAD_SIZE"
    and "tc_querybuf c = []" "tc_current_state c = STATE_HEAD" "tc_bytes_processed c = 0"
    and "bytes_read xs @ x = xhead ident version log_id provider XHEADER_MAGIC_NUM res (of_nat (length body)) @ body"
    and "length provider = 16" "length body < 65535" "\<forall>y \<in> set xs. delivers (fst y)" "x \<noteq> []"
  shows "(\<forall>k \<le> length xs. feed_reads js rs fd (take k xs) w =
        Some (w\<lparr>sw_heap := (sw_heap w)(a \<mapsto>
          conn_after c (last_time (tc_last_interaction c) (take k xs)) (bytes_read (take k xs)))\<rparr>))
     \<and> (\<exists>ret w1. process_request js rs a fd
            (xhead ident version log_id provider XHEADER_MAGIC_NUM res (of_nat (length body))) body
            (put_tc a (conn_after c now (bytes_read xs @ x)) w) = Some (ret, w1)
          \<and> feed_reads js rs fd (xs @ [(RdData x, now)]) w =
              (if ret \<noteq> 0 then close_conn a w1
               else Some (put_tc a ((the (sw_heap w1 a))\<lparr>tc_bytes_processed := 65535\<rparr>) w1)))"
proof (intro conjI allI impI)
  fix k assume "k \<le> length xs"
  have "bytes_read (take k xs) @ bytes_read (drop k xs) = bytes_read xs"
    using bytes_read_simps(3) [of "take k xs" "drop k xs"] by simp
  moreover have "whole_request (bytes_read xs @ x)" using framed_request [OF assms(11,12)] assms(10) by simp
  ultimately have whole: "whole_request ([] @ bytes_read (take k xs) @ bytes_read (drop k xs) @ x)"
    by (metis append.assoc append_Nil)
  have hc: "sw_heap w a = Some (conn_after c (tc_last_interaction c) [])" using assms(4,7-9) by (simp add: conn_after_id)
  have "\<forall>y \<in> set (take k xs). delivers (fst y)" using assms(13) by (auto dest: in_set_takeD)
  from feed_incomplete [OF assms(1-3) hc assms(6) this whole] assms(14)
  show "feed_reads js rs fd (take k xs) w = Some (w\<lparr>sw_heap := (sw_heap w)(a \<mapsto>
      conn_after c (last_time (tc_last_interaction c) (take k xs)) (bytes_read (take k xs)))\<rparr>)"
    by (simp add: put_tc_def)
next
  let ?h = "xhead ident version log_id provider XHEADER_MAGIC_NUM res (of_nat (length body))"
  let ?w = "put_tc a (conn_after c now (bytes_read xs @ x)) w"
  obtain ret w1 where r: "process_request js rs a fd ?h body ?w = Some (ret, w1)"
    and eff: "request_effect (\<lambda>_. True) a (conn_after c now (bytes_read xs @ x)) ?w w1"
    using process_request_effect [of ?w a _ "\<lambda>_. True"] by (metis put_tc_sel(1))
  obtain c1 where "sw_heap w1 a = Some c1" using request_effect_heap [OF eff] by blast
  then have "feed_reads js rs fd (xs @ [(RdData x, now)]) w = (if ret \<noteq> 0 then close_conn a w1
      else Some (put_tc a ((the (sw_heap w1 a))\<lparr>tc_bytes_processed := 65535\<rparr>) w1))"
    by (simp add: feed_whole_request [OF assms] r finish_request_def after_query_def)
  then show "\<exists>ret w1. process_request js rs a fd ?h body ?w = Some (ret, w1)
      \<and> feed_reads js rs fd (xs @ [(RdData x, now)]) w = (if ret \<noteq> 0 then close_conn a w1
          else Some (put_tc a ((the (sw_heap w1 a))\<lparr>tc_bytes_processed := 65535\<rparr>) w1))"
    using r by blast
qed

text \<open>A JSON library for the witnesses: a body is one byte, the command number.\<close>

definition demo_json :: "bytes json_lib" where
  "demo_json =
     \<lparr>js_parse = (\<lambda>bs. if bs = [] then None else Some bs),
      js_int = (\<lambda>v k. if k = ''cmdno'' then Some (int (unat (hd v))) else Some 1),
      js_uint64 = (\<lambda>v k. Some 7),
      js_string = (\<lambda>v k. Some ''room''),
      js_write = (\<lambda>ms. bytes_of ''{}'')\<rparr>"

definition demo_worker :: signaling_worker where
  "demo_worker =
     put_tc 3 (new_tcp_connection 5)
       ((new_signaling_worker 1 60000)\<lparr>sw_conns := (replicate 10 None)[5 := Some 3]\<rparr>)"

text \<open>A request in two pieces, with a callback in between that finds nothing.\<close>

definition demo_frame :: "bytes \<Rightarrow> bytes" where
  "demo_frame body = xhead 1 1 9 (replicate 16 0) XHEADER_MAGIC_NUM 0 (of_nat (length body)) @ body"

definition demo_reads :: "bytes \<Rightarrow> (read_result \<times> u64) list" where
  "demo_reads body = [(RdData (take 20 (demo_frame body)), 100), (RdErr EAGAIN, 150)]"

abbreviation demo_last :: "bytes \<Rightarrow> bytes" where
  "demo_last body \<equiv> drop 20 (demo_frame body)"

lemma demo_pieces_whole:
  "bytes_read (demo_reads body) @ demo_last body =
     xhead 1 1 9 (replicate 16 0) XHEADER_MAGIC_NUM 0 (of_nat (length body)) @ body"
  by (simp add: demo_reads_def demo_frame_def del: append_assoc take_append drop_append)

lemma demo_head_length [simp]:
  "length (xhead 1 1 9 (replicate 16 0) XHEADER_MAGIC_NUM 0 n) = 36"
  using length_xhead [of "replicate 16 0"] by (simp add: XHEAD_SIZE_def)

lemma demo_delivers: "\<forall>y \<in> set (demo_reads body). delivers (fst y)" "demo_last body \<noteq> []"
proof -
  have l: "36 \<le> length (demo_frame body)" by (simp only: demo_frame_def length_append demo_head_length)
  then show "demo_last body \<noteq> []" by auto
  from l show "\<forall>y \<in> set (demo_reads body). delivers (fst y)" by (auto simp: demo_reads_def)
qed

lemma demo_worker_conn:
  "nat 5 < length (sw_conns demo_worker)" "sw_conns demo_worker ! nat 5 = Some 3"
  "sw_heap demo_worker 3 = Some (new_tcp_connection 5)"
  by (simp_all add: demo_worker_def new_signaling_worker_def put_tc_def)

theorem request_reassembled_witness:
  "feed_reads demo_json (\<lambda>_. 0) 5 (demo_reads [4]) demo_worker =
       Some (demo_worker\<lparr>sw_heap := (sw_heap demo_worker)(3 \<mapsto>
          conn_after (new_tcp_connection 5) 150 (take 20 (demo_frame [4])))\<rparr>)
     \<and> (\<exists>ret w1. process_request demo_json (\<lambda>_. 0) 3 5
          (xhead 1 1 9 (replicate 16 0) XHEADER_MAGIC_NUM 0 (of_nat (length [4::byte]))) [4]
          (put_tc 3 (conn_after (new_tcp_connection 5) 200 (bytes_read (demo_reads [4]) @ demo_last [4])) demo_worker)
            = Some (ret, w1)
        \<and> feed_reads demo_json (\<lambda>_. 0) 5 (demo_reads [4] @ [(RdData (demo_last [4]), 200)]) demo_worker =
            (if ret \<noteq> 0 then close_conn 3 w1
             else Some (put_tc 3 ((the (sw_heap w1 3))\<lparr>tc_bytes_processed := 65535\<rparr>) w1)))"
proof -
  have n: "tc_fd (new_tcp_connection 5) = 5" "tc_bytes_expected (new_tcp_connection 5) = XHEAD_SIZE"
      "tc_querybuf (new_tcp_connection 5) = []" "tc_current_state (new_tcp_connection 5) = STATE_HEAD"
      "tc_bytes_processed (new_tcp_connection 5) = 0" "tc_last_interaction (new_tcp_connection 5) = 0"
    by (simp_all add: new_tcp_connection_def)
  have t: "take (length (demo_reads [4])) (demo_reads [4]) = demo_reads [4]"
      "last_time 0 (demo_reads [4]) = 150" "bytes_read (demo_reads [4]) = take 20 (demo_frame [4])"
    by (simp_all add: demo_reads_def)
  have len: "(0 :: int) \<le> 5" "length (replicate 16 (0 :: byte)) = 16" "length [4 :: byte] < 65535" by simp_all
  note r = request_reassembled [where now = 200 and js = demo_json and rs = "\<lambda>_. 0",
      OF len(1) demo_worker_conn n(1-5) demo_pieces_whole len(2,3) demo_delivers]
  show ?thesis
    using r [THEN conjunct1, THEN spec, THEN mp, OF order_refl] r [THEN conjunct2] unfolding t n(6) by simp
qed

subsection \<open>After the first request\<close>

text \<open>
  \<open>bytes_processed\<close> is 65535 after a request and is never reset, so the loop waits for
  65535 + 36 bytes in all.
\<close>

lemma served_conn_waits:
  assumes "sw_heap w a = Some c" "tc_bytes_expected c = XHEAD_SIZE" "tc_bytes_processed c = 65535"
    and "length (tc_querybuf c) < 65535 + XHEAD_SIZE"
  shows "process_query_buffer js rs a w = Some (0, w)"
  by (rule query_wait [OF assms(1)]) (use assms in simp)

text \<open>C34: A second request on a connection is never answered: once a request was handled, whatever
  is read next is only stored, until the buffer holds 65571 bytes. No message is sent, no reply is
  queued, and the connection is not closed.\<close>

theorem second_request_ignored:
  assumes "0 \<le> fd" "nat fd < length (sw_conns w)" "sw_conns w ! nat fd = Some a"
    and "sw_heap w a = Some c" "tc_bytes_expected c = XHEAD_SIZE" "tc_bytes_processed c = 65535"
    and "x \<noteq> []" "length (tc_querybuf c) + length x < 65535 + XHEAD_SIZE"
  shows "read_query js rs fd (RdData x) now w =
     Some (put_tc a (c\<lparr>tc_last_interaction := now, tc_querybuf := tc_querybuf c @ x\<rparr>) w)"
proof -
  let ?w = "put_tc a (c\<lparr>tc_last_interaction := now, tc_querybuf := tc_querybuf c @ x\<rparr>) w"
  have "process_query_buffer js rs a ?w = Some (0, ?w)"
    by (rule served_conn_waits [of _ _ "c\<lparr>tc_last_interaction := now, tc_querybuf := tc_querybuf c @ x\<rparr>"])
      (use assms in simp_all)
  then show ?thesis using read_query_data [OF assms(1-4,7), of js rs now] by (simp add: after_query_def)
qed

definition demo_served_conn :: tcp_conn where
  "demo_served_conn = (new_tcp_connection 5)\<lparr>tc_current_state := STATE_BODY,
     tc_bytes_processed := 65535, tc_querybuf := demo_frame [4]\<rparr>"

theorem second_request_ignored_witness:
  "read_query demo_json (\<lambda>_. 0) 5 (RdData (demo_frame [1])) 300
       (put_tc 3 demo_served_conn demo_worker) =
     Some (put_tc 3 (demo_served_conn\<lparr>tc_last_interaction := 300,
        tc_querybuf := tc_querybuf demo_served_conn @ demo_frame [1]\<rparr>)
        (put_tc 3 demo_served_conn demo_worker))"
  by (rule second_request_ignored)
    (simp_all add: demo_served_conn_def demo_worker_conn [simplified] new_tcp_connection_def
      demo_frame_def XHEAD_SIZE_def)

subsection \<open>Requests that never end\<close>

text \<open>
  One pass of the query loop: an access of a dead connection or outside the buffer, a return, or the state
  in which the condition of the loop is tested again.
\<close>

datatype query_pass = QInvalid | QReturn int signaling_worker | QAgain signaling_worker

definition query_pass :: "'v json_lib \<Rightarrow> (rtc_msg \<Rightarrow> int) \<Rightarrow> nat \<Rightarrow> signaling_worker \<Rightarrow> query_pass" where
  "query_pass js rs a w =
     (case sw_heap w a of
        None \<Rightarrow> QInvalid
      | Some c \<Rightarrow>
          if length (tc_querybuf c) \<ge> tc_bytes_processed c + tc_bytes_expected c
          then (if tc_current_state c = STATE_HEAD
                then (if XHEADER_MAGIC_NUM \<noteq> head_magic_num (tc_querybuf c) then QReturn (- 1) w
                      else QAgain (put_tc a (c\<lparr>tc_current_state := STATE_BODY,
                                          tc_bytes_processed := head_body_len (tc_querybuf c)\<rparr>) w))
                else if length (tc_querybuf c) < XHEAD_SIZE + head_body_len (tc_querybuf c) then QInvalid
                else (case process_request js rs a (tc_fd c) (take XHEAD_SIZE (tc_querybuf c))
                             (take (head_body_len (tc_querybuf c)) (drop XHEAD_SIZE (tc_querybuf c))) w of
                        None \<Rightarrow> QInvalid
                      | Some (ret, w1) \<Rightarrow>
                          if ret \<noteq> 0 then QReturn (- 1) w1
                          else (case sw_heap w1 a of
                                  None \<Rightarrow> QInvalid
                                | Some c1 \<Rightarrow> QAgain (put_tc a (c1\<lparr>tc_bytes_processed := 65535\<rparr>) w1))))
          else QReturn 0 w)"

lemma query_loop:
  "process_query_buffer js rs a w =
     (case query_pass js rs a w of
        QInvalid \<Rightarrow> None
      | QReturn ret w1 \<Rightarrow> Some (ret, w1)
      | QAgain w1 \<Rightarrow> process_query_buffer js rs a w1)"
  unfolding query_pass_def by (subst process_query_buffer.simps) (simp split: option.splits)

text \<open>\<open>n\<close> passes after which the loop goes on.\<close>

fun query_passes :: "nat \<Rightarrow> 'v json_lib \<Rightarrow> (rtc_msg \<Rightarrow> int) \<Rightarrow> nat \<Rightarrow> signaling_worker \<Rightarrow> signaling_worker option" where
  "query_passes 0 js rs a w = Some w"
| "query_passes (Suc n) js rs a w =
     (case query_pass js rs a w of QAgain w1 \<Rightarrow> query_passes n js rs a w1 | _ \<Rightarrow> None)"

lemma query_passes_Suc:
  "query_passes (Suc n) js rs a w =
     Option.bind (query_passes n js rs a w) (\<lambda>w1. case query_pass js rs a w1 of QAgain w2 \<Rightarrow> Some w2 | _ \<Rightarrow> None)"
proof (induction n arbitrary: w)
  case 0
  show ?case by (simp split: query_pass.split)
next
  case (Suc n)
  show ?case
  proof (cases "query_pass js rs a w")
    case (QAgain w1)
    then have "query_passes (Suc m) js rs a w = query_passes m js rs a w1" for m by simp
    then show ?thesis using Suc.IH [of w1] by metis
  qed simp_all
qed

text \<open>The loop returns exactly when one of its passes does.\<close>

lemma query_returns_pass:
  assumes "process_query_buffer js rs a w = Some y"
  shows "\<exists>n w1. query_passes n js rs a w = Some w1 \<and> query_pass js rs a w1 = QReturn (fst y) (snd y)"
proof (rule process_query_buffer.raw_induct
    [where P = "\<lambda>js rs a w y. \<exists>n w1. query_passes n js rs a w = Some w1 \<and> query_pass js rs a w1 = QReturn (fst y) (snd y)",
      OF _ assms], goal_cases)
  case (1 f js' rs' a' w' y')
  show ?case
  proof (cases "query_pass js' rs' a' w'")
    case QInvalid
    then show ?thesis using 1(2) by (auto simp: query_pass_def split: option.splits if_splits prod.splits)
  next
    case (QReturn ret w1)
    then have "y' = (ret, w1)" using 1(2) by (auto simp: query_pass_def split: option.splits if_splits prod.splits)
    then show ?thesis using QReturn by (intro exI [of _ 0] exI [of _ w']) simp
  next
    case (QAgain w1)
    then have "f js' rs' a' w1 = Some y'"
      using 1(2) by (auto simp: query_pass_def split: option.splits if_splits prod.splits)
    from 1(1) [OF this] obtain n w2 where "query_passes n js' rs' a' w1 = Some w2"
        "query_pass js' rs' a' w2 = QReturn (fst y') (snd y')" by blast
    then show ?thesis using QAgain by (intro exI [of _ "Suc n"] exI [of _ w2]) simp
  qed
qed

lemma query_pass_returns:
  "query_passes n js rs a w = Some w1 \<Longrightarrow> query_pass js rs a w1 = QReturn ret w2
     \<Longrightarrow> process_query_buffer js rs a w = Some (ret, w2)"
proof (induction n arbitrary: w)
  case 0
  then show ?case by (subst query_loop) simp
next
  case (Suc n)
  then obtain w' where "query_pass js rs a w = QAgain w'" "query_passes n js rs a w' = Some w1"
    by (auto split: query_pass.splits)
  then show ?case using Suc.IH Suc.prems(2) by (subst query_loop) simp
qed

lemma unending_passes:
  assumes "\<forall>n. query_passes n js rs a w \<noteq> None"
  shows "process_query_buffer js rs a w = None"
proof (cases "process_query_buffer js rs a w")
  case (Some y)
  from query_returns_pass [OF this] obtain n w1 where
    "query_passes n js rs a w = Some w1" "query_pass js rs a w1 = QReturn (fst y) (snd y)" by blast
  then have "query_passes (Suc n) js rs a w = None" unfolding query_passes_Suc by simp
  then show ?thesis using assms by blast
qed

subsection \<open>What a request does is the same each time\<close>

text \<open>The commands send a message, or not, whatever else is in the worker.\<close>

lemma command_events:
  "\<exists>ret es. \<forall>w. sw_id w = k \<longrightarrow> sw_process_push js rs cmdno a fd root l w = (ret, sw_emit es w)"
  "\<exists>ret es. \<forall>w. sw_id w = k \<longrightarrow> sw_process_pull js rs cmdno a fd root l w = (ret, sw_emit es w)"
  "\<exists>ret es. \<forall>w. sw_process_stop_push js rs cmdno root l w = (ret, sw_emit es w)"
  "\<exists>ret es. \<forall>w. sw_process_stop_pull js rs cmdno root l w = (ret, sw_emit es w)"
  "\<exists>ret es. \<forall>w. sw_process_answer js rs cmdno root l w = (ret, sw_emit es w)"
proof -
  define w0 where "w0 = new_signaling_worker k 0"
  have w0: "sw_id w0 = k" "sw_events w0 = []" by (simp_all add: w0_def new_signaling_worker_def)
  note defs = sw_process_push_def sw_process_pull_def sw_process_stop_push_def sw_process_stop_pull_def
      sw_process_answer_def send_to_rtc_server_def sw_emit_def
  have once: "\<exists>ret es. \<forall>w. P w \<longrightarrow> f w = (ret, sw_emit es w)"
    if "\<And>w. P w \<Longrightarrow> f w = (fst (f w0), sw_emit (sw_events (snd (f w0))) w)"
    for P and f :: "signaling_worker \<Rightarrow> int \<times> signaling_worker"
    using that by blast
  show "\<exists>ret es. \<forall>w. sw_id w = k \<longrightarrow> sw_process_push js rs cmdno a fd root l w = (ret, sw_emit es w)"
    "\<exists>ret es. \<forall>w. sw_id w = k \<longrightarrow> sw_process_pull js rs cmdno a fd root l w = (ret, sw_emit es w)"
    by (rule once; simp add: defs w0 split: option.splits)+
  show "\<exists>ret es. \<forall>w. sw_process_stop_push js rs cmdno root l w = (ret, sw_emit es w)"
    "\<exists>ret es. \<forall>w. sw_process_stop_pull js rs cmdno root l w = (ret, sw_emit es w)"
    "\<exists>ret es. \<forall>w. sw_process_answer js rs cmdno root l w = (ret, sw_emit es w)"
    by (rule once [where P = "\<lambda>_. True", simplified]; simp add: defs w0 split: option.splits)+
qed

text \<open>The worker after a request that appended the replies \<open>rl\<close> to its connection \<open>c\<close> and raised the events \<open>es\<close>.\<close>

definition handled :: "reply list \<Rightarrow> worker_event list \<Rightarrow> nat \<Rightarrow> tcp_conn \<Rightarrow> signaling_worker \<Rightarrow> signaling_worker" where
  "handled rl es a c w =
     (put_tc a (c\<lparr>tc_reply_list := tc_reply_list c @ rl\<rparr>) w)\<lparr>sw_events := sw_events w @ es\<rparr>"

lemma handled_emit: "sw_heap w a = Some c \<Longrightarrow> sw_emit es w = handled [] es a c w"
  by (simp add: handled_def sw_emit_def put_tc_def fun_upd_idem)

lemma request_uniform:
  "\<exists>ret rl es. \<forall>w c. sw_heap w a = Some c \<longrightarrow> sw_id w = k \<longrightarrow> tc_fd c = fd \<longrightarrow>
     process_request js rs a fd header body w = Some (ret, handled rl es a c w)"
proof -
  let ?P = "\<lambda>f. \<exists>ret rl es. \<forall>w c. sw_heap w a = Some c \<longrightarrow> sw_id w = k \<longrightarrow> tc_fd c = fd \<longrightarrow> f w = Some (ret, handled rl es a c w)"
  let ?l = "head_log_id header"
  have emits: "?P f" if "\<And>w. sw_id w = k \<Longrightarrow> f w = Some (ret, sw_emit es w)" for f ret es
    using that handled_emit by (intro exI [of _ ret] exI [of _ "[]"] exI [of _ es]) fastforce
  have replies: "?P f" if "\<And>w. f w = map_option (Pair 0)
      (add_reply a (make_reply header (js_write js (result_members (fst (h w))))) (snd (h w)))"
    "\<forall>w. h w = (ret, sw_emit es w)" for f h ret es
    using that by (intro exI [of _ 0] exI [of _ "[make_reply header (js_write js (result_members ret))]"]
        exI [of _ "es @ [SwStartWrite fd]"]) (simp add: add_reply_def sw_emit_def handled_def put_tc_def)
  show ?thesis
  proof (cases "\<exists>root cmdno. js_parse js body = Some root \<and> js_int js root ''cmdno'' = Some cmdno")
    case False
    then have "process_request js rs a fd header body w = Some (- 1, sw_emit [] w)" for w
      by (auto simp: process_request_def sw_emit_def Let_def split: option.splits)
    then show ?thesis by (rule emits)
  next
    case True
    then obtain root cmdno where p: "js_parse js body = Some root" "js_int js root ''cmdno'' = Some cmdno" by blast
    consider "cmdno = CMDNO_PUSH" | "cmdno = CMDNO_PULL" "cmdno \<noteq> CMDNO_PUSH" | "cmdno \<noteq> CMDNO_PUSH" "cmdno \<noteq> CMDNO_PULL"
      by blast
    then show ?thesis
    proof cases
      case 1
      obtain ret es where "\<forall>w. sw_id w = k \<longrightarrow> sw_process_push js rs cmdno a fd root ?l w = (ret, sw_emit es w)"
        using command_events(1) [of k js rs cmdno a fd root ?l] by blast
      then show ?thesis by (intro emits [of _ ret es]) (simp add: process_request_def p 1)
    next
      case 2
      obtain ret es where "\<forall>w. sw_id w = k \<longrightarrow> sw_process_pull js rs cmdno a fd root ?l w = (ret, sw_emit es w)"
        using command_events(2) [of k js rs cmdno a fd root ?l] by blast
      then show ?thesis using 2 by (intro emits [of _ ret es]) (simp add: process_request_def p)
    next
      case 3
      define h where "h w = (if cmdno = CMDNO_STOPPUSH then sw_process_stop_push js rs cmdno root ?l w
          else if cmdno = CMDNO_STOPPULL then sw_process_stop_pull js rs cmdno root ?l w
          else if cmdno = CMDNO_ANSWER then sw_process_answer js rs cmdno root ?l w
          else (- 1, w))" for w
      have "\<exists>ret es. \<forall>w. h w = (ret, sw_emit es w)"
      proof -
        consider "h = sw_process_stop_push js rs cmdno root ?l" | "h = sw_process_stop_pull js rs cmdno root ?l"
          | "h = sw_process_answer js rs cmdno root ?l" | "h = (\<lambda>w. (- 1, sw_emit [] w))"
          by (cases "cmdno = CMDNO_STOPPUSH"; cases "cmdno = CMDNO_STOPPULL"; cases "cmdno = CMDNO_ANSWER")
            (simp_all add: h_def fun_eq_iff sw_emit_def)
        then show ?thesis using command_events(3-5) [of js rs cmdno root ?l] by cases metis+
      qed
      then obtain ret es where h: "\<forall>w. h w = (ret, sw_emit es w)" by blast
      show ?thesis
        by (rule replies [OF _ h]) (simp add: process_request_def p 3 Let_def h_def split_beta)
    qed
  qed
qed

text \<open>A served connection after \<open>n\<close> more handlings of its request.\<close>

definition served_conn :: "nat \<Rightarrow> reply list \<Rightarrow> tcp_conn \<Rightarrow> tcp_conn" where
  "served_conn n rl c = c\<lparr>tc_reply_list := tc_reply_list c @ concat (replicate n rl), tc_bytes_processed := 65535\<rparr>"

definition served_times ::
  "nat \<Rightarrow> reply list \<Rightarrow> worker_event list \<Rightarrow> nat \<Rightarrow> tcp_conn \<Rightarrow> signaling_worker \<Rightarrow> signaling_worker" where
  "served_times n rl es a c w =
     (put_tc a (served_conn n rl c) w)\<lparr>sw_events := sw_events w @ concat (replicate n es)\<rparr>"

lemma handled_eq:
  "handled rl es a c w = handled rl' es' a c w \<longleftrightarrow> rl = rl' \<and> es = es'"
proof
  assume eq: "handled rl es a c w = handled rl' es' a c w"
  have "sw_heap (handled rl es a c w) a = sw_heap (handled rl' es' a c w) a"
    "sw_events (handled rl es a c w) = sw_events (handled rl' es' a c w)" by (simp_all add: eq)
  then show "rl = rl' \<and> es = es'" by (auto simp: handled_def put_tc_def dest: arg_cong [of _ _ tc_reply_list])
qed simp

lemma concat_replicate_Suc: "concat (replicate (Suc n) xs) = concat (replicate n xs) @ xs"
  by (induction n) simp_all

text \<open>C35: On a connection whose buffer holds 65571 bytes or more (the body is that long, or enough bytes came
  after a shorter request) the query loop never returns once a request is handled without error: the same
  request is handled again on every pass, without end. Each pass appends the same replies and raises the same
  events (a push sends its message to the RTC server again, every other command queues one more reply), none
  goes wrong, and after any number of passes the loop goes on.\<close>

theorem large_request_never_ends:
  assumes "sw_heap w a = Some c" "tc_bytes_expected c = XHEAD_SIZE" "tc_current_state c = STATE_BODY"
    and "tc_bytes_processed c = head_body_len (tc_querybuf c) \<or> tc_bytes_processed c = 65535"
    and "XHEAD_SIZE + head_body_len (tc_querybuf c) \<le> length (tc_querybuf c)"
    and "65535 + XHEAD_SIZE \<le> length (tc_querybuf c)"
    and "process_request js rs a (tc_fd c) (take XHEAD_SIZE (tc_querybuf c))
           (take (head_body_len (tc_querybuf c)) (drop XHEAD_SIZE (tc_querybuf c))) w = Some (0, w1)"
  shows "\<exists>rl es. w1 = handled rl es a c w
     \<and> (\<forall>n. query_passes (Suc n) js rs a w = Some (served_times (Suc n) rl es a c w))
     \<and> process_query_buffer js rs a w = None"
proof -
  let ?h = "take XHEAD_SIZE (tc_querybuf c)" and ?b = "take (head_body_len (tc_querybuf c)) (drop XHEAD_SIZE (tc_querybuf c))"
  obtain ret rl es where u: "\<And>v d. sw_heap v a = Some d \<Longrightarrow> sw_id v = sw_id w \<Longrightarrow> tc_fd d = tc_fd c \<Longrightarrow>
      process_request js rs a (tc_fd c) ?h ?b v = Some (ret, handled rl es a d v)"
    using request_uniform [of a "sw_id w" "tc_fd c" js rs ?h ?b] by blast
  have r: "ret = 0" "w1 = handled rl es a c w" using u [OF assms(1)] assms(7) by simp_all
  have pass: "query_pass js rs a v = QAgain (put_tc a (d\<lparr>tc_reply_list := tc_reply_list d @ rl, tc_bytes_processed := 65535\<rparr>)
       (v\<lparr>sw_events := sw_events v @ es\<rparr>))"
    if "sw_heap v a = Some d" "sw_id v = sw_id w" "tc_querybuf d = tc_querybuf c" "tc_fd d = tc_fd c"
      "tc_bytes_expected d = XHEAD_SIZE" "tc_current_state d = STATE_BODY"
      "tc_bytes_processed d = head_body_len (tc_querybuf c) \<or> tc_bytes_processed d = 65535" for v d
    using u [OF that(1,2,4)] that assms(5,6) r(1)
    by (auto simp: query_pass_def handled_def put_tc_def)
  have passes: "query_passes (Suc n) js rs a w = Some (served_times (Suc n) rl es a c w)" for n
  proof (induction n)
    case 0
    show ?case using pass [OF assms(1)] assms(2-4)
      by (simp add: served_times_def served_conn_def put_tc_def)
  next
    case (Suc n)
    have "query_pass js rs a (served_times (Suc n) rl es a c w) = QAgain (served_times (Suc (Suc n)) rl es a c w)"
      using pass [of "served_times (Suc n) rl es a c w" "served_conn (Suc n) rl c"] assms(2,3)
      by (simp add: served_times_def served_conn_def put_tc_def concat_replicate_Suc del: replicate.simps)
    then show ?case unfolding query_passes_Suc [of "Suc n"] Suc.IH by simp
  qed
  have "query_passes n js rs a w \<noteq> None" for n using passes by (cases n) simp_all
  then have "process_query_buffer js rs a w = None" by (intro unending_passes) blast
  then show ?thesis using r(2) passes by blast
qed

definition demo_large :: tcp_conn where
  "demo_large = (new_tcp_connection 5)\<lparr>tc_current_state := STATE_BODY, tc_bytes_processed := 65535,
     tc_querybuf := xhead 1 1 9 (replicate 16 0) XHEADER_MAGIC_NUM 0 1 @ [4] @ replicate 65534 0\<rparr>"

lemma demo_large_body_len [simp]: "head_body_len (tc_querybuf demo_large) = 1"
  by (simp add: demo_large_def xhead_fields)

text \<open>A stop request in a buffer of 65571 bytes: each pass sends the stop message and queues a reply.\<close>

theorem large_request_never_ends_witness:
  "\<exists>rl es. length rl = 1 \<and> length es = 2
     \<and> query_passes 3 demo_json (\<lambda>_. 0) 3 (put_tc 3 demo_large demo_worker)
         = Some (served_times 3 rl es 3 demo_large (put_tc 3 demo_large demo_worker))
     \<and> process_query_buffer demo_json (\<lambda>_. 0) 3 (put_tc 3 demo_large demo_worker) = None"
proof -
  let ?w = "put_tc 3 demo_large demo_worker"
  have q: "tc_querybuf demo_large = xhead 1 1 9 (replicate 16 0) XHEADER_MAGIC_NUM 0 1 @ [4] @ replicate 65534 0"
    by (simp add: demo_large_def)
  have l: "XHEAD_SIZE + head_body_len (tc_querybuf demo_large) \<le> length (tc_querybuf demo_large)"
    "65535 + XHEAD_SIZE \<le> length (tc_querybuf demo_large)"
    unfolding demo_large_body_len unfolding q length_append demo_head_length by (simp_all add: XHEAD_SIZE_def)
  have b: "take (head_body_len (tc_querybuf demo_large)) (drop XHEAD_SIZE (tc_querybuf demo_large)) = [4]"
    unfolding demo_large_body_len unfolding q XHEAD_SIZE_def by simp
  obtain r e1 e2 where p: "process_request demo_json (\<lambda>_. 0) 3 (tc_fd demo_large) (take XHEAD_SIZE (tc_querybuf demo_large))
      (take (head_body_len (tc_querybuf demo_large)) (drop XHEAD_SIZE (tc_querybuf demo_large))) ?w
        = Some (0, handled [r] [e1, e2] 3 demo_large ?w)"
    unfolding b by (simp add: process_request_def demo_json_def CMDNO_PUSH_def CMDNO_PULL_def CMDNO_STOPPUSH_def sw_process_stop_pull_def
        sw_process_stop_push_def sw_process_answer_def send_to_rtc_server_def add_reply_def handled_def sw_emit_def put_tc_def)
  have c: "sw_heap ?w 3 = Some demo_large" "tc_bytes_expected demo_large = XHEAD_SIZE"
      "tc_current_state demo_large = STATE_BODY"
      "tc_bytes_processed demo_large = head_body_len (tc_querybuf demo_large) \<or> tc_bytes_processed demo_large = 65535"
    by (simp_all add: demo_large_def new_tcp_connection_def)
  from large_request_never_ends [OF c l p] obtain rl es where rl: "handled [r] [e1, e2] 3 demo_large ?w = handled rl es 3 demo_large ?w"
      and n: "\<forall>n. query_passes (Suc n) demo_json (\<lambda>_. 0) 3 ?w = Some (served_times (Suc n) rl es 3 demo_large ?w)"
        "process_query_buffer demo_json (\<lambda>_. 0) 3 ?w = None" by blast
  have "length rl = 1" "length es = 2" using rl [symmetric] by (simp_all add: handled_eq)
  moreover have "query_passes 3 demo_json (\<lambda>_. 0) 3 ?w = Some (served_times 3 rl es 3 demo_large ?w)"
    using n(1) [THEN spec, of 2] by (simp only: numeral_3_eq_3 numeral_2_eq_2)
  ultimately show ?thesis using n(2) by blast
qed

end
