(* ===== verification/SignalingReply.thy ===== *)
theory SignalingReply
  imports SignalingFraming
begin

text \<open>
  The replies of a signaling connection: what a reply frame holds, that queued replies are written
  out in order whatever the sizes of the partial writes, and the answers that do not fit.
\<close>

definition reply_slice :: "reply \<Rightarrow> bytes" where
  "reply_slice r = take (rp_len r) (rp_buf r)"

definition reply_ok :: "reply \<Rightarrow> bool" where
  "reply_ok r \<longleftrightarrow> 0 < rp_len r \<and> rp_len r \<le> length (rp_buf r)"

lemma length_slice [simp]: "reply_ok r \<Longrightarrow> length (reply_slice r) = rp_len r"
  by (simp add: reply_ok_def reply_slice_def)

definition pending :: "tcp_conn \<Rightarrow> bytes" where
  "pending c = drop (tc_cur_resp_pos c) (concat (map reply_slice (tc_reply_list c)))"

definition replies_ok :: "tcp_conn \<Rightarrow> bool" where
  "replies_ok c \<longleftrightarrow> (\<forall>r \<in> set (tc_reply_list c). reply_ok r)
     \<and> (case tc_reply_list c of [] \<Rightarrow> tc_cur_resp_pos c = 0 | r # _ \<Rightarrow> tc_cur_resp_pos c < rp_len r)"

definition sent_on :: "int \<Rightarrow> worker_event list \<Rightarrow> bytes" where
  "sent_on fd es = concat (map (\<lambda>e. case e of SwSent f bs \<Rightarrow> (if f = fd then bs else []) | _ \<Rightarrow> []) es)"

lemma sent_on_append [simp]: "sent_on fd (es @ es') = sent_on fd es @ sent_on fd es'"
  by (simp add: sent_on_def)

lemma sent_on_simps [simp]:
  "sent_on fd [] = []" "sent_on fd [SwSent fd bs] = bs" "sent_on fd [SwStopWrite f] = []"
  by (simp_all add: sent_on_def)

subsection \<open>The contents of a reply\<close>

lemma unat_u32: "m < 2 ^ 32 \<Longrightarrow> unat (of_nat m :: u32) = m"
  by (simp add: unat_of_nat)

lemma rp_len_make_reply:
  "length json < 2 ^ 32 - 36 \<Longrightarrow> rp_len (make_reply header json) = 36 + length json"
  using unat_u32 [of "XHEAD_SIZE + length json"] by (simp add: make_reply_def XHEAD_SIZE_def)

lemma takeWhile_no_nul: "0 \<notin> set js \<Longrightarrow> takeWhile (\<lambda>b. b \<noteq> 0) js = js"
  by (auto simp: takeWhile_eq_all_conv)

lemma set_body_len_read:
  assumes "length h = 36" "n < 2 ^ 32"
  shows "head_body_len (set_body_len n h @ r) = n"
proof -
  have "take 4 (drop 32 (set_body_len n h @ r)) = le_bytes 4 n"
    using assms(1) by (simp add: set_body_len_def)
  then show ?thesis using assms(2) by (simp add: head_body_len_def le_val_le_bytes)
qed

lemma slice_make_reply:
  assumes "length header = 36" "length json \<le> 4095" "0 \<notin> set json"
  shows "reply_slice (make_reply header json) = set_body_len (length json) header @ json"
    and "reply_ok (make_reply header json)"
proof -
  have l: "rp_len (make_reply header json) = 36 + length json"
    by (rule rp_len_make_reply) (use assms(2) in simp)
  have b: "rp_buf (make_reply header json) = set_body_len (length json) header @ json @ [0]"
    using assms by (simp add: make_reply_def takeWhile_no_nul MAX_RES_BUF_def)
  show "reply_slice (make_reply header json) = set_body_len (length json) header @ json"
    using assms(1) by (simp add: reply_slice_def l b)
  show "reply_ok (make_reply header json)"
    using assms(1) by (simp add: reply_ok_def l b)
qed

text \<open>A reply is a frame the client can parse: its header is that of the request except for
  the body length, which is the length of the JSON text that follows.\<close>

theorem reply_frame:
  assumes "length header = 36" "length json \<le> 4095" "0 \<notin> set json"
  shows "rp_len (make_reply header json) \<le> length (rp_buf (make_reply header json))
     \<and> drop 36 (reply_slice (make_reply header json)) = json
     \<and> head_body_len (reply_slice (make_reply header json)) = length json
     \<and> head_log_id (reply_slice (make_reply header json)) = head_log_id header
     \<and> head_magic_num (reply_slice (make_reply header json)) = head_magic_num header"
proof (intro conjI)
  note s = slice_make_reply [OF assms]
  show "rp_len (make_reply header json) \<le> length (rp_buf (make_reply header json))"
    using s(2) by (simp add: reply_ok_def)
  show "drop 36 (reply_slice (make_reply header json)) = json" using assms(1) by (simp add: s(1))
  show "head_body_len (reply_slice (make_reply header json)) = length json"
    unfolding s(1) by (rule set_body_len_read) (use assms in simp_all)
  show "head_log_id (reply_slice (make_reply header json)) = head_log_id header"
    using assms(1) by (simp add: s(1) head_log_id_def set_body_len_def drop_take)
  show "head_magic_num (reply_slice (make_reply header json)) = head_magic_num header"
    using assms(1) by (simp add: s(1) head_magic_num_def set_body_len_def drop_take)
qed

theorem reply_frame_witness:
  "rp_len (make_reply (replicate 36 7) [1, 2]) \<le> length (rp_buf (make_reply (replicate 36 7) [1, 2]))
     \<and> drop 36 (reply_slice (make_reply (replicate 36 7) [1, 2])) = [1, 2]
     \<and> head_body_len (reply_slice (make_reply (replicate 36 7) [1, 2])) = length [1, 2 :: byte]
     \<and> head_log_id (reply_slice (make_reply (replicate 36 7) [1, 2])) = head_log_id (replicate 36 7)
     \<and> head_magic_num (reply_slice (make_reply (replicate 36 7) [1, 2])) = head_magic_num (replicate 36 7)"
  by (rule reply_frame) simp_all

subsection \<open>Writing\<close>

lemma write_step:
  assumes "sw_heap w a = Some c" "tc_reply_list c = r # rest" "reply_ok r" "1 \<le> n"
  shows "write_replies (SysRet n # results) a now w =
     write_replies results a now
       (put_tc a (if nat n + tc_cur_resp_pos c \<ge> rp_len r
                  then c\<lparr>tc_reply_list := rest, tc_cur_resp_pos := 0\<rparr>
                  else c\<lparr>tc_cur_resp_pos := tc_cur_resp_pos c + nat n\<rparr>)
         (sw_emit [SwSent (tc_fd c) (take (nat n) (drop (tc_cur_resp_pos c) (reply_slice r)))] w))"
  using assms by (subst write_replies.simps) (simp add: sock_write_data_def reply_ok_def reply_slice_def Let_def)

lemma write_again:
  assumes "sw_heap w a = Some c" "replies_ok c" "tc_reply_list c \<noteq> []"
  shows "write_replies (SysErr EAGAIN # results) a now w =
     write_replies results a now (sw_emit [SwSent (tc_fd c) []] w)"
proof -
  obtain r rest where r: "tc_reply_list c = r # rest" using assms(3) by (cases "tc_reply_list c") auto
  have ok: "reply_ok r" "tc_cur_resp_pos c < rp_len r" using assms(2) r by (simp_all add: replies_ok_def)
  have "put_tc a (c\<lparr>tc_cur_resp_pos := tc_cur_resp_pos c + nat 0\<rparr>) (sw_emit [SwSent (tc_fd c) []] w)
      = sw_emit [SwSent (tc_fd c) []] w"
    using assms(1) by (simp add: put_tc_def sw_emit_def fun_upd_idem)
  then show ?thesis
    using assms(1) r ok by (subst write_replies.simps) (simp add: sock_write_data_def reply_ok_def Let_def)
qed

lemma pending_step:
  assumes "replies_ok c" "tc_reply_list c = r # rest" "1 \<le> n"
  defines "c' \<equiv> (if nat n + tc_cur_resp_pos c \<ge> rp_len r
                  then c\<lparr>tc_reply_list := rest, tc_cur_resp_pos := 0\<rparr>
                  else c\<lparr>tc_cur_resp_pos := tc_cur_resp_pos c + nat n\<rparr>)"
  shows "pending c = take (nat n) (drop (tc_cur_resp_pos c) (reply_slice r)) @ pending c'"
    and "replies_ok c'" and "length (pending c') < length (pending c)"
proof -
  have ok: "reply_ok r" "tc_cur_resp_pos c < rp_len r" using assms(1,2) by (simp_all add: replies_ok_def)
  have l: "length (reply_slice r) = rp_len r" using ok(1) by simp
  show eq: "pending c = take (nat n) (drop (tc_cur_resp_pos c) (reply_slice r)) @ pending c'"
  proof (cases "nat n + tc_cur_resp_pos c \<ge> rp_len r")
    case True
    then show ?thesis using assms(2) ok l by (simp add: c'_def pending_def)
  next
    case False
    have "drop (tc_cur_resp_pos c) (reply_slice r) =
        take (nat n) (drop (tc_cur_resp_pos c) (reply_slice r)) @ drop (nat n + tc_cur_resp_pos c) (reply_slice r)"
      by (metis append_take_drop_id drop_drop)
    then show ?thesis using False assms(2) ok l
      by (simp add: c'_def pending_def add.commute)
  qed
  show "replies_ok c'"
  proof (cases "nat n + tc_cur_resp_pos c \<ge> rp_len r")
    case True
    then show ?thesis using assms(1,2)
      by (cases rest) (auto simp: c'_def replies_ok_def reply_ok_def)
  next
    case False
    then show ?thesis using assms(1,2) by (simp add: c'_def replies_ok_def)
  qed
  have "0 < length (take (nat n) (drop (tc_cur_resp_pos c) (reply_slice r)))"
    using assms(3) ok(2) l by simp
  then show "length (pending c') < length (pending c)" by (simp only: eq length_append)
qed

definition written :: "sys_result \<Rightarrow> bool" where
  "written r \<longleftrightarrow> (\<exists>n \<ge> 1. r = SysRet n)"

text \<open>The result when all is written: an empty list, and bytes sent on the connection.\<close>

definition all_written ::
  "sys_result list \<Rightarrow> nat \<Rightarrow> u64 \<Rightarrow> tcp_conn \<Rightarrow> signaling_worker \<Rightarrow> bool" where
  "all_written results a now c w \<longleftrightarrow>
     (\<exists>es. write_replies results a now w =
       Some (put_tc a (c\<lparr>tc_reply_list := [], tc_cur_resp_pos := 0, tc_last_interaction := now\<rparr>)
               (w\<lparr>sw_events := sw_events w @ es\<rparr>))
     \<and> sent_on (tc_fd c) es = pending c)"

lemma all_written_idle:
  assumes "sw_heap w a = Some c" "replies_ok c" "tc_reply_list c = []"
  shows "all_written results a now c w"
proof -
  have "c\<lparr>tc_reply_list := [], tc_cur_resp_pos := 0, tc_last_interaction := now\<rparr> = c\<lparr>tc_last_interaction := now\<rparr>"
    using assms(2,3) by (simp add: replies_ok_def)
  then show ?thesis using assms unfolding all_written_def
    by (subst write_replies.simps)
      (auto simp: sw_emit_def put_tc_def pending_def intro!: exI [of _ "[SwStopWrite (tc_fd c)]"])
qed

text \<open>One call of \<open>write\<close> that sends \<open>bs\<close> and leaves the connection \<open>c'\<close>.\<close>

lemma all_written_step:
  assumes "write_replies (x # results) a now w = write_replies results a now w'"
    and "sw_events w' = sw_events w @ [SwSent (tc_fd c) bs]"
    and "\<And>c0 es. put_tc a c0 (w'\<lparr>sw_events := es\<rparr>) = put_tc a c0 (w\<lparr>sw_events := es\<rparr>)"
    and "all_written results a now c' w'" "tc_fd c' = tc_fd c" "pending c = bs @ pending c'"
    and "c'\<lparr>tc_reply_list := [], tc_cur_resp_pos := 0\<rparr> = c\<lparr>tc_reply_list := [], tc_cur_resp_pos := 0\<rparr>"
  shows "all_written (x # results) a now c w"
proof -
  have u: "c'\<lparr>tc_reply_list := [], tc_cur_resp_pos := 0, tc_last_interaction := now\<rparr>
      = c\<lparr>tc_reply_list := [], tc_cur_resp_pos := 0, tc_last_interaction := now\<rparr>"
    using arg_cong [OF assms(7), of "\<lambda>c. c\<lparr>tc_last_interaction := now\<rparr>"] by simp
  obtain es where es: "write_replies results a now w' =
      Some (put_tc a (c\<lparr>tc_reply_list := [], tc_cur_resp_pos := 0, tc_last_interaction := now\<rparr>)
         (w\<lparr>sw_events := sw_events w @ [SwSent (tc_fd c) bs] @ es\<rparr>))" "sent_on (tc_fd c) es = pending c'"
    using assms(2-5) unfolding all_written_def u by auto
  moreover have "sent_on (tc_fd c) ([SwSent (tc_fd c) bs] @ es) = pending c"
    using es(2) assms(6) by (simp only: sent_on_append sent_on_simps)
  ultimately show ?thesis unfolding all_written_def assms(1) by blast
qed

lemma write_replies_all:
  assumes "sw_heap w a = Some c" "replies_ok c"
    and "\<forall>r \<in> set results. written r \<or> r = SysErr EAGAIN"
    and "length (pending c) \<le> length (filter written results)"
  shows "all_written results a now c w"
  using assms
proof (induction results arbitrary: w c)
  case Nil
  have "tc_reply_list c = []"
  proof (rule ccontr)
    assume "tc_reply_list c \<noteq> []"
    then obtain r rest where r: "tc_reply_list c = r # rest" by (cases "tc_reply_list c") auto
    show False using pending_step(3) [OF Nil.prems(2) r, of 1] Nil.prems(4) by simp
  qed
  then show ?case using all_written_idle [OF Nil.prems(1,2)] by blast
next
  case (Cons x results)
  consider "tc_reply_list c = []" | r rest n where "tc_reply_list c = r # rest" "1 \<le> n" "x = SysRet n"
    | "tc_reply_list c \<noteq> []" "\<not> written x" "x = SysErr EAGAIN"
    using Cons.prems(3) by (cases "tc_reply_list c") (auto simp: written_def)
  then show ?case
  proof cases
    case 1
    then show ?thesis using all_written_idle [OF Cons.prems(1,2)] by blast
  next
    case (2 r rest n)
    have ok: "reply_ok r" using Cons.prems(2) 2 by (simp add: replies_ok_def)
    define c' where "c' = (if nat n + tc_cur_resp_pos c \<ge> rp_len r
                then c\<lparr>tc_reply_list := rest, tc_cur_resp_pos := 0\<rparr>
                else c\<lparr>tc_cur_resp_pos := tc_cur_resp_pos c + nat n\<rparr>)"
    define bs where "bs = take (nat n) (drop (tc_cur_resp_pos c) (reply_slice r))"
    let ?w = "put_tc a c' (sw_emit [SwSent (tc_fd c) bs] w)"
    note ps = pending_step [OF Cons.prems(2) 2(1,2), folded c'_def bs_def]
    show ?thesis
    proof (rule all_written_step [where w' = ?w and c' = c' and bs = bs])
      show "write_replies (x # results) a now w = write_replies results a now ?w"
        unfolding 2(3) bs_def c'_def by (rule write_step [OF Cons.prems(1) 2(1) ok 2(2)])
      show "all_written results a now c' ?w"
        by (rule Cons.IH [OF put_tc_sel(1) ps(2)]) (use ps(3) Cons.prems(3,4) 2 in \<open>auto simp: written_def\<close>)
    qed (use ps(1) in \<open>simp_all add: put_tc_def sw_emit_def c'_def\<close>)
  next
    case 3
    show ?thesis
    proof (rule all_written_step [where w' = "sw_emit [SwSent (tc_fd c) []] w" and c' = c and bs = "[]"])
      show "write_replies (x # results) a now w = write_replies results a now (sw_emit [SwSent (tc_fd c) []] w)"
        unfolding 3(3) by (rule write_again [OF Cons.prems(1,2) 3(1)])
      show "all_written results a now c (sw_emit [SwSent (tc_fd c) []] w)"
        by (rule Cons.IH) (use Cons.prems 3(2) in \<open>simp_all add: sw_emit_def\<close>)
    qed (simp_all add: sw_emit_def put_tc_def)
  qed
qed

lemmas write_replies_done = write_replies_all [unfolded all_written_def]

text \<open>C30: Writing the replies of a connection ends once the socket has accepted as many writes as
  there are bytes to send, however short the writes are and however often the socket is full in
  between; then the queued replies have been sent completely and in order, the queue is empty, and
  nothing else of the worker has changed.\<close>

theorem replies_delivered:
  assumes "0 < fd" "nat fd < length (sw_conns w)" "sw_conns w ! nat fd = Some a"
    and "sw_heap w a = Some c" "tc_fd c = fd" "replies_ok c"
    and "\<forall>r \<in> set results. (\<exists>n \<ge> 1. r = SysRet n) \<or> r = SysErr EAGAIN"
    and "length (pending c) \<le> length (filter written results)"
  shows "\<exists>es. write_reply fd results now w =
     Some (put_tc a (c\<lparr>tc_reply_list := [], tc_cur_resp_pos := 0, tc_last_interaction := now\<rparr>)
             (w\<lparr>sw_events := sw_events w @ es\<rparr>))
     \<and> sent_on fd es = pending c"
proof -
  have "\<forall>r \<in> set results. written r \<or> r = SysErr EAGAIN" using assms(7) by (simp add: written_def)
  from write_replies_done [OF assms(4,6) this assms(8)] show ?thesis
    using assms(1-3,5) by (simp add: write_reply_def)
qed

definition demo_replying :: tcp_conn where
  "demo_replying = (new_tcp_connection 5)\<lparr>
     tc_reply_list := [\<lparr>rp_buf = [1, 2, 0], rp_len = 2\<rparr>, \<lparr>rp_buf = [3, 0], rp_len = 1\<rparr>]\<rparr>"

theorem replies_delivered_witness:
  "\<exists>es. write_reply 5 [SysRet 1, SysErr EAGAIN, SysRet 1, SysRet 1] 400 (put_tc 3 demo_replying demo_worker) =
     Some (put_tc 3 (demo_replying\<lparr>tc_reply_list := [], tc_cur_resp_pos := 0, tc_last_interaction := 400\<rparr>)
             ((put_tc 3 demo_replying demo_worker)\<lparr>sw_events := sw_events (put_tc 3 demo_replying demo_worker) @ es\<rparr>))
     \<and> sent_on 5 es = pending demo_replying"
  by (rule replies_delivered [where a = 3 and c = demo_replying])
    (simp_all add: demo_worker_conn [simplified] demo_replying_def new_tcp_connection_def replies_ok_def reply_ok_def
      pending_def reply_slice_def written_def)

text \<open>While the peer does not read, the worker thread is stuck in \<open>_write_reply\<close>: a full
  socket is retried at once, so with a reply queued the call does not return after any number of
  writes that would block. It is an endless loop and not an error: the call returns as soon as
  enough writes succeed.\<close>

theorem full_socket_blocks_worker:
  assumes "0 < fd" "nat fd < length (sw_conns w)" "sw_conns w ! nat fd = Some a"
    and "sw_heap w a = Some c" "tc_fd c = fd" "replies_ok c" "tc_reply_list c \<noteq> []"
  shows "write_reply fd (replicate k (SysErr EAGAIN)) now w = None
     \<and> write_reply fd (replicate k (SysErr EAGAIN) @ replicate (length (pending c)) (SysRet 1)) now w \<noteq> None"
proof
  obtain r rest where r: "tc_reply_list c = r # rest" using assms(7) by (cases "tc_reply_list c") auto
  have "write_replies (replicate k (SysErr EAGAIN)) a now w = None" using assms(4)
  proof (induction k arbitrary: w)
    case 0
    then show ?case using r by (subst write_replies.simps) simp
  next
    case (Suc k)
    have "sw_heap (sw_emit [SwSent (tc_fd c) []] w) a = Some c" using Suc.prems by (simp add: sw_emit_def)
    then show ?case using write_again [OF Suc.prems assms(6,7)] Suc.IH by simp
  qed
  then show "write_reply fd (replicate k (SysErr EAGAIN)) now w = None"
    using assms(1-3) by (simp add: write_reply_def)
  let ?rs = "replicate k (SysErr EAGAIN) @ replicate (length (pending c)) (SysRet 1)"
  have "filter written ?rs = replicate (length (pending c)) (SysRet 1)"
    by (simp add: written_def)
  then have "length (pending c) \<le> length (filter written ?rs)" by simp
  moreover have "\<forall>r \<in> set ?rs. written r \<or> r = SysErr EAGAIN" by (auto simp: written_def)
  ultimately show "write_reply fd ?rs now w \<noteq> None"
    using write_replies_done [OF assms(4,6), of ?rs now] assms(1-3) by (auto simp: write_reply_def)
qed

theorem full_socket_blocks_worker_witness:
  "write_reply 5 (replicate 7 (SysErr EAGAIN)) 400 (put_tc 3 demo_replying demo_worker) = None
     \<and> write_reply 5 (replicate 7 (SysErr EAGAIN) @ replicate (length (pending demo_replying)) (SysRet 1)) 400
          (put_tc 3 demo_replying demo_worker) \<noteq> None"
  by (rule full_socket_blocks_worker [where a = 3 and c = demo_replying])
    (simp_all add: demo_worker_conn [simplified] demo_replying_def new_tcp_connection_def replies_ok_def reply_ok_def)

subsection \<open>Answers that do not fit\<close>

lemma make_reply_too_long:
  assumes "length header = 36" "4096 < length json" "length json < 2 ^ 32 - 36"
  shows "length (rp_buf (make_reply header json)) < rp_len (make_reply header json)"
proof -
  have "length (rp_buf (make_reply header json)) \<le> 36 + 4096"
    using assms(1) by (simp add: make_reply_def MAX_RES_BUF_def)
  moreover have "rp_len (make_reply header json) = 36 + length json"
    by (rule rp_len_make_reply) (rule assms(3))
  ultimately show ?thesis using assms(2) by linarith
qed

text \<open>An answer whose JSON text is longer than 4096 bytes (an offer with many candidates)
  makes the worker write bytes from beyond the reply's buffer: the slice claims the full length of
  the text, of which the buffer holds 4095 bytes.\<close>

theorem long_answer_overreads:
  assumes "m_conn msg = Some a" "m_fd msg = fd" "0 < fd" "nat fd < length (sw_conns w)"
    and "sw_conns w ! nat fd = Some a" "sw_heap w a = Some c" "tc_fd c = fd" "tc_reply_list c = []"
    and "36 \<le> length (tc_querybuf c)"
    and "4096 < length (js_write js (offer_members msg))" "length (js_write js (offer_members msg)) < 2 ^ 32 - 36"
    and "results \<noteq> []"
  shows "\<exists>w1. response_server_offer js msg w = Some w1 \<and> write_reply fd results now w1 = None"
proof -
  let ?r = "make_reply (take XHEAD_SIZE (tc_querybuf c)) (js_write js (offer_members msg))"
  let ?w = "sw_emit [SwStartWrite fd] (put_tc a (c\<lparr>tc_reply_list := [?r]\<rparr>) w)"
  have "response_server_offer js msg w = Some ?w"
    using assms by (simp add: response_server_offer_def add_reply_def XHEAD_SIZE_def)
  moreover have "write_reply fd results now ?w = None"
  proof -
    have conns: "sw_conns ?w = sw_conns w" by (simp add: sw_emit_def)
    have h: "sw_heap ?w a = Some (c\<lparr>tc_reply_list := [?r]\<rparr>)" by (simp add: sw_emit_def)
    obtain x xs where "results = x # xs" using assms(12) by (cases results) auto
    moreover have "length (rp_buf ?r) < rp_len ?r"
      by (rule make_reply_too_long) (use assms in \<open>simp_all add: XHEAD_SIZE_def\<close>)
    ultimately have "write_replies results a now ?w = None"
      using h by (subst write_replies.simps) (simp add: Let_def)
    then show ?thesis using assms by (simp add: write_reply_def conns)
  qed
  ultimately show ?thesis by blast
qed

definition demo_offer :: rtc_msg where
  "demo_offer = new_rtc_msg\<lparr>m_cmdno := CMDNO_PUSH, m_conn := Some 3, m_fd := 5\<rparr>"

definition demo_wordy :: "bytes json_lib" where
  "demo_wordy = demo_json\<lparr>js_write := (\<lambda>ms. replicate 5000 65)\<rparr>"

theorem long_answer_overreads_witness:
  "\<exists>w1. response_server_offer demo_wordy demo_offer (put_tc 3 demo_served_conn demo_worker) = Some w1
     \<and> write_reply 5 [SysRet 5036] 400 w1 = None"
  by (rule long_answer_overreads [where a = 3 and c = demo_served_conn])
    (simp_all add: demo_offer_def demo_wordy_def demo_served_conn_def demo_worker_conn [simplified]
      new_tcp_connection_def demo_frame_def)

end
