(* ===== verification/SignalingSafety.thy ===== *)
theory SignalingSafety
  imports SignalingReply
begin

text \<open>
  The worker as a state machine: its callbacks are the steps, and the invariant says that the
  connection table, the live connections, the started watchers, the waiting descriptors, the framing
  state and the queued answers agree. Every callback of a started watcher keeps it and returns, within
  the limits that the code does not check; what happens beyond them is shown at the end.
\<close>

definition tc_ok :: "tcp_conn \<Rightarrow> bool" where
  "tc_ok c \<longleftrightarrow> tc_bytes_expected c = XHEAD_SIZE \<and> replies_ok c
     \<and> length (tc_querybuf c) < 65535 + XHEAD_SIZE
     \<and> (if tc_current_state c = STATE_HEAD
        then tc_bytes_processed c = 0 \<and> length (tc_querybuf c) < XHEAD_SIZE
        else XHEAD_SIZE \<le> length (tc_querybuf c)
          \<and> head_magic_num (tc_querybuf c) = XHEADER_MAGIC_NUM
          \<and> (if length (tc_querybuf c) < XHEAD_SIZE + head_body_len (tc_querybuf c)
             then tc_bytes_processed c = head_body_len (tc_querybuf c)
             else tc_bytes_processed c = 65535))"

definition table_ok :: "signaling_worker \<Rightarrow> bool" where
  "table_ok w \<longleftrightarrow>
     (\<forall>a c. sw_heap w a = Some c \<longrightarrow>
        0 \<le> tc_fd c \<and> nat (tc_fd c) < length (sw_conns w) \<and> sw_conns w ! nat (tc_fd c) = Some a)
   \<and> (\<forall>i < length (sw_conns w). \<forall>a. sw_conns w ! i = Some a \<longrightarrow>
        (\<exists>c. sw_heap w a = Some c \<and> tc_fd c = int i))"

definition answer_ok :: "'v json_lib \<Rightarrow> signaling_worker \<Rightarrow> rtc_msg \<Rightarrow> bool" where
  "answer_ok js w msg \<longleftrightarrow>
     length (js_write js (offer_members msg)) \<le> 4095 \<and> 0 \<notin> set (js_write js (offer_members msg))
   \<and> (\<forall>a c. m_conn msg = Some a \<longrightarrow> sw_heap w a = Some c \<longrightarrow> XHEAD_SIZE \<le> length (tc_querybuf c))"

text \<open>
  The watchers the event loop has, as the worker's own calls leave them: the descriptors whose I/O watcher
  was started and not deleted since, and the connections whose timer was.
\<close>

fun io_watch :: "worker_event \<Rightarrow> int set \<Rightarrow> int set" where
  "io_watch (SwStartRead fd) S = insert fd S"
| "io_watch (SwDeleteIo fd) S = S - {fd}"
| "io_watch _ S = S"

fun timer_watch :: "worker_event \<Rightarrow> nat set \<Rightarrow> nat set" where
  "timer_watch (SwStartTimer a usec) S = insert a S"
| "timer_watch (SwDeleteTimer a) S = S - {a}"
| "timer_watch _ S = S"

definition watching :: "worker_event list \<Rightarrow> int set" where
  "watching es = fold io_watch es {}"

definition timing :: "worker_event list \<Rightarrow> nat set" where
  "timing es = fold timer_watch es {}"

lemma watch_quiet_step: "quiet e \<Longrightarrow> io_watch e S = S" "quiet e \<Longrightarrow> timer_watch e T = T"
  by (cases e; simp)+

lemma watch_quiet [simp]:
  "list_all quiet es \<Longrightarrow> fold io_watch es S = S" "list_all quiet es \<Longrightarrow> fold timer_watch es T = T"
  by (induction es) (simp_all add: watch_quiet_step)

lemma watching_append [simp]:
  "watching (es @ es') = fold io_watch es' (watching es)" "timing (es @ es') = fold timer_watch es' (timing es)"
  by (simp_all add: watching_def timing_def)

definition watch_ok :: "signaling_worker \<Rightarrow> bool" where
  "watch_ok w \<longleftrightarrow>
     (\<forall>fd. fd \<in> watching (sw_events w) \<longleftrightarrow>
        0 \<le> fd \<and> nat fd < length (sw_conns w) \<and> sw_conns w ! nat fd \<noteq> None)
   \<and> (\<forall>a. a \<in> timing (sw_events w) \<longleftrightarrow> sw_heap w a \<noteq> None)"

text \<open>The accepted descriptors that wait are different from each other and from those in the table.\<close>

definition waiting_ok :: "nat option list \<Rightarrow> int list \<Rightarrow> bool" where
  "waiting_ok conns fds \<longleftrightarrow> distinct fds \<and> (\<forall>fd \<in> set fds. 0 < fd \<and> (nat fd < length conns \<longrightarrow> conns ! nat fd = None))"

definition w_inv :: "'v json_lib \<Rightarrow> signaling_worker \<Rightarrow> bool" where
  "w_inv js w \<longleftrightarrow> table_ok w \<and> (\<forall>a c. sw_heap w a = Some c \<longrightarrow> tc_ok c)
     \<and> (\<forall>msg \<in> set (sw_q_msg w). answer_ok js w msg) \<and> (\<exists>fds. lfq_rep (sw_q_conn w) fds \<and> waiting_ok (sw_conns w) fds) \<and> watch_ok w"

definition json_small :: "'v json_lib \<Rightarrow> bool" where
  "json_small js \<longleftrightarrow> (\<forall>ret. length (js_write js (result_members ret)) \<le> 4095
     \<and> 0 \<notin> set (js_write js (result_members ret)))"

subsection \<open>Small changes\<close>

lemma inv_heapD: "w_inv js w \<Longrightarrow> sw_heap w a = Some c \<Longrightarrow> tc_ok c"
  unfolding w_inv_def by blast

lemma inv_tableD:
  assumes "w_inv js w" "sw_heap w a = Some c"
  shows "0 \<le> tc_fd c" "nat (tc_fd c) < length (sw_conns w)" "sw_conns w ! nat (tc_fd c) = Some a"
  using assms by (auto simp: w_inv_def table_ok_def)

lemma inv_entryD:
  "w_inv js w \<Longrightarrow> i < length (sw_conns w) \<Longrightarrow> sw_conns w ! i = Some a \<Longrightarrow>
     \<exists>c. sw_heap w a = Some c \<and> tc_fd c = int i"
  unfolding w_inv_def table_ok_def by blast

lemma inv_quiet [simp]: "list_all quiet es \<Longrightarrow> w_inv js (w\<lparr>sw_events := sw_events w @ es\<rparr>) = w_inv js w"
  by (simp add: w_inv_def table_ok_def answer_ok_def watch_ok_def)

lemma inv_emit [simp]: "list_all quiet es \<Longrightarrow> w_inv js (sw_emit es w) = w_inv js w"
  by (simp add: sw_emit_def)

lemma inv_watchD:
  assumes "w_inv js w"
  shows "fd \<in> watching (sw_events w) \<longleftrightarrow> 0 \<le> fd \<and> nat fd < length (sw_conns w) \<and> sw_conns w ! nat fd \<noteq> None"
    "a \<in> timing (sw_events w) \<longleftrightarrow> sw_heap w a \<noteq> None"
  using assms by (simp_all add: w_inv_def watch_ok_def)

lemma emit_sel [simp]:
  "sw_heap (sw_emit es w) = sw_heap w" "sw_conns (sw_emit es w) = sw_conns w"
  "sw_q_msg (sw_emit es w) = sw_q_msg w" "sw_q_conn (sw_emit es w) = sw_q_conn w"
  by (simp_all add: sw_emit_def)

lemma table_put:
  assumes "table_ok w" "sw_heap w a = Some c" "tc_fd c' = tc_fd c"
  shows "table_ok (put_tc a c' w)"
  using assms unfolding table_ok_def put_tc_def
  by (auto split: if_splits)

lemma inv_put:
  assumes "w_inv js w" "sw_heap w a = Some c" "tc_ok c'" "tc_fd c' = tc_fd c"
    and "length (tc_querybuf c) \<le> length (tc_querybuf c')"
  shows "w_inv js (put_tc a c' w)"
proof -
  have "table_ok (put_tc a c' w)" using table_put assms by (auto simp: w_inv_def)
  moreover have "\<forall>b d. sw_heap (put_tc a c' w) b = Some d \<longrightarrow> tc_ok d"
    using assms(1,3) by (auto simp: put_tc_def w_inv_def)
  moreover have "\<forall>msg \<in> set (sw_q_msg (put_tc a c' w)). answer_ok js (put_tc a c' w) msg"
    using assms(1,2,5) by (fastforce simp: put_tc_def w_inv_def answer_ok_def)
  moreover have "\<exists>fds. lfq_rep (sw_q_conn (put_tc a c' w)) fds \<and> waiting_ok (sw_conns (put_tc a c' w)) fds"
    using assms(1) by (simp add: put_tc_def w_inv_def)
  moreover have "watch_ok (put_tc a c' w)"
    using assms(1,2) by (auto simp: w_inv_def watch_ok_def put_tc_def)
  ultimately show ?thesis by (simp add: w_inv_def)
qed

lemma table_remove:
  assumes "table_ok w" "sw_heap w a = Some c"
  shows "table_ok (w\<lparr>sw_conns := (sw_conns w)[nat (tc_fd c) := None], sw_heap := (sw_heap w)(a := None)\<rparr>)"
proof -
  have live: "\<And>b d. sw_heap w b = Some d \<Longrightarrow>
      0 \<le> tc_fd d \<and> nat (tc_fd d) < length (sw_conns w) \<and> sw_conns w ! nat (tc_fd d) = Some b"
    and tab: "\<And>i b. i < length (sw_conns w) \<Longrightarrow> sw_conns w ! i = Some b \<Longrightarrow>
      \<exists>d. sw_heap w b = Some d \<and> tc_fd d = int i"
    using assms(1) by (auto simp: table_ok_def)
  have other: "nat (tc_fd d) \<noteq> nat (tc_fd c)" if "sw_heap w b = Some d" "b \<noteq> a" for b d
    using live [OF that(1)] live [OF assms(2)] that(2) by auto
  have fd: "0 \<le> tc_fd c" using live [OF assms(2)] by simp
  let ?conns = "(sw_conns w)[nat (tc_fd c) := None]"
  have "\<exists>d. ((sw_heap w)(a := None)) b = Some d \<and> tc_fd d = int i"
    if l: "i < length (sw_conns w)" and n: "?conns ! i = Some b" for i b
  proof -
    have i: "i \<noteq> nat (tc_fd c)" using l n by auto
    then have "sw_conns w ! i = Some b" using n by simp
    then obtain d where d: "sw_heap w b = Some d" "tc_fd d = int i" using tab l by blast
    moreover have "b \<noteq> a" using d assms(2) i by auto
    ultimately show ?thesis by simp
  qed
  moreover have "0 \<le> tc_fd d \<and> nat (tc_fd d) < length (sw_conns w) \<and> ?conns ! nat (tc_fd d) = Some b"
    if "((sw_heap w)(a := None)) b = Some d" for b d
  proof -
    have b: "b \<noteq> a" "sw_heap w b = Some d" using that by (auto split: if_splits)
    then show ?thesis using live [OF b(2)] other [OF b(2,1)] by simp
  qed
  ultimately show ?thesis by (simp add: table_ok_def)
qed

lemma table_events: "table_ok w \<Longrightarrow> w' = w\<lparr>sw_events := es\<rparr> \<Longrightarrow> table_ok w'"
  by (simp add: table_ok_def)

lemma close_conn_eq:
  assumes "sw_heap w a = Some c" "0 \<le> tc_fd c" "nat (tc_fd c) < length (sw_conns w)"
  shows "close_conn a w = Some (w\<lparr>sw_conns := (sw_conns w)[nat (tc_fd c) := None],
     sw_heap := (sw_heap w)(a := None),
     sw_events := sw_events w @ [SwClose (tc_fd c), SwDeleteTimer a, SwDeleteIo (tc_fd c)]\<rparr>)"
  using assms by (simp add: close_conn_def remove_conn_def sw_emit_def)

lemma closed_watch:
  assumes "w_inv js w" "sw_heap w a = Some c" "list_all quiet es"
  shows "watch_ok (w\<lparr>sw_conns := (sw_conns w)[nat (tc_fd c) := None], sw_heap := (sw_heap w)(a := None),
     sw_events := sw_events w @ es @ [SwClose (tc_fd c), SwDeleteTimer a, SwDeleteIo (tc_fd c)]\<rparr>)"
proof -
  note fd = inv_tableD [OF assms(1,2)]
  have "f \<in> watching (sw_events w) - {tc_fd c} \<longleftrightarrow> 0 \<le> f \<and> nat f < length (sw_conns w)
      \<and> (sw_conns w)[nat (tc_fd c) := None] ! nat f \<noteq> None" for f
    using inv_watchD(1) [OF assms(1), of f] fd(1) by (cases "nat f = nat (tc_fd c)") auto
  moreover have "b \<in> timing (sw_events w) - {a} \<longleftrightarrow> ((sw_heap w)(a := None)) b \<noteq> None" for b
    using inv_watchD(2) [OF assms(1), of b] by auto
  ultimately show ?thesis using assms(3) by (simp add: watch_ok_def)
qed

lemma waiting_removed: "waiting_ok conns fds \<Longrightarrow> waiting_ok (conns[k := None]) fds"
proof -
  assume w: "waiting_ok conns fds"
  have "conns[k := None] ! i = None" if "conns ! i = None" "i < length conns" for i
    using that by (cases "i = k") simp_all
  then show ?thesis using w unfolding waiting_ok_def length_list_update by blast
qed

lemma closed_inv:
  assumes "w_inv js w" "sw_heap w a = Some c" "list_all quiet es"
  shows "w_inv js (w\<lparr>sw_conns := (sw_conns w)[nat (tc_fd c) := None], sw_heap := (sw_heap w)(a := None),
     sw_events := sw_events w @ es @ [SwClose (tc_fd c), SwDeleteTimer a, SwDeleteIo (tc_fd c)]\<rparr>)"
proof -
  have "\<exists>fds. lfq_rep (sw_q_conn w) fds \<and> waiting_ok ((sw_conns w)[nat (tc_fd c) := None]) fds"
    using assms(1) waiting_removed unfolding w_inv_def by blast
  moreover have "table_ok (w\<lparr>sw_conns := (sw_conns w)[nat (tc_fd c) := None], sw_heap := (sw_heap w)(a := None), sw_events := es'\<rparr>)" for es'
  proof -
    have "table_ok w" using assms(1) unfolding w_inv_def by blast
    from table_remove [OF this assms(2)] show ?thesis by (rule table_events) simp
  qed
  moreover have "\<forall>b d. ((sw_heap w)(a := None)) b = Some d \<longrightarrow> tc_ok d" using inv_heapD [OF assms(1)] by simp
  moreover have "\<forall>msg \<in> set (sw_q_msg w). answer_ok js w msg" using assms(1) by (simp add: w_inv_def)
  ultimately show ?thesis using closed_watch [OF assms] by (simp add: w_inv_def answer_ok_def)
qed

lemma close_conn_inv:
  assumes "w_inv js w" "sw_heap w a = Some c"
  shows "\<exists>w1. close_conn a w = Some w1 \<and> w_inv js w1"
  using close_conn_eq [OF assms(2) inv_tableD(1,2) [OF assms]] closed_inv [OF assms, of "[]"] by simp

subsection \<open>Reading\<close>

text \<open>A connection that is not served yet is the state after its bytes.\<close>

lemma tc_ok_conn_after:
  assumes "tc_ok c" "req_incomplete (tc_querybuf c)"
  shows "c = conn_after c (tc_last_interaction c) (tc_querybuf c)"
proof (cases "tc_current_state c")
  case STATE_HEAD
  then have "tc_bytes_processed c = 0" "length (tc_querybuf c) < XHEAD_SIZE"
    using assms(1) by (simp_all add: tc_ok_def)
  then show ?thesis using STATE_HEAD by (simp add: conn_after_def)
next
  case STATE_BODY
  then have l: "\<not> length (tc_querybuf c) < XHEAD_SIZE" using assms(1) by (simp add: tc_ok_def)
  then have "tc_bytes_processed c = head_body_len (tc_querybuf c)"
    using assms STATE_BODY by (simp add: tc_ok_def req_incomplete_def)
  then show ?thesis using STATE_BODY l by (simp add: conn_after_def)
qed

lemma replies_ok_cong:
  "tc_reply_list c' = tc_reply_list c \<Longrightarrow> tc_cur_resp_pos c' = tc_cur_resp_pos c \<Longrightarrow> replies_ok c' = replies_ok c"
  by (cases "tc_reply_list c") (simp_all add: replies_ok_def)

lemma tc_ok_after:
  assumes "replies_ok c" "tc_bytes_expected c = XHEAD_SIZE" "length p < 65535 + XHEAD_SIZE"
    and "req_incomplete p" "XHEAD_SIZE \<le> length p \<Longrightarrow> head_magic_num p = XHEADER_MAGIC_NUM"
  shows "tc_ok (conn_after c now p)"
proof -
  have "replies_ok (conn_after c now p)"
    using assms(1) replies_ok_cong [of "conn_after c now p" c] by (simp add: conn_after_def)
  then show ?thesis using assms(2-)
    by (cases "length p < XHEAD_SIZE") (simp_all add: tc_ok_def conn_after_def req_incomplete_def)
qed

lemma tc_ok_served:
  assumes "tc_bytes_expected c = XHEAD_SIZE" "replies_ok c" "length (tc_querybuf c) < 65535 + XHEAD_SIZE"
    and "\<not> req_incomplete (tc_querybuf c)" "head_magic_num (tc_querybuf c) = XHEADER_MAGIC_NUM"
    and "tc_current_state c = STATE_BODY" "tc_bytes_processed c = 65535"
  shows "tc_ok c"
  using assms by (simp add: tc_ok_def req_incomplete_def)

lemma replies_ok_append:
  assumes "replies_ok c" "\<forall>r \<in> set rs. reply_ok r"
  shows "replies_ok (c\<lparr>tc_reply_list := tc_reply_list c @ rs\<rparr>)"
  using assms by (cases "tc_reply_list c"; cases rs) (auto simp: replies_ok_def reply_ok_def)

text \<open>What the query loop does with the connection, before the caller may close it.\<close>

definition query_effect :: "nat \<Rightarrow> tcp_conn \<Rightarrow> signaling_worker \<Rightarrow> int \<Rightarrow> signaling_worker \<Rightarrow> bool" where
  "query_effect a c w ret w1 \<longleftrightarrow>
     (\<exists>c1 es. w1 = (put_tc a c1 w)\<lparr>sw_events := sw_events w @ es\<rparr> \<and> tc_fd c1 = tc_fd c
        \<and> length (tc_querybuf c) \<le> length (tc_querybuf c1) \<and> (ret = 0 \<longrightarrow> tc_ok c1) \<and> list_all quiet es)"

lemma query_effectI:
  "tc_fd c1 = tc_fd c \<Longrightarrow> length (tc_querybuf c) \<le> length (tc_querybuf c1) \<Longrightarrow> (ret = 0 \<Longrightarrow> tc_ok c1)
     \<Longrightarrow> list_all quiet es \<Longrightarrow> query_effect a c w ret ((put_tc a c1 w)\<lparr>sw_events := sw_events w @ es\<rparr>)"
  unfolding query_effect_def by blast

lemma query_effect_put:
  assumes "tc_fd c1 = tc_fd c" "length (tc_querybuf c) \<le> length (tc_querybuf c1)" "ret = 0 \<Longrightarrow> tc_ok c1"
  shows "query_effect a c w ret (put_tc a c1 w)"
proof -
  have "put_tc a c1 w = (put_tc a c1 w)\<lparr>sw_events := sw_events w @ []\<rparr>" by (simp add: put_tc_def)
  moreover have "list_all quiet []" by simp
  ultimately show ?thesis using assms unfolding query_effect_def by blast
qed

text \<open>
  A piece of input on a connection in each of its situations: after a request was served, a head with
  the wrong magic number, a request that is still incomplete, and one that the piece completes.
\<close>

abbreviation with_input :: "tcp_conn \<Rightarrow> u64 \<Rightarrow> bytes \<Rightarrow> tcp_conn" where
  "with_input c now x \<equiv> c\<lparr>tc_last_interaction := now, tc_querybuf := tc_querybuf c @ x\<rparr>"

lemma query_served:
  assumes ok: "tc_ok c" and len: "length (tc_querybuf c @ x) < 65535 + XHEAD_SIZE"
    and served: "\<not> req_incomplete (tc_querybuf c)"
  shows "process_query_buffer js rs a (put_tc a (with_input c now x) w) = Some (0, put_tc a (with_input c now x) w)
     \<and> query_effect a c w 0 (put_tc a (with_input c now x) w)"
proof -
  let ?p = "tc_querybuf c" and ?c0 = "with_input c now x"
  have e: "tc_bytes_expected c = XHEAD_SIZE" and rok: "replies_ok c" using ok by (simp_all add: tc_ok_def)
  have s: "tc_bytes_processed c = 65535" "tc_current_state c = STATE_BODY"
      "XHEAD_SIZE \<le> length ?p" "head_magic_num ?p = XHEADER_MAGIC_NUM"
    using served ok by (cases "tc_current_state c"; simp add: tc_ok_def req_incomplete_def)+
  have "\<not> req_incomplete (?p @ x)" "head_magic_num (?p @ x) = XHEADER_MAGIC_NUM"
    using served s head_prefix [OF s(3), of x] by (auto simp: req_incomplete_def)
  moreover have "replies_ok ?c0" using rok replies_ok_cong [of ?c0 c] by simp
  ultimately have "tc_ok ?c0" using e s len by (intro tc_ok_served) simp_all
  then have "query_effect a c w 0 (put_tc a ?c0 w)" by (intro query_effect_put) simp_all
  moreover have "process_query_buffer js rs a (put_tc a ?c0 w) = Some (0, put_tc a ?c0 w)"
    by (rule served_conn_waits [OF put_tc_sel(1)]) (use e s len in simp_all)
  ultimately show ?thesis by blast
qed

lemma query_bad_magic:
  assumes ok: "tc_ok c" and "XHEAD_SIZE \<le> length (tc_querybuf c @ x)" "head_magic_num (tc_querybuf c @ x) \<noteq> XHEADER_MAGIC_NUM"
  shows "process_query_buffer js rs a (put_tc a (with_input c now x) w) = Some (- 1, put_tc a (with_input c now x) w)
     \<and> query_effect a c w (- 1) (put_tc a (with_input c now x) w)"
proof -
  have "tc_current_state c = STATE_HEAD"
  proof (rule ccontr)
    assume "tc_current_state c \<noteq> STATE_HEAD"
    then have "XHEAD_SIZE \<le> length (tc_querybuf c)" "head_magic_num (tc_querybuf c) = XHEADER_MAGIC_NUM"
      using ok by (auto simp: tc_ok_def)
    then show False using assms(3) head_prefix(2) [of "tc_querybuf c" x] by simp
  qed
  moreover have "XHEADER_MAGIC_NUM \<noteq> head_magic_num (tc_querybuf c @ x)" using assms(3) by auto
  moreover have "query_effect a c w (- 1) (put_tc a (with_input c now x) w)"
    by (rule query_effect_put) simp_all
  ultimately show ?thesis
    using query_head [OF put_tc_sel(1), of "with_input c now x" js rs a w] assms(2) ok by (simp add: tc_ok_def)
qed

lemma query_piece:
  assumes ok: "tc_ok c" and len: "length (tc_querybuf c @ x) < 65535 + XHEAD_SIZE" and inc: "req_incomplete (tc_querybuf c)"
    and magic: "XHEAD_SIZE \<le> length (tc_querybuf c @ x) \<Longrightarrow> head_magic_num (tc_querybuf c @ x) = XHEADER_MAGIC_NUM"
  defines "q \<equiv> tc_querybuf c @ x"
  shows "process_query_buffer js rs a (put_tc a (with_input c now x) w) =
     (if req_incomplete q then Some (0, put_tc a (conn_after c now q) w)
      else finish_request a (process_request js rs a (tc_fd c) (take XHEAD_SIZE q)
         (take (head_body_len q) (drop XHEAD_SIZE q)) (put_tc a (conn_after c now q) w)))"
proof -
  have ca: "c = conn_after c (tc_last_interaction c) (tc_querybuf c)" using tc_ok_conn_after [OF ok inc] .
  have h: "sw_heap (put_tc a (with_input c now x) w) a
      = Some ((conn_after c (tc_last_interaction c) (tc_querybuf c))\<lparr>tc_last_interaction := now, tc_querybuf := tc_querybuf c @ x\<rparr>)"
    using ca by simp
  have e: "tc_bytes_expected c = XHEAD_SIZE" using ok by (simp add: tc_ok_def)
  show ?thesis
    using query_after_piece [OF e len _ _ h, of js rs] inc magic by (simp add: q_def req_incomplete_def)
qed

lemma query_completed:
  assumes js: "json_small js" and ok: "tc_ok c" and len: "length q < 65535 + XHEAD_SIZE"
    and longer: "length (tc_querybuf c) \<le> length q" and whole: "\<not> req_incomplete q" "head_magic_num q = XHEADER_MAGIC_NUM"
  shows "\<exists>ret w1. finish_request a (process_request js rs a (tc_fd c) (take XHEAD_SIZE q) body (put_tc a (conn_after c now q) w))
       = Some (ret, w1) \<and> query_effect a c w ret w1"
proof -
  have rok: "replies_ok c" and e: "tc_bytes_expected c = XHEAD_SIZE" using ok by (simp_all add: tc_ok_def)
  have "36 \<le> length q" using whole by (simp add: req_incomplete_def XHEAD_SIZE_def)
  then have "length (take XHEAD_SIZE q) = 36" by (simp only: length_take XHEAD_SIZE_def min_absorb2)
  then have Pr: "reply_ok (make_reply (take XHEAD_SIZE q) (js_write js (result_members ret)))" for ret
    by (rule slice_make_reply(2)) (use js in \<open>simp_all add: json_small_def\<close>)
  let ?w = "put_tc a (conn_after c now q) w"
  obtain ret w1 where r: "process_request js rs a (tc_fd c) (take XHEAD_SIZE q) body ?w = Some (ret, w1)"
    and eff: "request_effect reply_ok a (conn_after c now q) ?w w1"
    using process_request_effect [of ?w a "conn_after c now q" reply_ok, OF put_tc_sel(1) Pr] by blast
  then obtain rl es where w1: "w1 = ?w\<lparr>sw_heap := (sw_heap ?w)(a \<mapsto>
        (conn_after c now q)\<lparr>tc_reply_list := tc_reply_list c @ rl\<rparr>),
        sw_events := sw_events ?w @ es\<rparr>" "\<forall>r \<in> set rl. reply_ok r" "list_all quiet es"
    by (auto simp: request_effect_def)
  let ?c1 = "(conn_after c now q)\<lparr>tc_reply_list := tc_reply_list c @ rl\<rparr>"
  let ?c2 = "?c1\<lparr>tc_bytes_processed := 65535\<rparr>"
  have w1': "w1 = (put_tc a ?c1 w)\<lparr>sw_events := sw_events w @ es\<rparr>"
    unfolding w1(1) by (simp add: put_tc_def)
  show ?thesis
  proof (cases "ret = 0")
    case True
    have st: "tc_current_state ?c2 = STATE_BODY" "tc_cur_resp_pos ?c2 = tc_cur_resp_pos c"
      using whole by (simp_all add: conn_after_def req_incomplete_def)
    have "replies_ok ?c2"
      using replies_ok_append [OF rok w1(2)] replies_ok_cong [of ?c2 "c\<lparr>tc_reply_list := tc_reply_list c @ rl\<rparr>"] st by simp
    then have "tc_ok ?c2" by (rule tc_ok_served [rotated]) (use e len whole st in simp_all)
    then have "query_effect a c w 0 ((put_tc a ?c2 w)\<lparr>sw_events := sw_events w @ es\<rparr>)"
      by (intro query_effectI) (use longer w1(3) in simp_all)
    moreover have "finish_request a (Some (ret, w1)) = Some (0, (put_tc a ?c2 w)\<lparr>sw_events := sw_events w @ es\<rparr>)"
      using True by (simp add: finish_request_def w1' put_tc_def)
    ultimately show ?thesis unfolding r by blast
  next
    case False
    have "query_effect a c w (- 1) w1" unfolding w1' by (rule query_effectI) (use longer w1(3) in simp_all)
    then show ?thesis using False r by (simp add: finish_request_def)
  qed
qed

lemma query_loop_returns:
  assumes js: "json_small js" and ok: "tc_ok c" and x: "length (tc_querybuf c) + length x < 65535 + XHEAD_SIZE"
  shows "\<exists>ret w1. process_query_buffer js rs a (put_tc a (with_input c now x) w) = Some (ret, w1) \<and> query_effect a c w ret w1"
proof -
  let ?q = "tc_querybuf c @ x"
  have len: "length ?q < 65535 + XHEAD_SIZE" using x by simp
  consider "\<not> req_incomplete (tc_querybuf c)" | "XHEAD_SIZE \<le> length ?q" "head_magic_num ?q \<noteq> XHEADER_MAGIC_NUM"
    | "req_incomplete (tc_querybuf c)" "XHEAD_SIZE \<le> length ?q \<Longrightarrow> head_magic_num ?q = XHEADER_MAGIC_NUM"
    by blast
  then show ?thesis
  proof cases
    case 1
    then show ?thesis using query_served [OF ok len] by blast
  next
    case 2
    then show ?thesis using query_bad_magic [OF ok] by blast
  next
    case 3
    note q = query_piece [OF ok len 3, of js rs a now w]
    show ?thesis
    proof (cases "req_incomplete ?q")
      case True
      have "tc_ok (conn_after c now ?q)"
        by (rule tc_ok_after) (use ok len True 3 in \<open>auto simp: tc_ok_def\<close>)
      then have "query_effect a c w 0 (put_tc a (conn_after c now ?q) w)" by (intro query_effect_put) simp_all
      moreover have "process_query_buffer js rs a (put_tc a (with_input c now x) w) = Some (0, put_tc a (conn_after c now ?q) w)"
        using True by (simp only: q if_True)
      ultimately show ?thesis by blast
    next
      case False
      then have "XHEAD_SIZE \<le> length ?q" by (simp add: req_incomplete_def)
      then show ?thesis using q query_completed [OF js ok len _ False] 3(2) False by simp
    qed
  qed
qed

subsection \<open>The callbacks keep the invariant\<close>

lemma query_effect_inv:
  assumes "w_inv js w" "sw_heap w a = Some c" "query_effect a c w ret w1"
  shows "ret = 0 \<longrightarrow> w_inv js w1" "ret \<noteq> 0 \<longrightarrow> (\<exists>w2. close_conn a w1 = Some w2 \<and> w_inv js w2)"
proof -
  obtain c1 es where c1: "w1 = (put_tc a c1 w)\<lparr>sw_events := sw_events w @ es\<rparr>" "tc_fd c1 = tc_fd c"
      "length (tc_querybuf c) \<le> length (tc_querybuf c1)" "ret = 0 \<longrightarrow> tc_ok c1" "list_all quiet es"
    using assms(3) by (auto simp: query_effect_def)
  show "ret = 0 \<longrightarrow> w_inv js w1"
  proof
    assume "ret = 0"
    then have "w_inv js (put_tc a c1 w)" using inv_put [OF assms(1,2) _ c1(2,3)] c1(4) by simp
    then show "w_inv js w1" unfolding c1(1) using inv_quiet [OF c1(5), of js "put_tc a c1 w"] by simp
  qed
  show "ret \<noteq> 0 \<longrightarrow> (\<exists>w2. close_conn a w1 = Some w2 \<and> w_inv js w2)"
  proof
    have t: "0 \<le> tc_fd c" "nat (tc_fd c) < length (sw_conns w)" using inv_tableD [OF assms(1,2)] by simp_all
    have h: "sw_heap w1 a = Some c1" and conns: "sw_conns w1 = sw_conns w" unfolding c1(1) by simp_all
    have cl: "close_conn a w1 = Some (w1\<lparr>sw_conns := (sw_conns w)[nat (tc_fd c) := None],
        sw_heap := (sw_heap w1)(a := None),
        sw_events := sw_events w1 @ [SwClose (tc_fd c), SwDeleteTimer a, SwDeleteIo (tc_fd c)]\<rparr>)"
      using close_conn_eq [OF h] t c1(2) conns by simp
    have "w1\<lparr>sw_conns := (sw_conns w)[nat (tc_fd c) := None], sw_heap := (sw_heap w1)(a := None),
        sw_events := es'\<rparr> =
      w\<lparr>sw_conns := (sw_conns w)[nat (tc_fd c) := None], sw_heap := (sw_heap w)(a := None),
        sw_events := es'\<rparr>" for es'
      unfolding c1(1) by (simp add: put_tc_def)
    moreover have "sw_events w1 = sw_events w @ es" unfolding c1(1) by simp
    ultimately show "\<exists>w2. close_conn a w1 = Some w2 \<and> w_inv js w2"
      using cl closed_inv [OF assms(1,2) c1(5)] by simp
  qed
qed

lemma tc_ok_time [simp]: "tc_ok (c\<lparr>tc_last_interaction := now\<rparr>) = tc_ok c"
  using replies_ok_cong [of "c\<lparr>tc_last_interaction := now\<rparr>" c] by (simp add: tc_ok_def)

lemma read_query_inv:
  assumes "json_small js" "w_inv js w"
    and "0 \<le> fd \<Longrightarrow> nat fd < length (sw_conns w) \<Longrightarrow> \<exists>a c. sw_conns w ! nat fd = Some a
        \<and> sw_heap w a = Some c \<and> length (tc_querybuf c) + length (read_bytes r) < 65535 + XHEAD_SIZE"
  shows "\<exists>w1. read_query js rs fd r now w = Some w1 \<and> w_inv js w1"
proof (cases "0 \<le> fd \<and> nat fd < length (sw_conns w)")
  case False
  then show ?thesis using assms(2) by (auto simp: read_query_def)
next
  case inside: True
  then obtain a c where c: "sw_conns w ! nat fd = Some a" "sw_heap w a = Some c"
      "length (tc_querybuf c) + length (read_bytes r) < 65535 + XHEAD_SIZE"
    using assms(3) by blast
  have ok: "tc_ok c" by (rule inv_heapD [OF assms(2) c(2)])
  let ?c1 = "c\<lparr>tc_last_interaction := now\<rparr>"
  show ?thesis
  proof (cases "read_code r = - 1")
    case True
    have "w_inv js (put_tc a ?c1 w)" by (rule inv_put [OF assms(2) c(2)]) (use ok in simp_all)
    then obtain w1 where "close_conn a (put_tc a ?c1 w) = Some w1" "w_inv js w1"
      using close_conn_inv put_tc_sel(1) by blast
    then show ?thesis using True c inside
      by (simp add: read_query_def Let_def)
  next
    case False
    define x where "x = (if read_code r > 0 then read_bytes r else [])"
    have lx: "length (tc_querybuf c) + length x < 65535 + XHEAD_SIZE" using c(3) by (simp add: x_def)
    obtain ret w1 where q: "process_query_buffer js rs a
        (put_tc a (c\<lparr>tc_last_interaction := now, tc_querybuf := tc_querybuf c @ x\<rparr>) w) = Some (ret, w1)"
        "query_effect a c w ret w1"
      using query_loop_returns [OF assms(1) ok lx] by blast
    have "read_query js rs fd r now w = (if ret \<noteq> 0 then close_conn a w1 else Some w1)"
      using read_query_kept [of fd w a c r js rs now, folded x_def] c(1,2) inside False q(1)
      by (simp add: after_query_def)
    then show ?thesis using query_effect_inv [OF assms(2) c(2) q(2)] by auto
  qed
qed

text \<open>The results of the \<open>write\<close> calls: enough progress to finish, or an error.\<close>

fun write_fails :: "sys_result list \<Rightarrow> bool" where
  "write_fails [] = False"
| "write_fails (SysErr e # rs) = (e \<noteq> EAGAIN \<or> write_fails rs)"
| "write_fails (SysRet n # rs) = (1 \<le> n \<and> write_fails rs)"

definition write_ends :: "sys_result list \<Rightarrow> tcp_conn \<Rightarrow> bool" where
  "write_ends results c \<longleftrightarrow>
     (\<forall>r \<in> set results. written r \<or> r = SysErr EAGAIN) \<and> length (pending c) \<le> length (filter written results)
   \<or> write_fails results"

lemma written_simps [simp]: "written (SysRet n) = (1 \<le> n)" "\<not> written (SysErr e)"
  by (simp_all add: written_def)

lemma tc_ok_replies:
  assumes "tc_ok c" "replies_ok c'" "tc_bytes_expected c' = tc_bytes_expected c" "tc_querybuf c' = tc_querybuf c"
    and "tc_current_state c' = tc_current_state c" "tc_bytes_processed c' = tc_bytes_processed c"
  shows "tc_ok c'"
  using assms by (simp add: tc_ok_def)

text \<open>A call of \<open>write\<close> on a connection with replies: it takes bytes, or it fails and the connection closes.\<close>

lemma write_data_inv:
  assumes "w_inv js w" "sw_heap w a = Some c" "tc_reply_list c = r # rest" "1 \<le> n"
    and "write_ends (SysRet n # results) c"
  obtains w' c' where "write_replies (SysRet n # results) a now w = write_replies results a now w'"
    "w_inv js w'" "sw_heap w' a = Some c'" "write_ends results c'"
proof -
  have ok: "tc_ok c" "replies_ok c" "reply_ok r"
    using inv_heapD [OF assms(1,2)] assms(3) by (simp_all add: tc_ok_def replies_ok_def)
  define c' where "c' = (if nat n + tc_cur_resp_pos c \<ge> rp_len r
              then c\<lparr>tc_reply_list := rest, tc_cur_resp_pos := 0\<rparr>
              else c\<lparr>tc_cur_resp_pos := tc_cur_resp_pos c + nat n\<rparr>)"
  let ?w = "put_tc a c' (sw_emit [SwSent (tc_fd c) (take (nat n) (drop (tc_cur_resp_pos c) (reply_slice r)))] w)"
  note ps = pending_step [OF ok(2) assms(3,4), folded c'_def]
  show ?thesis
  proof (rule that [of ?w c'])
    show "w_inv js ?w"
      by (rule inv_put [where c = c]) (use assms ps(2) ok in \<open>auto simp: c'_def intro: tc_ok_replies\<close>)
    show "write_ends results c'" using assms(4,5) ps(3) by (auto simp: write_ends_def)
    show "write_replies (SysRet n # results) a now w = write_replies results a now ?w"
      unfolding c'_def by (rule write_step [OF assms(2,3) ok(3) assms(4)])
  qed simp
qed

lemma write_fails_inv:
  assumes "w_inv js w" "sw_heap w a = Some c" "tc_reply_list c = r # rest" "e \<noteq> EAGAIN"
  shows "\<exists>w1. write_replies (SysErr e # results) a now w = Some w1 \<and> w_inv js w1"
proof -
  have "reply_ok r" using inv_heapD [OF assms(1,2)] assms(3) by (simp add: tc_ok_def replies_ok_def)
  then have "write_replies (SysErr e # results) a now w = close_conn a w"
    using assms(2-4) by (subst write_replies.simps) (simp add: sock_write_data_def reply_ok_def Let_def)
  then show ?thesis using close_conn_inv [OF assms(1,2)] by auto
qed

lemma write_idle_inv:
  assumes "w_inv js w" "sw_heap w a = Some c" "tc_reply_list c = []"
  shows "\<exists>w1. write_replies results a now w = Some w1 \<and> w_inv js w1"
proof -
  have "write_replies results a now w = Some (sw_emit [SwStopWrite (tc_fd c)] (put_tc a (c\<lparr>tc_last_interaction := now\<rparr>) w))"
    using assms(2,3) by (subst write_replies.simps) simp
  moreover have "w_inv js (put_tc a (c\<lparr>tc_last_interaction := now\<rparr>) w)"
    by (rule inv_put [OF assms(1,2)]) (use inv_heapD [OF assms(1,2)] in simp_all)
  ultimately show ?thesis by simp
qed

lemma write_replies_inv:
  assumes "w_inv js w" "sw_heap w a = Some c" "write_ends results c"
  shows "\<exists>w1. write_replies results a now w = Some w1 \<and> w_inv js w1"
  using assms
proof (induction results arbitrary: w c)
  case Nil
  then have "pending c = []" by (simp add: write_ends_def)
  then have "tc_reply_list c = []"
    using pending_step(3) [of c _ _ 1] inv_heapD [OF Nil.prems(1,2)]
    by (cases "tc_reply_list c") (auto simp: tc_ok_def)
  then show ?case by (rule write_idle_inv [OF Nil.prems(1,2)])
next
  case (Cons x results)
  note ok = inv_heapD [OF Cons.prems(1,2)]
  consider "tc_reply_list c = []" | r rest n where "tc_reply_list c = r # rest" "x = SysRet n" "1 \<le> n"
    | r rest where "tc_reply_list c = r # rest" "x = SysErr EAGAIN"
    | r rest e where "tc_reply_list c = r # rest" "x = SysErr e" "e \<noteq> EAGAIN"
    using Cons.prems(3) by (cases x; cases "tc_reply_list c") (auto simp: write_ends_def)
  then show ?case
  proof cases
    case 1
    then show ?thesis by (rule write_idle_inv [OF Cons.prems(1,2)])
  next
    case 2
    then show ?thesis using write_data_inv [OF Cons.prems(1,2) 2(1,3)] Cons.prems(3) Cons.IH by metis
  next
    case 3
    have "\<exists>w1. write_replies results a now (sw_emit [SwSent (tc_fd c) []] w) = Some w1 \<and> w_inv js w1"
      using Cons.prems 3(2) by (intro Cons.IH [of _ c]) (auto simp: write_ends_def)
    then show ?thesis using write_again [OF Cons.prems(2)] ok 3 by (simp add: tc_ok_def)
  next
    case 4
    then show ?thesis using write_fails_inv [OF Cons.prems(1,2) 4(1,3)] by simp
  qed
qed

lemma inv_q_msg:
  "w_inv js w \<Longrightarrow> \<forall>msg \<in> set q. answer_ok js w msg \<Longrightarrow> w_inv js (w\<lparr>sw_q_msg := q\<rparr>)"
  by (simp add: w_inv_def table_ok_def answer_ok_def watch_ok_def)

lemma inv_q_conn:
  "w_inv js w \<Longrightarrow> lfq_rep q fds \<Longrightarrow> waiting_ok (sw_conns w) fds \<Longrightarrow> w_inv js (w\<lparr>sw_q_conn := q\<rparr>)"
  by (auto simp: w_inv_def table_ok_def answer_ok_def watch_ok_def)

lemma response_inv:
  assumes "w_inv js w" "answer_ok js w msg"
  shows "\<exists>w1. response_server_offer js msg w = Some w1 \<and> w_inv js w1"
proof (cases "\<exists>a. m_conn msg = Some a \<and> 0 \<le> m_fd msg \<and> nat (m_fd msg) < length (sw_conns w)
    \<and> sw_conns w ! nat (m_fd msg) = Some a")
  case False
  then show ?thesis using assms(1) by (auto simp: response_server_offer_def split: option.splits)
next
  case True
  then obtain a where a: "m_conn msg = Some a" "0 \<le> m_fd msg" "nat (m_fd msg) < length (sw_conns w)"
      "sw_conns w ! nat (m_fd msg) = Some a"
    by blast
  obtain c where c: "sw_heap w a = Some c" using inv_entryD [OF assms(1) a(3,4)] by blast
  have ok: "tc_ok c" by (rule inv_heapD [OF assms(1) c])
  let ?h = "take XHEAD_SIZE (tc_querybuf c)"
  let ?r = "make_reply ?h (js_write js (offer_members msg))"
  have len: "XHEAD_SIZE \<le> length (tc_querybuf c)" using assms(2) a(1) c by (simp add: answer_ok_def)
  have "reply_ok ?r"
    by (rule slice_make_reply(2)) (use assms(2) len in \<open>simp_all add: answer_ok_def XHEAD_SIZE_def\<close>)
  then have "tc_ok (c\<lparr>tc_reply_list := tc_reply_list c @ [?r]\<rparr>)"
    using ok replies_ok_append [of c "[?r]"] by (intro tc_ok_replies [OF ok]) (simp_all add: tc_ok_def)
  then have "w_inv js (put_tc a (c\<lparr>tc_reply_list := tc_reply_list c @ [?r]\<rparr>) w)"
    by (intro inv_put [OF assms(1) c]) simp_all
  then show ?thesis using a c len by (simp add: response_server_offer_def add_reply_def)
qed

lemma process_rtc_msg_inv:
  assumes "w_inv js w"
  shows "\<exists>w1. process_rtc_msg js w = Some w1 \<and> w_inv js w1"
proof (cases "sw_q_msg w")
  case Nil
  then show ?thesis using assms by (simp add: process_rtc_msg_def)
next
  case (Cons msg q)
  have "answer_ok js w msg" "\<forall>msg \<in> set q. answer_ok js w msg" using assms Cons by (auto simp: w_inv_def)
  then have "w_inv js (w\<lparr>sw_q_msg := q\<rparr>)" "answer_ok js (w\<lparr>sw_q_msg := q\<rparr>) msg"
    using inv_q_msg [OF assms] by (auto simp: answer_ok_def)
  then show ?thesis using response_inv Cons by (auto simp: process_rtc_msg_def Let_def)
qed

lemma resized_nth:
  assumes "i < length (xs @ replicate n None)" "(xs @ replicate n None) ! i = Some b"
  shows "i < length xs \<and> xs ! i = Some b"
  using assms by (auto simp: nth_append split: if_splits)

lemma new_conn_table:
  assumes "table_ok w" "sw_heap w a = None" "0 < fd"
    and "nat fd < length (sw_conns w) \<Longrightarrow> sw_conns w ! nat fd = None"
    and "conns = sw_conns w @ replicate n None" "nat fd < length conns" "tc_fd c = fd"
  shows "table_ok (put_tc a c (w\<lparr>sw_conns := conns[nat fd := Some a]\<rparr>))"
proof -
  have live: "\<And>b d. sw_heap w b = Some d \<Longrightarrow>
      0 \<le> tc_fd d \<and> nat (tc_fd d) < length (sw_conns w) \<and> sw_conns w ! nat (tc_fd d) = Some b"
    and tab: "\<And>i b. i < length (sw_conns w) \<Longrightarrow> sw_conns w ! i = Some b \<Longrightarrow>
      \<exists>d. sw_heap w b = Some d \<and> tc_fd d = int i"
    using assms(1) by (auto simp: table_ok_def)
  have "0 \<le> tc_fd d \<and> nat (tc_fd d) < length conns \<and> conns[nat fd := Some a] ! nat (tc_fd d) = Some b"
    if h: "((sw_heap w)(a \<mapsto> c)) b = Some d" for b d
  proof (cases "b = a")
    case True
    then show ?thesis using h assms(3,6,7) by simp
  next
    case False
    then have d: "0 \<le> tc_fd d" "nat (tc_fd d) < length (sw_conns w)" "sw_conns w ! nat (tc_fd d) = Some b"
      using h live [of b d] by simp_all
    then have "nat (tc_fd d) \<noteq> nat fd" using assms(4) by auto
    then show ?thesis using d by (simp add: assms(5) nth_append)
  qed
  moreover have "\<exists>d. ((sw_heap w)(a \<mapsto> c)) b = Some d \<and> tc_fd d = int i"
    if l: "i < length conns" and n: "conns[nat fd := Some a] ! i = Some b" for i b
  proof (cases "i = nat fd")
    case True
    then show ?thesis using n l assms(3,7) by simp
  next
    case False
    then have "i < length (sw_conns w) \<and> sw_conns w ! i = Some b"
      using resized_nth [of i "sw_conns w" n b] l n by (simp add: assms(5))
    then show ?thesis using tab assms(2) by fastforce
  qed
  ultimately show ?thesis by (simp add: table_ok_def put_tc_def)
qed

lemma new_conn_watch:
  assumes "watch_ok w" "0 < fd" "conns = sw_conns w @ replicate n None" "nat fd < length conns"
  shows "watch_ok (sw_emit [SwStartRead fd, SwStartTimer a usec]
     (put_tc a c (w\<lparr>sw_conns := conns[nat fd := Some a]\<rparr>)))"
proof -
  have "f \<in> insert fd (watching (sw_events w)) \<longleftrightarrow> 0 \<le> f \<and> nat f < length conns \<and> conns[nat fd := Some a] ! nat f \<noteq> None" for f
  proof (cases "f = fd")
    case True
    then show ?thesis using assms(2,4) by simp
  next
    case False
    have "nat f \<noteq> nat fd" if "0 \<le> f" using that False assms(2) by simp
    then have "0 \<le> f \<and> nat f < length conns \<and> conns[nat fd := Some a] ! nat f \<noteq> None
        \<longleftrightarrow> 0 \<le> f \<and> nat f < length (sw_conns w) \<and> sw_conns w ! nat f \<noteq> None"
      using resized_nth [of "nat f" "sw_conns w" n] by (auto simp: assms(3) nth_append)
    then show ?thesis using False assms(1) by (simp add: watch_ok_def)
  qed
  then show ?thesis using assms(1) by (simp add: watch_ok_def sw_emit_def put_tc_def)
qed

lemma waiting_added:
  assumes "waiting_ok conns fds" "fd \<notin> set fds" "0 < fd"
  shows "waiting_ok ((conns @ replicate n None)[nat fd := Some a]) fds"
  unfolding waiting_ok_def
proof (intro conjI ballI impI)
  show "distinct fds" using assms(1) by (simp add: waiting_ok_def)
next
  fix f assume f: "f \<in> set fds"
  show "0 < f" using assms(1) f by (simp add: waiting_ok_def)
  then have "nat f \<noteq> nat fd" using f assms(2,3) by (metis eq_nat_nat_iff less_imp_le)
  moreover assume "nat f < length ((conns @ replicate n None)[nat fd := Some a])"
  ultimately show "(conns @ replicate n None)[nat fd := Some a] ! nat f = None"
    using assms(1) f by (auto simp: waiting_ok_def nth_append)
qed

lemma new_conn_inv:
  assumes "w_inv js w" "sw_heap w a = None" "\<forall>msg \<in> set (sw_q_msg w). m_conn msg \<noteq> Some a"
    and "lfq_rep q fds" "waiting_ok (sw_conns w) (fd # fds)"
  shows "\<exists>w1. new_conn fd a now (w\<lparr>sw_q_conn := q\<rparr>) = Some w1 \<and> w_inv js w1"
proof -
  define n where "n = (if nat fd \<ge> length (sw_conns w) then 2 * nat fd - length (sw_conns w) else 0)"
  define conns where "conns = sw_conns w @ replicate n None"
  let ?c = "(new_tcp_connection fd)\<lparr>tc_last_interaction := now\<rparr>"
  let ?v = "w\<lparr>sw_q_conn := q\<rparr>"
  let ?w = "put_tc a ?c (?v\<lparr>sw_conns := conns[nat fd := Some a]\<rparr>)"
  have fd: "0 < fd" "nat fd < length (sw_conns w) \<Longrightarrow> sw_conns w ! nat fd = None" "fd \<notin> set fds"
      "waiting_ok (sw_conns w) fds"
    using assms(5) by (auto simp: waiting_ok_def)
  have inv: "w_inv js ?v" by (rule inv_q_conn [OF assms(1,4) fd(4)])
  have l: "nat fd < length conns" using fd(1) by (simp add: conns_def n_def)
  have conns_eq: "(if nat fd \<ge> length (sw_conns ?v)
      then sw_conns ?v @ replicate (2 * nat fd - length (sw_conns ?v)) None else sw_conns ?v) = conns"
    by (simp add: conns_def n_def)
  let ?u = "sw_emit [SwStartRead fd, SwStartTimer a 100000] ?w"
  have r: "new_conn fd a now ?v = Some ?u"
    unfolding new_conn_def Let_def conns_eq using l fd(1) by simp
  have "table_ok ?w"
    by (rule new_conn_table [where n = n])
      (use inv assms(2) fd l in \<open>simp_all add: w_inv_def conns_def new_tcp_connection_def\<close>)
  moreover have "tc_ok ?c"
    by (simp add: tc_ok_def new_tcp_connection_def replies_ok_def XHEAD_SIZE_def)
  moreover have "\<forall>msg \<in> set (sw_q_msg w). answer_ok js ?w msg"
    using assms(1,3) by (auto simp: w_inv_def answer_ok_def put_tc_def)
  moreover have "watch_ok ?u"
    by (rule new_conn_watch [where n = n]) (use inv fd(1) l in \<open>simp_all add: w_inv_def conns_def\<close>)
  moreover have "waiting_ok (sw_conns ?w) fds"
    using waiting_added [OF fd(4,3,1)] by (simp add: conns_def put_tc_def)
  moreover have "\<forall>b d. sw_heap ?w b = Some d \<longrightarrow> tc_ok d"
    using assms(1) \<open>tc_ok ?c\<close> by (auto simp: w_inv_def put_tc_def)
  moreover have "lfq_rep (sw_q_conn ?w) fds" "sw_q_msg ?w = sw_q_msg w" using assms(4) by (simp_all add: put_tc_def)
  ultimately have "w_inv js ?u"
    by (auto simp: w_inv_def table_ok_def answer_ok_def)
  then show ?thesis using r by simp
qed

subsection \<open>Reachable states\<close>

text \<open>
  The callbacks: one I/O callback of a connection, whose event set has \<open>READ\<close>, \<open>WRITE\<close> or both, its timer, a
  message in the pipe (\<open>a\<close> is the address a new connection gets), and the two calls of other threads: an
  accepted descriptor and an answer.
\<close>

datatype worker_input =
    WIo int "read_result option" "sys_result list option" u64
  | WTimer nat u64
  | WNotify "int option" nat u64
  | WAccept int
  | WAnswer rtc_msg

definition worker_step ::
  "'v json_lib \<Rightarrow> (rtc_msg \<Rightarrow> int) \<Rightarrow> worker_input \<Rightarrow> signaling_worker \<Rightarrow> signaling_worker option" where
  "worker_step js rs i w =
     (case i of
        WIo fd rd wr now \<Rightarrow> conn_io_cb js rs fd rd wr now w
      | WTimer a now \<Rightarrow> conn_time_cb a now w
      | WNotify msg a now \<Rightarrow> worker_recv_notify js msg a now w
      | WAccept fd \<Rightarrow> notify_new_conn fd w
      | WAnswer msg \<Rightarrow> Some (sw_send_rtc_msg msg w))"

text \<open>
  What the event loop, the allocator and the kernel guarantee: only watchers that were started and not
  deleted call back; a new connection has an address that no live connection and no queued answer has;
  \<open>accept\<close> returns a descriptor that is not open, so neither watched nor waiting.
\<close>

definition loop_contract :: "worker_input \<Rightarrow> signaling_worker \<Rightarrow> bool" where
  "loop_contract i w \<longleftrightarrow>
     (case i of
        WIo fd rd wr now \<Rightarrow> fd \<in> watching (sw_events w)
      | WTimer a now \<Rightarrow> a \<in> timing (sw_events w)
      | WNotify msg a now \<Rightarrow> msg = Some SW_NEW_CONN \<longrightarrow>
          sw_heap w a = None \<and> (\<forall>m \<in> set (sw_q_msg w). m_conn m \<noteq> Some a)
      | WAccept fd \<Rightarrow> fd \<notin> watching (sw_events w)
          \<and> (\<forall>fds. lfq_rep (sw_q_conn w) fds \<longrightarrow> fd \<notin> set fds)
      | WAnswer msg \<Rightarrow> True)"

text \<open>
  What the code itself relies on without a check: that a connection gets fewer than 65571 bytes (the loop
  of \<open>_process_query_buffer\<close> does not end otherwise), that the writes of the replies queued once the
  callback has read finish or fail (the loop of \<open>_write_reply\<close> does not end otherwise), that no accepted
  descriptor is 0 (the store into the table is out of bounds), and that an answer fits its buffer and its
  connection, if it is still there, has sent a header.
\<close>

definition within_limits ::
  "'v json_lib \<Rightarrow> (rtc_msg \<Rightarrow> int) \<Rightarrow> worker_input \<Rightarrow> signaling_worker \<Rightarrow> bool" where
  "within_limits js rs i w \<longleftrightarrow>
     (case i of
        WIo fd rd wr now \<Rightarrow>
          (\<forall>r a c. rd = Some r \<longrightarrow> sw_conns w ! nat fd = Some a \<longrightarrow> sw_heap w a = Some c \<longrightarrow>
             length (tc_querybuf c) + length (read_bytes r) < 65535 + XHEAD_SIZE)
        \<and> (\<forall>results w1 a c. wr = Some results \<longrightarrow> conn_io_cb js rs fd rd None now w = Some w1 \<longrightarrow>
             sw_conns w1 ! nat fd = Some a \<longrightarrow> sw_heap w1 a = Some c \<longrightarrow> write_ends results c)
      | WAccept fd \<Rightarrow> 0 < fd
      | WAnswer msg \<Rightarrow> answer_ok js w msg
      | _ \<Rightarrow> True)"

definition worker_input_ok ::
  "'v json_lib \<Rightarrow> (rtc_msg \<Rightarrow> int) \<Rightarrow> worker_input \<Rightarrow> signaling_worker \<Rightarrow> bool" where
  "worker_input_ok js rs i w \<longleftrightarrow> loop_contract i w \<and> within_limits js rs i w"

inductive worker_reachable ::
  "'v json_lib \<Rightarrow> (rtc_msg \<Rightarrow> int) \<Rightarrow> nat \<Rightarrow> int \<Rightarrow> signaling_worker \<Rightarrow> bool"
  for js rs worker_id timeout where
  start: "worker_reachable js rs worker_id timeout (new_signaling_worker worker_id timeout)"
| step: "worker_reachable js rs worker_id timeout w \<Longrightarrow> worker_input_ok js rs i w \<Longrightarrow>
    worker_step js rs i w = Some w' \<Longrightarrow> worker_reachable js rs worker_id timeout w'"

lemma watch_ok_new: "watch_ok (new_signaling_worker worker_id timeout)"
  by (simp add: watch_ok_def new_signaling_worker_def watching_def timing_def)

lemma new_worker_inv: "w_inv js (new_signaling_worker worker_id timeout)"
proof -
  have "lfq_rep (sw_q_conn (new_signaling_worker worker_id timeout)) []
      \<and> waiting_ok (sw_conns (new_signaling_worker worker_id timeout)) []"
    using lfq_rep_new [of "0::int"] by (simp add: waiting_ok_def new_signaling_worker_def)
  then show ?thesis unfolding w_inv_def using watch_ok_new
    by (auto simp: table_ok_def new_signaling_worker_def)
qed

lemma notify_inv:
  assumes "w_inv js w" "loop_contract (WNotify (Some msg) a now) w"
  shows "\<exists>w1. process_notify js msg a now w = Some w1 \<and> w_inv js w1"
proof (cases "msg = SW_NEW_CONN")
  case True
  obtain fds where rep: "lfq_rep (sw_q_conn w) fds" "waiting_ok (sw_conns w) fds"
    using assms(1) by (auto simp: w_inv_def)
  have ne: "SW_NEW_CONN \<noteq> SW_QUIT" by (simp add: SW_NEW_CONN_def SW_QUIT_def)
  have f: "sw_heap w a = None" "\<forall>m \<in> set (sw_q_msg w). m_conn m \<noteq> Some a"
    using assms(2) True by (simp_all add: loop_contract_def)
  show ?thesis
  proof (cases fds)
    case Nil
    then obtain q where "lfq_consume (sw_q_conn w) = Some (None, q)" "lfq_rep q []"
      using rep(1) lf_queue.deq_Nil_law [of "sw_q_conn w"] by blast
    then show ?thesis using True ne inv_q_conn [OF assms(1), of q "[]"]
      by (simp add: process_notify_def waiting_ok_def)
  next
    case (Cons fd fds')
    then obtain q where q: "lfq_consume (sw_q_conn w) = Some (Some fd, q)" "lfq_rep q fds'"
      using rep(1) lf_queue.deq_Cons_law [of "sw_q_conn w" fd fds'] by blast
    then show ?thesis
      using new_conn_inv [OF assms(1) f q(2)] rep(2) Cons True ne by (simp add: process_notify_def)
  qed
next
  case False
  then show ?thesis
    using assms(1) process_rtc_msg_inv [OF assms(1)] by (simp add: process_notify_def stop_loop_def)
qed

text \<open>An I/O callback: the read first, and the write on what it left.\<close>

lemma read_phase_inv:
  assumes "json_small js" "w_inv js w" "worker_input_ok js rs (WIo fd rd wr now) w"
  shows "\<exists>w1. conn_io_cb js rs fd rd None now w = Some w1 \<and> w_inv js w1"
proof (cases rd)
  case None
  then show ?thesis using assms(2) by (simp add: conn_io_cb_def)
next
  case (Some r)
  have "fd \<in> watching (sw_events w)" using assms(3) by (simp add: worker_input_ok_def loop_contract_def)
  then obtain a where a: "nat fd < length (sw_conns w)" "sw_conns w ! nat fd = Some a"
    using inv_watchD(1) [OF assms(2), of fd] by auto
  obtain c where c: "sw_heap w a = Some c" using inv_entryD [OF assms(2) a] by blast
  have "length (tc_querybuf c) + length (read_bytes r) < 65535 + XHEAD_SIZE"
    using assms(3) a(2) c Some by (simp add: worker_input_ok_def within_limits_def)
  then have "\<exists>w1. read_query js rs fd r now w = Some w1 \<and> w_inv js w1"
    using read_query_inv [OF assms(1,2)] a(2) c by blast
  then show ?thesis using Some by (auto simp: conn_io_cb_def)
qed

lemma write_reply_inv:
  assumes "w_inv js w"
    and "\<And>a c. sw_conns w ! nat fd = Some a \<Longrightarrow> sw_heap w a = Some c \<Longrightarrow> write_ends results c"
  shows "\<exists>w1. write_reply fd results now w = Some w1 \<and> w_inv js w1"
proof (cases "0 < fd \<and> nat fd < length (sw_conns w) \<and> sw_conns w ! nat fd \<noteq> None")
  case True
  then obtain a c where c: "sw_conns w ! nat fd = Some a" "sw_heap w a = Some c"
    using inv_entryD [OF assms(1)] by blast
  then show ?thesis using write_replies_inv [OF assms(1) c(2) assms(2) [OF c]] c True
    by (simp add: write_reply_def)
next
  case False
  then show ?thesis using assms(1) by (auto simp: write_reply_def)
qed

lemma io_cb_phases:
  assumes "conn_io_cb js rs fd rd None now w = Some w1"
  shows "conn_io_cb js rs fd rd (Some results) now w = write_reply fd results now w1"
  using assms by (auto simp: conn_io_cb_def split: option.splits)

lemma worker_io_inv:
  assumes "json_small js" "w_inv js w" "worker_input_ok js rs (WIo fd rd wr now) w"
  shows "\<exists>w'. conn_io_cb js rs fd rd wr now w = Some w' \<and> w_inv js w'"
proof -
  obtain w1 where w1: "conn_io_cb js rs fd rd None now w = Some w1" "w_inv js w1"
    using read_phase_inv [OF assms] by blast
  show ?thesis
  proof (cases wr)
    case None
    then show ?thesis using w1 by simp
  next
    case (Some results)
    have "write_ends results c" if "sw_conns w1 ! nat fd = Some a" "sw_heap w1 a = Some c" for a c
      using assms(3) Some w1(1) that by (simp add: worker_input_ok_def within_limits_def)
    then show ?thesis using write_reply_inv [OF w1(2)] io_cb_phases [OF w1(1)] Some by simp
  qed
qed

lemma accept_inv:
  assumes "w_inv js w" "worker_input_ok js rs (WAccept fd) w"
  shows "\<exists>w'. notify_new_conn fd w = Some w' \<and> w_inv js w'"
proof -
  obtain fds where rep: "lfq_rep (sw_q_conn w) fds" "waiting_ok (sw_conns w) fds"
    using assms(1) by (auto simp: w_inv_def)
  obtain q where q: "lfq_produce fd (sw_q_conn w) = Some q" "lfq_rep q (fds @ [fd])"
    using lf_queue.enq_law [OF rep(1), of fd] by blast
  have "fd \<notin> watching (sw_events w)" "fd \<notin> set fds" "0 < fd"
    using assms(2) rep(1) by (simp_all add: worker_input_ok_def loop_contract_def within_limits_def)
  then have "waiting_ok (sw_conns w) (fds @ [fd])"
    using rep(2) inv_watchD(1) [OF assms(1), of fd] by (auto simp: waiting_ok_def)
  then show ?thesis using q inv_q_conn [OF assms(1) q(2)] by (simp add: notify_new_conn_def sw_notify_def)
qed

lemma worker_step_inv:
  assumes "json_small js" "w_inv js w" "worker_input_ok js rs i w"
  shows "\<exists>w'. worker_step js rs i w = Some w' \<and> w_inv js w'"
proof (cases i)
  case (WIo fd rd wr now)
  then show ?thesis using worker_io_inv [OF assms(1,2)] assms(3) by (simp add: worker_step_def)
next
  case (WTimer a now)
  then obtain c where "sw_heap w a = Some c"
    using assms(3) inv_watchD(2) [OF assms(2), of a] by (auto simp: worker_input_ok_def loop_contract_def)
  then show ?thesis
    using WTimer close_conn_inv [OF assms(2)] assms(2)
    by (simp add: worker_step_def conn_time_cb_def process_timeout_def)
next
  case (WNotify msg a now)
  then show ?thesis
    using notify_inv [OF assms(2)] assms(2,3)
    by (cases msg) (simp_all add: worker_step_def worker_recv_notify_def worker_input_ok_def)
next
  case (WAccept fd)
  then show ?thesis using accept_inv [OF assms(2)] assms(3) by (simp add: worker_step_def)
next
  case (WAnswer msg)
  have "w_inv js (w\<lparr>sw_q_msg := push_msg msg (sw_q_msg w)\<rparr>)"
    by (rule inv_q_msg [OF assms(2)])
      (use assms(2,3) WAnswer in \<open>auto simp: push_msg_def w_inv_def worker_input_ok_def within_limits_def\<close>)
  then show ?thesis using WAnswer by (simp add: worker_step_def sw_send_rtc_msg_def sw_notify_def)
qed

lemma worker_reachable_inv:
  assumes "worker_reachable js rs worker_id timeout w" "json_small js"
  shows "w_inv js w"
  using assms
proof (induction rule: worker_reachable.induct)
  case start
  show ?case by (rule new_worker_inv)
next
  case (step w i w')
  then show ?case using worker_step_inv by fastforce
qed

text \<open>C10: In every reachable state the connection table and the live connections agree: an entry
  of the table is a live connection with that descriptor, every live connection is the entry of its
  descriptor, and a connection waits either for its header, or for the body its header announces,
  or has been served.\<close>

theorem connection_table:
  assumes "worker_reachable js rs worker_id timeout w" "json_small js"
  shows "(\<forall>i < length (sw_conns w). \<forall>a. sw_conns w ! i = Some a \<longrightarrow>
            (\<exists>c. sw_heap w a = Some c \<and> tc_fd c = int i))
     \<and> (\<forall>a c. sw_heap w a = Some c \<longrightarrow>
            0 \<le> tc_fd c \<and> nat (tc_fd c) < length (sw_conns w) \<and> sw_conns w ! nat (tc_fd c) = Some a
          \<and> (tc_current_state c = STATE_HEAD \<and> tc_bytes_processed c = 0
               \<and> length (tc_querybuf c) < XHEAD_SIZE
             \<or> tc_current_state c = STATE_BODY \<and> head_magic_num (tc_querybuf c) = XHEADER_MAGIC_NUM
               \<and> XHEAD_SIZE \<le> length (tc_querybuf c)
               \<and> tc_bytes_processed c =
                   (if length (tc_querybuf c) < XHEAD_SIZE + head_body_len (tc_querybuf c)
                    then head_body_len (tc_querybuf c) else 65535)))"
proof -
  have inv: "w_inv js w" by (rule worker_reachable_inv [OF assms])
  have st: "tc_current_state c = STATE_HEAD \<and> tc_bytes_processed c = 0 \<and> length (tc_querybuf c) < XHEAD_SIZE
      \<or> tc_current_state c = STATE_BODY \<and> head_magic_num (tc_querybuf c) = XHEADER_MAGIC_NUM
        \<and> XHEAD_SIZE \<le> length (tc_querybuf c)
        \<and> tc_bytes_processed c =
            (if length (tc_querybuf c) < XHEAD_SIZE + head_body_len (tc_querybuf c)
             then head_body_len (tc_querybuf c) else 65535)"
    if "sw_heap w a = Some c" for a c
    using inv_heapD [OF inv that] by (cases "tc_current_state c") (simp_all add: tc_ok_def)
  show ?thesis using inv_entryD [OF inv] inv_tableD [OF inv] st by blast
qed

lemma demo_json_small: "json_small demo_json"
  by (simp add: json_small_def demo_json_def bytes_of_def)

lemma demo_worker_accepted:
  "worker_reachable demo_json (\<lambda>_. 0) 1 60000
     (sw_emit [SwPipe 1] ((new_signaling_worker 1 60000)\<lparr>sw_q_conn := the (lfq_produce 5 (lfq_new 0))\<rparr>))"
proof (rule worker_reachable.step [OF worker_reachable.start])
  have "fds = []" if "lfq_rep (lfq_new (0 :: int)) fds" for fds
    using that lf_queue.deq_Nil_law [OF lfq_rep_new [of "0 :: int"]] lf_queue.deq_Cons_law
    by (cases fds) fastforce+
  then have "\<forall>fds. lfq_rep (lfq_new (0 :: int)) fds \<longrightarrow> 5 \<notin> set fds" by fastforce
  then show "worker_input_ok demo_json (\<lambda>_. 0) (WAccept 5) (new_signaling_worker 1 60000)"
    by (simp add: worker_input_ok_def loop_contract_def within_limits_def new_signaling_worker_def watching_def)
  obtain q where "lfq_produce 5 (lfq_new (0 :: int)) = Some q"
    using lf_queue.enq_law [OF lfq_rep_new [of 0], of 5] by blast
  then show "worker_step demo_json (\<lambda>_. 0) (WAccept 5) (new_signaling_worker 1 60000) =
      Some (sw_emit [SwPipe 1] ((new_signaling_worker 1 60000)\<lparr>sw_q_conn := the (lfq_produce 5 (lfq_new 0))\<rparr>))"
    by (simp add: worker_step_def notify_new_conn_def sw_notify_def new_signaling_worker_def SW_NEW_CONN_def)
qed

lemma demo_connected:
  "\<exists>w. worker_reachable demo_json (\<lambda>_. 0) 1 60000 w \<and> sw_conns w = (replicate 10 None)[5 := Some 3]
     \<and> sw_heap w 3 = Some ((new_tcp_connection 5)\<lparr>tc_last_interaction := 100\<rparr>)"
proof -
  obtain q where q: "lfq_produce 5 (lfq_new (0 :: int)) = Some q" "lfq_rep q ([] @ [5])"
    using lf_queue.enq_law [OF lfq_rep_new [of 0], of 5] by blast
  have rep: "lfq_rep q (5 # [])" using q(2) by simp
  obtain q' where q': "lfq_consume q = Some (Some 5, q')" using lf_queue.deq_Cons_law [OF rep] by blast
  let ?w = "sw_emit [SwPipe 1] ((new_signaling_worker 1 60000)\<lparr>sw_q_conn := q\<rparr>)"
  let ?w' = "sw_emit [SwStartRead 5, SwStartTimer 3 100000] (put_tc 3
     ((new_tcp_connection 5)\<lparr>tc_last_interaction := 100\<rparr>)
     (?w\<lparr>sw_q_conn := q', sw_conns := (replicate 10 None)[5 := Some 3]\<rparr>))"
  have r: "worker_reachable demo_json (\<lambda>_. 0) 1 60000 ?w" using demo_worker_accepted q(1) by simp
  have "worker_input_ok demo_json (\<lambda>_. 0) (WNotify (Some 1) 3 100) ?w"
    by (simp add: worker_input_ok_def loop_contract_def within_limits_def new_signaling_worker_def)
  moreover have "worker_step demo_json (\<lambda>_. 0) (WNotify (Some 1) 3 100) ?w = Some ?w'"
    using q' by (simp add: worker_step_def worker_recv_notify_def process_notify_def SW_QUIT_def
        SW_NEW_CONN_def new_conn_def new_signaling_worker_def Let_def sw_emit_def put_tc_def)
  ultimately have "worker_reachable demo_json (\<lambda>_. 0) 1 60000 ?w'"
    using worker_reachable.step [OF r] by blast
  moreover have "sw_conns ?w' = (replicate 10 None)[5 := Some 3]"
      "sw_heap ?w' 3 = Some ((new_tcp_connection 5)\<lparr>tc_last_interaction := 100\<rparr>)"
    by (simp_all add: put_tc_def)
  ultimately show ?thesis by blast
qed

theorem connection_table_witness:
  "\<exists>w. worker_reachable demo_json (\<lambda>_. 0) 1 60000 w \<and> sw_heap w 3 \<noteq> None
     \<and> (\<forall>i < length (sw_conns w). \<forall>a. sw_conns w ! i = Some a \<longrightarrow>
            (\<exists>c. sw_heap w a = Some c \<and> tc_fd c = int i))"
proof -
  obtain w where "worker_reachable demo_json (\<lambda>_. 0) 1 60000 w" "sw_heap w 3 \<noteq> None"
    using demo_connected by auto
  then show ?thesis using connection_table [OF _ demo_json_small] by blast
qed

text \<open>C11: The worker's callbacks are safe within the limits the code relies on. In every reachable state,
  every I/O callback of a watched descriptor (to read, to write, or both), timer callback of a timed
  connection, pipe message, accepted descriptor and answer, for which the connection has got fewer than
  65571 bytes, the writes finish or fail, an accepted descriptor is positive and an answer fits its 4096
  bytes and finds the header of its connection, returns without dereferencing a null or freed
  connection. Afterwards the event loop watches exactly the descriptors that have an entry in the table,
  times exactly the live connections, and every entry is live: no later callback can find a freed one.\<close>

theorem worker_callbacks_safe:
  assumes "worker_reachable js rs worker_id timeout w" "json_small js"
    and "loop_contract i w" "within_limits js rs i w"
  shows "\<exists>w'. worker_step js rs i w = Some w' \<and> worker_reachable js rs worker_id timeout w'
     \<and> (\<forall>fd. fd \<in> watching (sw_events w') \<longleftrightarrow>
          0 \<le> fd \<and> nat fd < length (sw_conns w') \<and> sw_conns w' ! nat fd \<noteq> None)
     \<and> (\<forall>a. a \<in> timing (sw_events w') \<longleftrightarrow> sw_heap w' a \<noteq> None)
     \<and> (\<forall>k < length (sw_conns w'). \<forall>a. sw_conns w' ! k = Some a \<longrightarrow>
          (\<exists>c. sw_heap w' a = Some c \<and> tc_fd c = int k))"
proof -
  have ok: "worker_input_ok js rs i w" using assms(3,4) by (simp add: worker_input_ok_def)
  obtain w' where w': "worker_step js rs i w = Some w'" "w_inv js w'"
    using worker_step_inv [OF assms(2) worker_reachable_inv [OF assms(1,2)] ok] by blast
  then show ?thesis
    using worker_reachable.step [OF assms(1) ok w'(1)] inv_entryD [OF w'(2)] inv_watchD [OF w'(2)] by blast
qed

text \<open>A live connection sends a whole stop request, and the write of its reply fails.\<close>

theorem worker_callbacks_safe_witness:
  "\<exists>w w'. sw_heap w 3 = Some ((new_tcp_connection 5)\<lparr>tc_last_interaction := 100\<rparr>) \<and> 5 \<in> watching (sw_events w)
     \<and> worker_step demo_json (\<lambda>_. 0)
         (WIo 5 (Some (RdData (demo_frame [3]))) (Some [SysErr EOTHER]) 200) w = Some w'
     \<and> worker_reachable demo_json (\<lambda>_. 0) 1 60000 w'
     \<and> (\<forall>a. a \<in> timing (sw_events w') \<longleftrightarrow> sw_heap w' a \<noteq> None)"
proof -
  obtain w where w: "worker_reachable demo_json (\<lambda>_. 0) 1 60000 w" "sw_conns w = (replicate 10 None)[5 := Some 3]"
      "sw_heap w 3 = Some ((new_tcp_connection 5)\<lparr>tc_last_interaction := 100\<rparr>)"
    using demo_connected by blast
  have watched: "5 \<in> watching (sw_events w)"
    using inv_watchD(1) [OF worker_reachable_inv [OF w(1) demo_json_small], of 5] w(2) by simp
  have "length (demo_frame [3]) = 37" by (simp only: demo_frame_def length_append demo_head_length) simp
  then have "within_limits demo_json (\<lambda>_. 0) (WIo 5 (Some (RdData (demo_frame [3]))) (Some [SysErr EOTHER]) 200) w"
    using w(2,3) by (simp add: within_limits_def read_bytes_def write_ends_def new_tcp_connection_def XHEAD_SIZE_def)
  with worker_callbacks_safe [OF w(1) demo_json_small, of "WIo 5 (Some (RdData (demo_frame [3]))) (Some [SysErr EOTHER]) 200"]
  show ?thesis using w(3) watched by (auto simp: loop_contract_def)
qed

text \<open>
  Outside the limits the code does fail: a first connection on descriptor 0 is stored outside the table,
  a write that makes no progress is still running, and an answer for a connection that is gone reaches
  the connection that got its address and its descriptor, whose header may not have come yet. (What
  happens after 65571 bytes is shown with the framing.)
\<close>

lemma first_descriptor_zero: "sw_conns w = [] \<Longrightarrow> new_conn 0 a now w = None"
  by (simp add: new_conn_def)

lemma write_without_progress:
  assumes "sw_heap w a = Some c" "tc_reply_list c = r # rest" "reply_ok r" "replies_ok c"
  shows "write_replies (replicate n (SysErr EAGAIN)) a now w = None"
  using assms(1)
proof (induction n arbitrary: w)
  case 0
  then show ?case using assms(2) by (subst write_replies.simps) simp
next
  case (Suc n)
  have "write_replies (replicate n (SysErr EAGAIN)) a now (sw_emit [SwSent (tc_fd c) []] w) = None"
    using Suc.prems by (intro Suc.IH) simp
  then show ?case using write_again [OF Suc.prems assms(4), of "replicate n (SysErr EAGAIN)" now] assms(2) by simp
qed

lemma reused_connection_answered:
  assumes "m_conn msg = Some a" "0 \<le> m_fd msg" "nat (m_fd msg) < length (sw_conns w)"
    and "sw_conns w ! nat (m_fd msg) = Some a" "sw_heap w a = Some (new_tcp_connection (m_fd msg))"
  shows "response_server_offer js msg w = None"
  using assms by (simp add: response_server_offer_def new_tcp_connection_def XHEAD_SIZE_def)

text \<open>An answer that comes back after its connection was closed is dropped: nothing is
  dereferenced, no reply is queued, and whatever connection has the descriptor now is untouched.\<close>

theorem late_answer_dropped:
  assumes "worker_reachable js rs worker_id timeout w" "json_small js"
    and "m_conn msg = Some a" "sw_heap w a = None"
  shows "response_server_offer js msg w = Some w"
proof -
  have inv: "w_inv js w" by (rule worker_reachable_inv [OF assms(1,2)])
  have "sw_conns w ! nat (m_fd msg) \<noteq> Some a" if "nat (m_fd msg) < length (sw_conns w)"
    using inv_entryD [OF inv that, of a] assms(4) by auto
  then show ?thesis using assms(3) by (auto simp: response_server_offer_def)
qed

theorem late_answer_dropped_witness:
  "\<exists>w. worker_reachable demo_json (\<lambda>_. 0) 1 60000 w \<and> response_server_offer demo_json demo_offer w = Some w"
proof -
  let ?w = "sw_emit [SwPipe 1] ((new_signaling_worker 1 60000)\<lparr>sw_q_conn := the (lfq_produce 5 (lfq_new 0))\<rparr>)"
  have "response_server_offer demo_json demo_offer ?w = Some ?w"
    by (rule late_answer_dropped [OF demo_worker_accepted demo_json_small, of _ 3])
      (simp_all add: demo_offer_def new_signaling_worker_def)
  then show ?thesis using demo_worker_accepted by blast
qed

end
