(* ===== verification/RtpUtils.thy ===== *)
theory RtpUtils
  imports Prelude
begin

unbundle bit_operations_syntax

text \<open>
  Classification of the packets of a media transport: RTP and RTCP
  (\<open>module/rtp_rtcp/rtp_utils.cpp\<close>) and DTLS (the predicates at the top of
  \<open>pc/dtls_transport.cpp\<close>). Reading past the end of a packet is \<open>None\<close>.
\<close>

definition k_rtp_version :: byte where "k_rtp_version = 2"
definition k_min_rtp_packet_len :: nat where "k_min_rtp_packet_len = 12"
definition k_min_rtcp_packet_len :: nat where "k_min_rtcp_packet_len = 4"

datatype rtp_packet_type = k_rtp | k_rtcp | k_unknown

definition has_correct_rtp_version :: "bytes \<Rightarrow> bool" where
  "has_correct_rtp_version packet = (drop_bit 6 (packet ! 0) = k_rtp_version)"

definition payload_type_is_reserved_for_rtcp :: "byte \<Rightarrow> bool" where
  "payload_type_is_reserved_for_rtcp payload_type = (64 \<le> payload_type \<and> payload_type < 96)"

definition is_rtp :: "bytes \<Rightarrow> bool" where
  "is_rtp packet =
     (length packet \<ge> k_min_rtp_packet_len \<and> has_correct_rtp_version packet
        \<and> \<not> payload_type_is_reserved_for_rtcp (packet ! 1 AND 0x7F))"

definition is_rtcp :: "bytes \<Rightarrow> bool" where
  "is_rtcp packet =
     (length packet \<ge> k_min_rtcp_packet_len \<and> has_correct_rtp_version packet
        \<and> payload_type_is_reserved_for_rtcp (packet ! 1 AND 0x7F))"

definition infer_rtp_packet_type :: "bytes \<Rightarrow> rtp_packet_type" where
  "infer_rtp_packet_type packet =
     (if is_rtp packet then k_rtp else if is_rtcp packet then k_rtcp else k_unknown)"

definition parse_rtp_sequence_number :: "bytes \<Rightarrow> u16 option" where
  "parse_rtp_sequence_number packet =
     (if length packet < 4 then None
      else Some (push_bit 8 (ucast (packet ! 2)) OR ucast (packet ! 3)))"

definition parse_rtp_ssrc :: "bytes \<Rightarrow> u32 option" where
  "parse_rtp_ssrc packet =
     (if length packet < 12 then None
      else Some (push_bit 24 (ucast (packet ! 8)) OR push_bit 16 (ucast (packet ! 9))
                   OR push_bit 8 (ucast (packet ! 10)) OR ucast (packet ! 11)))"

text \<open>\<open>None\<close> is \<open>false\<close>; the pointers are not null at the two calls.\<close>

definition get_rtcp_type :: "bytes \<Rightarrow> int option" where
  "get_rtcp_type data =
     (if length data < k_min_rtcp_packet_len then None else Some (uint (data ! 1)))"

definition k_dtls_record_header_len :: nat where "k_dtls_record_header_len = 13"
definition k_max_dtls_packet_len :: nat where "k_max_dtls_packet_len = 2048"
definition k_max_pending_packets :: nat where "k_max_pending_packets = 2"

definition is_dtls_packet :: "bytes \<Rightarrow> bool" where
  "is_dtls_packet buf = (length buf \<ge> k_dtls_record_header_len \<and> buf ! 0 > 19 \<and> buf ! 0 < 64)"

definition is_dtls_client_hello_packet :: "bytes \<Rightarrow> bool" where
  "is_dtls_client_hello_packet buf =
     (is_dtls_packet buf \<and> length buf > 17 \<and> buf ! 0 = 22 \<and> buf ! 13 = 1)"

definition is_rtp_packet :: "bytes \<Rightarrow> bool" where
  "is_rtp_packet buf = (length buf \<ge> k_min_rtp_packet_len \<and> (buf ! 0 AND 0xC0) = 0x80)"

subsection \<open>The ranges of RFC 5761 and RFC 7983\<close>

text \<open>
  The reference classification: the first byte tells DTLS (20 to 63) from RTP and RTCP (128 to
  191), the second byte tells RTCP (192 to 223, or 64 to 95 with the marker bit clear) from RTP.
\<close>

datatype media_class = DtlsRecord | RtpData | RtcpData | OtherData

definition rfc_class :: "bytes \<Rightarrow> media_class" where
  "rfc_class p =
     (if length p \<ge> 13 \<and> 20 \<le> unat (p ! 0) \<and> unat (p ! 0) \<le> 63 then DtlsRecord
      else if length p \<ge> 4 \<and> 128 \<le> unat (p ! 0) \<and> unat (p ! 0) \<le> 191
      then (if 64 \<le> unat (p ! 1) mod 128 \<and> unat (p ! 1) mod 128 \<le> 95 then RtcpData
            else if length p \<ge> 12 then RtpData else OtherData)
      else OtherData)"

lemma unat_top: "unat (drop_bit 6 b) = unat (b :: byte) div 64"
proof -
  have "unat (drop_bit 6 b) = drop_bit 6 (unat b)" by (rule unat_drop_bit_eq)
  then show ?thesis by (simp only: drop_bit_nat_def drop_bit_eq_div) simp
qed

lemma top_bits: "drop_bit 6 (b :: byte) = 2 \<longleftrightarrow> 128 \<le> unat b \<and> unat b \<le> 191"
proof -
  have "drop_bit 6 b = 2 \<longleftrightarrow> unat (drop_bit 6 b) = 2"
    unfolding word_unat_eq_iff [of "drop_bit 6 b" 2] by simp
  also have "\<dots> \<longleftrightarrow> 128 \<le> unat b \<and> unat b \<le> 191" unfolding unat_top by linarith
  finally show ?thesis .
qed

lemma low_seven: "unat (b AND 0x7F :: byte) = unat b mod 128"
proof -
  have "b AND 0x7F = take_bit 7 b" by (simp add: take_bit_eq_mask mask_numeral)
  then have "unat (b AND 0x7F) = take_bit 7 (unat b)" by (simp add: unsigned_take_bit_eq)
  then show ?thesis by (simp add: take_bit_eq_mod)
qed

lemma reserved_range:
  "payload_type_is_reserved_for_rtcp (b AND 0x7F) \<longleftrightarrow> 64 \<le> unat b mod 128 \<and> unat b mod 128 \<le> 95"
  by (auto simp: payload_type_is_reserved_for_rtcp_def word_le_nat_alt word_less_nat_alt low_seven)

lemma dtls_range: "is_dtls_packet p \<longleftrightarrow> length p \<ge> 13 \<and> 20 \<le> unat (p ! 0) \<and> unat (p ! 0) \<le> 63"
  by (auto simp: is_dtls_packet_def k_dtls_record_header_len_def word_less_nat_alt)

lemma and_top: "(b AND 0xC0 :: byte) = push_bit 6 (drop_bit 6 b)"
proof -
  have "(0xC0 :: byte) = push_bit 6 (mask 2)" by (simp add: mask_numeral push_bit_eq_mult)
  then have m: "b AND 0xC0 = b AND push_bit 6 (mask 2)" by (rule arg_cong)
  show ?thesis unfolding m
    by (rule bit_word_eqI) (auto simp: bit_and_iff bit_push_bit_iff bit_drop_bit_eq bit_mask_iff)
qed

lemma rtp_top_bits: "(b AND 0xC0 :: byte) = 0x80 \<longleftrightarrow> drop_bit 6 b = 2"
proof
  assume "(b AND 0xC0 :: byte) = 0x80"
  then have "drop_bit 6 (b AND 0xC0) = drop_bit 6 (0x80 :: byte)" by simp
  moreover have "drop_bit 6 (push_bit 6 (drop_bit 6 b)) = drop_bit 6 b"
    by (rule bit_word_eqI) (auto simp: bit_push_bit_iff bit_drop_bit_eq dest: bit_imp_le_length)
  ultimately show "drop_bit 6 b = 2" unfolding and_top by simp
qed (simp add: and_top)

lemma rtp_packet_range: "is_rtp_packet p \<longleftrightarrow> length p \<ge> 12 \<and> 128 \<le> unat (p ! 0) \<and> unat (p ! 0) \<le> 191"
  by (simp add: is_rtp_packet_def k_min_rtp_packet_len_def rtp_top_bits top_bits)

text \<open>C32: The three classifiers of the code agree with the ranges of RFC 5761 and RFC 7983 on every
  packet: exactly the DTLS records pass the DTLS test, a packet that passes the transport's RTP test
  is inferred as RTP or RTCP by its payload type, and no packet is both DTLS and media.\<close>

theorem packet_classes:
  "is_dtls_packet p = (rfc_class p = DtlsRecord)
     \<and> (infer_rtp_packet_type p = k_rtp) = (rfc_class p = RtpData)
     \<and> (infer_rtp_packet_type p = k_rtcp) = (rfc_class p = RtcpData)
     \<and> is_rtp_packet p = (length p \<ge> 12 \<and> rfc_class p \<in> {RtpData, RtcpData})
     \<and> is_dtls_client_hello_packet p =
         (rfc_class p = DtlsRecord \<and> length p > 17 \<and> p ! 0 = 22 \<and> p ! 13 = 1)"
  by (simp only: infer_rtp_packet_type_def is_rtp_def is_rtcp_def has_correct_rtp_version_def
       k_rtp_version_def top_bits reserved_range dtls_range rtp_packet_range rfc_class_def
       k_min_rtp_packet_len_def k_min_rtcp_packet_len_def is_dtls_client_hello_packet_def)
     (auto split: if_splits)

end
