(* ===== verification/DtlsTransport.thy ===== *)
theory DtlsTransport
  imports RtpUtils
begin

unbundle bit_operations_syntax

text \<open>
  The DTLS transport over one ICE channel (\<open>pc/dtls_transport.h\<close>, \<open>pc/dtls_transport.cpp\<close>):
  certificate and fingerprint set-up, the caching of an early ClientHello, the walk over the
  records of a packet, and the state machine driven by the channel and by the SSL adapter.

  The adapter (\<open>rtc::SSLStreamAdapter\<close>) is a parameter: \<open>ssl\<close> gives the results of its calls,
  and the events it raises arrive as inputs. It owns the downward stream, so the two live and die
  together: \<open>dt_dtls\<close> is the adapter's address with its stream, \<open>dt_downward\<close> the raw pointer to the
  stream. A function returns \<open>None\<close> when the code uses a null or freed object or does not return.
  The channel's \<open>writable()\<close> and \<open>receiving()\<close> are arguments. The signals and the calls to the
  adapter and the channel are appended to \<open>dt_events\<close>.
\<close>

datatype dtls_state = dtls_new | dtls_connecting | dtls_connected | dtls_closed | dtls_failed

datatype stream_state = SS_CLOSED | SS_OPENING | SS_OPEN

datatype stream_result = SR_ERROR | SR_SUCCESS | SR_BLOCK | SR_EOS

text \<open>\<open>'q\<close> is the type of \<open>rtc::BufferQueue\<close>.\<close>

record 'q stream_channel =
  sc_state :: stream_state
  sc_packets :: 'q

text \<open>The buffer queue of the library: a new queue, \<open>WriteBack\<close>, \<open>ReadFront\<close>, \<open>Clear\<close>.\<close>

record 'q buffer_queue =
  bq_new :: "nat \<Rightarrow> nat \<Rightarrow> 'q"
  bq_write_back :: "bytes \<Rightarrow> 'q \<Rightarrow> bool \<times> 'q"
  bq_read_front :: "nat \<Rightarrow> 'q \<Rightarrow> bytes option \<times> 'q"
  bq_clear :: "'q \<Rightarrow> 'q"

definition new_stream_channel :: "'q buffer_queue \<Rightarrow> 'q stream_channel" where
  "new_stream_channel bq =
     \<lparr>sc_state = SS_OPEN, sc_packets = bq_new bq k_max_pending_packets k_max_dtls_packet_len\<rparr>"

text \<open>\<open>on_received_packet\<close> queues the packet and raises \<open>SE_READ\<close> in either case.\<close>

definition on_received_packet :: "'q buffer_queue \<Rightarrow> bytes \<Rightarrow> 'q stream_channel \<Rightarrow> bool \<times> 'q stream_channel" where
  "on_received_packet bq data sc = (True, sc\<lparr>sc_packets := snd (bq_write_back bq data (sc_packets sc))\<rparr>)"

definition sc_read :: "'q buffer_queue \<Rightarrow> nat \<Rightarrow> 'q stream_channel \<Rightarrow> stream_result \<times> bytes \<times> 'q stream_channel" where
  "sc_read bq buffer_len sc =
     (if sc_state sc = SS_CLOSED then (SR_EOS, [], sc)
      else if sc_state sc = SS_OPENING then (SR_BLOCK, [], sc)
      else (case bq_read_front bq buffer_len (sc_packets sc) of
              (None, q) \<Rightarrow> (SR_BLOCK, [], sc\<lparr>sc_packets := q\<rparr>)
            | (Some data, q) \<Rightarrow> (SR_SUCCESS, data, sc\<lparr>sc_packets := q\<rparr>)))"

text \<open>\<open>Write\<close> reports success whatever the channel's \<open>send_packet\<close> returned.\<close>

definition sc_write :: "bytes \<Rightarrow> stream_result \<times> nat" where
  "sc_write data = (SR_SUCCESS, length data)"

definition sc_close :: "'q buffer_queue \<Rightarrow> 'q stream_channel \<Rightarrow> 'q stream_channel" where
  "sc_close bq sc = sc\<lparr>sc_state := SS_CLOSED, sc_packets := bq_clear bq (sc_packets sc)\<rparr>"

datatype dtls_event =
    DtState dtls_state
  | DtWritable
  | DtReceiving
  | DtReadPacket bytes
  | DtClosed
  | DtCreate nat
  | DtSetDigest string bytes
  | DtStartSSL
  | DtInput bytes

record 'q dtls_transport =
  dt_name :: string
  dt_state :: dtls_state
  dt_receiving :: bool
  dt_writable :: bool
  dt_dtls :: "(nat \<times> 'q stream_channel) option"
  dt_downward :: "nat option"
  dt_cached_client_hello :: bytes
  dt_local_certificate :: "nat option"
  dt_fingerprint_value :: bytes
  dt_fingerprint_alg :: string
  dt_active :: bool
  dt_srtp_ciphers :: "int list"
  dt_events :: "dtls_event list"

definition new_dtls_transport :: "string \<Rightarrow> int list \<Rightarrow> 'q dtls_transport" where
  "new_dtls_transport name ciphers =
     \<lparr>dt_name = name, dt_state = dtls_new, dt_receiving = False, dt_writable = False, dt_dtls = None,
      dt_downward = None, dt_cached_client_hello = [], dt_local_certificate = None,
      dt_fingerprint_value = [], dt_fingerprint_alg = '''', dt_active = False, dt_srtp_ciphers = ciphers,
      dt_events = []\<rparr>"

text \<open>
  The results of the adapter's calls. \<open>SetPeerCertificateDigest\<close> gives success, or an error
  that is \<open>VERIFICATION_FAILED\<close> or not.
\<close>

datatype digest_result = DigestOk | VerificationFailed | DigestError

record ssl_results =
  ssl_create :: bool
  ssl_set_digest :: "string \<Rightarrow> bytes \<Rightarrow> digest_result"
  ssl_set_suites :: "int list \<Rightarrow> bool"
  ssl_start :: int
  ssl_suite :: "int option"
  ssl_export :: "string \<Rightarrow> nat \<Rightarrow> bytes option"

text \<open>An event of the adapter: its flags, its error, and the results of the reads it leads to.\<close>

record ssl_event =
  ev_open :: bool
  ev_read :: bool
  ev_close :: bool
  ev_error :: int
  ev_reads :: "stream_result list"

definition dt_emit :: "dtls_event list \<Rightarrow> 'q dtls_transport \<Rightarrow> 'q dtls_transport" where
  "dt_emit es dt = dt\<lparr>dt_events := dt_events dt @ es\<rparr>"

definition set_dtls_state :: "dtls_state \<Rightarrow> 'q dtls_transport \<Rightarrow> 'q dtls_transport" where
  "set_dtls_state state dt =
     (if dt_state dt = state then dt else dt_emit [DtState state] (dt\<lparr>dt_state := state\<rparr>))"

definition set_writable_state :: "bool \<Rightarrow> 'q dtls_transport \<Rightarrow> 'q dtls_transport" where
  "set_writable_state writable dt =
     (if dt_writable dt = writable then dt else dt_emit [DtWritable] (dt\<lparr>dt_writable := writable\<rparr>))"

definition dt_set_receiving :: "bool \<Rightarrow> 'q dtls_transport \<Rightarrow> 'q dtls_transport" where
  "dt_set_receiving receiving dt =
     (if dt_receiving dt = receiving then dt else dt_emit [DtReceiving] (dt\<lparr>dt_receiving := receiving\<rparr>))"

definition on_receiving_state :: "bool \<Rightarrow> 'q dtls_transport \<Rightarrow> 'q dtls_transport" where
  "on_receiving_state channel_receiving dt = dt_set_receiving channel_receiving dt"

subsection \<open>Events of the adapter\<close>

text \<open>
  The loop that reads the decrypted records; it runs on while reads succeed (\<open>None\<close>: still
  running when the results are used up). Decrypted application data is thrown away.
\<close>

fun read_loop :: "stream_result list \<Rightarrow> 'q dtls_transport \<Rightarrow> 'q dtls_transport option" where
  "read_loop [] dt = None"
| "read_loop (SR_SUCCESS # rs) dt = read_loop rs dt"
| "read_loop (SR_EOS # rs) dt =
     Some (dt_emit [DtClosed] (set_dtls_state dtls_closed (set_writable_state False dt)))"
| "read_loop (SR_ERROR # rs) dt =
     Some (dt_emit [DtClosed] (set_dtls_state dtls_failed (set_writable_state False dt)))"
| "read_loop (SR_BLOCK # rs) dt = Some dt"

definition on_dtls_event :: "ssl_event \<Rightarrow> 'q dtls_transport \<Rightarrow> 'q dtls_transport option" where
  "on_dtls_event ev dt =
     (let dt1 = (if ev_open ev then set_dtls_state dtls_connected (set_writable_state True dt) else dt)
      in case (if ev_read ev
               then (if dt_dtls dt1 = None then None else read_loop (ev_reads ev) dt1)
               else Some dt1) of
           None \<Rightarrow> None
         | Some dt2 \<Rightarrow>
             Some (if ev_close ev
                   then (if ev_error ev = 0 then set_dtls_state dtls_closed (set_writable_state False dt2)
                         else set_dtls_state dtls_failed (set_writable_state False dt2))
                   else dt2))"

fun dtls_events :: "ssl_event list \<Rightarrow> 'q dtls_transport \<Rightarrow> 'q dtls_transport option" where
  "dtls_events [] dt = Some dt"
| "dtls_events (ev # evs) dt = Option.bind (on_dtls_event ev dt) (dtls_events evs)"

subsection \<open>DTLS packets\<close>

text \<open>The walk over the records: \<open>True\<close> when they fill the packet exactly.\<close>

function records_complete :: "bytes \<Rightarrow> bool" where
  "records_complete data =
     (if data = [] then True
      else if length data < k_dtls_record_header_len then False
      else (let record_len = unat (push_bit 8 (ucast (data ! 11)) OR ucast (data ! 12) :: u32) in
            if record_len + k_dtls_record_header_len > length data then False
            else records_complete (drop (k_dtls_record_header_len + record_len) data)))"
  by pat_completeness auto
termination
  by (relation "measure length") (auto simp: k_dtls_record_header_len_def)

declare records_complete.simps [simp del]

text \<open>
  A packet whose records are complete goes to the stream; the adapter handles it before
  \<open>on_received_packet\<close> returns, and \<open>evs\<close> are the events it raises while it does.
\<close>

definition handle_dtls_packet ::
  "'q buffer_queue \<Rightarrow> bytes \<Rightarrow> ssl_event list \<Rightarrow> 'q dtls_transport \<Rightarrow> (bool \<times> 'q dtls_transport) option" where
  "handle_dtls_packet bq data evs dt =
     (if \<not> records_complete data then Some (False, dt)
      else (case (dt_downward dt, dt_dtls dt) of
              (Some d, Some (a, sc)) \<Rightarrow>
                if d \<noteq> a then None
                else (let (ret, sc1) = on_received_packet bq data sc;
                          dt1 = dt_emit [DtInput data] (dt\<lparr>dt_dtls := Some (a, sc1)\<rparr>)
                      in map_option (Pair ret) (dtls_events evs dt1))
            | _ \<Rightarrow> None))"

subsection \<open>Starting DTLS\<close>

definition maybe_start_dtls ::
  "'q buffer_queue \<Rightarrow> ssl_results \<Rightarrow> bool \<Rightarrow> ssl_event list \<Rightarrow> 'q dtls_transport
     \<Rightarrow> 'q dtls_transport option" where
  "maybe_start_dtls bq ssl channel_writable evs dt =
     (if dt_dtls dt \<noteq> None \<and> channel_writable
      then (let dt1 = dt_emit [DtStartSSL] dt in
            if ssl_start ssl \<noteq> 0 then Some (set_dtls_state dtls_failed dt1)
            else (let dt2 = set_dtls_state dtls_connecting dt1 in
                  if dt_cached_client_hello dt2 \<noteq> []
                  then (case handle_dtls_packet bq (dt_cached_client_hello dt2) evs dt2 of
                          None \<Rightarrow> None
                        | Some (ok, dt3) \<Rightarrow>
                            Some ((if ok then dt3 else set_dtls_state dtls_failed dt3)\<lparr>dt_cached_client_hello := []\<rparr>))
                  else Some dt2))
      else Some dt)"

text \<open>
  \<open>_setup_dtls\<close>; \<open>a\<close> is the address of the new adapter. The condition on the digest is a bitwise
  AND of the digest's size with the negated result, and the call is made in any case.
\<close>

definition setup_dtls ::
  "'q buffer_queue \<Rightarrow> ssl_results \<Rightarrow> bool \<Rightarrow> nat \<Rightarrow> ssl_event list \<Rightarrow> 'q dtls_transport
     \<Rightarrow> (bool \<times> 'q dtls_transport) option" where
  "setup_dtls bq ssl channel_writable a evs dt =
     (if \<not> ssl_create ssl then Some (False, dt\<lparr>dt_dtls := None\<rparr>)
      else if dt_local_certificate dt = None then None
      else (let dt1 = dt_emit [DtCreate a, DtSetDigest (dt_fingerprint_alg dt) (dt_fingerprint_value dt)]
                        (dt\<lparr>dt_dtls := Some (a, new_stream_channel bq), dt_downward := Some a\<rparr>);
                digest_failed = (if ssl_set_digest ssl (dt_fingerprint_alg dt) (dt_fingerprint_value dt) = DigestOk
                                 then 0 else 1 :: nat)
            in if and (length (dt_fingerprint_value dt)) digest_failed \<noteq> 0 then Some (False, dt1)
               else if dt_srtp_ciphers dt1 \<noteq> [] \<and> \<not> ssl_set_suites ssl (dt_srtp_ciphers dt1) then Some (False, dt1)
               else map_option (Pair True) (maybe_start_dtls bq ssl channel_writable evs dt1)))"

definition set_local_certificate :: "nat option \<Rightarrow> 'q dtls_transport \<Rightarrow> bool \<times> 'q dtls_transport" where
  "set_local_certificate cert dt =
     (if dt_active dt then (cert = dt_local_certificate dt, dt)
      else if cert \<noteq> None then (True, dt\<lparr>dt_local_certificate := cert, dt_active := True\<rparr>)
      else (True, dt))"

definition set_remote_fingerprint ::
  "'q buffer_queue \<Rightarrow> ssl_results \<Rightarrow> bool \<Rightarrow> nat \<Rightarrow> ssl_event list \<Rightarrow> string \<Rightarrow> bytes \<Rightarrow> 'q dtls_transport
     \<Rightarrow> (bool \<times> 'q dtls_transport) option" where
  "set_remote_fingerprint bq ssl channel_writable a evs digest_alg digest dt =
     (if dt_active dt \<and> dt_fingerprint_value dt = digest \<and> digest_alg \<noteq> '''' then Some (True, dt)
      else if digest_alg = '''' then Some (False, dt\<lparr>dt_active := False\<rparr>)
      else if \<not> dt_active dt then Some (False, dt)
      else (let fingerprint_change = (length (dt_fingerprint_value dt) > 0);
                dt1 = dt\<lparr>dt_fingerprint_value := digest, dt_fingerprint_alg := digest_alg\<rparr>
            in if dt_dtls dt1 \<noteq> None \<and> \<not> fingerprint_change
               then (let dt2 = dt_emit [DtSetDigest digest_alg digest] dt1 in
                     case ssl_set_digest ssl digest_alg digest of
                       DigestOk \<Rightarrow> Some (True, dt2)
                     | VerificationFailed \<Rightarrow> Some (True, set_dtls_state dtls_failed dt2)
                     | DigestError \<Rightarrow> Some (False, set_dtls_state dtls_failed dt2))
               else (let dt2 = (if dt_dtls dt1 \<noteq> None \<and> fingerprint_change
                                then set_writable_state False (set_dtls_state dtls_new (dt1\<lparr>dt_dtls := None\<rparr>))
                                else dt1)
                     in case setup_dtls bq ssl channel_writable a evs dt2 of
                          None \<Rightarrow> None
                        | Some (ok, dt3) \<Rightarrow>
                            if ok then Some (True, dt3) else Some (False, set_dtls_state dtls_failed dt3))))"

subsection \<open>The slots of the channel\<close>

definition dt_on_read_packet ::
  "'q buffer_queue \<Rightarrow> ssl_results \<Rightarrow> bool \<Rightarrow> nat \<Rightarrow> ssl_event list \<Rightarrow> bytes \<Rightarrow> 'q dtls_transport
     \<Rightarrow> 'q dtls_transport option" where
  "dt_on_read_packet bq ssl channel_writable a evs buf dt =
     (case dt_state dt of
        dtls_new \<Rightarrow>
          if is_dtls_client_hello_packet buf
          then (let dt1 = dt\<lparr>dt_cached_client_hello := buf\<rparr> in
                if dt_dtls dt1 = None \<and> dt_local_certificate dt1 \<noteq> None
                then map_option snd (setup_dtls bq ssl channel_writable a evs dt1)
                else Some dt1)
          else Some dt
      | dtls_closed \<Rightarrow> Some dt
      | dtls_failed \<Rightarrow> Some dt
      | _ \<Rightarrow>
          if is_dtls_packet buf then map_option snd (handle_dtls_packet bq buf evs dt)
          else if dt_state dt \<noteq> dtls_connected then Some dt
          else if \<not> is_rtp_packet buf then Some dt
          else Some (dt_emit [DtReadPacket buf] dt))"

definition on_writable_state ::
  "'q buffer_queue \<Rightarrow> ssl_results \<Rightarrow> bool \<Rightarrow> ssl_event list \<Rightarrow> 'q dtls_transport \<Rightarrow> 'q dtls_transport option" where
  "on_writable_state bq ssl channel_writable evs dt =
     (if \<not> dt_active dt then Some (set_writable_state channel_writable dt)
      else (case dt_state dt of
              dtls_new \<Rightarrow> maybe_start_dtls bq ssl channel_writable evs dt
            | dtls_connected \<Rightarrow> Some (set_writable_state channel_writable dt)
            | _ \<Rightarrow> Some dt))"

definition get_srtp_crypto_suite :: "ssl_results \<Rightarrow> 'q dtls_transport \<Rightarrow> int option option" where
  "get_srtp_crypto_suite ssl dt =
     (if dt_state dt \<noteq> dtls_connected then Some None
      else if dt_dtls dt = None then None
      else Some (ssl_suite ssl))"

definition export_keying_material :: "ssl_results \<Rightarrow> string \<Rightarrow> nat \<Rightarrow> 'q dtls_transport \<Rightarrow> bytes option" where
  "export_keying_material ssl label result_len dt =
     (if dt_dtls dt \<noteq> None then ssl_export ssl label result_len else None)"

end
