(* ===== verification/Srtp.thy ===== *)
theory Srtp
  imports DtlsTransport
begin

text \<open>
  SRTP: the session that wraps one libsrtp context (\<open>pc/srtp_session.cpp\<close>), the transport with
  its two sessions (\<open>pc/srtp_transport.cpp\<close>) and the transport keyed by DTLS
  (\<open>pc/dtls_srtp_transport.cpp\<close>).

  libsrtp is the parameter \<open>sr\<close>; \<open>'c\<close> is its context. A protect or unprotect call gives its status,
  the packet in the buffer afterwards and the new context. The process-wide usage count of the
  library is passed and returned. A call that would touch a null session is \<open>None\<close>.
\<close>

datatype ssrc_type = ssrc_any_inbound | ssrc_any_outbound

record srtp_policy =
  pol_type :: ssrc_type
  pol_cs :: int
  pol_key :: bytes
  pol_window_size :: nat
  pol_allow_repeat_tx :: bool

text \<open>The policies of a profile give the key length and the length of the authentication tag.\<close>

record 'c srtp_lib =
  sr_init :: bool
  sr_install :: bool
  sr_policy_rtp :: "int \<Rightarrow> (nat \<times> nat) option"
  sr_policy_rtcp :: "int \<Rightarrow> (nat \<times> nat) option"
  sr_create :: "srtp_policy \<Rightarrow> 'c option"
  sr_update :: "'c \<Rightarrow> srtp_policy \<Rightarrow> bool \<times> 'c"
  sr_protect :: "'c \<Rightarrow> bytes \<Rightarrow> bool \<times> bytes \<times> 'c"
  sr_protect_rtcp :: "'c \<Rightarrow> bytes \<Rightarrow> bool \<times> bytes \<times> 'c"
  sr_unprotect :: "'c \<Rightarrow> bytes \<Rightarrow> bool \<times> bytes \<times> 'c"
  sr_unprotect_rtcp :: "'c \<Rightarrow> bytes \<Rightarrow> bool \<times> bytes \<times> 'c"

record srtp_global =
  g_usage_count :: int
  g_initialised :: bool

record 'c srtp_session =
  ss_session :: "'c option"
  ss_inited :: bool
  ss_rtp_auth_tag_len :: nat
  ss_rtcp_auth_tag_len :: nat

definition new_srtp_session :: "'c srtp_session" where
  "new_srtp_session =
     \<lparr>ss_session = None, ss_inited = False, ss_rtp_auth_tag_len = 0, ss_rtcp_auth_tag_len = 0\<rparr>"

definition increment_usage :: "'c srtp_lib \<Rightarrow> srtp_global \<Rightarrow> bool \<times> srtp_global" where
  "increment_usage sr g =
     (if g_usage_count g = 0 \<and> \<not> sr_init sr then (False, g)
      else (let g1 = (if g_usage_count g = 0 then g\<lparr>g_initialised := True\<rparr> else g) in
            if g_usage_count g = 0 \<and> \<not> sr_install sr then (False, g1)
            else (True, g1\<lparr>g_usage_count := g_usage_count g1 + 1\<rparr>)))"

definition decrement_usage :: "srtp_global \<Rightarrow> srtp_global" where
  "decrement_usage g =
     (let g1 = g\<lparr>g_usage_count := g_usage_count g - 1\<rparr> in
      if g_usage_count g1 = 0 then g1\<lparr>g_initialised := False\<rparr> else g1)"

definition session_destroy :: "'c srtp_session \<Rightarrow> srtp_global \<Rightarrow> srtp_global" where
  "session_destroy s g = (if ss_inited s then decrement_usage g else g)"

text \<open>\<open>key\<close> is not null at any call.\<close>

definition do_set_key ::
  "'c srtp_lib \<Rightarrow> ssrc_type \<Rightarrow> int \<Rightarrow> bytes \<Rightarrow> 'c srtp_session \<Rightarrow> bool \<times> 'c srtp_session" where
  "do_set_key sr ty cs key s =
     (case (sr_policy_rtp sr cs, sr_policy_rtcp sr cs) of
        (Some (key_len, rtp_tag), Some (_, rtcp_tag)) \<Rightarrow>
          if length key \<noteq> key_len then (False, s)
          else (let policy = \<lparr>pol_type = ty, pol_cs = cs, pol_key = key, pol_window_size = 1024,
                              pol_allow_repeat_tx = True\<rparr>;
                    finish = (\<lambda>s1. (True, s1\<lparr>ss_rtp_auth_tag_len := rtp_tag, ss_rtcp_auth_tag_len := rtcp_tag\<rparr>))
                in case ss_session s of
                     None \<Rightarrow>
                       (case sr_create sr policy of
                          None \<Rightarrow> (False, s\<lparr>ss_session := None\<rparr>)
                        | Some ctx \<Rightarrow> finish (s\<lparr>ss_session := Some ctx\<rparr>))
                   | Some ctx \<Rightarrow>
                       (let (ok, ctx1) = sr_update sr ctx policy in
                        if ok then finish (s\<lparr>ss_session := Some ctx1\<rparr>) else (False, s\<lparr>ss_session := Some ctx1\<rparr>)))
      | _ \<Rightarrow> (False, s))"

definition set_key ::
  "'c srtp_lib \<Rightarrow> ssrc_type \<Rightarrow> int \<Rightarrow> bytes \<Rightarrow> 'c srtp_session \<Rightarrow> srtp_global
     \<Rightarrow> bool \<times> 'c srtp_session \<times> srtp_global" where
  "set_key sr ty cs key s g =
     (if ss_session s \<noteq> None then (False, s, g)
      else (let (ok, g1) = increment_usage sr g in
            if \<not> ok then (False, s, g1)
            else (let (ret, s1) = do_set_key sr ty cs key (s\<lparr>ss_inited := True\<rparr>) in (ret, s1, g1))))"

definition update_key ::
  "'c srtp_lib \<Rightarrow> ssrc_type \<Rightarrow> int \<Rightarrow> bytes \<Rightarrow> 'c srtp_session \<Rightarrow> bool \<times> 'c srtp_session" where
  "update_key sr ty cs key s = (if ss_session s = None then (False, s) else do_set_key sr ty cs key s)"

text \<open>The SSRC types are those of the code: outbound for both set calls, inbound for both updates.\<close>

definition set_send ::
  "'c srtp_lib \<Rightarrow> int \<Rightarrow> bytes \<Rightarrow> 'c srtp_session \<Rightarrow> srtp_global \<Rightarrow> bool \<times> 'c srtp_session \<times> srtp_global" where
  "set_send sr cs key s g = set_key sr ssrc_any_outbound cs key s g"

definition set_recv ::
  "'c srtp_lib \<Rightarrow> int \<Rightarrow> bytes \<Rightarrow> 'c srtp_session \<Rightarrow> srtp_global \<Rightarrow> bool \<times> 'c srtp_session \<times> srtp_global" where
  "set_recv sr cs key s g = set_key sr ssrc_any_outbound cs key s g"

definition update_send :: "'c srtp_lib \<Rightarrow> int \<Rightarrow> bytes \<Rightarrow> 'c srtp_session \<Rightarrow> bool \<times> 'c srtp_session" where
  "update_send sr cs key s = update_key sr ssrc_any_inbound cs key s"

definition update_recv :: "'c srtp_lib \<Rightarrow> int \<Rightarrow> bytes \<Rightarrow> 'c srtp_session \<Rightarrow> bool \<times> 'c srtp_session" where
  "update_recv sr cs key s = update_key sr ssrc_any_inbound cs key s"

definition get_auth_tag_len :: "'c srtp_session \<Rightarrow> nat \<times> nat" where
  "get_auth_tag_len s =
     (if ss_session s = None then (0, 0) else (ss_rtp_auth_tag_len s, ss_rtcp_auth_tag_len s))"

text \<open>The result of a call on a packet: its status, the packet, the session.\<close>

definition ss_unprotect_rtp :: "'c srtp_lib \<Rightarrow> bytes \<Rightarrow> 'c srtp_session \<Rightarrow> bool \<times> bytes \<times> 'c srtp_session" where
  "ss_unprotect_rtp sr p s =
     (case ss_session s of
        None \<Rightarrow> (False, p, s)
      | Some ctx \<Rightarrow> (let (ok, p1, ctx1) = sr_unprotect sr ctx p in (ok, p1, s\<lparr>ss_session := Some ctx1\<rparr>)))"

definition ss_unprotect_rtcp :: "'c srtp_lib \<Rightarrow> bytes \<Rightarrow> 'c srtp_session \<Rightarrow> bool \<times> bytes \<times> 'c srtp_session" where
  "ss_unprotect_rtcp sr p s =
     (case ss_session s of
        None \<Rightarrow> (False, p, s)
      | Some ctx \<Rightarrow> (let (ok, p1, ctx1) = sr_unprotect_rtcp sr ctx p in (ok, p1, s\<lparr>ss_session := Some ctx1\<rparr>)))"

definition ss_protect_rtp ::
  "'c srtp_lib \<Rightarrow> bytes \<Rightarrow> nat \<Rightarrow> 'c srtp_session \<Rightarrow> bool \<times> bytes \<times> 'c srtp_session" where
  "ss_protect_rtp sr p max_len s =
     (case ss_session s of
        None \<Rightarrow> (False, p, s)
      | Some ctx \<Rightarrow>
          if max_len < length p + ss_rtp_auth_tag_len s then (False, p, s)
          else (let (ok, p1, ctx1) = sr_protect sr ctx p in (ok, p1, s\<lparr>ss_session := Some ctx1\<rparr>)))"

definition ss_protect_rtcp ::
  "'c srtp_lib \<Rightarrow> bytes \<Rightarrow> nat \<Rightarrow> 'c srtp_session \<Rightarrow> bool \<times> bytes \<times> 'c srtp_session" where
  "ss_protect_rtcp sr p max_len s =
     (case ss_session s of
        None \<Rightarrow> (False, p, s)
      | Some ctx \<Rightarrow>
          if max_len < length p + ss_rtcp_auth_tag_len s + 4 then (False, p, s)
          else (let (ok, p1, ctx1) = sr_protect_rtcp sr ctx p in (ok, p1, s\<lparr>ss_session := Some ctx1\<rparr>)))"

subsection \<open>The SRTP transport\<close>

record 'c srtp_transport =
  st_rtcp_mux_enabled :: bool
  st_send_session :: "'c srtp_session option"
  st_recv_session :: "'c srtp_session option"

definition new_srtp_transport :: "bool \<Rightarrow> 'c srtp_transport" where
  "new_srtp_transport mux = \<lparr>st_rtcp_mux_enabled = mux, st_send_session = None, st_recv_session = None\<rparr>"

definition is_srtp_active :: "'c srtp_transport \<Rightarrow> bool" where
  "is_srtp_active t = (st_send_session t \<noteq> None \<and> st_recv_session t \<noteq> None)"

definition destroy_session :: "'c srtp_session option \<Rightarrow> srtp_global \<Rightarrow> srtp_global" where
  "destroy_session s g = (case s of None \<Rightarrow> g | Some s \<Rightarrow> session_destroy s g)"

definition reset_params :: "'c srtp_transport \<Rightarrow> srtp_global \<Rightarrow> 'c srtp_transport \<times> srtp_global" where
  "reset_params t g =
     (t\<lparr>st_send_session := None, st_recv_session := None\<rparr>,
      destroy_session (st_recv_session t) (destroy_session (st_send_session t) g))"

definition create_srtp_session :: "'c srtp_transport \<Rightarrow> srtp_global \<Rightarrow> 'c srtp_transport \<times> srtp_global" where
  "create_srtp_session t g =
     (t\<lparr>st_send_session := Some new_srtp_session, st_recv_session := Some new_srtp_session\<rparr>,
      destroy_session (st_recv_session t) (destroy_session (st_send_session t) g))"

definition set_rtp_params ::
  "'c srtp_lib \<Rightarrow> int \<Rightarrow> bytes \<Rightarrow> int \<Rightarrow> bytes \<Rightarrow> 'c srtp_transport \<Rightarrow> srtp_global
     \<Rightarrow> (bool \<times> 'c srtp_transport \<times> srtp_global) option" where
  "set_rtp_params sr send_cs send_key recv_cs recv_key t g =
     (let new_session = (st_send_session t = None);
          (t1, g1) = (if new_session then create_srtp_session t g else (t, g))
      in case st_send_session t1 of
           None \<Rightarrow> None
         | Some s \<Rightarrow>
             (let (ret, s1, g2) = (if new_session then set_send sr send_cs send_key s g1
                                   else (let (r, s1) = update_send sr send_cs send_key s in (r, s1, g1)));
                  t2 = t1\<lparr>st_send_session := Some s1\<rparr>
              in if \<not> ret then Some (False, reset_params t2 g2)
                 else (case st_recv_session t2 of
                         None \<Rightarrow> None
                       | Some r \<Rightarrow>
                           (let (ret1, r1, g3) = (if new_session then set_recv sr recv_cs recv_key r g2
                                                  else (let (b, r1) = update_recv sr recv_cs recv_key r in (b, r1, g2)));
                                t3 = t2\<lparr>st_recv_session := Some r1\<rparr>
                            in if \<not> ret1 then Some (False, reset_params t3 g3)
                               else Some (True, t3, g3)))))"

definition get_send_auth_tag_len :: "'c srtp_transport \<Rightarrow> nat \<times> nat" where
  "get_send_auth_tag_len t =
     (case st_send_session t of None \<Rightarrow> (0, 0) | Some s \<Rightarrow> get_auth_tag_len s)"

definition st_unprotect_rtp :: "'c srtp_lib \<Rightarrow> bytes \<Rightarrow> 'c srtp_transport \<Rightarrow> bool \<times> bytes \<times> 'c srtp_transport" where
  "st_unprotect_rtp sr p t =
     (if \<not> is_srtp_active t then (False, p, t)
      else (let (ok, p1, s) = ss_unprotect_rtp sr p (the (st_recv_session t))
            in (ok, p1, t\<lparr>st_recv_session := Some s\<rparr>)))"

definition st_unprotect_rtcp :: "'c srtp_lib \<Rightarrow> bytes \<Rightarrow> 'c srtp_transport \<Rightarrow> bool \<times> bytes \<times> 'c srtp_transport" where
  "st_unprotect_rtcp sr p t =
     (if \<not> is_srtp_active t then (False, p, t)
      else (let (ok, p1, s) = ss_unprotect_rtcp sr p (the (st_recv_session t))
            in (ok, p1, t\<lparr>st_recv_session := Some s\<rparr>)))"

definition st_protect_rtp ::
  "'c srtp_lib \<Rightarrow> bytes \<Rightarrow> nat \<Rightarrow> 'c srtp_transport \<Rightarrow> bool \<times> bytes \<times> 'c srtp_transport" where
  "st_protect_rtp sr p max_len t =
     (if \<not> is_srtp_active t then (False, p, t)
      else (let (ok, p1, s) = ss_protect_rtp sr p max_len (the (st_send_session t))
            in (ok, p1, t\<lparr>st_send_session := Some s\<rparr>)))"

definition st_protect_rtcp ::
  "'c srtp_lib \<Rightarrow> bytes \<Rightarrow> nat \<Rightarrow> 'c srtp_transport \<Rightarrow> bool \<times> bytes \<times> 'c srtp_transport" where
  "st_protect_rtcp sr p max_len t =
     (if \<not> is_srtp_active t then (False, p, t)
      else (let (ok, p1, s) = ss_protect_rtcp sr p max_len (the (st_send_session t))
            in (ok, p1, t\<lparr>st_send_session := Some s\<rparr>)))"

subsection \<open>The transport keyed by DTLS\<close>

text \<open>\<open>DtlsTransport*\<close> is an address in the heap \<open>dts\<close> of DTLS transports.\<close>

definition k_dtls_srtp_exporter_label :: string where
  "k_dtls_srtp_exporter_label = ''EXTRACTOR-dtls_srtp''"

datatype srtp_event = DsRtp bytes | DsRtcp bytes | DsSent nat bytes

record 'c dtls_srtp =
  ds_name :: string
  ds_srtp :: "'c srtp_transport"
  ds_rtp_dtls :: "nat option"
  ds_rtcp_dtls :: "nat option"
  ds_unprotect_fail_count :: int
  ds_last_send_seq_num :: u16
  ds_events :: "srtp_event list"

definition new_dtls_srtp :: "string \<Rightarrow> bool \<Rightarrow> 'c dtls_srtp" where
  "new_dtls_srtp name mux =
     \<lparr>ds_name = name, ds_srtp = new_srtp_transport mux, ds_rtp_dtls = None, ds_rtcp_dtls = None,
      ds_unprotect_fail_count = 0, ds_last_send_seq_num = 0, ds_events = []\<rparr>"

definition set_dtls_transports :: "nat option \<Rightarrow> nat option \<Rightarrow> 'c dtls_srtp \<Rightarrow> 'c dtls_srtp" where
  "set_dtls_transports rtp rtcp ds = ds\<lparr>ds_rtp_dtls := rtp, ds_rtcp_dtls := rtcp\<rparr>"

definition dtls_at :: "(nat \<Rightarrow> 'q dtls_transport option) \<Rightarrow> nat option \<Rightarrow> 'q dtls_transport option option" where
  "dtls_at dts p = (case p of None \<Rightarrow> Some None | Some a \<Rightarrow> map_option Some (dts a))"

definition is_dtls_writable :: "(nat \<Rightarrow> 'q dtls_transport option) \<Rightarrow> 'c dtls_srtp \<Rightarrow> bool option" where
  "is_dtls_writable dts ds =
     (let rtcp_transport = (if st_rtcp_mux_enabled (ds_srtp ds) then None else ds_rtcp_dtls ds) in
      case dtls_at dts (ds_rtp_dtls ds) of
        None \<Rightarrow> None
      | Some None \<Rightarrow> Some False
      | Some (Some dt) \<Rightarrow>
          if \<not> dt_writable dt then Some False
          else (case dtls_at dts rtcp_transport of
                  None \<Rightarrow> None
                | Some None \<Rightarrow> Some True
                | Some (Some rt) \<Rightarrow> Some (dt_writable rt)))"

text \<open>
  The split of the exported material: client key, server key, client salt, server salt. The
  server sends with its own key and receives with the client's.
\<close>

definition split_keys :: "nat \<Rightarrow> nat \<Rightarrow> bytes \<Rightarrow> bytes \<times> bytes" where
  "split_keys key_len salt_len dtls_buffer =
     (let client_key = take key_len dtls_buffer;
          server_key = take key_len (drop key_len dtls_buffer);
          client_salt = take salt_len (drop (key_len + key_len) dtls_buffer);
          server_salt = take salt_len (drop (key_len + key_len + salt_len) dtls_buffer)
      in (server_key @ server_salt, client_key @ client_salt))"

definition extract_params ::
  "(int \<Rightarrow> (nat \<times> nat) option) \<Rightarrow> ssl_results \<Rightarrow> 'q dtls_transport option
     \<Rightarrow> (int \<times> bytes \<times> bytes) option option" where
  "extract_params key_lengths ssl dtls =
     (case dtls of
        None \<Rightarrow> Some None
      | Some dt \<Rightarrow>
          if \<not> dt_active dt then Some None
          else (case get_srtp_crypto_suite ssl dt of
                  None \<Rightarrow> None
                | Some None \<Rightarrow> Some None
                | Some (Some suite) \<Rightarrow>
                    (case key_lengths suite of
                       None \<Rightarrow> Some None
                     | Some (key_len, salt_len) \<Rightarrow>
                         (case export_keying_material ssl k_dtls_srtp_exporter_label (key_len * 2 + salt_len * 2) dt of
                            None \<Rightarrow> Some None
                          | Some buffer \<Rightarrow>
                              (let (send_key, recv_key) = split_keys key_len salt_len buffer
                               in Some (Some (suite, send_key, recv_key)))))))"

definition setup_dtls_srtp ::
  "'c srtp_lib \<Rightarrow> (int \<Rightarrow> (nat \<times> nat) option) \<Rightarrow> ssl_results \<Rightarrow> (nat \<Rightarrow> 'q dtls_transport option)
     \<Rightarrow> 'c dtls_srtp \<Rightarrow> srtp_global \<Rightarrow> ('c dtls_srtp \<times> srtp_global) option" where
  "setup_dtls_srtp sr key_lengths ssl dts ds g =
     (case dtls_at dts (ds_rtp_dtls ds) of
        None \<Rightarrow> None
      | Some dtls \<Rightarrow>
          (case extract_params key_lengths ssl dtls of
             None \<Rightarrow> None
           | Some None \<Rightarrow> Some (ds, g)
           | Some (Some (suite, send_key, recv_key)) \<Rightarrow>
               map_option (\<lambda>(ok, t, g1). (ds\<lparr>ds_srtp := t\<rparr>, g1))
                 (set_rtp_params sr suite send_key suite recv_key (ds_srtp ds) g)))"

definition maybe_setup_dtls_srtp ::
  "'c srtp_lib \<Rightarrow> (int \<Rightarrow> (nat \<times> nat) option) \<Rightarrow> ssl_results \<Rightarrow> (nat \<Rightarrow> 'q dtls_transport option)
     \<Rightarrow> 'c dtls_srtp \<Rightarrow> srtp_global \<Rightarrow> ('c dtls_srtp \<times> srtp_global) option" where
  "maybe_setup_dtls_srtp sr key_lengths ssl dts ds g =
     (if is_srtp_active (ds_srtp ds) then Some (ds, g)
      else (case is_dtls_writable dts ds of
              None \<Rightarrow> None
            | Some False \<Rightarrow> Some (ds, g)
            | Some True \<Rightarrow> setup_dtls_srtp sr key_lengths ssl dts ds g))"

definition ds_on_dtls_state ::
  "'c srtp_lib \<Rightarrow> (int \<Rightarrow> (nat \<times> nat) option) \<Rightarrow> ssl_results \<Rightarrow> (nat \<Rightarrow> 'q dtls_transport option)
     \<Rightarrow> dtls_state \<Rightarrow> 'c dtls_srtp \<Rightarrow> srtp_global \<Rightarrow> ('c dtls_srtp \<times> srtp_global) option" where
  "ds_on_dtls_state sr key_lengths ssl dts state ds g =
     (if state \<noteq> dtls_connected
      then (let (t, g1) = reset_params (ds_srtp ds) g in Some (ds\<lparr>ds_srtp := t\<rparr>, g1))
      else maybe_setup_dtls_srtp sr key_lengths ssl dts ds g)"

definition ds_emit :: "srtp_event list \<Rightarrow> 'c dtls_srtp \<Rightarrow> 'c dtls_srtp" where
  "ds_emit es ds = ds\<lparr>ds_events := ds_events ds @ es\<rparr>"

definition on_rtcp_packet_received :: "'c srtp_lib \<Rightarrow> bytes \<Rightarrow> 'c dtls_srtp \<Rightarrow> 'c dtls_srtp" where
  "on_rtcp_packet_received sr packet ds =
     (if \<not> is_srtp_active (ds_srtp ds) then ds
      else (let (ok, packet1, t) = st_unprotect_rtcp sr packet (ds_srtp ds);
                ds1 = ds\<lparr>ds_srtp := t\<rparr>
            in if \<not> ok then ds1 else ds_emit [DsRtcp packet1] ds1))"

text \<open>
  A packet that fails the check is counted and then signalled like the others: there is no return.
  Every hundredth failure is logged with fields read from the packet.
\<close>

definition on_rtp_packet_received :: "'c srtp_lib \<Rightarrow> bytes \<Rightarrow> 'c dtls_srtp \<Rightarrow> 'c dtls_srtp option" where
  "on_rtp_packet_received sr packet ds =
     (if \<not> is_srtp_active (ds_srtp ds) then Some ds
      else (let (ok, packet1, t) = st_unprotect_rtp sr packet (ds_srtp ds);
                ds1 = ds\<lparr>ds_srtp := t\<rparr>
            in if ok then Some (ds_emit [DsRtp packet1] ds1)
               else if ds_unprotect_fail_count ds1 mod 100 = 0
                       \<and> (parse_rtp_sequence_number packet = None \<or> parse_rtp_ssrc packet = None) then None
               else Some (ds_emit [DsRtp packet1]
                      (ds1\<lparr>ds_unprotect_fail_count := ds_unprotect_fail_count ds1 + 1\<rparr>))))"

definition ds_on_read_packet :: "'c srtp_lib \<Rightarrow> bytes \<Rightarrow> 'c dtls_srtp \<Rightarrow> 'c dtls_srtp option" where
  "ds_on_read_packet sr data ds =
     (case infer_rtp_packet_type data of
        k_unknown \<Rightarrow> Some ds
      | k_rtcp \<Rightarrow> Some (on_rtcp_packet_received sr data ds)
      | k_rtp \<Rightarrow> on_rtp_packet_received sr data ds)"

text \<open>\<open>sent\<close> is the result of the channel's \<open>send_packet\<close>.\<close>

definition send_rtp :: "'c srtp_lib \<Rightarrow> int \<Rightarrow> bytes \<Rightarrow> 'c dtls_srtp \<Rightarrow> (int \<times> 'c dtls_srtp) option" where
  "send_rtp sr sent buf ds =
     (if \<not> is_srtp_active (ds_srtp ds) then Some (- 1, ds)
      else (case parse_rtp_sequence_number buf of
              None \<Rightarrow> None
            | Some seq_num \<Rightarrow>
                (let rtp_auth_tag_len = fst (get_send_auth_tag_len (ds_srtp ds));
                     (ok, packet, t) = st_protect_rtp sr buf (length buf + rtp_auth_tag_len) (ds_srtp ds);
                     ds1 = ds\<lparr>ds_srtp := t\<rparr>
                 in if \<not> ok then (if parse_rtp_ssrc buf = None then None else Some (- 1, ds1))
                    else (case ds_rtp_dtls ds1 of
                            None \<Rightarrow> None
                          | Some a \<Rightarrow> Some (sent, ds_emit [DsSent a packet] (ds1\<lparr>ds_last_send_seq_num := seq_num\<rparr>))))))"

definition send_rtcp :: "'c srtp_lib \<Rightarrow> int \<Rightarrow> bytes \<Rightarrow> 'c dtls_srtp \<Rightarrow> (int \<times> 'c dtls_srtp) option" where
  "send_rtcp sr sent buf ds =
     (if \<not> is_srtp_active (ds_srtp ds) then Some (- 1, ds)
      else (let rtcp_auth_tag_len = snd (get_send_auth_tag_len (ds_srtp ds));
                (ok, packet, t) = st_protect_rtcp sr buf (length buf + rtcp_auth_tag_len + 4) (ds_srtp ds);
                ds1 = ds\<lparr>ds_srtp := t\<rparr>
            in if \<not> ok then Some (- 1, ds1)
               else (case ds_rtp_dtls ds1 of
                       None \<Rightarrow> None
                     | Some a \<Rightarrow> Some (sent, ds_emit [DsSent a packet] ds1))))"

end
