(* ===== verification/SessionDesc.thy ===== *)
theory SessionDesc
  imports IceDefs
begin

text \<open>
  The session description (\<open>pc/session_description.h\<close>, \<open>pc/session_description.cpp\<close>), its codecs
  (\<open>pc/codec_info.h\<close>) and tracks (\<open>pc/stream_params.h\<close>): the data, the lookups by media
  identifier and by group name, the transport infos, and the SDP text of \<open>to_string\<close>.

  The string and fingerprint services of \<open>rtc_base\<close> are the fields of the parameter \<open>sl\<close>; the
  locale \<open>sdp_text_laws\<close> (theory \<open>SdpText\<close>) holds what is documented of them. A certificate is an
  address. The member functions that only read or write a field are the record's own selectors
  and updates.
\<close>

datatype sdp_type = k_offer | k_answer

datatype media_type = MEDIA_TYPE_AUDIO | MEDIA_TYPE_VIDEO

datatype rtp_direction = k_send_recv | k_send_only | k_recv_only | k_inactive

record feedback_param =
  fb_id :: string
  fb_param :: string

text \<open>\<open>ci_channels\<close> is present in an \<open>AudioCodecInfo\<close>; \<open>ci_params\<close> is in the order of the keys.\<close>

record codec_info =
  ci_id :: int
  ci_name :: string
  ci_clockrate :: int
  ci_feedback :: "feedback_param list"
  ci_params :: "(string \<times> string) list"
  ci_channels :: "int option"

record ssrc_group =
  sg_semantics :: string
  sg_ssrcs :: "u32 list"

record stream_params =
  sp_id :: string
  sp_ssrcs :: "u32 list"
  sp_ssrc_groups :: "ssrc_group list"
  sp_cname :: string
  sp_stream_id :: string

definition new_stream_params :: stream_params where
  "new_stream_params =
     \<lparr>sp_id = '''', sp_ssrcs = [], sp_ssrc_groups = [], sp_cname = '''', sp_stream_id = ''''\<rparr>"

definition has_ssrc :: "u32 \<Rightarrow> stream_params \<Rightarrow> bool" where
  "has_ssrc ssrc sp = list_ex (\<lambda>item. item = ssrc) (sp_ssrcs sp)"

text \<open>The direction is unset until \<open>set_direction\<close>; \<open>None\<close> is the unset value.\<close>

record media_content =
  mc_type :: media_type
  mc_codecs :: "codec_info list"
  mc_direction :: "rtp_direction option"
  mc_rtcp_mux :: bool
  mc_candidates :: "candidate list"
  mc_streams :: "stream_params list"

fun media_mid :: "media_type \<Rightarrow> string" where
  "media_mid MEDIA_TYPE_AUDIO = ''audio''"
| "media_mid MEDIA_TYPE_VIDEO = ''video''"

definition mc_mid :: "media_content \<Rightarrow> string" where
  "mc_mid mc = media_mid (mc_type mc)"

definition opus_codec :: codec_info where
  "opus_codec =
     \<lparr>ci_id = 111, ci_name = ''opus'', ci_clockrate = 48000,
      ci_feedback = [\<lparr>fb_id = ''transport-cc'', fb_param = ''''\<rparr>],
      ci_params = [(''minptime'', ''10''), (''useinbandfec'', ''1'')], ci_channels = Some 2\<rparr>"

definition h264_codec :: codec_info where
  "h264_codec =
     \<lparr>ci_id = 107, ci_name = ''H264'', ci_clockrate = 90000,
      ci_feedback = [\<lparr>fb_id = ''goog-remb'', fb_param = ''''\<rparr>, \<lparr>fb_id = ''transport-cc'', fb_param = ''''\<rparr>,
        \<lparr>fb_id = ''ccm'', fb_param = ''fir''\<rparr>, \<lparr>fb_id = ''nack'', fb_param = ''''\<rparr>,
        \<lparr>fb_id = ''nack'', fb_param = ''pli''\<rparr>],
      ci_params = [(''level-asymmetry-allowed'', ''1''), (''packetization-mode'', ''1''),
        (''profile-level-id'', ''42e01f'')],
      ci_channels = None\<rparr>"

definition rtx_codec :: codec_info where
  "rtx_codec =
     \<lparr>ci_id = 99, ci_name = ''rtx'', ci_clockrate = 90000, ci_feedback = [],
      ci_params = [(''apt'', show_int (ci_id h264_codec))], ci_channels = None\<rparr>"

definition audio_content :: media_content where
  "audio_content =
     \<lparr>mc_type = MEDIA_TYPE_AUDIO, mc_codecs = [opus_codec], mc_direction = None, mc_rtcp_mux = True,
      mc_candidates = [], mc_streams = []\<rparr>"

definition video_content :: media_content where
  "video_content =
     \<lparr>mc_type = MEDIA_TYPE_VIDEO, mc_codecs = [h264_codec, rtx_codec], mc_direction = None,
      mc_rtcp_mux = True, mc_candidates = [], mc_streams = []\<rparr>"

definition add_candidates :: "candidate list \<Rightarrow> media_content \<Rightarrow> media_content" where
  "add_candidates cs mc = mc\<lparr>mc_candidates := cs\<rparr>"

definition add_stream :: "stream_params \<Rightarrow> media_content \<Rightarrow> media_content" where
  "add_stream sp mc = mc\<lparr>mc_streams := mc_streams mc @ [sp]\<rparr>"

subsection \<open>Groups and transport infos\<close>

record content_group =
  cg_semantics :: string
  cg_names :: "string list"

definition has_content_name :: "string \<Rightarrow> content_group \<Rightarrow> bool" where
  "has_content_name name g = list_ex (\<lambda>n. n = name) (cg_names g)"

definition add_content_name :: "string \<Rightarrow> content_group \<Rightarrow> content_group" where
  "add_content_name name g =
     (if has_content_name name g then g else g\<lparr>cg_names := cg_names g @ [name]\<rparr>)"

datatype connection_role = NONE | ACTIVE | PASSIVE | ACTPASS | HOLDCONN

fun connection_role_to_string :: "connection_role \<Rightarrow> string" where
  "connection_role_to_string ACTIVE = ''active''"
| "connection_role_to_string PASSIVE = ''passive''"
| "connection_role_to_string ACTPASS = ''actpass''"
| "connection_role_to_string HOLDCONN = ''holdconn''"
| "connection_role_to_string NONE = ''none''"

record fingerprint =
  fp_algorithm :: string
  fp_digest :: bytes

record transport_desc =
  td_mid :: string
  td_ice_ufrag :: string
  td_ice_pwd :: string
  td_fingerprint :: "fingerprint option"
  td_role :: connection_role

definition new_transport_desc :: transport_desc where
  "new_transport_desc =
     \<lparr>td_mid = '''', td_ice_ufrag = '''', td_ice_pwd = '''', td_fingerprint = None, td_role = NONE\<rparr>"

record session_desc =
  sd_type :: sdp_type
  sd_contents :: "media_content list"
  sd_groups :: "content_group list"
  sd_transports :: "transport_desc list"

definition new_session_desc :: "sdp_type \<Rightarrow> session_desc" where
  "new_session_desc ty = \<lparr>sd_type = ty, sd_contents = [], sd_groups = [], sd_transports = []\<rparr>"

text \<open>
  The services of the library: \<open>rtc::split\<close>, \<open>rtc::tokenize\<close>, \<open>rtc::tokenize_first\<close>,
  \<open>rtc::FromString\<close> for \<open>uint32_t\<close>, the fingerprint of a certificate, of an algorithm and text,
  and its text, \<open>IPIsPrivateNetwork\<close> and \<open>HostAsURIString\<close>.
\<close>

record sdp_lib =
  sl_split :: "string \<Rightarrow> char \<Rightarrow> string list"
  sl_tokenize :: "string \<Rightarrow> char \<Rightarrow> string list"
  sl_tokenize_first :: "string \<Rightarrow> char \<Rightarrow> (string \<times> string) option"
  sl_from_string :: "string \<Rightarrow> u32 option"
  sl_cert_fingerprint :: "nat \<Rightarrow> fingerprint option"
  sl_create_fingerprint :: "string \<Rightarrow> string \<Rightarrow> fingerprint option"
  sl_fingerprint_text :: "fingerprint \<Rightarrow> string"
  sl_private :: "ip_address \<Rightarrow> bool"
  sl_host_uri :: "ip_address \<Rightarrow> string"

definition string_of_bytes :: "bytes \<Rightarrow> string" where
  "string_of_bytes bs = map (\<lambda>b. char_of (unat b)) bs"

definition get_group_by_name :: "string \<Rightarrow> session_desc \<Rightarrow> content_group list" where
  "get_group_by_name name sd = filter (\<lambda>g. cg_semantics g = name) (sd_groups sd)"

definition get_content :: "string \<Rightarrow> session_desc \<Rightarrow> media_content option" where
  "get_content mid sd = find (\<lambda>mc. mid = mc_mid mc) (sd_contents sd)"

definition add_content :: "media_content \<Rightarrow> session_desc \<Rightarrow> session_desc" where
  "add_content mc sd = sd\<lparr>sd_contents := sd_contents sd @ [mc]\<rparr>"

definition add_group :: "content_group \<Rightarrow> session_desc \<Rightarrow> session_desc" where
  "add_group g sd = sd\<lparr>sd_groups := sd_groups sd @ [g]\<rparr>"

definition is_bundle :: "string \<Rightarrow> session_desc \<Rightarrow> bool" where
  "is_bundle mid sd =
     list_ex (\<lambda>g. list_ex (\<lambda>name. name = mid) (cg_names g)) (get_group_by_name ''BUNDLE'' sd)"

text \<open>Reading the first name of a group without names is out of bounds (\<open>None\<close>).\<close>

definition get_first_bundle_mid :: "session_desc \<Rightarrow> string option" where
  "get_first_bundle_mid sd =
     (case get_group_by_name ''BUNDLE'' sd of
        [] \<Rightarrow> Some ''''
      | g # _ \<Rightarrow> (case cg_names g of [] \<Rightarrow> None | name # _ \<Rightarrow> Some name))"

definition add_transport_info ::
  "sdp_lib \<Rightarrow> string \<Rightarrow> ice_parameters \<Rightarrow> nat option \<Rightarrow> session_desc \<Rightarrow> bool \<times> session_desc" where
  "add_transport_info sl mid ice_param certificate sd =
     (let td = new_transport_desc\<lparr>td_mid := mid, td_ice_ufrag := string_of_bytes (ice_ufrag ice_param),
                 td_ice_pwd := string_of_bytes (ice_pwd ice_param)\<rparr>;
          role = (if sd_type sd = k_offer then ACTPASS else ACTIVE)
      in case certificate of
           None \<Rightarrow> (True, sd\<lparr>sd_transports := sd_transports sd @ [td\<lparr>td_role := role\<rparr>]\<rparr>)
         | Some cert \<Rightarrow>
             (case sl_cert_fingerprint sl cert of
                None \<Rightarrow> (False, sd)
              | Some fp \<Rightarrow>
                  (True, sd\<lparr>sd_transports := sd_transports sd @ [td\<lparr>td_fingerprint := Some fp, td_role := role\<rparr>]\<rparr>)))"

definition add_transport_desc :: "transport_desc \<Rightarrow> session_desc \<Rightarrow> session_desc" where
  "add_transport_desc td sd = sd\<lparr>sd_transports := sd_transports sd @ [td]\<rparr>"

definition get_transport_info :: "string \<Rightarrow> session_desc \<Rightarrow> transport_desc option" where
  "get_transport_info mid sd = find (\<lambda>td. td_mid td = mid) (sd_transports sd)"

subsection \<open>The text of a description\<close>

text \<open>Each function gives the lines it writes; \<open>sdp_text\<close> ends every line with CR LF.\<close>

definition crlf :: string where "crlf = [char_of (13::nat), char_of (10::nat)]"

definition sdp_text :: "string list \<Rightarrow> string" where
  "sdp_text ls = concat (map (\<lambda>l. l @ crlf) ls)"

definition k_media_protocol_dtls_savpf :: string where
  "k_media_protocol_dtls_savpf = ''UDP/TLS/RTP/SAVPF''"

definition rtcp_fb_lines :: "codec_info \<Rightarrow> string list" where
  "rtcp_fb_lines codec =
     map (\<lambda>p. ''a=rtcp-fb:'' @ show_int (ci_id codec) @ '' '' @ fb_id p
                @ (if fb_param p \<noteq> '''' then '' '' @ fb_param p else ''''))
       (ci_feedback codec)"

definition fmtp_lines :: "codec_info \<Rightarrow> string list" where
  "fmtp_lines codec =
     (if ci_params codec \<noteq> []
      then [''a=fmtp:'' @ show_int (ci_id codec) @ '' ''
              @ drop 1 (concat (map (\<lambda>(k, v). '';'' @ k @ ''='' @ v) (ci_params codec)))]
      else [])"

text \<open>An audio content's codecs are \<open>AudioCodecInfo\<close>: \<open>as_audio\<close> is not null there.\<close>

definition rtp_map_lines :: "media_content \<Rightarrow> string list" where
  "rtp_map_lines mc =
     concat (map (\<lambda>codec.
       (''a=rtpmap:'' @ show_int (ci_id codec) @ '' '' @ ci_name codec @ ''/'' @ show_int (ci_clockrate codec)
          @ (if mc_type mc = MEDIA_TYPE_AUDIO then ''/'' @ show_int (the (ci_channels codec)) else ''''))
       # rtcp_fb_lines codec @ fmtp_lines codec) (mc_codecs mc))"

text \<open>Only an offer is printed, and its directions are set; an unset direction prints as the default.\<close>

definition direction_line :: "media_content \<Rightarrow> string" where
  "direction_line mc =
     (case mc_direction mc of
        Some k_send_recv \<Rightarrow> ''a=sendrecv''
      | Some k_send_only \<Rightarrow> ''a=sendonly''
      | Some k_recv_only \<Rightarrow> ''a=recvonly''
      | _ \<Rightarrow> ''a=inactive'')"

definition candidate_line :: "sdp_lib \<Rightarrow> string \<Rightarrow> candidate \<Rightarrow> string" where
  "candidate_line sl server_addr c =
     ''a=candidate:'' @ cand_foundation c @ '' '' @ show_int (component_id (cand_component c)) @ '' ''
       @ cand_protocol c @ '' '' @ show_nat (unat (cand_priority c))
       @ (if sl_private sl (sa_ip (cand_address c)) then '' '' @ server_addr
          else '' '' @ sl_host_uri sl (sa_ip (cand_address c)))
       @ '' '' @ show_int (cand_port c) @ '' typ '' @ cand_type c"

definition ssrc_line :: "u32 \<Rightarrow> string \<Rightarrow> string \<Rightarrow> string" where
  "ssrc_line ssrc attribute val =
     ''a=ssrc:'' @ show_nat (unat ssrc) @ '' '' @ attribute @ '':'' @ val"

definition ssrc_lines :: "media_content \<Rightarrow> string list" where
  "ssrc_lines mc =
     concat (map (\<lambda>track.
       map (\<lambda>g. ''a=ssrc-group:'' @ sg_semantics g
                  @ concat (map (\<lambda>ssrc. '' '' @ show_nat (unat ssrc)) (sg_ssrcs g)))
         (filter (\<lambda>g. sg_ssrcs g \<noteq> []) (sp_ssrc_groups track))
       @ concat (map (\<lambda>ssrc.
           [ssrc_line ssrc ''cname'' (sp_cname track),
            ssrc_line ssrc ''msid'' (sp_stream_id track @ '' '' @ sp_id track),
            ssrc_line ssrc ''mslabel'' (sp_stream_id track),
            ssrc_line ssrc ''label'' (sp_id track)]) (sp_ssrcs track)))
       (mc_streams mc))"

definition transport_lines :: "sdp_lib \<Rightarrow> transport_desc option \<Rightarrow> string list" where
  "transport_lines sl ti =
     (case ti of
        None \<Rightarrow> []
      | Some td \<Rightarrow>
          [''a=ice-ufrag:'' @ td_ice_ufrag td, ''a=ice-pwd:'' @ td_ice_pwd td]
          @ (case td_fingerprint td of
               None \<Rightarrow> []
             | Some fp \<Rightarrow>
                 [''a=fingerprint:'' @ fp_algorithm fp @ '' '' @ sl_fingerprint_text sl fp,
                  ''a=setup:'' @ connection_role_to_string (td_role td)]))"

definition content_lines :: "sdp_lib \<Rightarrow> string \<Rightarrow> session_desc \<Rightarrow> media_content \<Rightarrow> string list" where
  "content_lines sl server_addr sd mc =
     [''m='' @ mc_mid mc @ '' 9 '' @ k_media_protocol_dtls_savpf
        @ concat (map (\<lambda>codec. '' '' @ show_int (ci_id codec)) (mc_codecs mc)),
      ''c=IN IP4 0.0.0.0'', ''a=rtcp:9 IN IP4 0.0.0.0'']
     @ map (candidate_line sl server_addr) (mc_candidates mc)
     @ transport_lines sl (get_transport_info (mc_mid mc) sd)
     @ [''a=mid:'' @ mc_mid mc, direction_line mc]
     @ (if mc_rtcp_mux mc then [''a=rtcp-mux''] else [])
     @ rtp_map_lines mc @ ssrc_lines mc"

definition session_lines :: "sdp_lib \<Rightarrow> string \<Rightarrow> session_desc \<Rightarrow> string list" where
  "session_lines sl server_addr sd =
     [''v=0'', ''o=- 0 2 IN IP4 127.0.0.1'', ''s=-'', ''t=0 0'']
     @ (case get_group_by_name ''BUNDLE'' sd of
          [] \<Rightarrow> []
        | gs \<Rightarrow> [''a=group:BUNDLE'' @ concat (map (\<lambda>g. concat (map (\<lambda>name. '' '' @ name) (cg_names g))) gs)])
     @ [''a=msid-semantic: WMS'']
     @ concat (map (content_lines sl server_addr sd) (sd_contents sd))"

definition sd_to_string :: "sdp_lib \<Rightarrow> string \<Rightarrow> session_desc \<Rightarrow> string" where
  "sd_to_string sl server_addr sd = sdp_text (session_lines sl server_addr sd)"

end
