(* ===== verification/SdpParser.thy ===== *)
theory SdpParser
  imports SessionDesc
begin

text \<open>
  The two descriptions of a peer connection (\<open>pc/peer_connection.cpp\<close>): the offer that
  \<open>create_offer\<close> builds from the options, the certificate, the ICE parameters and the sources, and
  the parser of the answer in \<open>set_remote_sdp\<close>. An exception of \<open>substr\<close> is \<open>None\<close> (nothing
  catches it); a \<open>return -1\<close> is the code \<open>- 1\<close> with what was stored before it.
\<close>

subsection \<open>The offer\<close>

record offer_options =
  recv_video :: bool
  recv_audio :: bool
  send_video :: bool
  send_audio :: bool
  use_rtp_mux :: bool
  use_rtcp_mux :: bool
  dtls_on :: bool

definition new_offer_options :: offer_options where
  "new_offer_options =
     \<lparr>recv_video = True, recv_audio = True, send_video = True, send_audio = True,
      use_rtp_mux = True, use_rtcp_mux = True, dtls_on = True\<rparr>"

definition get_direction :: "bool \<Rightarrow> bool \<Rightarrow> rtp_direction" where
  "get_direction send recv =
     (if send \<and> recv then k_send_recv
      else if send \<and> \<not> recv then k_send_only
      else if \<not> send \<and> recv then k_recv_only
      else k_inactive)"

text \<open>One media section: the content is stored before its streams are added to it.\<close>

definition offer_section ::
  "sdp_lib \<Rightarrow> nat option \<Rightarrow> ice_parameters \<Rightarrow> bool \<Rightarrow> bool \<Rightarrow> bool \<Rightarrow> stream_params list \<Rightarrow> media_content
     \<Rightarrow> session_desc \<Rightarrow> session_desc" where
  "offer_section sl cert ice_param send recv mux source content sd =
     (if recv \<or> send
      then (let mc = content\<lparr>mc_direction := Some (get_direction send recv), mc_rtcp_mux := mux\<rparr>;
                mc1 = (if send then foldl (\<lambda>m stream. add_stream stream m) mc source else mc)
            in snd (add_transport_info sl (mc_mid mc) ice_param cert (add_content mc1 sd)))
      else sd)"

definition build_offer ::
  "sdp_lib \<Rightarrow> offer_options \<Rightarrow> nat option \<Rightarrow> ice_parameters \<Rightarrow> stream_params list \<Rightarrow> stream_params list
     \<Rightarrow> session_desc" where
  "build_offer sl opts cert ice_param audio_source video_source =
     (let sd = offer_section sl cert ice_param (send_audio opts) (recv_audio opts) (use_rtcp_mux opts)
                 audio_source audio_content (new_session_desc k_offer);
          sd1 = offer_section sl cert ice_param (send_video opts) (recv_video opts) (use_rtcp_mux opts)
                 video_source video_content sd
      in if use_rtp_mux opts
         then (let g = foldl (\<lambda>g mc. add_content_name (mc_mid mc) g) \<lparr>cg_semantics = ''BUNDLE'', cg_names = []\<rparr>
                         (sd_contents sd1)
               in if cg_names g \<noteq> [] then add_group g sd1 else sd1)
         else sd1)"

subsection \<open>Strings\<close>

definition starts_with :: "string \<Rightarrow> string \<Rightarrow> bool" where
  "starts_with p s = (take (length p) s = p)"

text \<open>\<open>s.find(p) != npos\<close>.\<close>

fun contains :: "string \<Rightarrow> string \<Rightarrow> bool" where
  "contains p [] = (p = [])"
| "contains p (c # s) = (starts_with p (c # s) \<or> contains p s)"

text \<open>\<open>s.substr(n)\<close> throws when \<open>n\<close> is past the end.\<close>

definition substr :: "nat \<Rightarrow> string \<Rightarrow> string option" where
  "substr n s = (if n > length s then None else Some (drop n s))"

definition lower_char :: "char \<Rightarrow> char" where
  "lower_char c = (if 65 \<le> (of_char c :: nat) \<and> (of_char c :: nat) \<le> 90 then char_of ((of_char c :: nat) + 32) else c)"

subsection \<open>The lines of the answer\<close>

record ssrc_info =
  si_ssrc_id :: u32
  si_cname :: string
  si_stream_id :: string
  si_track_id :: string

definition get_atrribute :: "sdp_lib \<Rightarrow> string \<Rightarrow> string" where
  "get_atrribute sl line =
     (let fields = sl_tokenize sl line CHR '':'' in if length fields \<noteq> 2 then '''' else fields ! 1)"

definition parse_transport_info ::
  "sdp_lib \<Rightarrow> transport_desc \<Rightarrow> string \<Rightarrow> (int \<times> transport_desc) option" where
  "parse_transport_info sl td line =
     (if contains ''a=ice-ufrag'' line
      then (let td1 = td\<lparr>td_ice_ufrag := get_atrribute sl line\<rparr> in
            if td_ice_ufrag td1 = '''' then Some (- 1, td1) else Some (0, td1))
      else if contains ''a=ice-pwd'' line
      then (let td1 = td\<lparr>td_ice_pwd := get_atrribute sl line\<rparr> in
            if td_ice_pwd td1 = '''' then Some (- 1, td1) else Some (0, td1))
      else if contains ''a=fingerprint'' line
      then (let items = sl_tokenize sl line CHR '' '' in
            if length items \<noteq> 2 then Some (- 1, td)
            else (case substr 14 (items ! 0) of
                    None \<Rightarrow> None
                  | Some s \<Rightarrow>
                      (let td1 = td\<lparr>td_fingerprint := sl_create_fingerprint sl (map lower_char s) (items ! 1)\<rparr> in
                       if td_fingerprint td1 = None then Some (- 1, td1) else Some (0, td1))))
      else Some (0, td))"

fun set_ssrc_info :: "u32 \<Rightarrow> (ssrc_info \<Rightarrow> ssrc_info) \<Rightarrow> ssrc_info list \<Rightarrow> ssrc_info list" where
  "set_ssrc_info ssrc f [] = [f \<lparr>si_ssrc_id = ssrc, si_cname = '''', si_stream_id = '''', si_track_id = ''''\<rparr>]"
| "set_ssrc_info ssrc f (i # infos) =
     (if si_ssrc_id i = ssrc then f i # infos else i # set_ssrc_info ssrc f infos)"

definition parse_ssrc_info :: "sdp_lib \<Rightarrow> ssrc_info list \<Rightarrow> string \<Rightarrow> (int \<times> ssrc_info list) option" where
  "parse_ssrc_info sl infos line =
     (if \<not> contains ''a=ssrc:'' line then Some (0, infos)
      else (case substr 2 line of
              None \<Rightarrow> None
            | Some s \<Rightarrow>
                (case sl_tokenize_first sl s CHR '' '' of
                   None \<Rightarrow> Some (- 1, infos)
                 | Some (field1, field2) \<Rightarrow>
                     (case substr 5 field1 of
                        None \<Rightarrow> None
                      | Some ssrc_id_s \<Rightarrow>
                          (case sl_from_string sl ssrc_id_s of
                             None \<Rightarrow> Some (- 1, infos)
                           | Some ssrc_id \<Rightarrow>
                               (case sl_tokenize_first sl field2 CHR '':'' of
                                  None \<Rightarrow> Some (- 1, infos)
                                | Some (attribute, val) \<Rightarrow>
                                    if attribute = ''cname''
                                    then Some (0, set_ssrc_info ssrc_id (\<lambda>i. i\<lparr>si_cname := val\<rparr>) infos)
                                    else if attribute = ''msid''
                                    then (let fields = sl_split sl val CHR '' '' in
                                          if length fields < 1 \<or> length fields > 2
                                          then Some (- 1, set_ssrc_info ssrc_id id infos)
                                          else Some (0, set_ssrc_info ssrc_id
                                            (\<lambda>i. let i1 = i\<lparr>si_stream_id := fields ! 0\<rparr> in
                                                 if length fields = 2 then i1\<lparr>si_track_id := fields ! 1\<rparr> else i1)
                                            infos))
                                    else Some (0, set_ssrc_info ssrc_id id infos)))))))"

fun from_strings :: "sdp_lib \<Rightarrow> string list \<Rightarrow> u32 list option" where
  "from_strings sl [] = Some []"
| "from_strings sl (f # fs) =
     (case sl_from_string sl f of None \<Rightarrow> None | Some n \<Rightarrow> map_option ((#) n) (from_strings sl fs))"

definition parse_ssrc_group_info ::
  "sdp_lib \<Rightarrow> ssrc_group list \<Rightarrow> string \<Rightarrow> (int \<times> ssrc_group list) option" where
  "parse_ssrc_group_info sl groups line =
     (if \<not> contains ''a=ssrc-group:'' line then Some (0, groups)
      else (case substr 2 line of
              None \<Rightarrow> None
            | Some s \<Rightarrow>
                (let fields = sl_split sl s CHR '' '' in
                 if length fields < 2 then Some (- 1, groups)
                 else (let semantics = get_atrribute sl (fields ! 0) in
                       if semantics = '''' then Some (- 1, groups)
                       else (case from_strings sl (drop 1 fields) of
                               None \<Rightarrow> Some (- 1, groups)
                             | Some ssrcs \<Rightarrow>
                                 Some (0, groups @ [\<lparr>sg_semantics = semantics, sg_ssrcs = ssrcs\<rparr>]))))))"

subsection \<open>Tracks\<close>

fun add_to_track :: "ssrc_info \<Rightarrow> stream_params list \<Rightarrow> stream_params list" where
  "add_to_track i [] =
     [new_stream_params\<lparr>sp_id := si_track_id i, sp_stream_id := si_stream_id i, sp_cname := si_cname i,
        sp_ssrcs := [si_ssrc_id i]\<rparr>]"
| "add_to_track i (t # ts) =
     (if sp_id t = si_track_id i
      then t\<lparr>sp_stream_id := si_stream_id i, sp_cname := si_cname i, sp_ssrcs := sp_ssrcs t @ [si_ssrc_id i]\<rparr> # ts
      else t # add_to_track i ts)"

definition create_track_from_ssrc_info :: "ssrc_info list \<Rightarrow> stream_params list \<Rightarrow> stream_params list" where
  "create_track_from_ssrc_info infos tracks = foldl (\<lambda>ts i. add_to_track i ts) tracks infos"

definition add_group_to_tracks :: "stream_params list \<Rightarrow> ssrc_group \<Rightarrow> stream_params list" where
  "add_group_to_tracks tracks g =
     (case sg_ssrcs g of
        [] \<Rightarrow> tracks
      | ssrc # _ \<Rightarrow>
          map (\<lambda>t. if has_ssrc ssrc t then t\<lparr>sp_ssrc_groups := sp_ssrc_groups t @ [g]\<rparr> else t) tracks)"

subsection \<open>The answer\<close>

text \<open>
  The locals of \<open>set_remote_sdp\<close>. The content objects are shared between \<open>_remote_desc\<close> and the
  locals, and get their streams at the end: \<open>rm_contents\<close> lists which of the two objects was
  added, in order.
\<close>

record remote_parse =
  rm_media :: string
  rm_groups :: "content_group list"
  rm_contents :: "media_type list"
  rm_audio_td :: transport_desc
  rm_video_td :: transport_desc
  rm_audio_ssrc :: "ssrc_info list"
  rm_video_ssrc :: "ssrc_info list"
  rm_video_groups :: "ssrc_group list"

definition new_remote_parse :: remote_parse where
  "new_remote_parse =
     \<lparr>rm_media = '''', rm_groups = [], rm_contents = [], rm_audio_td = new_transport_desc,
      rm_video_td = new_transport_desc, rm_audio_ssrc = [], rm_video_ssrc = [], rm_video_groups = []\<rparr>"

text \<open>The first part of the loop body: groups and media sections.\<close>

definition remote_media_line :: "sdp_lib \<Rightarrow> string \<Rightarrow> remote_parse \<Rightarrow> (int \<times> remote_parse) option" where
  "remote_media_line sl field st =
     (if contains ''m=group:BUNDLE'' field
      then (let items = sl_split sl field CHR '' '' in
            if length items > 1
            then Some (0, st\<lparr>rm_groups := rm_groups st @
                   [foldl (\<lambda>g name. add_content_name name g) \<lparr>cg_semantics = ''BUNDLE'', cg_names = []\<rparr> (drop 1 items)]\<rparr>)
            else Some (0, st))
      else if contains ''m='' field
      then (let items = sl_split sl field CHR '' '' in
            if length items \<le> 2 then Some (- 1, st)
            else (case substr 2 (items ! 0) of
                    None \<Rightarrow> None
                  | Some media \<Rightarrow>
                      (let st1 = st\<lparr>rm_media := media\<rparr> in
                       Some (0,
                         if media = ''audio''
                         then st1\<lparr>rm_contents := rm_contents st1 @ [MEDIA_TYPE_AUDIO],
                                  rm_audio_td := (rm_audio_td st1)\<lparr>td_mid := ''audio''\<rparr>\<rparr>
                         else if media = ''video''
                         then st1\<lparr>rm_contents := rm_contents st1 @ [MEDIA_TYPE_VIDEO],
                                  rm_video_td := (rm_video_td st1)\<lparr>td_mid := ''video''\<rparr>\<rparr>
                         else st1))))
      else Some (0, st))"

text \<open>A failed call returns before the ones after it.\<close>

definition and_then ::
  "(int \<times> 'a) option \<Rightarrow> ('a \<Rightarrow> (int \<times> 'a) option) \<Rightarrow> (int \<times> 'a) option" where
  "and_then r f = (case r of None \<Rightarrow> None | Some (ret, a) \<Rightarrow> if ret \<noteq> 0 then Some (- 1, a) else f a)"

text \<open>The second part: the attributes of the current media section.\<close>

definition remote_attr_line :: "sdp_lib \<Rightarrow> string \<Rightarrow> remote_parse \<Rightarrow> (int \<times> remote_parse) option" where
  "remote_attr_line sl field st =
     (if rm_media st = ''audio''
      then and_then (map_option (\<lambda>(ret, td). (ret, st\<lparr>rm_audio_td := td\<rparr>)) (parse_transport_info sl (rm_audio_td st) field))
             (\<lambda>st1. map_option (\<lambda>(ret, infos). (ret, st1\<lparr>rm_audio_ssrc := infos\<rparr>))
                       (parse_ssrc_info sl (rm_audio_ssrc st1) field))
      else if rm_media st = ''video''
      then and_then (map_option (\<lambda>(ret, td). (ret, st\<lparr>rm_video_td := td\<rparr>)) (parse_transport_info sl (rm_video_td st) field))
             (\<lambda>st1. and_then (map_option (\<lambda>(ret, gs). (ret, st1\<lparr>rm_video_groups := gs\<rparr>))
                               (parse_ssrc_group_info sl (rm_video_groups st1) field))
               (\<lambda>st2. map_option (\<lambda>(ret, infos). (ret, st2\<lparr>rm_video_ssrc := infos\<rparr>))
                         (parse_ssrc_info sl (rm_video_ssrc st2) field)))
      else Some (0, st))"

definition remote_line :: "sdp_lib \<Rightarrow> string \<Rightarrow> remote_parse \<Rightarrow> (int \<times> remote_parse) option" where
  "remote_line sl field st = and_then (remote_media_line sl field st) (remote_attr_line sl field)"

fun remote_lines :: "sdp_lib \<Rightarrow> string list \<Rightarrow> remote_parse \<Rightarrow> (int \<times> remote_parse) option" where
  "remote_lines sl [] st = Some (0, st)"
| "remote_lines sl (f # fs) st = and_then (remote_line sl f st) (remote_lines sl fs)"

definition remote_desc ::
  "remote_parse \<Rightarrow> media_content \<Rightarrow> media_content \<Rightarrow> transport_desc list \<Rightarrow> session_desc" where
  "remote_desc st audio video tds =
     \<lparr>sd_type = k_answer,
      sd_contents = map (\<lambda>ty. if ty = MEDIA_TYPE_AUDIO then audio else video) (rm_contents st),
      sd_groups = rm_groups st, sd_transports = tds\<rparr>"

definition finish_remote :: "remote_parse \<Rightarrow> session_desc" where
  "finish_remote st =
     (let audio = (if rm_audio_ssrc st \<noteq> []
                   then foldl (\<lambda>m t. add_stream t m) audio_content (create_track_from_ssrc_info (rm_audio_ssrc st) [])
                   else audio_content);
          video = (if rm_video_ssrc st \<noteq> []
                   then foldl (\<lambda>m t. add_stream t m) video_content
                          (foldl add_group_to_tracks (create_track_from_ssrc_info (rm_video_ssrc st) [])
                             (rm_video_groups st))
                   else video_content)
      in remote_desc st audio video [rm_audio_td st, rm_video_td st])"

text \<open>\<open>old\<close> is the remote description before the call; it is kept when the text has no line.\<close>

definition parse_remote_sdp ::
  "sdp_lib \<Rightarrow> string \<Rightarrow> session_desc option \<Rightarrow> (int \<times> session_desc option) option" where
  "parse_remote_sdp sl sdp old =
     (let fields = sl_tokenize sl sdp (char_of (10::nat)) in
      if length fields = 0 then Some (- 1, old)
      else (let fields1 = (if contains crlf sdp then map butlast fields else fields) in
            case remote_lines sl fields1 new_remote_parse of
              None \<Rightarrow> None
            | Some (ret, st) \<Rightarrow>
                if ret \<noteq> 0 then Some (- 1, Some (remote_desc st audio_content video_content []))
                else Some (0, Some (finish_remote st))))"

end
