(* ===== verification/TransportController.thy ===== *)
theory TransportController
  imports Srtp SdpParser IceAgent "HOL-Library.AList"
begin

text \<open>
  The transport controller (\<open>pc/transport_controller.h\<close>, \<open>pc/transport_controller.cpp\<close>): it owns
  the ICE agent and, for each media section that is not bundled into another, a DTLS transport on
  the section's channel and an SRTP transport keyed by it. It aggregates their states into the
  state of the peer connection.

  The two \<open>std::map\<close>s are association lists from names to addresses (the code reads them by key
  and counts over them, so their order does not matter); the transports are in two heaps. A
  transport's channel is the agent's channel of its name and the RTP component. The signals to the
  layer above are appended to \<open>tc_events\<close>.
\<close>

datatype pc_state = pc_new | pc_connecting | pc_connected | pc_disconnected | pc_failed | pc_closed

datatype controller_event =
    TcState pc_state
  | TcCandidates string ice_component "candidate list"
  | TcRtp bytes
  | TcRtcp bytes

text \<open>
  What the media code gets from below: the ICE services, the buffer queue, the results of the SSL
  adapter's calls and the events it raises for each packet it is given, the address of the next
  adapter, libsrtp, the key and salt lengths of each suite, and the suites offered.
\<close>

record ('q, 'c) media_services =
  ms_ice :: ice_services
  ms_queue :: "'q buffer_queue"
  ms_ssl :: ssl_results
  ms_react :: "bytes \<Rightarrow> ssl_event list"
  ms_adapter :: nat
  ms_srtp :: "'c srtp_lib"
  ms_key_lengths :: "int \<Rightarrow> (nat \<times> nat) option"
  ms_ciphers :: "int list"

record ('q, 'c) transport_controller =
  ctl_agent :: ice_agent
  ctl_dtls_by_name :: "(string \<times> nat) list"
  ctl_srtp_by_name :: "(string \<times> nat) list"
  ctl_dtls_heap :: "nat \<Rightarrow> 'q dtls_transport option"
  ctl_srtp_heap :: "nat \<Rightarrow> 'c dtls_srtp option"
  ctl_local_certificate :: "nat option"
  ctl_pc_state :: pc_state
  ctl_events :: "controller_event list"

definition new_transport_controller :: "('q, 'c) transport_controller" where
  "new_transport_controller =
     \<lparr>ctl_agent = new_ice_agent, ctl_dtls_by_name = [], ctl_srtp_by_name = [],
      ctl_dtls_heap = (\<lambda>_. None), ctl_srtp_heap = (\<lambda>_. None), ctl_local_certificate = None,
      ctl_pc_state = pc_new, ctl_events = []\<rparr>"

definition ctl_emit :: "controller_event list \<Rightarrow> ('q, 'c) transport_controller \<Rightarrow> ('q, 'c) transport_controller" where
  "ctl_emit es tc = tc\<lparr>ctl_events := ctl_events tc @ es\<rparr>"

definition ctl_set_local_certificate ::
  "nat option \<Rightarrow> ('q, 'c) transport_controller \<Rightarrow> ('q, 'c) transport_controller" where
  "ctl_set_local_certificate cert tc = tc\<lparr>ctl_local_certificate := cert\<rparr>"

definition ctl_on_candidate_allocate_done ::
  "string \<Rightarrow> ice_component \<Rightarrow> candidate list \<Rightarrow> ('q, 'c) transport_controller \<Rightarrow> ('q, 'c) transport_controller" where
  "ctl_on_candidate_allocate_done name component cs tc = ctl_emit [TcCandidates name component cs] tc"

definition ctl_on_rtp_packet :: "bytes \<Rightarrow> ('q, 'c) transport_controller \<Rightarrow> ('q, 'c) transport_controller" where
  "ctl_on_rtp_packet packet tc = ctl_emit [TcRtp packet] tc"

definition ctl_on_rtcp_packet :: "bytes \<Rightarrow> ('q, 'c) transport_controller \<Rightarrow> ('q, 'c) transport_controller" where
  "ctl_on_rtcp_packet packet tc = ctl_emit [TcRtcp packet] tc"

subsection \<open>The state of the connection\<close>

text \<open>The states of each DTLS transport and of its channel, or \<open>None\<close> for a dangling entry.\<close>

fun transport_states ::
  "(nat \<Rightarrow> 'q dtls_transport option) \<Rightarrow> ice_agent \<Rightarrow> (string \<times> nat) list
     \<Rightarrow> (dtls_state \<times> ice_transport_state) list option" where
  "transport_states heap agent [] = Some []"
| "transport_states heap agent ((name, a) # ts) =
     (case heap a of
        None \<Rightarrow> None
      | Some dt \<Rightarrow>
          (case get_channel (dt_name dt) RTP agent of
             None \<Rightarrow> None
           | Some ch \<Rightarrow> map_option ((#) (dt_state dt, ch_state ch)) (transport_states heap agent ts)))"

definition dtls_count :: "dtls_state \<Rightarrow> (dtls_state \<times> ice_transport_state) list \<Rightarrow> nat" where
  "dtls_count st sts = length (filter (\<lambda>p. fst p = st) sts)"

definition ice_count :: "ice_transport_state \<Rightarrow> (dtls_state \<times> ice_transport_state) list \<Rightarrow> nat" where
  "ice_count st sts = length (filter (\<lambda>p. snd p = st) sts)"

definition aggregate_pc_state :: "(dtls_state \<times> ice_transport_state) list \<Rightarrow> pc_state" where
  "aggregate_pc_state sts =
     (let total_connected = dtls_count dtls_connected sts + ice_count k_connected sts;
          total_dtls_connecting = dtls_count dtls_connecting sts;
          total_failed = dtls_count dtls_failed sts + ice_count k_failed sts;
          total_closed = dtls_count dtls_closed sts + ice_count k_closed sts;
          total_new = dtls_count dtls_new sts + ice_count k_new sts;
          total_ice_checking = ice_count k_checking sts;
          total_ice_disconnected = ice_count k_disconnected sts;
          total_ice_completed = ice_count k_completed sts;
          total_transports = length sts * 2
      in if total_failed > 0 then pc_failed
         else if total_ice_disconnected > 0 then pc_disconnected
         else if total_new + total_closed = total_transports then pc_new
         else if total_ice_checking + total_dtls_connecting + total_new > 0 then pc_connecting
         else if total_connected + total_ice_completed + total_closed = total_transports then pc_connected
         else pc_new)"

definition ctl_update_state :: "('q, 'c) transport_controller \<Rightarrow> ('q, 'c) transport_controller option" where
  "ctl_update_state tc =
     map_option
       (\<lambda>sts. let pc_state = aggregate_pc_state sts in
              if ctl_pc_state tc \<noteq> pc_state then ctl_emit [TcState pc_state] (tc\<lparr>ctl_pc_state := pc_state\<rparr>) else tc)
       (transport_states (ctl_dtls_heap tc) (ctl_agent tc) (ctl_dtls_by_name tc))"

subsection \<open>The maps\<close>

definition get_dtls_transport :: "string \<Rightarrow> ('q, 'c) transport_controller \<Rightarrow> nat option" where
  "get_dtls_transport name tc = map_of (ctl_dtls_by_name tc) name"

definition get_dtls_srtp_transport :: "string \<Rightarrow> ('q, 'c) transport_controller \<Rightarrow> nat option" where
  "get_dtls_srtp_transport name tc = map_of (ctl_srtp_by_name tc) name"

text \<open>The transport with the same name, if any, is deleted first; \<open>None\<close> if \<open>dtls\<close> is not live.\<close>

definition add_dtls_transport ::
  "nat \<Rightarrow> ('q, 'c) transport_controller \<Rightarrow> ('q, 'c) transport_controller option" where
  "add_dtls_transport a tc =
     (case ctl_dtls_heap tc a of
        None \<Rightarrow> None
      | Some dt \<Rightarrow>
          (let heap = (case get_dtls_transport (dt_name dt) tc of
                         None \<Rightarrow> ctl_dtls_heap tc
                       | Some old \<Rightarrow> (ctl_dtls_heap tc)(old := None))
           in Some (tc\<lparr>ctl_dtls_heap := heap,
                       ctl_dtls_by_name := AList.update (dt_name dt) a (ctl_dtls_by_name tc)\<rparr>)))"

text \<open>Deleting an SRTP transport destroys its sessions.\<close>

definition add_dtls_srtp_transport ::
  "nat \<Rightarrow> ('q, 'c) transport_controller \<Rightarrow> srtp_global \<Rightarrow> (('q, 'c) transport_controller \<times> srtp_global) option" where
  "add_dtls_srtp_transport a tc g =
     (case ctl_srtp_heap tc a of
        None \<Rightarrow> None
      | Some ds \<Rightarrow>
          (case get_dtls_srtp_transport (ds_name ds) tc of
             None \<Rightarrow>
               Some (tc\<lparr>ctl_srtp_by_name := AList.update (ds_name ds) a (ctl_srtp_by_name tc)\<rparr>, g)
           | Some old \<Rightarrow>
               (case ctl_srtp_heap tc old of
                  None \<Rightarrow> None
                | Some od \<Rightarrow>
                    Some (tc\<lparr>ctl_srtp_heap := (ctl_srtp_heap tc)(old := None),
                             ctl_srtp_by_name := AList.update (ds_name ds) a (ctl_srtp_by_name tc)\<rparr>,
                          snd (reset_params (ds_srtp od) g)))))"

subsection \<open>The signals of the transports\<close>

text \<open>
  A handler of a transport runs to its end and the signals it raised are handled afterwards, in
  order; while signal \<open>e\<close> is handled, the fields the listeners read (state, writable, receiving)
  have the values they had when it was raised. The controller's slot runs before the one of the
  SRTP transport, in the order they were connected.
\<close>

definition put_dtls :: "nat \<Rightarrow> 'q dtls_transport \<Rightarrow> ('q, 'c) transport_controller \<Rightarrow> ('q, 'c) transport_controller" where
  "put_dtls d dt tc = tc\<lparr>ctl_dtls_heap := (ctl_dtls_heap tc)(d \<mapsto> dt)\<rparr>"

definition put_srtp :: "nat \<Rightarrow> 'c dtls_srtp \<Rightarrow> ('q, 'c) transport_controller \<Rightarrow> ('q, 'c) transport_controller" where
  "put_srtp b ds tc = tc\<lparr>ctl_srtp_heap := (ctl_srtp_heap tc)(b \<mapsto> ds)\<rparr>"

fun srtp_signal :: "srtp_event \<Rightarrow> ('q, 'c) transport_controller \<Rightarrow> ('q, 'c) transport_controller" where
  "srtp_signal (DsRtp packet) tc = ctl_on_rtp_packet packet tc"
| "srtp_signal (DsRtcp packet) tc = ctl_on_rtcp_packet packet tc"
| "srtp_signal (DsSent a packet) tc = tc"

text \<open>The slots of the SRTP transport \<open>name\<close>, if there is one; its own signals go to the controller.\<close>

definition srtp_slot ::
  "string \<Rightarrow> ('c dtls_srtp \<Rightarrow> srtp_global \<Rightarrow> ('c dtls_srtp \<times> srtp_global) option)
     \<Rightarrow> ('q, 'c) transport_controller \<Rightarrow> srtp_global \<Rightarrow> (('q, 'c) transport_controller \<times> srtp_global) option" where
  "srtp_slot name f tc g =
     (case get_dtls_srtp_transport name tc of
        None \<Rightarrow> Some (tc, g)
      | Some b \<Rightarrow>
          (case ctl_srtp_heap tc b of
             None \<Rightarrow> None
           | Some ds \<Rightarrow>
               (case f ds g of
                  None \<Rightarrow> None
                | Some (ds1, g1) \<Rightarrow>
                    Some (foldl (\<lambda>t e. srtp_signal e t) (put_srtp b ds1 tc)
                            (drop (length (ds_events ds)) (ds_events ds1)), g1))))"

definition dtls_signal ::
  "('q, 'c) media_services \<Rightarrow> nat \<Rightarrow> dtls_event \<Rightarrow> ('q, 'c) transport_controller \<Rightarrow> srtp_global
     \<Rightarrow> (('q, 'c) transport_controller \<times> srtp_global) option" where
  "dtls_signal sv d e tc g =
     (case ctl_dtls_heap tc d of
        None \<Rightarrow> None
      | Some dt \<Rightarrow>
          (case e of
             DtState st \<Rightarrow>
               (case ctl_update_state (put_dtls d (dt\<lparr>dt_state := st\<rparr>) tc) of
                  None \<Rightarrow> None
                | Some tc1 \<Rightarrow>
                    srtp_slot (dt_name dt)
                      (ds_on_dtls_state (ms_srtp sv) (ms_key_lengths sv) (ms_ssl sv) (ctl_dtls_heap tc1) st) tc1 g)
           | DtWritable \<Rightarrow>
               map_option (\<lambda>tc1. (tc1, g))
                 (ctl_update_state (put_dtls d (dt\<lparr>dt_writable := \<not> dt_writable dt\<rparr>) tc))
           | DtReceiving \<Rightarrow>
               map_option (\<lambda>tc1. (tc1, g))
                 (ctl_update_state (put_dtls d (dt\<lparr>dt_receiving := \<not> dt_receiving dt\<rparr>) tc))
           | DtReadPacket packet \<Rightarrow>
               srtp_slot (dt_name dt)
                 (\<lambda>ds g. map_option (\<lambda>ds1. (ds1, g)) (ds_on_read_packet (ms_srtp sv) packet ds)) tc g
           | _ \<Rightarrow> Some (tc, g)))"

fun dtls_signals ::
  "('q, 'c) media_services \<Rightarrow> nat \<Rightarrow> dtls_event list \<Rightarrow> ('q, 'c) transport_controller \<Rightarrow> srtp_global
     \<Rightarrow> (('q, 'c) transport_controller \<times> srtp_global) option" where
  "dtls_signals sv d [] tc g = Some (tc, g)"
| "dtls_signals sv d (e # es) tc g =
     (case dtls_signal sv d e tc g of None \<Rightarrow> None | Some (tc1, g1) \<Rightarrow> dtls_signals sv d es tc1 g1)"

definition ctl_dtls_op ::
  "('q, 'c) media_services \<Rightarrow> nat \<Rightarrow> ('q dtls_transport \<Rightarrow> 'q dtls_transport option)
     \<Rightarrow> ('q, 'c) transport_controller \<Rightarrow> srtp_global \<Rightarrow> (('q, 'c) transport_controller \<times> srtp_global) option" where
  "ctl_dtls_op sv d f tc g =
     (case ctl_dtls_heap tc d of
        None \<Rightarrow> None
      | Some dt \<Rightarrow>
          (case f dt of
             None \<Rightarrow> None
           | Some dt1 \<Rightarrow>
               map_option (\<lambda>(tc1, g1). (put_dtls d dt1 tc1, g1))
                 (dtls_signals sv d (drop (length (dt_events dt)) (dt_events dt1))
                    (put_dtls d (dt1\<lparr>dt_state := dt_state dt, dt_writable := dt_writable dt,
                                     dt_receiving := dt_receiving dt\<rparr>) tc) g)))"

text \<open>
  The signals of a channel. The agent's slots were connected first; the agent's own signal makes
  the controller update its state.
\<close>

definition ctl_refresh_agent ::
  "('q, 'c) transport_controller \<Rightarrow> ('q, 'c) transport_controller option" where
  "ctl_refresh_agent tc =
     (let agent = agent_update_state (ctl_agent tc);
          tc1 = tc\<lparr>ctl_agent := agent\<rparr>
      in if ag_events agent = ag_events (ctl_agent tc) then Some tc1 else ctl_update_state tc1)"

definition put_channel :: "ice_channel \<Rightarrow> ('q, 'c) transport_controller \<Rightarrow> ('q, 'c) transport_controller" where
  "put_channel ch tc =
     tc\<lparr>ctl_agent := (ctl_agent tc)\<lparr>ag_channels :=
          map (\<lambda>c. if same_channel (ch_name ch) (ch_component ch) c then ch else c) (ag_channels (ctl_agent tc))\<rparr>\<rparr>"

definition to_dtls ::
  "('q, 'c) media_services \<Rightarrow> string \<Rightarrow> ('q dtls_transport \<Rightarrow> 'q dtls_transport option)
     \<Rightarrow> ('q, 'c) transport_controller \<Rightarrow> srtp_global \<Rightarrow> (('q, 'c) transport_controller \<times> srtp_global) option" where
  "to_dtls sv name f tc g =
     (case get_dtls_transport name tc of None \<Rightarrow> Some (tc, g) | Some d \<Rightarrow> ctl_dtls_op sv d f tc g)"

definition channel_signal ::
  "('q, 'c) media_services \<Rightarrow> string \<Rightarrow> ice_event \<Rightarrow> ('q, 'c) transport_controller \<Rightarrow> srtp_global
     \<Rightarrow> (('q, 'c) transport_controller \<times> srtp_global) option" where
  "channel_signal sv name e tc g =
     (case get_channel name RTP (ctl_agent tc) of
        None \<Rightarrow> None
      | Some ch \<Rightarrow>
          (case e of
             EvCandidates cs \<Rightarrow>
               (let agent = on_candidate_allocate_done ch cs (ctl_agent tc)
                in Some (ctl_on_candidate_allocate_done name RTP cs (tc\<lparr>ctl_agent := agent\<rparr>), g))
           | EvReceiving b \<Rightarrow>
               (case ctl_refresh_agent (put_channel (ch\<lparr>ch_receiving := b\<rparr>) tc) of
                  None \<Rightarrow> None
                | Some tc1 \<Rightarrow> to_dtls sv name (\<lambda>dt. Some (on_receiving_state b dt)) tc1 g)
           | EvWritable b \<Rightarrow>
               (case ctl_refresh_agent (put_channel (ch\<lparr>ch_writable := b\<rparr>) tc) of
                  None \<Rightarrow> None
                | Some tc1 \<Rightarrow>
                    to_dtls sv name
                      (\<lambda>dt. on_writable_state (ms_queue sv) (ms_ssl sv) b (ms_react sv (dt_cached_client_hello dt)) dt)
                      tc1 g)
           | EvState st \<Rightarrow>
               map_option (\<lambda>tc1. (tc1, g)) (ctl_refresh_agent (put_channel (ch\<lparr>ch_state := st\<rparr>) tc))
           | EvPacket buf ts \<Rightarrow>
               to_dtls sv name
                 (dt_on_read_packet (ms_queue sv) (ms_ssl sv) (ch_writable ch) (ms_adapter sv) (ms_react sv buf) buf) tc g
           | _ \<Rightarrow> Some (tc, g)))"

fun channel_signals ::
  "('q, 'c) media_services \<Rightarrow> string \<Rightarrow> ice_event list \<Rightarrow> ('q, 'c) transport_controller \<Rightarrow> srtp_global
     \<Rightarrow> (('q, 'c) transport_controller \<times> srtp_global) option" where
  "channel_signals sv name [] tc g = Some (tc, g)"
| "channel_signals sv name (e # es) tc g =
     (case channel_signal sv name e tc g of None \<Rightarrow> None | Some (tc1, g1) \<Rightarrow> channel_signals sv name es tc1 g1)"

text \<open>A handler of the channel \<open>name\<close> (a packet, a timer tick) with all that follows from it.\<close>

definition ctl_channel_op ::
  "('q, 'c) media_services \<Rightarrow> string \<Rightarrow> (ice_channel \<Rightarrow> ice_channel option)
     \<Rightarrow> ('q, 'c) transport_controller \<Rightarrow> srtp_global \<Rightarrow> (('q, 'c) transport_controller \<times> srtp_global) option" where
  "ctl_channel_op sv name f tc g =
     (case get_channel name RTP (ctl_agent tc) of
        None \<Rightarrow> None
      | Some ch \<Rightarrow>
          (case f ch of
             None \<Rightarrow> None
           | Some ch1 \<Rightarrow>
               map_option (\<lambda>(tc1, g1). (put_channel ch1 tc1, g1))
                 (channel_signals sv name (drop (length (ch_events ch)) (ch_events ch1))
                    (put_channel (ch1\<lparr>ch_receiving := ch_receiving ch, ch_writable := ch_writable ch,
                                      ch_state := ch_state ch\<rparr>) tc) g)))"

subsection \<open>The descriptions\<close>

text \<open>
  One content of the local description: its channel, its DTLS transport at address \<open>a\<close> and its SRTP
  transport at address \<open>b\<close>, both fresh. \<open>ciphers\<close> are the suites the crypto options of the library
  offer.
\<close>

definition local_transport ::
  "int list \<Rightarrow> session_desc \<Rightarrow> string \<Rightarrow> nat \<Rightarrow> nat \<Rightarrow> ('q, 'c) transport_controller \<Rightarrow> srtp_global
     \<Rightarrow> (('q, 'c) transport_controller \<times> srtp_global) option" where
  "local_transport ciphers desc mid a b tc g =
     (let agent1 = snd (create_channel mid RTP (ctl_agent tc))
      in case (case get_transport_info mid desc of
                 None \<Rightarrow> Some agent1
               | Some td \<Rightarrow>
                   ag_set_ice_params mid RTP
                     \<lparr>ice_ufrag = bytes_of (td_ice_ufrag td), ice_pwd = bytes_of (td_ice_pwd td)\<rparr> agent1) of
           None \<Rightarrow> None
         | Some agent2 \<Rightarrow>
             (case get_channel mid RTP agent2 of
                None \<Rightarrow> None
              | Some ch \<Rightarrow>
                  (let dt = snd (set_local_certificate (ctl_local_certificate tc)
                                   (new_dtls_transport (ch_name ch) ciphers));
                       tc1 = tc\<lparr>ctl_agent := agent2, ctl_dtls_heap := (ctl_dtls_heap tc)(a \<mapsto> dt)\<rparr>
                   in case add_dtls_transport a tc1 of
                        None \<Rightarrow> None
                      | Some tc2 \<Rightarrow>
                          (let ds = set_dtls_transports (Some a) None (new_dtls_srtp (dt_name dt) True)
                           in add_dtls_srtp_transport b
                                (tc2\<lparr>ctl_srtp_heap := (ctl_srtp_heap tc2)(b \<mapsto> ds)\<rparr>) g))))"

text \<open>A content bundled into the first one of its group has no transport of its own.\<close>

definition has_own_transport :: "string \<Rightarrow> session_desc \<Rightarrow> bool option" where
  "has_own_transport mid desc =
     (if is_bundle mid desc then map_option (\<lambda>first. mid = first) (get_first_bundle_mid desc) else Some True)"

fun local_transports ::
  "int list \<Rightarrow> session_desc \<Rightarrow> string list \<Rightarrow> (nat \<times> nat) list \<Rightarrow> ('q, 'c) transport_controller \<Rightarrow> srtp_global
     \<Rightarrow> (('q, 'c) transport_controller \<times> srtp_global) option" where
  "local_transports ciphers desc [] addrs tc g = Some (tc, g)"
| "local_transports ciphers desc (mid # mids) addrs tc g =
     (case has_own_transport mid desc of
        None \<Rightarrow> None
      | Some False \<Rightarrow> local_transports ciphers desc mids addrs tc g
      | Some True \<Rightarrow>
          (case local_transport ciphers desc mid (fst (hd addrs)) (snd (hd addrs)) tc g of
             None \<Rightarrow> None
           | Some (tc1, g1) \<Rightarrow> local_transports ciphers desc mids (tl addrs) tc1 g1))"

text \<open>The signals of the agent's gathering are handed on by the controller.\<close>

definition candidate_events :: "agent_event list \<Rightarrow> controller_event list" where
  "candidate_events es =
     concat (map (\<lambda>e. case e of AgCandidates name component cs \<Rightarrow> [TcCandidates name component cs]
                        | AgState _ \<Rightarrow> []) es)"

definition ctl_gathering_candidate ::
  "ice_services \<Rightarrow> (ice_channel \<Rightarrow> candidate \<times> (ip_address \<times> net_results) list)
     \<Rightarrow> ('q, 'c) transport_controller \<Rightarrow> ('q, 'c) transport_controller" where
  "ctl_gathering_candidate ice inp tc =
     (let agent = ag_gathering_candidate ice inp (ctl_agent tc)
      in ctl_emit (candidate_events (drop (length (ag_events (ctl_agent tc))) (ag_events agent)))
           (tc\<lparr>ctl_agent := agent\<rparr>))"

definition set_local_description ::
  "('q, 'c) media_services \<Rightarrow> (ice_channel \<Rightarrow> candidate \<times> (ip_address \<times> net_results) list) \<Rightarrow> (nat \<times> nat) list
     \<Rightarrow> session_desc option \<Rightarrow> ('q, 'c) transport_controller \<Rightarrow> srtp_global
     \<Rightarrow> (int \<times> ('q, 'c) transport_controller \<times> srtp_global) option" where
  "set_local_description sv inp addrs desc tc g =
     (case desc of
        None \<Rightarrow> Some (- 1, tc, g)
      | Some sd \<Rightarrow>
          map_option (\<lambda>(tc1, g1). (0, ctl_gathering_candidate (ms_ice sv) inp tc1, g1))
            (local_transports (ms_ciphers sv) sd (map mc_mid (sd_contents sd)) addrs tc g))"

text \<open>
  One content of the remote description. The fingerprint of its transport info is dereferenced
  without a test.
\<close>

definition remote_transport ::
  "('q, 'c) media_services \<Rightarrow> int \<Rightarrow> session_desc \<Rightarrow> string \<Rightarrow> ('q, 'c) transport_controller \<Rightarrow> srtp_global
     \<Rightarrow> (('q, 'c) transport_controller \<times> srtp_global) option" where
  "remote_transport sv now desc mid tc g =
     (case get_transport_info mid desc of
        None \<Rightarrow> Some (tc, g)
      | Some td \<Rightarrow>
          (case (let params = \<lparr>ice_ufrag = bytes_of (td_ice_ufrag td), ice_pwd = bytes_of (td_ice_pwd td)\<rparr> in
                 if get_channel mid RTP (ctl_agent tc) = None then Some (tc, g)
                 else ctl_channel_op sv mid (set_remote_ice_params now params) tc g) of
             None \<Rightarrow> None
           | Some (tc1, g1) \<Rightarrow>
               (case get_dtls_transport mid tc1 of
                  None \<Rightarrow> Some (tc1, g1)
                | Some d \<Rightarrow>
                    (case (td_fingerprint td, get_channel mid RTP (ctl_agent tc1)) of
                       (Some fp, Some ch) \<Rightarrow>
                         ctl_dtls_op sv d
                           (\<lambda>dt. map_option snd
                              (set_remote_fingerprint (ms_queue sv) (ms_ssl sv) (ch_writable ch) (ms_adapter sv)
                                 (ms_react sv (dt_cached_client_hello dt)) (fp_algorithm fp) (fp_digest fp) dt))
                           tc1 g1
                     | _ \<Rightarrow> None))))"

fun remote_transports ::
  "('q, 'c) media_services \<Rightarrow> int \<Rightarrow> session_desc \<Rightarrow> string list \<Rightarrow> ('q, 'c) transport_controller
     \<Rightarrow> srtp_global \<Rightarrow> (('q, 'c) transport_controller \<times> srtp_global) option" where
  "remote_transports sv now desc [] tc g = Some (tc, g)"
| "remote_transports sv now desc (mid # mids) tc g =
     (case has_own_transport mid desc of
        None \<Rightarrow> None
      | Some False \<Rightarrow> remote_transports sv now desc mids tc g
      | Some True \<Rightarrow>
          (case remote_transport sv now desc mid tc g of
             None \<Rightarrow> None
           | Some (tc1, g1) \<Rightarrow> remote_transports sv now desc mids tc1 g1))"

definition set_remote_description ::
  "('q, 'c) media_services \<Rightarrow> int \<Rightarrow> session_desc option \<Rightarrow> ('q, 'c) transport_controller \<Rightarrow> srtp_global
     \<Rightarrow> (int \<times> ('q, 'c) transport_controller \<times> srtp_global) option" where
  "set_remote_description sv now desc tc g =
     (case desc of
        None \<Rightarrow> Some (- 1, tc, g)
      | Some sd \<Rightarrow>
          map_option (\<lambda>(tc1, g1). (0, tc1, g1))
            (remote_transports sv now sd (map mc_mid (sd_contents sd)) tc g))"

subsection \<open>Sending and destruction\<close>

definition ctl_send_rtp ::
  "'c srtp_lib \<Rightarrow> int \<Rightarrow> string \<Rightarrow> bytes \<Rightarrow> ('q, 'c) transport_controller
     \<Rightarrow> (int \<times> ('q, 'c) transport_controller) option" where
  "ctl_send_rtp sr sent name data tc =
     (case get_dtls_srtp_transport name tc of
        None \<Rightarrow> Some (- 1, tc)
      | Some b \<Rightarrow>
          (case ctl_srtp_heap tc b of
             None \<Rightarrow> None
           | Some ds \<Rightarrow>
               map_option (\<lambda>(ret, ds1). (ret, tc\<lparr>ctl_srtp_heap := (ctl_srtp_heap tc)(b \<mapsto> ds1)\<rparr>))
                 (send_rtp sr sent data ds)))"

definition ctl_send_rtcp ::
  "'c srtp_lib \<Rightarrow> int \<Rightarrow> string \<Rightarrow> bytes \<Rightarrow> ('q, 'c) transport_controller
     \<Rightarrow> (int \<times> ('q, 'c) transport_controller) option" where
  "ctl_send_rtcp sr sent name data tc =
     (case get_dtls_srtp_transport name tc of
        None \<Rightarrow> Some (- 1, tc)
      | Some b \<Rightarrow>
          (case ctl_srtp_heap tc b of
             None \<Rightarrow> None
           | Some ds \<Rightarrow>
               map_option (\<lambda>(ret, ds1). (ret, tc\<lparr>ctl_srtp_heap := (ctl_srtp_heap tc)(b \<mapsto> ds1)\<rparr>))
                 (send_rtcp sr sent data ds)))"

text \<open>The destructor deletes the DTLS transports and the agent, not the SRTP transports.\<close>

definition controller_destroy :: "('q, 'c) transport_controller \<Rightarrow> ('q, 'c) transport_controller" where
  "controller_destroy tc =
     tc\<lparr>ctl_dtls_heap := foldl (\<lambda>h (name, a). h(a := None)) (ctl_dtls_heap tc) (ctl_dtls_by_name tc),
        ctl_dtls_by_name := [], ctl_agent := agent_destroy (ctl_agent tc)\<rparr>"

subsection \<open>The table of the connection state\<close>

text \<open>The state of the connection as a table over the states of its transports.\<close>

definition pc_state_table :: "(dtls_state \<times> ice_transport_state) list \<Rightarrow> pc_state" where
  "pc_state_table sts =
     (if list_ex (\<lambda>(d, i). d = dtls_failed \<or> i = k_failed) sts then pc_failed
      else if list_ex (\<lambda>(d, i). i = k_disconnected) sts then pc_disconnected
      else if list_all (\<lambda>(d, i). d \<in> {dtls_new, dtls_closed} \<and> i \<in> {k_new, k_closed}) sts then pc_new
      else if list_ex (\<lambda>(d, i). d \<in> {dtls_new, dtls_connecting} \<or> i \<in> {k_new, k_checking}) sts then pc_connecting
      else pc_connected)"

lemmas count_defs = dtls_count_def ice_count_def

lemma ex_count:
  "list_ex (\<lambda>(d, i). d = st \<or> i = st') sts \<longleftrightarrow> 0 < dtls_count st sts + ice_count st' sts"
  "list_ex (\<lambda>(d, i). i = st') sts \<longleftrightarrow> 0 < ice_count st' sts"
  by (induction sts) (auto simp: count_defs)

lemma ex_going:
  "list_ex (\<lambda>(d, i). d \<in> {dtls_new, dtls_connecting} \<or> i \<in> {k_new, k_checking}) sts \<longleftrightarrow>
     0 < dtls_count dtls_new sts + dtls_count dtls_connecting sts + ice_count k_new sts + ice_count k_checking sts"
  by (induction sts) (auto simp: count_defs)

lemma dtls_counts_total:
  "dtls_count dtls_new sts + dtls_count dtls_connecting sts + dtls_count dtls_connected sts
     + dtls_count dtls_closed sts + dtls_count dtls_failed sts = length sts"
proof (induction sts)
  case Nil
  then show ?case by (simp add: dtls_count_def)
next
  case (Cons p sts)
  then show ?case by (cases "fst p") (simp_all add: dtls_count_def)
qed

lemma ice_counts_total:
  "ice_count k_new sts + ice_count k_checking sts + ice_count k_connected sts + ice_count k_completed sts
     + ice_count k_failed sts + ice_count k_disconnected sts + ice_count k_closed sts = length sts"
proof (induction sts)
  case Nil
  then show ?case by (simp add: ice_count_def)
next
  case (Cons p sts)
  then show ?case by (cases "snd p") (simp_all add: ice_count_def)
qed

lemma all_new_or_closed:
  "list_all (\<lambda>(d, i). d \<in> {dtls_new, dtls_closed} \<and> i \<in> {k_new, k_closed}) sts \<longleftrightarrow>
     dtls_count dtls_connecting sts = 0 \<and> dtls_count dtls_connected sts = 0 \<and> dtls_count dtls_failed sts = 0
     \<and> ice_count k_checking sts = 0 \<and> ice_count k_connected sts = 0 \<and> ice_count k_completed sts = 0
     \<and> ice_count k_failed sts = 0 \<and> ice_count k_disconnected sts = 0"
proof (induction sts)
  case Nil
  then show ?case by (simp add: count_defs)
next
  case (Cons p sts)
  obtain d i where "p = (d, i)" by (cases p)
  with Cons show ?case by (cases d; cases i) (simp_all add: count_defs)
qed

lemma aggregate_pc_table: "aggregate_pc_state sts = pc_state_table sts"
  unfolding aggregate_pc_state_def pc_state_table_def Let_def ex_count ex_going all_new_or_closed
  using dtls_counts_total [of sts] ice_counts_total [of sts] by auto

text \<open>C31: The state the controller computes from its counters is the table of the transports' states:
  failed if anything failed, disconnected if a channel is, new if all are new or closed, connecting
  if anything is new or under way, connected otherwise; the tests of the code are exhaustive.\<close>

theorem connection_state_table:
  "aggregate_pc_state sts = pc_state_table sts"
  by (rule aggregate_pc_table)

text \<open>The controller keeps the table of its transports' current states and signals it exactly when
  it changes.\<close>

theorem controller_signals:
  assumes "ctl_update_state tc = Some tc'"
  shows "\<exists>sts. transport_states (ctl_dtls_heap tc) (ctl_agent tc) (ctl_dtls_by_name tc) = Some sts
     \<and> ctl_pc_state tc' = pc_state_table sts
     \<and> ctl_events tc' = ctl_events tc @ (if ctl_pc_state tc = pc_state_table sts then [] else [TcState (pc_state_table sts)])"
  using assms by (auto simp: ctl_update_state_def Let_def ctl_emit_def aggregate_pc_table)

definition demo_failed_ctl :: "(nat, nat) transport_controller" where
  "demo_failed_ctl = new_transport_controller
     \<lparr>ctl_agent := new_ice_agent\<lparr>ag_channels := [new_ice_channel ''audio'' RTP]\<rparr>,
      ctl_dtls_by_name := [(''audio'', 1)],
      ctl_dtls_heap := [1 \<mapsto> (new_dtls_transport ''audio'' [])\<lparr>dt_state := dtls_failed\<rparr>]\<rparr>"

theorem controller_signals_witness:
  "\<exists>tc'. ctl_update_state demo_failed_ctl = Some tc' \<and> ctl_events tc' = [TcState pc_failed]"
proof -
  have s: "transport_states (ctl_dtls_heap demo_failed_ctl) (ctl_agent demo_failed_ctl) (ctl_dtls_by_name demo_failed_ctl)
      = Some [(dtls_failed, k_new)]"
    by (simp add: demo_failed_ctl_def new_dtls_transport_def get_channel_def same_channel_def new_ice_channel_def)
  then obtain tc' where u: "ctl_update_state demo_failed_ctl = Some tc'"
    by (simp add: ctl_update_state_def)
  have "pc_state_table [(dtls_failed, k_new)] = pc_failed" by (simp add: pc_state_table_def)
  moreover have "ctl_pc_state demo_failed_ctl = pc_new" "ctl_events demo_failed_ctl = []"
    by (simp_all add: demo_failed_ctl_def new_transport_controller_def)
  ultimately show ?thesis using controller_signals [OF u] s u by auto
qed

end
