(* ===== verification/PeerConnection.thy ===== *)
theory PeerConnection
  imports TransportController
begin

text \<open>
  The peer connection (\<open>pc/peer_connection.h\<close>, \<open>pc/peer_connection.cpp\<close>): it builds the offer,
  parses the answer, hands both to its transport controller and relays the controller's signals.
  The signals to the layer above and the calls to the event loop are appended to \<open>pn_events\<close>.
  Candidates gathered by the controller reach the local description before the offer is printed.
\<close>

datatype pc_event =
    PcState pc_state
  | PcRtp bytes
  | PcRtcp bytes
  | PcDeleteTimer
  | PcStartTimer int
  | PcDeleted

record ('q, 'c) peer_connection =
  pn_controller :: "('q, 'c) transport_controller"
  pn_local_desc :: "session_desc option"
  pn_remote_desc :: "session_desc option"
  pn_certificate :: "nat option"
  pn_destroy_timer :: bool
  pn_audio_source :: "stream_params list"
  pn_video_source :: "stream_params list"
  pn_events :: "pc_event list"

definition new_peer_connection :: "('q, 'c) peer_connection" where
  "new_peer_connection =
     \<lparr>pn_controller = new_transport_controller, pn_local_desc = None, pn_remote_desc = None,
      pn_certificate = None, pn_destroy_timer = False, pn_audio_source = [], pn_video_source = [],
      pn_events = []\<rparr>"

definition pn_emit :: "pc_event list \<Rightarrow> ('q, 'c) peer_connection \<Rightarrow> ('q, 'c) peer_connection" where
  "pn_emit es pc = pc\<lparr>pn_events := pn_events pc @ es\<rparr>"

definition pn_init :: "nat option \<Rightarrow> ('q, 'c) peer_connection \<Rightarrow> int \<times> ('q, 'c) peer_connection" where
  "pn_init cert pc =
     (0, pc\<lparr>pn_certificate := cert, pn_controller := ctl_set_local_certificate cert (pn_controller pc)\<rparr>)"

definition add_audio_source :: "stream_params list \<Rightarrow> ('q, 'c) peer_connection \<Rightarrow> ('q, 'c) peer_connection" where
  "add_audio_source source pc = pc\<lparr>pn_audio_source := source\<rparr>"

definition add_video_source :: "stream_params list \<Rightarrow> ('q, 'c) peer_connection \<Rightarrow> ('q, 'c) peer_connection" where
  "add_video_source source pc = pc\<lparr>pn_video_source := source\<rparr>"

subsection \<open>The signals of the controller\<close>

fun update_content :: "string \<Rightarrow> (media_content \<Rightarrow> media_content) \<Rightarrow> media_content list \<Rightarrow> media_content list" where
  "update_content mid f [] = []"
| "update_content mid f (mc # mcs) = (if mid = mc_mid mc then f mc # mcs else mc # update_content mid f mcs)"

definition pn_on_candidate_allocate_done ::
  "string \<Rightarrow> candidate list \<Rightarrow> ('q, 'c) peer_connection \<Rightarrow> ('q, 'c) peer_connection" where
  "pn_on_candidate_allocate_done name cs pc =
     (case pn_local_desc pc of
        None \<Rightarrow> pc
      | Some sd \<Rightarrow>
          pc\<lparr>pn_local_desc := Some (sd\<lparr>sd_contents := update_content name (add_candidates cs) (sd_contents sd)\<rparr>)\<rparr>)"

definition pn_on_connection_state :: "pc_state \<Rightarrow> ('q, 'c) peer_connection \<Rightarrow> ('q, 'c) peer_connection" where
  "pn_on_connection_state st pc = pn_emit [PcState st] pc"

definition pn_on_rtp_packet :: "bytes \<Rightarrow> ('q, 'c) peer_connection \<Rightarrow> ('q, 'c) peer_connection" where
  "pn_on_rtp_packet packet pc = pn_emit [PcRtp packet] pc"

definition pn_on_rtcp_packet :: "bytes \<Rightarrow> ('q, 'c) peer_connection \<Rightarrow> ('q, 'c) peer_connection" where
  "pn_on_rtcp_packet packet pc = pn_emit [PcRtcp packet] pc"

fun controller_signal :: "controller_event \<Rightarrow> ('q, 'c) peer_connection \<Rightarrow> ('q, 'c) peer_connection" where
  "controller_signal (TcState st) pc = pn_on_connection_state st pc"
| "controller_signal (TcCandidates name component cs) pc = pn_on_candidate_allocate_done name cs pc"
| "controller_signal (TcRtp packet) pc = pn_on_rtp_packet packet pc"
| "controller_signal (TcRtcp packet) pc = pn_on_rtcp_packet packet pc"

text \<open>The controller is replaced by \<open>tc\<close>, and what it signalled since is handled in order.\<close>

definition with_controller ::
  "('q, 'c) transport_controller \<Rightarrow> ('q, 'c) peer_connection \<Rightarrow> ('q, 'c) peer_connection" where
  "with_controller tc pc =
     foldl (\<lambda>p e. controller_signal e p) (pc\<lparr>pn_controller := tc\<rparr>)
       (drop (length (ctl_events (pn_controller pc))) (ctl_events tc))"

subsection \<open>Destruction\<close>

text \<open>\<open>destroy\<close> arms a timer; its callback deletes the peer connection 10 ms later.\<close>

definition pn_destroy :: "('q, 'c) peer_connection \<Rightarrow> ('q, 'c) peer_connection" where
  "pn_destroy pc =
     (let pc1 = (if pn_destroy_timer pc then pn_emit [PcDeleteTimer] (pc\<lparr>pn_destroy_timer := False\<rparr>) else pc)
      in pn_emit [PcStartTimer 10000] (pc1\<lparr>pn_destroy_timer := True\<rparr>))"

definition destroy_timer_cb :: "('q, 'c) peer_connection \<Rightarrow> ('q, 'c) peer_connection" where
  "destroy_timer_cb pc =
     (let pc1 = (if pn_destroy_timer pc then pn_emit [PcDeleteTimer] (pc\<lparr>pn_destroy_timer := False\<rparr>) else pc)
      in pn_emit [PcDeleted] (pc1\<lparr>pn_controller := controller_destroy (pn_controller pc1)\<rparr>))"

subsection \<open>Offer and answer\<close>

text \<open>
  \<open>create_offer\<close>; \<open>rnd1\<close> and \<open>rnd2\<close> are the two random strings, \<open>inp\<close> what gathering gets from the
  sockets, \<open>addrs\<close> the addresses of the new transports, \<open>server_addr\<close> the configured address.
\<close>

definition create_offer ::
  "sdp_lib \<Rightarrow> ('q, 'c) media_services \<Rightarrow> string \<Rightarrow> (nat \<Rightarrow> bytes) \<Rightarrow> (nat \<Rightarrow> bytes)
     \<Rightarrow> (ice_channel \<Rightarrow> candidate \<times> (ip_address \<times> net_results) list) \<Rightarrow> (nat \<times> nat) list \<Rightarrow> offer_options
     \<Rightarrow> ('q, 'c) peer_connection \<Rightarrow> srtp_global \<Rightarrow> (string \<times> ('q, 'c) peer_connection \<times> srtp_global) option" where
  "create_offer sl sv server_addr rnd1 rnd2 inp addrs opts pc g =
     (if dtls_on opts \<and> pn_certificate pc = None then Some ('''', pc, g)
      else (let desc = build_offer sl opts (pn_certificate pc) (create_random_ice_credentials rnd1 rnd2)
                         (pn_audio_source pc) (pn_video_source pc);
                pc1 = pc\<lparr>pn_local_desc := Some desc\<rparr>
            in case set_local_description sv inp addrs (Some desc) (pn_controller pc1) g of
                 None \<Rightarrow> None
               | Some (ret, tc, g1) \<Rightarrow>
                   (let pc2 = with_controller tc pc1
                    in Some (sd_to_string sl server_addr (the (pn_local_desc pc2)), pc2, g1))))"

definition set_remote_sdp ::
  "sdp_lib \<Rightarrow> ('q, 'c) media_services \<Rightarrow> int \<Rightarrow> string \<Rightarrow> ('q, 'c) peer_connection \<Rightarrow> srtp_global
     \<Rightarrow> (int \<times> ('q, 'c) peer_connection \<times> srtp_global) option" where
  "set_remote_sdp sl sv now sdp pc g =
     (case parse_remote_sdp sl sdp (pn_remote_desc pc) of
        None \<Rightarrow> None
      | Some (ret, desc) \<Rightarrow>
          (let pc1 = pc\<lparr>pn_remote_desc := desc\<rparr> in
           if ret \<noteq> 0 then Some (- 1, pc1, g)
           else (case set_remote_description sv now desc (pn_controller pc1) g of
                   None \<Rightarrow> None
                 | Some (_, tc, g1) \<Rightarrow> Some (0, with_controller tc pc1, g1))))"

text \<open>A packet or timer tick of the channel \<open>name\<close>, with all that follows from it.\<close>

definition pn_channel_op ::
  "('q, 'c) media_services \<Rightarrow> string \<Rightarrow> (ice_channel \<Rightarrow> ice_channel option) \<Rightarrow> ('q, 'c) peer_connection
     \<Rightarrow> srtp_global \<Rightarrow> (('q, 'c) peer_connection \<times> srtp_global) option" where
  "pn_channel_op sv name f pc g =
     map_option (\<lambda>(tc, g1). (with_controller tc pc, g1)) (ctl_channel_op sv name f (pn_controller pc) g)"

text \<open>Both kinds of packets are always sent over the transport named \<open>audio\<close>.\<close>

definition pn_send_rtp ::
  "('q, 'c) media_services \<Rightarrow> int \<Rightarrow> bytes \<Rightarrow> ('q, 'c) peer_connection \<Rightarrow> (int \<times> ('q, 'c) peer_connection) option" where
  "pn_send_rtp sv sent data pc =
     map_option (\<lambda>(ret, tc). (ret, pc\<lparr>pn_controller := tc\<rparr>))
       (ctl_send_rtp (ms_srtp sv) sent ''audio'' data (pn_controller pc))"

definition pn_send_rtcp ::
  "('q, 'c) media_services \<Rightarrow> int \<Rightarrow> bytes \<Rightarrow> ('q, 'c) peer_connection \<Rightarrow> (int \<times> ('q, 'c) peer_connection) option" where
  "pn_send_rtcp sv sent data pc =
     map_option (\<lambda>(ret, tc). (ret, pc\<lparr>pn_controller := tc\<rparr>))
       (ctl_send_rtcp (ms_srtp sv) sent ''audio'' data (pn_controller pc))"

end
