(* ===== verification/Streams.thy ===== *)
theory Streams
  imports PeerConnection
begin

text \<open>
  Streams and their manager (\<open>stream/rtc_stream.cpp\<close>, \<open>stream/push_stream.cpp\<close>,
  \<open>stream/pull_stream.cpp\<close>, \<open>stream/rtc_stream_manager.cpp\<close>). A stream owns a peer connection; the
  manager keeps one push stream and one pull stream per stream name, and forwards the packets of
  the push stream to the pull stream.

  A \<open>RtcStream*\<close> is an address in \<open>mg_heap\<close>, \<open>None\<close> is the use of a null or freed stream. A deleted
  stream's peer connection lives on in \<open>mg_dying\<close> until its own timer deletes it. The manager is the
  listener of every stream it creates.
\<close>

datatype stream_type = k_push | k_pull

record ('q, 'c) rtc_stream =
  rs_type :: stream_type
  rs_uid :: u64
  rs_name :: string
  rs_audio :: bool
  rs_video :: bool
  rs_log_id :: u32
  rs_pc :: "('q, 'c) peer_connection"
  rs_state :: pc_state
  rs_listener :: bool
  rs_timer :: bool

definition k_ice_timeout :: int where "k_ice_timeout = 30000"

definition new_stream ::
  "stream_type \<Rightarrow> u64 \<Rightarrow> string \<Rightarrow> bool \<Rightarrow> bool \<Rightarrow> u32 \<Rightarrow> ('q, 'c) rtc_stream" where
  "new_stream ty uid stream_name audio video log_id =
     \<lparr>rs_type = ty, rs_uid = uid, rs_name = stream_name, rs_audio = audio, rs_video = video,
      rs_log_id = log_id, rs_pc = new_peer_connection, rs_state = pc_new, rs_listener = False,
      rs_timer = False\<rparr>"

text \<open>What the environment supplies when an offer is made, beside the services of the media code.\<close>

record ('q, 'c) stream_services =
  rv_sdp :: sdp_lib
  rv_media :: "('q, 'c) media_services"
  rv_server_addr :: string
  rv_rnd1 :: "nat \<Rightarrow> bytes"
  rv_rnd2 :: "nat \<Rightarrow> bytes"
  rv_gather :: "ice_channel \<Rightarrow> candidate \<times> (ip_address \<times> net_results) list"
  rv_addrs :: "(nat \<times> nat) list"

definition register_listener :: "('q, 'c) rtc_stream \<Rightarrow> ('q, 'c) rtc_stream" where
  "register_listener s = s\<lparr>rs_listener := True\<rparr>"

definition stream_start :: "nat option \<Rightarrow> ('q, 'c) rtc_stream \<Rightarrow> int \<times> ('q, 'c) rtc_stream" where
  "stream_start cert s =
     (let (ret, pc) = pn_init cert (rs_pc s) in (ret, s\<lparr>rs_timer := True, rs_pc := pc\<rparr>))"

definition push_options :: "('q, 'c) rtc_stream \<Rightarrow> offer_options" where
  "push_options s =
     new_offer_options\<lparr>send_audio := False, send_video := False, recv_audio := rs_audio s, recv_video := rs_video s\<rparr>"

definition pull_options :: "('q, 'c) rtc_stream \<Rightarrow> offer_options" where
  "pull_options s =
     new_offer_options\<lparr>send_audio := rs_audio s, send_video := rs_video s, recv_audio := False, recv_video := False\<rparr>"

definition stream_create_offer ::
  "('q, 'c) stream_services \<Rightarrow> ('q, 'c) rtc_stream \<Rightarrow> srtp_global
     \<Rightarrow> (string \<times> ('q, 'c) rtc_stream \<times> srtp_global) option" where
  "stream_create_offer rv s g =
     map_option (\<lambda>(offer, pc, g1). (offer, s\<lparr>rs_pc := pc\<rparr>, g1))
       (create_offer (rv_sdp rv) (rv_media rv) (rv_server_addr rv) (rv_rnd1 rv) (rv_rnd2 rv) (rv_gather rv)
          (rv_addrs rv) (if rs_type s = k_push then push_options s else pull_options s) (rs_pc s) g)"

text \<open>\<open>_get_source\<close>: \<open>None\<close> is \<open>false\<close>.\<close>

definition get_source :: "string \<Rightarrow> ('q, 'c) rtc_stream \<Rightarrow> stream_params list option" where
  "get_source mid s =
     (case pn_remote_desc (rs_pc s) of
        None \<Rightarrow> None
      | Some sd \<Rightarrow> map_option mc_streams (get_content mid sd))"

definition get_audio_source :: "('q, 'c) rtc_stream \<Rightarrow> stream_params list option" where
  "get_audio_source s = get_source ''audio'' s"

definition get_video_source :: "('q, 'c) rtc_stream \<Rightarrow> stream_params list option" where
  "get_video_source s = get_source ''video'' s"

definition stream_add_sources ::
  "stream_params list \<Rightarrow> stream_params list \<Rightarrow> ('q, 'c) rtc_stream \<Rightarrow> ('q, 'c) rtc_stream" where
  "stream_add_sources audio video s =
     s\<lparr>rs_pc := add_video_source video (add_audio_source audio (rs_pc s))\<rparr>"

definition stream_send_rtp ::
  "('q, 'c) media_services \<Rightarrow> int \<Rightarrow> bytes \<Rightarrow> ('q, 'c) rtc_stream \<Rightarrow> (int \<times> ('q, 'c) rtc_stream) option" where
  "stream_send_rtp sv sent data s =
     map_option (\<lambda>(ret, pc). (ret, s\<lparr>rs_pc := pc\<rparr>)) (pn_send_rtp sv sent data (rs_pc s))"

definition stream_send_rtcp ::
  "('q, 'c) media_services \<Rightarrow> int \<Rightarrow> bytes \<Rightarrow> ('q, 'c) rtc_stream \<Rightarrow> (int \<times> ('q, 'c) rtc_stream) option" where
  "stream_send_rtcp sv sent data s =
     map_option (\<lambda>(ret, pc). (ret, s\<lparr>rs_pc := pc\<rparr>)) (pn_send_rtcp sv sent data (rs_pc s))"

subsection \<open>The manager\<close>

datatype manager_event = MgStartTimer nat int | MgDeleteTimer nat

record ('q, 'c) stream_manager =
  mg_push :: "(string \<times> nat) list"
  mg_pull :: "(string \<times> nat) list"
  mg_heap :: "nat \<Rightarrow> ('q, 'c) rtc_stream option"
  mg_dying :: "('q, 'c) peer_connection list"
  mg_events :: "manager_event list"

definition new_stream_manager :: "('q, 'c) stream_manager" where
  "new_stream_manager = \<lparr>mg_push = [], mg_pull = [], mg_heap = (\<lambda>_. None), mg_dying = [], mg_events = []\<rparr>"

definition mg_emit :: "manager_event list \<Rightarrow> ('q, 'c) stream_manager \<Rightarrow> ('q, 'c) stream_manager" where
  "mg_emit es mg = mg\<lparr>mg_events := mg_events mg @ es\<rparr>"

definition put_stream :: "nat \<Rightarrow> ('q, 'c) rtc_stream \<Rightarrow> ('q, 'c) stream_manager \<Rightarrow> ('q, 'c) stream_manager" where
  "put_stream a s mg = mg\<lparr>mg_heap := (mg_heap mg)(a \<mapsto> s)\<rparr>"

text \<open>\<open>delete stream\<close>: the destructor of \<open>RtcStream\<close>.\<close>

definition delete_stream :: "nat \<Rightarrow> ('q, 'c) stream_manager \<Rightarrow> ('q, 'c) stream_manager option" where
  "delete_stream a mg =
     (case mg_heap mg a of
        None \<Rightarrow> None
      | Some s \<Rightarrow>
          Some (mg_emit (if rs_timer s then [MgDeleteTimer a] else [])
                 (mg\<lparr>mg_heap := (mg_heap mg)(a := None), mg_dying := mg_dying mg @ [pn_destroy (rs_pc s)]\<rparr>)))"

definition find_push_stream :: "string \<Rightarrow> ('q, 'c) stream_manager \<Rightarrow> nat option" where
  "find_push_stream name mg = map_of (mg_push mg) name"

definition find_pull_stream :: "string \<Rightarrow> ('q, 'c) stream_manager \<Rightarrow> nat option" where
  "find_pull_stream name mg = map_of (mg_pull mg) name"

definition remove_push_stream :: "u64 \<Rightarrow> string \<Rightarrow> ('q, 'c) stream_manager \<Rightarrow> ('q, 'c) stream_manager option" where
  "remove_push_stream uid name mg =
     (case find_push_stream name mg of
        None \<Rightarrow> Some mg
      | Some a \<Rightarrow>
          (case mg_heap mg a of
             None \<Rightarrow> None
           | Some s \<Rightarrow>
               if uid = rs_uid s then delete_stream a (mg\<lparr>mg_push := AList.delete name (mg_push mg)\<rparr>) else Some mg))"

definition remove_pull_stream :: "u64 \<Rightarrow> string \<Rightarrow> ('q, 'c) stream_manager \<Rightarrow> ('q, 'c) stream_manager option" where
  "remove_pull_stream uid name mg =
     (case find_pull_stream name mg of
        None \<Rightarrow> Some mg
      | Some a \<Rightarrow>
          (case mg_heap mg a of
             None \<Rightarrow> None
           | Some s \<Rightarrow>
               if uid = rs_uid s then delete_stream a (mg\<lparr>mg_pull := AList.delete name (mg_pull mg)\<rparr>) else Some mg))"

text \<open>\<open>a\<close> is the address of the new stream.\<close>

definition create_push_stream ::
  "('q, 'c) stream_services \<Rightarrow> nat \<Rightarrow> u64 \<Rightarrow> string \<Rightarrow> bool \<Rightarrow> bool \<Rightarrow> u32 \<Rightarrow> nat option
     \<Rightarrow> ('q, 'c) stream_manager \<Rightarrow> srtp_global
     \<Rightarrow> (int \<times> string \<times> ('q, 'c) stream_manager \<times> srtp_global) option" where
  "create_push_stream rv a uid name audio video log_id cert mg g =
     (case (case find_push_stream name mg of
              None \<Rightarrow> Some mg
            | Some old \<Rightarrow> delete_stream old (mg\<lparr>mg_push := AList.delete name (mg_push mg)\<rparr>)) of
        None \<Rightarrow> None
      | Some mg1 \<Rightarrow>
          (let s = register_listener (new_stream k_push uid name audio video log_id);
               s1 = snd (stream_start cert s)
           in case stream_create_offer rv s1 g of
                None \<Rightarrow> None
              | Some (offer, s2, g1) \<Rightarrow>
                  Some (0, offer,
                        (mg_emit [MgStartTimer a (k_ice_timeout * 1000)] (put_stream a s2 mg1))
                          \<lparr>mg_push := AList.update name a (mg_push mg1)\<rparr>,
                        g1)))"

definition create_pull_stream ::
  "('q, 'c) stream_services \<Rightarrow> nat \<Rightarrow> u64 \<Rightarrow> string \<Rightarrow> bool \<Rightarrow> bool \<Rightarrow> u32 \<Rightarrow> nat option
     \<Rightarrow> ('q, 'c) stream_manager \<Rightarrow> srtp_global
     \<Rightarrow> (int \<times> string \<times> ('q, 'c) stream_manager \<times> srtp_global) option" where
  "create_pull_stream rv a uid name audio video log_id cert mg g =
     (case find_push_stream name mg of
        None \<Rightarrow> Some (- 1, '''', mg, g)
      | Some p \<Rightarrow>
          (case (remove_pull_stream uid name mg, mg_heap mg p) of
             (Some mg1, Some push) \<Rightarrow>
               (let audio_source = (case get_audio_source push of None \<Rightarrow> [] | Some src \<Rightarrow> src);
                    video_source = (case get_video_source push of None \<Rightarrow> [] | Some src \<Rightarrow> src);
                    s = stream_add_sources audio_source video_source
                          (register_listener (new_stream k_pull uid name audio video log_id));
                    s1 = snd (stream_start cert s)
                in case stream_create_offer rv s1 g of
                     None \<Rightarrow> None
                   | Some (offer, s2, g1) \<Rightarrow>
                       Some (0, offer,
                             (mg_emit [MgStartTimer a (k_ice_timeout * 1000)] (put_stream a s2 mg1))
                               \<lparr>mg_pull := AList.update name a (mg_pull mg1)\<rparr>,
                             g1))
           | _ \<Rightarrow> None))"

definition stop_push :: "u64 \<Rightarrow> string \<Rightarrow> ('q, 'c) stream_manager \<Rightarrow> (int \<times> ('q, 'c) stream_manager) option" where
  "stop_push uid name mg = map_option (Pair 0) (remove_push_stream uid name mg)"

definition stop_pull :: "u64 \<Rightarrow> string \<Rightarrow> ('q, 'c) stream_manager \<Rightarrow> (int \<times> ('q, 'c) stream_manager) option" where
  "stop_pull uid name mg = map_option (Pair 0) (remove_pull_stream uid name mg)"

subsection \<open>The signals of a stream's peer connection\<close>

text \<open>\<open>_remove_push_stream\<close> and \<open>_remove_pull_stream\<close> of a stream, as three slots call them.\<close>

definition remove_stream :: "('q, 'c) rtc_stream \<Rightarrow> ('q, 'c) stream_manager \<Rightarrow> ('q, 'c) stream_manager option" where
  "remove_stream s mg =
     (if rs_type s = k_push then remove_push_stream (rs_uid s) (rs_name s) mg
      else remove_pull_stream (rs_uid s) (rs_name s) mg)"

definition mg_on_connection_state ::
  "('q, 'c) rtc_stream \<Rightarrow> pc_state \<Rightarrow> ('q, 'c) stream_manager \<Rightarrow> ('q, 'c) stream_manager option" where
  "mg_on_connection_state s st mg = (if st = pc_failed then remove_stream s mg else Some mg)"

definition mg_on_stream_exception ::
  "('q, 'c) rtc_stream \<Rightarrow> ('q, 'c) stream_manager \<Rightarrow> ('q, 'c) stream_manager option" where
  "mg_on_stream_exception s mg = remove_stream s mg"

text \<open>Sending on the stream at an address.\<close>

definition send_on ::
  "(('q, 'c) rtc_stream \<Rightarrow> (int \<times> ('q, 'c) rtc_stream) option) \<Rightarrow> nat option \<Rightarrow> ('q, 'c) stream_manager
     \<Rightarrow> ('q, 'c) stream_manager option" where
  "send_on send target mg =
     (case target of
        None \<Rightarrow> Some mg
      | Some a \<Rightarrow>
          (case mg_heap mg a of
             None \<Rightarrow> None
           | Some s \<Rightarrow> map_option (\<lambda>(ret, s1). put_stream a s1 mg) (send s)))"

definition mg_on_rtp_packet ::
  "('q, 'c) media_services \<Rightarrow> int \<Rightarrow> ('q, 'c) rtc_stream \<Rightarrow> bytes \<Rightarrow> ('q, 'c) stream_manager
     \<Rightarrow> ('q, 'c) stream_manager option" where
  "mg_on_rtp_packet sv sent s data mg =
     (if rs_type s = k_push
      then send_on (stream_send_rtp sv sent data) (find_pull_stream (rs_name s) mg) mg
      else Some mg)"

definition mg_on_rtcp_packet ::
  "('q, 'c) media_services \<Rightarrow> int \<Rightarrow> ('q, 'c) rtc_stream \<Rightarrow> bytes \<Rightarrow> ('q, 'c) stream_manager
     \<Rightarrow> ('q, 'c) stream_manager option" where
  "mg_on_rtcp_packet sv sent s data mg =
     (if rs_type s = k_push
      then send_on (stream_send_rtcp sv sent data) (find_pull_stream (rs_name s) mg) mg
      else send_on (stream_send_rtcp sv sent data) (find_push_stream (rs_name s) mg) mg)"

text \<open>The slots of the stream at \<open>a\<close>; the listener is called last.\<close>

definition stream_on_connection_state ::
  "nat \<Rightarrow> pc_state \<Rightarrow> ('q, 'c) rtc_stream \<Rightarrow> ('q, 'c) stream_manager \<Rightarrow> ('q, 'c) stream_manager option" where
  "stream_on_connection_state a st s mg =
     (if rs_state s = st then Some mg
      else (let s1 = s\<lparr>rs_state := st\<rparr>;
                s2 = (if st = pc_connected then s1\<lparr>rs_timer := False\<rparr> else s1);
                mg1 = mg_emit (if st = pc_connected \<and> rs_timer s1 then [MgDeleteTimer a] else []) (put_stream a s2 mg)
            in if rs_listener s2 then mg_on_connection_state s2 st mg1 else Some mg1))"

definition stream_signal ::
  "('q, 'c) media_services \<Rightarrow> int \<Rightarrow> nat \<Rightarrow> pc_event \<Rightarrow> ('q, 'c) stream_manager \<Rightarrow> ('q, 'c) stream_manager option" where
  "stream_signal sv sent a e mg =
     (case mg_heap mg a of
        None \<Rightarrow> Some mg
      | Some s \<Rightarrow>
          (case e of
             PcState st \<Rightarrow> stream_on_connection_state a st s mg
           | PcRtp packet \<Rightarrow> if rs_listener s then mg_on_rtp_packet sv sent s packet mg else Some mg
           | PcRtcp packet \<Rightarrow> if rs_listener s then mg_on_rtcp_packet sv sent s packet mg else Some mg
           | _ \<Rightarrow> Some mg))"

text \<open>
  A stream that was deleted by an earlier signal is disconnected from its peer connection: the
  later ones reach nobody.
\<close>

fun stream_signals ::
  "('q, 'c) media_services \<Rightarrow> int \<Rightarrow> nat \<Rightarrow> pc_event list \<Rightarrow> ('q, 'c) stream_manager
     \<Rightarrow> ('q, 'c) stream_manager option" where
  "stream_signals sv sent a [] mg = Some mg"
| "stream_signals sv sent a (e # es) mg =
     (case stream_signal sv sent a e mg of None \<Rightarrow> None | Some mg1 \<Rightarrow> stream_signals sv sent a es mg1)"

text \<open>An operation on the peer connection of the stream at \<open>a\<close>, with the signals it raises.\<close>

definition stream_pc_op ::
  "('q, 'c) media_services \<Rightarrow> int \<Rightarrow> nat
     \<Rightarrow> (('q, 'c) peer_connection \<Rightarrow> srtp_global \<Rightarrow> (('q, 'c) peer_connection \<times> srtp_global) option)
     \<Rightarrow> ('q, 'c) stream_manager \<Rightarrow> srtp_global \<Rightarrow> (('q, 'c) stream_manager \<times> srtp_global) option" where
  "stream_pc_op sv sent a f mg g =
     (case mg_heap mg a of
        None \<Rightarrow> None
      | Some s \<Rightarrow>
          (case f (rs_pc s) g of
             None \<Rightarrow> None
           | Some (pc, g1) \<Rightarrow>
               map_option (\<lambda>mg1. (mg1, g1))
                 (stream_signals sv sent a (drop (length (pn_events (rs_pc s))) (pn_events pc))
                    (put_stream a (s\<lparr>rs_pc := pc\<rparr>) mg))))"

subsection \<open>The answer and the timer\<close>

definition answer_stream ::
  "('q, 'c) stream_services \<Rightarrow> int \<Rightarrow> int \<Rightarrow> u64 \<Rightarrow> string \<Rightarrow> nat option \<Rightarrow> ('q, 'c) stream_manager
     \<Rightarrow> srtp_global \<Rightarrow> (int \<times> ('q, 'c) stream_manager \<times> srtp_global) option" where
  "answer_stream rv now sent uid answer target mg g =
     (case target of
        None \<Rightarrow> Some (- 1, mg, g)
      | Some a \<Rightarrow>
          (case mg_heap mg a of
             None \<Rightarrow> None
           | Some s \<Rightarrow>
               if uid \<noteq> rs_uid s then Some (- 1, mg, g)
               else map_option (\<lambda>(mg1, g1). (0, mg1, g1))
                      (stream_pc_op (rv_media rv) sent a
                         (\<lambda>pc g. map_option snd (set_remote_sdp (rv_sdp rv) (rv_media rv) now answer pc g)) mg g)))"

definition set_answer ::
  "('q, 'c) stream_services \<Rightarrow> int \<Rightarrow> int \<Rightarrow> u64 \<Rightarrow> string \<Rightarrow> string \<Rightarrow> string \<Rightarrow> ('q, 'c) stream_manager
     \<Rightarrow> srtp_global \<Rightarrow> (int \<times> ('q, 'c) stream_manager \<times> srtp_global) option" where
  "set_answer rv now sent uid name answer ty mg g =
     (if ty = ''push'' then answer_stream rv now sent uid answer (find_push_stream name mg) mg g
      else if ty = ''pull'' then answer_stream rv now sent uid answer (find_pull_stream name mg) mg g
      else Some (0, mg, g))"

definition ice_timeout_cb :: "nat \<Rightarrow> ('q, 'c) stream_manager \<Rightarrow> ('q, 'c) stream_manager option" where
  "ice_timeout_cb a mg =
     (case mg_heap mg a of
        None \<Rightarrow> None
      | Some s \<Rightarrow>
          if rs_state s \<noteq> pc_connected \<and> rs_listener s then mg_on_stream_exception s mg else Some mg)"

end
