(* ===== verification/Servers.thy ===== *)
theory Servers
  imports Streams SignalingWorker
begin

text \<open>
  The servers and the RTC worker: \<open>server/rtc_server.cpp\<close> (one thread that takes the messages of
  the signaling workers and hands each to the RTC worker of its stream), \<open>server/rtc_worker.cpp\<close>
  (one thread with a stream manager) and the dispatch of \<open>server/signaling_server.cpp\<close>.

  Calls to the event loop, to threads and to other objects are appended to the event lists; \<open>None\<close>
  is a null dereference or an access out of bounds. The certificate generator and the clock are
  parameters: \<open>expired\<close> tells whether a certificate has expired, \<open>generated\<close> is a new one.
\<close>

subsection \<open>The RTC server\<close>

definition RTC_QUIT :: int where "RTC_QUIT = 0"
definition RTC_MSG :: int where "RTC_MSG = 1"

datatype rtc_server_event =
    RsPipe int
  | RsToWorker nat rtc_msg
  | RsLoopStop
  | RsJoin
  | RsDeleteWorker nat

text \<open>\<open>rsv_workers\<close> are the addresses of the workers in the order they were created.\<close>

record rtc_server =
  rsv_worker_num :: int
  rsv_thread :: bool
  rsv_q_msg :: "rtc_msg list"
  rsv_workers :: "nat list"
  rsv_certificate :: "nat option"
  rsv_events :: "rtc_server_event list"

definition new_rtc_server :: "int \<Rightarrow> rtc_server" where
  "new_rtc_server worker_num =
     \<lparr>rsv_worker_num = worker_num, rsv_thread = False, rsv_q_msg = [], rsv_workers = [],
      rsv_certificate = None, rsv_events = []\<rparr>"

definition rsv_emit :: "rtc_server_event list \<Rightarrow> rtc_server \<Rightarrow> rtc_server" where
  "rsv_emit es srv = srv\<lparr>rsv_events := rsv_events srv @ es\<rparr>"

definition generate_and_check_certificate ::
  "(nat \<Rightarrow> bool) \<Rightarrow> nat option \<Rightarrow> rtc_server \<Rightarrow> int \<times> rtc_server" where
  "generate_and_check_certificate expired generated srv =
     (let srv1 = (case rsv_certificate srv of
                    None \<Rightarrow> srv\<lparr>rsv_certificate := generated\<rparr>
                  | Some c \<Rightarrow> if expired c then srv\<lparr>rsv_certificate := generated\<rparr> else srv)
      in if rsv_certificate srv1 = None then (- 1, srv1) else (0, srv1))"

text \<open>\<open>started\<close>: the worker's \<open>init\<close> and \<open>start\<close> succeeded; \<open>a\<close> is its address.\<close>

definition rsv_create_worker :: "bool \<Rightarrow> nat \<Rightarrow> rtc_server \<Rightarrow> int \<times> rtc_server" where
  "rsv_create_worker started a srv =
     (if \<not> started then (- 1, srv) else (0, srv\<lparr>rsv_workers := rsv_workers srv @ [a]\<rparr>))"

definition rsv_start :: "rtc_server \<Rightarrow> bool \<times> rtc_server" where
  "rsv_start srv = (if rsv_thread srv then (False, srv) else (True, srv\<lparr>rsv_thread := True\<rparr>))"

definition rsv_notify :: "int \<Rightarrow> rtc_server \<Rightarrow> rtc_server" where
  "rsv_notify msg srv = rsv_emit [RsPipe msg] srv"

definition rsv_stop :: "rtc_server \<Rightarrow> rtc_server" where
  "rsv_stop srv = rsv_notify RTC_QUIT srv"

text \<open>\<open>!_thread && _thread->joinable()\<close> dereferences the thread exactly when it is null.\<close>

definition rsv_join :: "rtc_server \<Rightarrow> rtc_server option" where
  "rsv_join srv = (if \<not> rsv_thread srv then None else Some srv)"

definition rsv_stop_loop :: "rtc_server \<Rightarrow> rtc_server" where
  "rsv_stop_loop srv = (if \<not> rsv_thread srv then srv else rsv_emit [RsLoopStop] srv)"

definition rsv_push_msg :: "rtc_msg \<Rightarrow> rtc_server \<Rightarrow> rtc_server" where
  "rsv_push_msg msg srv = srv\<lparr>rsv_q_msg := rsv_q_msg srv @ [msg]\<rparr>"

definition rsv_pop_msg :: "rtc_server \<Rightarrow> rtc_msg option \<times> rtc_server" where
  "rsv_pop_msg srv =
     (case rsv_q_msg srv of [] \<Rightarrow> (None, srv) | msg # q \<Rightarrow> (Some msg, srv\<lparr>rsv_q_msg := q\<rparr>))"

definition rsv_send_rtc_msg :: "rtc_msg \<Rightarrow> rtc_server \<Rightarrow> rtc_server" where
  "rsv_send_rtc_msg msg srv = rsv_notify RTC_MSG (rsv_push_msg msg srv)"

text \<open>\<open>crc\<close> is \<open>rtc::ComputeCrc32\<close>; \<open>None\<close> is the null worker.\<close>

definition get_worker :: "(string \<Rightarrow> u32) \<Rightarrow> string \<Rightarrow> rtc_server \<Rightarrow> nat option" where
  "get_worker crc stream_name srv =
     (if length (rsv_workers srv) = 0 \<or> int (length (rsv_workers srv)) \<noteq> rsv_worker_num srv then None
      else Some (rsv_workers srv ! (unat (crc stream_name) mod nat (rsv_worker_num srv))))"

definition rsv_process_rtc_msg ::
  "(string \<Rightarrow> u32) \<Rightarrow> (nat \<Rightarrow> bool) \<Rightarrow> nat option \<Rightarrow> rtc_server \<Rightarrow> rtc_server" where
  "rsv_process_rtc_msg crc expired generated srv =
     (case rsv_pop_msg srv of
        (None, srv1) \<Rightarrow> srv1
      | (Some msg, srv1) \<Rightarrow>
          (let (ret, srv2) = generate_and_check_certificate expired generated srv1 in
           if ret \<noteq> 0 then srv2
           else (let msg1 = msg\<lparr>m_certificate := rsv_certificate srv2\<rparr> in
                 case get_worker crc (m_stream_name msg1) srv2 of
                   None \<Rightarrow> srv2
                 | Some w \<Rightarrow> rsv_emit [RsToWorker w msg1] srv2)))"

definition rsv_process_notify ::
  "(string \<Rightarrow> u32) \<Rightarrow> (nat \<Rightarrow> bool) \<Rightarrow> nat option \<Rightarrow> int \<Rightarrow> rtc_server \<Rightarrow> rtc_server" where
  "rsv_process_notify crc expired generated msg srv =
     (if msg = RTC_QUIT then rsv_stop_loop srv
      else if msg = RTC_MSG then rsv_process_rtc_msg crc expired generated srv
      else srv)"

definition rtc_server_recv_notify ::
  "(string \<Rightarrow> u32) \<Rightarrow> (nat \<Rightarrow> bool) \<Rightarrow> nat option \<Rightarrow> int option \<Rightarrow> rtc_server \<Rightarrow> rtc_server" where
  "rtc_server_recv_notify crc expired generated msg srv =
     (case msg of None \<Rightarrow> srv | Some m \<Rightarrow> rsv_process_notify crc expired generated m srv)"

definition rsv_destroy :: "rtc_server \<Rightarrow> rtc_server" where
  "rsv_destroy srv =
     (rsv_emit (map RsDeleteWorker (rsv_workers srv)) (srv\<lparr>rsv_thread := False\<rparr>))\<lparr>rsv_workers := []\<rparr>"

subsection \<open>The RTC worker\<close>

datatype rtc_worker_event = RwPipe int | RwReply nat rtc_msg | RwLoopStop | RwJoin

record ('q, 'c) rtc_worker =
  rw_id :: nat
  rw_thread :: bool
  rw_q_msg :: "rtc_msg lfq"
  rw_mgr :: "('q, 'c) stream_manager"
  rw_events :: "rtc_worker_event list"

definition new_rtc_worker :: "nat \<Rightarrow> ('q, 'c) rtc_worker" where
  "new_rtc_worker worker_id =
     \<lparr>rw_id = worker_id, rw_thread = False, rw_q_msg = lfq_new new_rtc_msg, rw_mgr = new_stream_manager,
      rw_events = []\<rparr>"

definition rw_emit :: "rtc_worker_event list \<Rightarrow> ('q, 'c) rtc_worker \<Rightarrow> ('q, 'c) rtc_worker" where
  "rw_emit es w = w\<lparr>rw_events := rw_events w @ es\<rparr>"

definition rw_start :: "('q, 'c) rtc_worker \<Rightarrow> bool \<times> ('q, 'c) rtc_worker" where
  "rw_start w = (if rw_thread w then (False, w) else (True, w\<lparr>rw_thread := True\<rparr>))"

definition rw_notify :: "int \<Rightarrow> ('q, 'c) rtc_worker \<Rightarrow> ('q, 'c) rtc_worker" where
  "rw_notify msg w = rw_emit [RwPipe msg] w"

definition rw_stop :: "('q, 'c) rtc_worker \<Rightarrow> ('q, 'c) rtc_worker" where
  "rw_stop w = rw_notify RTC_QUIT w"

definition rw_join :: "('q, 'c) rtc_worker \<Rightarrow> ('q, 'c) rtc_worker" where
  "rw_join w = (if rw_thread w then rw_emit [RwJoin] w else w)"

definition rw_stop_loop :: "('q, 'c) rtc_worker \<Rightarrow> ('q, 'c) rtc_worker" where
  "rw_stop_loop w = (if \<not> rw_thread w then w else rw_emit [RwLoopStop] w)"

definition rw_push_msg :: "rtc_msg \<Rightarrow> ('q, 'c) rtc_worker \<Rightarrow> ('q, 'c) rtc_worker option" where
  "rw_push_msg msg w = map_option (\<lambda>q. w\<lparr>rw_q_msg := q\<rparr>) (lfq_produce msg (rw_q_msg w))"

definition rw_pop_msg :: "('q, 'c) rtc_worker \<Rightarrow> (rtc_msg option \<times> ('q, 'c) rtc_worker) option" where
  "rw_pop_msg w = map_option (\<lambda>(m, q). (m, w\<lparr>rw_q_msg := q\<rparr>)) (lfq_consume (rw_q_msg w))"

definition rw_send_rtc_msg :: "rtc_msg \<Rightarrow> ('q, 'c) rtc_worker \<Rightarrow> ('q, 'c) rtc_worker option" where
  "rw_send_rtc_msg msg w = map_option (rw_notify RTC_MSG) (rw_push_msg msg w)"

text \<open>The answer to a push or a pull: the offer, an error code on failure, to the worker it came from.\<close>

definition rw_reply :: "int \<Rightarrow> string \<Rightarrow> rtc_msg \<Rightarrow> ('q, 'c) rtc_worker \<Rightarrow> ('q, 'c) rtc_worker" where
  "rw_reply ret offer msg w =
     (let msg1 = msg\<lparr>m_sdp := offer\<rparr>;
          msg2 = (if ret \<noteq> 0 then msg1\<lparr>m_err_no := - 1\<rparr> else msg1)
      in case m_worker msg2 of None \<Rightarrow> w | Some sw \<Rightarrow> rw_emit [RwReply sw msg2] w)"

definition rw_process_push ::
  "('q, 'c) stream_services \<Rightarrow> nat \<Rightarrow> rtc_msg \<Rightarrow> ('q, 'c) rtc_worker \<Rightarrow> srtp_global
     \<Rightarrow> (('q, 'c) rtc_worker \<times> srtp_global) option" where
  "rw_process_push rv a msg w g =
     map_option (\<lambda>(ret, offer, mg, g1). (rw_reply ret offer msg (w\<lparr>rw_mgr := mg\<rparr>), g1))
       (create_push_stream rv a (m_uid msg) (m_stream_name msg) (m_audio msg \<noteq> 0) (m_video msg \<noteq> 0)
          (m_log_id msg) (m_certificate msg) (rw_mgr w) g)"

definition rw_process_pull ::
  "('q, 'c) stream_services \<Rightarrow> nat \<Rightarrow> rtc_msg \<Rightarrow> ('q, 'c) rtc_worker \<Rightarrow> srtp_global
     \<Rightarrow> (('q, 'c) rtc_worker \<times> srtp_global) option" where
  "rw_process_pull rv a msg w g =
     map_option (\<lambda>(ret, offer, mg, g1). (rw_reply ret offer msg (w\<lparr>rw_mgr := mg\<rparr>), g1))
       (create_pull_stream rv a (m_uid msg) (m_stream_name msg) (m_audio msg \<noteq> 0) (m_video msg \<noteq> 0)
          (m_log_id msg) (m_certificate msg) (rw_mgr w) g)"

definition rw_process_stop_push :: "rtc_msg \<Rightarrow> ('q, 'c) rtc_worker \<Rightarrow> ('q, 'c) rtc_worker option" where
  "rw_process_stop_push msg w =
     map_option (\<lambda>(ret, mg). w\<lparr>rw_mgr := mg\<rparr>) (stop_push (m_uid msg) (m_stream_name msg) (rw_mgr w))"

definition rw_process_stop_pull :: "rtc_msg \<Rightarrow> ('q, 'c) rtc_worker \<Rightarrow> ('q, 'c) rtc_worker option" where
  "rw_process_stop_pull msg w =
     map_option (\<lambda>(ret, mg). w\<lparr>rw_mgr := mg\<rparr>) (stop_pull (m_uid msg) (m_stream_name msg) (rw_mgr w))"

definition rw_process_answer ::
  "('q, 'c) stream_services \<Rightarrow> int \<Rightarrow> int \<Rightarrow> rtc_msg \<Rightarrow> ('q, 'c) rtc_worker \<Rightarrow> srtp_global
     \<Rightarrow> (('q, 'c) rtc_worker \<times> srtp_global) option" where
  "rw_process_answer rv now sent msg w g =
     map_option (\<lambda>(ret, mg, g1). (w\<lparr>rw_mgr := mg\<rparr>, g1))
       (set_answer rv now sent (m_uid msg) (m_stream_name msg) (m_sdp msg) (m_stream_type msg) (rw_mgr w) g)"

definition rw_process_rtc_msg ::
  "('q, 'c) stream_services \<Rightarrow> int \<Rightarrow> int \<Rightarrow> nat \<Rightarrow> ('q, 'c) rtc_worker \<Rightarrow> srtp_global
     \<Rightarrow> (('q, 'c) rtc_worker \<times> srtp_global) option" where
  "rw_process_rtc_msg rv now sent a w g =
     (case rw_pop_msg w of
        None \<Rightarrow> None
      | Some (None, w1) \<Rightarrow> Some (w1, g)
      | Some (Some msg, w1) \<Rightarrow>
          if m_cmdno msg = CMDNO_PUSH then rw_process_push rv a msg w1 g
          else if m_cmdno msg = CMDNO_PULL then rw_process_pull rv a msg w1 g
          else if m_cmdno msg = CMDNO_STOPPUSH then map_option (\<lambda>w2. (w2, g)) (rw_process_stop_push msg w1)
          else if m_cmdno msg = CMDNO_STOPPULL then map_option (\<lambda>w2. (w2, g)) (rw_process_stop_pull msg w1)
          else if m_cmdno msg = CMDNO_ANSWER then rw_process_answer rv now sent msg w1 g
          else Some (w1, g))"

definition rw_process_notify ::
  "('q, 'c) stream_services \<Rightarrow> int \<Rightarrow> int \<Rightarrow> nat \<Rightarrow> int \<Rightarrow> ('q, 'c) rtc_worker \<Rightarrow> srtp_global
     \<Rightarrow> (('q, 'c) rtc_worker \<times> srtp_global) option" where
  "rw_process_notify rv now sent a msg w g =
     (if msg = RTC_QUIT then Some (rw_stop_loop w, g)
      else if msg = RTC_MSG then rw_process_rtc_msg rv now sent a w g
      else Some (w, g))"

definition rtc_worker_recv_notify ::
  "('q, 'c) stream_services \<Rightarrow> int \<Rightarrow> int \<Rightarrow> nat \<Rightarrow> int option \<Rightarrow> ('q, 'c) rtc_worker \<Rightarrow> srtp_global
     \<Rightarrow> (('q, 'c) rtc_worker \<times> srtp_global) option" where
  "rtc_worker_recv_notify rv now sent a msg w g =
     (case msg of None \<Rightarrow> Some (w, g) | Some m \<Rightarrow> rw_process_notify rv now sent a m w g)"

subsection \<open>The signaling server\<close>

datatype signaling_server_event = SsPipe int | SsNewConn nat int | SsLoopStop | SsJoin | SsDeleteWorker nat

record signaling_server =
  sgs_thread :: bool
  sgs_workers :: "nat list"
  sgs_next_worker_index :: nat
  sgs_events :: "signaling_server_event list"

definition new_signaling_server :: signaling_server where
  "new_signaling_server = \<lparr>sgs_thread = False, sgs_workers = [], sgs_next_worker_index = 0, sgs_events = []\<rparr>"

definition sgs_emit :: "signaling_server_event list \<Rightarrow> signaling_server \<Rightarrow> signaling_server" where
  "sgs_emit es srv = srv\<lparr>sgs_events := sgs_events srv @ es\<rparr>"

definition sgs_create_worker :: "bool \<Rightarrow> nat \<Rightarrow> signaling_server \<Rightarrow> int \<times> signaling_server" where
  "sgs_create_worker started a srv =
     (if \<not> started then (- 1, srv) else (0, srv\<lparr>sgs_workers := sgs_workers srv @ [a]\<rparr>))"

definition dispatch_new_conn :: "int \<Rightarrow> signaling_server \<Rightarrow> signaling_server option" where
  "dispatch_new_conn fd srv =
     (let index = sgs_next_worker_index srv;
          srv1 = srv\<lparr>sgs_next_worker_index := index + 1\<rparr>;
          srv2 = (if sgs_next_worker_index srv1 \<ge> length (sgs_workers srv1)
                  then srv1\<lparr>sgs_next_worker_index := 0\<rparr> else srv1)
      in if index \<ge> length (sgs_workers srv2) then None
         else Some (sgs_emit [SsNewConn (sgs_workers srv2 ! index) fd] srv2))"

text \<open>\<open>cfd\<close> is the result of \<open>tcp_accept\<close>.\<close>

definition accept_new_conn :: "int \<Rightarrow> signaling_server \<Rightarrow> signaling_server option" where
  "accept_new_conn cfd srv = (if cfd = - 1 then Some srv else dispatch_new_conn cfd srv)"

definition sgs_start :: "signaling_server \<Rightarrow> bool \<times> signaling_server" where
  "sgs_start srv = (if sgs_thread srv then (False, srv) else (True, srv\<lparr>sgs_thread := True\<rparr>))"

definition sgs_notify :: "int \<Rightarrow> signaling_server \<Rightarrow> signaling_server" where
  "sgs_notify msg srv = sgs_emit [SsPipe msg] srv"

definition sgs_stop :: "signaling_server \<Rightarrow> signaling_server" where
  "sgs_stop srv = sgs_notify 0 srv"

definition sgs_stop_loop :: "signaling_server \<Rightarrow> signaling_server" where
  "sgs_stop_loop srv = (if \<not> sgs_thread srv then srv else sgs_emit [SsLoopStop] srv)"

definition sgs_process_notify :: "int \<Rightarrow> signaling_server \<Rightarrow> signaling_server" where
  "sgs_process_notify msg srv = (if msg = 0 then sgs_stop_loop srv else srv)"

definition signaling_server_recv_notify :: "int option \<Rightarrow> signaling_server \<Rightarrow> signaling_server" where
  "signaling_server_recv_notify msg srv = (case msg of None \<Rightarrow> srv | Some m \<Rightarrow> sgs_process_notify m srv)"

definition sgs_join :: "signaling_server \<Rightarrow> signaling_server" where
  "sgs_join srv = (if sgs_thread srv then sgs_emit [SsJoin] srv else srv)"

definition sgs_destroy :: "signaling_server \<Rightarrow> signaling_server" where
  "sgs_destroy srv =
     (sgs_emit (map SsDeleteWorker (sgs_workers srv)) (srv\<lparr>sgs_thread := False\<rparr>))\<lparr>sgs_workers := []\<rparr>"

end
