(* ===== verification/DtlsInvariant.thy ===== *)
theory DtlsInvariant
  imports DtlsTransport
begin

text \<open>
  Properties of the DTLS transport: the record walk, the invariant of its state machine over
  every sequence of callbacks, the safety of the callbacks, and what the set-up does with a
  fingerprint the adapter refuses.
\<close>

subsection \<open>The record walk\<close>

definition record_len :: "bytes \<Rightarrow> nat" where
  "record_len r = 256 * unat (r ! 11) + unat (r ! 12)"

definition dtls_record :: "bytes \<Rightarrow> bool" where
  "dtls_record r = (13 \<le> length r \<and> length r = 13 + record_len r)"

lemma record_len_word:
  "unat (push_bit 8 (ucast (a :: byte)) OR ucast (b :: byte) :: u32) = 256 * unat a + unat b"
proof -
  have a: "uint a < 256" "0 \<le> uint a" and b: "uint b < 256" "0 \<le> uint b"
    using uint_lt2p [of a] uint_lt2p [of b] by simp_all
  have "uint (push_bit 8 (ucast a) OR ucast b :: u32) = take_bit 32 (push_bit 8 (uint a)) OR take_bit 32 (uint b)"
    by (simp add: unsigned_or_eq unsigned_push_bit_eq unsigned_ucast_eq take_bit_push_bit)
  also have "take_bit 32 (push_bit 8 (uint a)) = push_bit 8 (uint a)"
    by (rule take_bit_int_eq_self) (use a in \<open>simp_all add: push_bit_eq_mult\<close>)
  also have "take_bit 32 (uint b) = uint b"
    by (rule take_bit_int_eq_self) (use b in simp_all)
  also have "push_bit 8 (uint a) OR uint b = uint a * 2 ^ 8 + uint b"
    by (rule int_or_plus) (use b in simp_all)
  finally have "uint (push_bit 8 (ucast a) OR ucast b :: u32) = 256 * uint a + uint b" by simp
  then show ?thesis
    using a b by (simp only: unat_eq_nat_uint nat_add_distrib nat_mult_distrib) (simp add: nat_add_distrib nat_mult_distrib)
qed

lemma record_len_drop:
  "13 \<le> length r \<Longrightarrow> record_len (r @ rest) = record_len r"
  by (simp add: record_len_def nth_append)

lemma records_complete_step:
  "records_complete data \<longleftrightarrow>
     data = [] \<or> (13 \<le> length data \<and> 13 + record_len data \<le> length data
        \<and> records_complete (drop (13 + record_len data) data))"
  by (subst records_complete.simps)
     (auto simp: k_dtls_record_header_len_def record_len_word record_len_def Let_def)

text \<open>The loop of \<open>_handle_dtls_packet\<close> accepts a packet exactly when it is a sequence of complete
  DTLS records: each has its 13-byte header and as many bytes after it as the header says.\<close>

theorem record_walk:
  "records_complete data \<longleftrightarrow> (\<exists>rs. list_all dtls_record rs \<and> concat rs = data)"
proof
  show "records_complete data \<Longrightarrow> \<exists>rs. list_all dtls_record rs \<and> concat rs = data"
  proof (induction "length data" arbitrary: data rule: less_induct)
    case less
    show ?case
    proof (cases "data = []")
      case True
      then show ?thesis by (intro exI [of _ "[]"]) simp
    next
      case False
      let ?n = "13 + record_len data"
      have w: "13 \<le> length data" "?n \<le> length data" "records_complete (drop ?n data)"
        using less.prems False records_complete_step [of data] by auto
      have "length (drop ?n data) < length data" using False w by simp
      from less.hyps [OF this w(3)]
      obtain rs where rs: "list_all dtls_record rs" "concat rs = drop ?n data" by blast
      have "record_len (take ?n data) = record_len data"
        using w(1) record_len_drop [of "take ?n data" "drop ?n data"] by simp
      then have "dtls_record (take ?n data)" using w by (simp add: dtls_record_def)
      then show ?thesis using rs by (intro exI [of _ "take ?n data # rs"]) simp
    qed
  qed
  show "\<exists>rs. list_all dtls_record rs \<and> concat rs = data \<Longrightarrow> records_complete data"
  proof (elim exE conjE)
    fix rs assume "list_all dtls_record rs" "concat rs = data"
    then show "records_complete data"
    proof (induction rs arbitrary: data)
      case Nil
      then show ?case by (subst records_complete_step) simp
    next
      case (Cons r rs)
      then have r: "13 \<le> length r" "length r = 13 + record_len r" by (simp_all add: dtls_record_def)
      have d: "data = r @ concat rs" using Cons.prems by simp
      have "record_len data = record_len r" using r(1) record_len_drop d by simp
      moreover have "records_complete (concat rs)" using Cons by simp
      ultimately show ?case using r d by (subst records_complete_step) simp
    qed
  qed
qed

subsection \<open>The state machine\<close>

text \<open>What the listeners know: the state last signalled, and whether RTP data was handed up.\<close>

definition next_signalled :: "dtls_state \<Rightarrow> dtls_event \<Rightarrow> dtls_state" where
  "next_signalled st e = (case e of DtState st1 \<Rightarrow> st1 | _ \<Rightarrow> st)"

definition signalled_state :: "dtls_event list \<Rightarrow> dtls_state" where
  "signalled_state es = foldl next_signalled dtls_new es"

fun media_after_handshake :: "dtls_state \<Rightarrow> dtls_event list \<Rightarrow> bool" where
  "media_after_handshake st [] = True"
| "media_after_handshake st (e # es) =
     ((case e of DtReadPacket p \<Rightarrow> st = dtls_connected \<and> is_rtp_packet p \<and> \<not> is_dtls_packet p | _ \<Rightarrow> True)
        \<and> media_after_handshake (next_signalled st e) es)"

lemma media_snoc:
  "media_after_handshake st (es @ [e]) \<longleftrightarrow> media_after_handshake st es
     \<and> (case e of DtReadPacket p \<Rightarrow> foldl next_signalled st es = dtls_connected \<and> is_rtp_packet p \<and> \<not> is_dtls_packet p
                | _ \<Rightarrow> True)"
proof (induction es arbitrary: st)
  case Nil
  then show ?case by (cases e) simp_all
next
  case (Cons a es)
  then show ?case by (simp only: append_Cons media_after_handshake.simps foldl_Cons conj_assoc)
qed

definition dt_ok :: "'q dtls_transport \<Rightarrow> bool" where
  "dt_ok dt =
     (dt_active dt \<and> dt_local_certificate dt \<noteq> None
      \<and> (dt_state dt \<in> {dtls_connecting, dtls_connected} \<longrightarrow> dt_dtls dt \<noteq> None)
      \<and> (dt_dtls dt \<noteq> None \<longrightarrow> dt_downward dt = map_option fst (dt_dtls dt))
      \<and> (dt_writable dt \<longrightarrow> dt_state dt = dtls_connected)
      \<and> (dt_state dt = dtls_connected \<longrightarrow> dt_fingerprint_value dt \<noteq> [])
      \<and> signalled_state (dt_events dt) = dt_state dt
      \<and> media_after_handshake dtls_new (dt_events dt))"

lemmas dt_ok_I = dt_ok_def [THEN iffD2]

definition plain_event :: "dtls_event \<Rightarrow> bool" where
  "plain_event e = (case e of DtState _ \<Rightarrow> False | DtReadPacket _ \<Rightarrow> False | _ \<Rightarrow> True)"

lemma signalled_snoc [simp]:
  "signalled_state (es @ [e]) = next_signalled (signalled_state es) e"
  by (simp add: signalled_state_def)

lemma plain_next: "plain_event e \<Longrightarrow> next_signalled st e = st"
  by (simp add: plain_event_def next_signalled_def split: dtls_event.splits)

lemma plain_media:
  "plain_event e \<Longrightarrow> media_after_handshake st (es @ [e]) = media_after_handshake st es"
  by (simp add: plain_event_def media_snoc split: dtls_event.splits)

lemma dt_ok_emit: "plain_event e \<Longrightarrow> dt_ok (dt_emit [e] dt) = dt_ok dt"
  by (simp add: dt_ok_def dt_emit_def plain_next plain_media)

lemma dt_emit_two: "dt_emit [e, f] dt = dt_emit [f] (dt_emit [e] dt)"
  by (simp add: dt_emit_def)

lemmas dt_set_defs = set_dtls_state_def set_writable_state_def dt_set_receiving_def dt_emit_def

text \<open>The updates of state and flags as the handlers combine them.\<close>

lemma dt_ok_down:
  assumes "dt_ok dt" "st \<noteq> dtls_connected" "st = dtls_connecting \<longrightarrow> dt_dtls dt \<noteq> None"
  shows "dt_ok (set_dtls_state st (set_writable_state False dt))"
  using assms by (auto simp: dt_ok_def dt_set_defs next_signalled_def media_snoc)

lemma dt_ok_state:
  assumes "dt_ok dt" "dt_state dt \<noteq> dtls_connected" "st \<noteq> dtls_connected"
    and "st = dtls_connecting \<longrightarrow> dt_dtls dt \<noteq> None"
  shows "dt_ok (set_dtls_state st dt)"
  using assms by (auto simp: dt_ok_def dt_set_defs next_signalled_def media_snoc)

lemma dt_ok_open:
  assumes "dt_ok dt" "dt_dtls dt \<noteq> None" "dt_fingerprint_value dt \<noteq> []"
  shows "dt_ok (set_dtls_state dtls_connected (set_writable_state True dt))"
  using assms by (auto simp: dt_ok_def dt_set_defs next_signalled_def media_snoc)

lemma dt_ok_writable:
  assumes "dt_ok dt" "dt_state dt = dtls_connected"
  shows "dt_ok (set_writable_state b dt)"
  using assms by (auto simp: dt_ok_def dt_set_defs next_signalled_def media_snoc)

lemma dt_ok_receiving: "dt_ok dt \<Longrightarrow> dt_ok (on_receiving_state b dt)"
  by (auto simp: dt_ok_def on_receiving_state_def dt_set_defs next_signalled_def media_snoc)

lemma dt_set_sel [simp]:
  "dt_dtls (set_dtls_state st dt) = dt_dtls dt" "dt_dtls (set_writable_state b dt) = dt_dtls dt"
  "dt_dtls (dt_emit es dt) = dt_dtls dt"
  "dt_fingerprint_value (set_dtls_state st dt) = dt_fingerprint_value dt"
  "dt_fingerprint_value (set_writable_state b dt) = dt_fingerprint_value dt"
  "dt_fingerprint_value (dt_emit es dt) = dt_fingerprint_value dt"
  "dt_local_certificate (dt_emit es dt) = dt_local_certificate dt"
  "dt_state (dt_emit es dt) = dt_state dt" "dt_state (set_dtls_state st dt) = st"
  "dt_state (set_writable_state b dt) = dt_state dt"
  by (simp_all add: dt_set_defs)

subsection \<open>Each handler keeps the invariant and returns\<close>

text \<open>
  The contract of the adapter: it reports the end of the handshake only when it was given a digest
  to check the peer's certificate with, and its reads end.
\<close>

definition event_ok :: "bytes \<Rightarrow> ssl_event \<Rightarrow> bool" where
  "event_ok fp ev =
     ((ev_open ev \<longrightarrow> fp \<noteq> []) \<and> (ev_read ev \<longrightarrow> list_ex (\<lambda>r. r \<noteq> SR_SUCCESS) (ev_reads ev)))"

lemma dt_ok_closed_event:
  assumes "dt_ok dt" "st \<noteq> dtls_connected" "st \<noteq> dtls_connecting"
  shows "dt_ok (dt_emit [DtClosed] (set_dtls_state st (set_writable_state False dt)))"
  by (subst dt_ok_emit) (use dt_ok_down [OF assms(1,2)] assms(3) in \<open>simp_all add: plain_event_def\<close>)

definition kept :: "'q dtls_transport \<Rightarrow> 'q dtls_transport \<Rightarrow> bool" where
  "kept dt dt' = (dt_ok dt' \<and> dt_dtls dt' = dt_dtls dt \<and> dt_fingerprint_value dt' = dt_fingerprint_value dt)"

lemma read_loop_ok:
  "dt_ok dt \<Longrightarrow> list_ex (\<lambda>r. r \<noteq> SR_SUCCESS) rs \<Longrightarrow> \<exists>dt'. read_loop rs dt = Some dt' \<and> kept dt dt'"
  by (induction rs dt rule: read_loop.induct)
     (auto simp: kept_def dt_ok_closed_event)

lemma on_dtls_event_ok:
  assumes "dt_ok dt" "dt_dtls dt \<noteq> None" "event_ok (dt_fingerprint_value dt) ev"
  shows "\<exists>dt'. on_dtls_event ev dt = Some dt' \<and> kept dt dt'"
proof -
  define dt1 where
    "dt1 = (if ev_open ev then set_dtls_state dtls_connected (set_writable_state True dt) else dt)"
  have k1: "kept dt dt1"
    using assms dt_ok_open [OF assms(1,2)] by (auto simp: dt1_def kept_def event_ok_def)
  obtain dt2 where dt2: "(if ev_read ev then (if dt_dtls dt1 = None then None else read_loop (ev_reads ev) dt1)
       else Some dt1) = Some dt2" and k2: "kept dt1 dt2"
    using read_loop_ok [of dt1 "ev_reads ev"] k1 assms by (cases "ev_read ev") (auto simp: kept_def event_ok_def)
  have "kept dt2 (set_dtls_state st (set_writable_state False dt2))" if "st \<in> {dtls_closed, dtls_failed}" for st
    using dt_ok_down [of dt2 st] k2 that by (auto simp: kept_def)
  then show ?thesis
    using k1 k2 unfolding on_dtls_event_def Let_def dt1_def [symmetric] dt2
    by (auto simp: kept_def)
qed

lemma dtls_events_ok:
  "dt_ok dt \<Longrightarrow> dt_dtls dt \<noteq> None \<Longrightarrow> list_all (event_ok (dt_fingerprint_value dt)) evs \<Longrightarrow>
     \<exists>dt'. dtls_events evs dt = Some dt' \<and> kept dt dt'"
proof (induction evs arbitrary: dt)
  case Nil
  then show ?case by (simp add: kept_def)
next
  case (Cons ev evs)
  then obtain dt1 where dt1: "on_dtls_event ev dt = Some dt1" "kept dt dt1"
    using on_dtls_event_ok [of dt ev] by auto
  with Cons.prems Cons.IH [of dt1] show ?case by (auto simp: kept_def)
qed

text \<open>A packet may replace the packets waiting in the stream, so only the adapter's presence is kept.\<close>

definition kept_adapter :: "'q dtls_transport \<Rightarrow> 'q dtls_transport \<Rightarrow> bool" where
  "kept_adapter dt dt' = (dt_ok dt' \<and> dt_dtls dt' \<noteq> None \<and> dt_fingerprint_value dt' = dt_fingerprint_value dt)"

lemma handle_packet_ok:
  assumes "dt_ok dt" "dt_dtls dt \<noteq> None" "list_all (event_ok (dt_fingerprint_value dt)) evs"
  shows "\<exists>ok dt'. handle_dtls_packet bq data evs dt = Some (ok, dt') \<and> kept_adapter dt dt'"
proof (cases "records_complete data")
  case True
  obtain a sc where a: "dt_dtls dt = Some (a, sc)" using assms(2) by auto
  then have d: "dt_downward dt = Some a" using assms(1) by (simp add: dt_ok_def)
  define dt1 where "dt1 = dt_emit [DtInput data] (dt\<lparr>dt_dtls := Some (a, snd (on_received_packet bq data sc))\<rparr>)"
  have "dt_ok dt1"
    unfolding dt1_def by (subst dt_ok_emit) (use assms(1) a in \<open>simp_all add: plain_event_def dt_ok_def\<close>)
  moreover have "dt_dtls dt1 \<noteq> None" "dt_fingerprint_value dt1 = dt_fingerprint_value dt" by (simp_all add: dt1_def)
  ultimately obtain dt2 where "dtls_events evs dt1 = Some dt2" "kept dt1 dt2"
    using dtls_events_ok [of dt1 evs] assms(3) by auto
  then show ?thesis using True a d
    by (auto simp: handle_dtls_packet_def dt1_def kept_def kept_adapter_def on_received_packet_def)
qed (use assms in \<open>auto simp: handle_dtls_packet_def kept_adapter_def\<close>)

lemma maybe_start_ok:
  assumes "dt_ok dt" "dt_state dt \<noteq> dtls_connected" "list_all (event_ok (dt_fingerprint_value dt)) evs"
  shows "\<exists>dt'. maybe_start_dtls bq ssl cw evs dt = Some dt' \<and> dt_ok dt'"
proof (cases "dt_dtls dt \<noteq> None \<and> cw")
  case started: True
  let ?dt1 = "dt_emit [DtStartSSL] dt"
  have ok1: "dt_ok ?dt1" by (subst dt_ok_emit) (use assms(1) in \<open>simp_all add: plain_event_def\<close>)
  let ?dt2 = "set_dtls_state dtls_connecting ?dt1"
  have ok2: "dt_ok ?dt2" by (rule dt_ok_state [OF ok1]) (use assms(2) started in simp_all)
  have failed: "dt_ok (set_dtls_state dtls_failed ?dt1)" by (rule dt_ok_state [OF ok1]) (use assms(2) in simp_all)
  obtain ok dt3 where h: "handle_dtls_packet bq (dt_cached_client_hello ?dt2) evs ?dt2 = Some (ok, dt3)"
    "kept_adapter ?dt2 dt3"
    using handle_packet_ok [OF ok2, of evs bq "dt_cached_client_hello ?dt2"] assms(3) started by auto
  have cleared: "dt_ok (d\<lparr>dt_cached_client_hello := []\<rparr>)" if "dt_ok d" for d :: "'a dtls_transport"
    using that by (simp add: dt_ok_def)
  have "\<not> ok \<Longrightarrow> dt3 = ?dt2"
    using h(1) by (auto simp: handle_dtls_packet_def on_received_packet_def split: option.splits if_splits prod.splits)
  then have "\<not> ok \<Longrightarrow> dt_ok (set_dtls_state dtls_failed dt3)" using dt_ok_state [OF ok2, of dtls_failed] by simp
  then show ?thesis
    using started ok2 failed h cleared
    by (auto simp: maybe_start_dtls_def Let_def kept_adapter_def)
qed (use assms(1) in \<open>auto simp: maybe_start_dtls_def\<close>)

lemma setup_ok:
  assumes "dt_ok dt" "dt_state dt \<noteq> dtls_connected" "dt_dtls dt = None"
    and "list_all (event_ok (dt_fingerprint_value dt)) evs"
  shows "\<exists>ok dt'. setup_dtls bq ssl cw a evs dt = Some (ok, dt') \<and> dt_ok dt'
     \<and> (\<not> ok \<longrightarrow> dt_state dt' = dt_state dt)"
proof (cases "ssl_create ssl")
  case created: True
  define dt1 where "dt1 = dt_emit [DtCreate a, DtSetDigest (dt_fingerprint_alg dt) (dt_fingerprint_value dt)]
      (dt\<lparr>dt_dtls := Some (a, new_stream_channel bq), dt_downward := Some a\<rparr>)"
  have ok1: "dt_ok dt1"
    unfolding dt1_def dt_emit_two
    by (subst dt_ok_emit, simp add: plain_event_def, subst dt_ok_emit, simp add: plain_event_def)
      (use assms(1) in \<open>simp add: dt_ok_def\<close>)
  have s1: "dt_state dt1 = dt_state dt" "dt_fingerprint_value dt1 = dt_fingerprint_value dt"
    by (simp_all add: dt1_def)
  obtain dt2 where "maybe_start_dtls bq ssl cw evs dt1 = Some dt2" "dt_ok dt2"
    using maybe_start_ok [OF ok1, of evs bq ssl cw] assms(2,4) s1 by auto
  moreover obtain cert where "dt_local_certificate dt = Some cert" using assms(1) by (auto simp: dt_ok_def)
  ultimately show ?thesis
    using created ok1 s1 unfolding setup_dtls_def Let_def dt1_def [symmetric] by simp blast
next
  case False
  moreover have "dt\<lparr>dt_dtls := None\<rparr> = dt" using assms(3) by simp
  ultimately show ?thesis using assms(1) by (auto simp: setup_dtls_def)
qed

lemma fingerprint_ok:
  assumes "dt_ok dt" "list_all (event_ok digest) evs" "alg \<noteq> ''''"
  shows "\<exists>ok dt'. set_remote_fingerprint bq ssl cw a evs alg digest dt = Some (ok, dt') \<and> dt_ok dt'"
proof -
  have act: "dt_active dt" using assms(1) by (simp add: dt_ok_def)
  show ?thesis
  proof (cases "dt_fingerprint_value dt = digest")
    case True
    then show ?thesis using act assms(1,3) by (auto simp: set_remote_fingerprint_def)
  next
    case changed: False
    let ?dt1 = "dt\<lparr>dt_fingerprint_value := digest, dt_fingerprint_alg := alg\<rparr>"
    show ?thesis
    proof (cases "dt_dtls dt \<noteq> None \<and> dt_fingerprint_value dt = []")
      case late: True
      then have nc: "dt_state dt \<noteq> dtls_connected" using assms(1) by (auto simp: dt_ok_def)
      have "dt_ok ?dt1" using assms(1) nc by (simp add: dt_ok_def)
      then have ok2: "dt_ok (dt_emit [DtSetDigest alg digest] ?dt1)"
        by (subst dt_ok_emit) (simp_all add: plain_event_def)
      have "dt_ok (set_dtls_state dtls_failed (dt_emit [DtSetDigest alg digest] ?dt1))"
        by (rule dt_ok_state [OF ok2]) (use nc in simp_all)
      then show ?thesis
        using late changed act assms(3) ok2
        by (cases "ssl_set_digest ssl alg digest") (auto simp: set_remote_fingerprint_def Let_def)
    next
      case fresh: False
      define dt2 where "dt2 = (if dt_dtls ?dt1 \<noteq> None \<and> length (dt_fingerprint_value dt) > 0
         then set_writable_state False (set_dtls_state dtls_new (?dt1\<lparr>dt_dtls := None\<rparr>)) else ?dt1)"
      have "dt_ok dt2 \<and> dt_state dt2 \<noteq> dtls_connected \<and> dt_dtls dt2 = None \<and> dt_fingerprint_value dt2 = digest"
        using fresh assms(1)
        by (cases "dt_dtls dt") (auto simp: dt2_def dt_ok_def dt_set_defs next_signalled_def media_snoc)
      then obtain ok dt3 where dt3: "setup_dtls bq ssl cw a evs dt2 = Some (ok, dt3)" "dt_ok dt3"
          "\<not> ok \<longrightarrow> dt_state dt3 \<noteq> dtls_connected"
        using setup_ok [of dt2 evs bq ssl cw a] assms(2) by auto
      have "\<not> ok \<Longrightarrow> dt_ok (set_dtls_state dtls_failed dt3)"
        by (rule dt_ok_state) (use dt3 in simp_all)
      moreover have "set_remote_fingerprint bq ssl cw a evs alg digest dt =
          (case setup_dtls bq ssl cw a evs dt2 of None \<Rightarrow> None
           | Some (ok, dt3) \<Rightarrow> if ok then Some (True, dt3) else Some (False, set_dtls_state dtls_failed dt3))"
        using act assms(3) changed fresh
        by (auto simp: set_remote_fingerprint_def Let_def dt2_def)
      ultimately show ?thesis using dt3 by auto
    qed
  qed
qed

lemma read_packet_dt_ok:
  assumes "dt_ok dt" "list_all (event_ok (dt_fingerprint_value dt)) evs"
  shows "\<exists>dt'. dt_on_read_packet bq ssl cw a evs buf dt = Some dt' \<and> dt_ok dt'"
proof (cases "dt_state dt")
  case dtls_new
  let ?dt1 = "dt\<lparr>dt_cached_client_hello := buf\<rparr>"
  have ok1: "dt_ok ?dt1" using assms(1) by (simp add: dt_ok_def)
  then have "dt_dtls dt = None \<Longrightarrow> \<exists>ok dt'. setup_dtls bq ssl cw a evs ?dt1 = Some (ok, dt') \<and> dt_ok dt'"
    using setup_ok [OF ok1, of evs bq ssl cw a] assms(2) dtls_new by auto
  then show ?thesis using dtls_new assms(1) ok1 by (auto simp: dt_on_read_packet_def Let_def)
next
  case dtls_connecting
  then have d: "dt_dtls dt \<noteq> None" using assms(1) by (simp add: dt_ok_def)
  show ?thesis
    using handle_packet_ok [OF assms(1) d assms(2), of bq buf] dtls_connecting assms(1)
    by (auto simp: dt_on_read_packet_def kept_adapter_def)
next
  case dtls_connected
  then have d: "dt_dtls dt \<noteq> None" using assms(1) by (simp add: dt_ok_def)
  have "is_rtp_packet buf \<Longrightarrow> \<not> is_dtls_packet buf \<Longrightarrow> dt_ok (dt_emit [DtReadPacket buf] dt)"
    using assms(1) dtls_connected
    by (auto simp: dt_ok_def dt_emit_def next_signalled_def media_snoc signalled_state_def)
  then show ?thesis
    using handle_packet_ok [OF assms(1) d assms(2), of bq buf] dtls_connected assms(1)
    by (auto simp: dt_on_read_packet_def kept_adapter_def)
qed (use assms in \<open>auto simp: dt_on_read_packet_def\<close>)

lemma writable_ok:
  assumes "dt_ok dt" "list_all (event_ok (dt_fingerprint_value dt)) evs"
  shows "\<exists>dt'. on_writable_state bq ssl cw evs dt = Some dt' \<and> dt_ok dt'"
  using assms maybe_start_ok [OF assms(1) _ assms(2), of bq ssl cw] dt_ok_writable [OF assms(1), of cw]
  by (cases "dt_state dt") (auto simp: on_writable_state_def dt_ok_def)

subsection \<open>Every sequence of callbacks\<close>

text \<open>
  The callbacks of a transport: a packet, a change of the channel's flags, the remote fingerprint,
  an event of the adapter. Each carries the channel's \<open>writable()\<close>, the results of the adapter's
  calls, the address a new adapter would get, and the events raised meanwhile.
\<close>

datatype dtls_input =
    DiPacket bool ssl_results nat "ssl_event list" bytes
  | DiWritable bool ssl_results "ssl_event list"
  | DiReceiving bool
  | DiFingerprint bool ssl_results nat "ssl_event list" string bytes
  | DiEvent ssl_event

fun dtls_step :: "'q buffer_queue \<Rightarrow> dtls_input \<Rightarrow> 'q dtls_transport \<Rightarrow> 'q dtls_transport option" where
  "dtls_step bq (DiPacket cw ssl a evs buf) dt = dt_on_read_packet bq ssl cw a evs buf dt"
| "dtls_step bq (DiWritable cw ssl evs) dt = on_writable_state bq ssl cw evs dt"
| "dtls_step bq (DiReceiving r) dt = Some (on_receiving_state r dt)"
| "dtls_step bq (DiFingerprint cw ssl a evs alg digest) dt =
     map_option snd (set_remote_fingerprint bq ssl cw a evs alg digest dt)"
| "dtls_step bq (DiEvent ev) dt = on_dtls_event ev dt"

fun dtls_input_ok :: "dtls_input \<Rightarrow> 'q dtls_transport \<Rightarrow> bool" where
  "dtls_input_ok (DiPacket cw ssl a evs buf) dt = list_all (event_ok (dt_fingerprint_value dt)) evs"
| "dtls_input_ok (DiWritable cw ssl evs) dt = list_all (event_ok (dt_fingerprint_value dt)) evs"
| "dtls_input_ok (DiReceiving r) dt = True"
| "dtls_input_ok (DiFingerprint cw ssl a evs alg digest) dt = (alg \<noteq> '''' \<and> list_all (event_ok digest) evs)"
| "dtls_input_ok (DiEvent ev) dt = (dt_dtls dt \<noteq> None \<and> event_ok (dt_fingerprint_value dt) ev)"

inductive dtls_reachable :: "'q buffer_queue \<Rightarrow> 'q dtls_transport \<Rightarrow> bool" for bq where
  start: "set_local_certificate (Some cert) (new_dtls_transport name ciphers) = (True, dt) \<Longrightarrow> dtls_reachable bq dt"
| step: "dtls_reachable bq dt \<Longrightarrow> dtls_input_ok i dt \<Longrightarrow> dtls_step bq i dt = Some dt' \<Longrightarrow> dtls_reachable bq dt'"

lemma dtls_step_ok:
  assumes "dt_ok dt" "dtls_input_ok i dt"
  shows "\<exists>dt'. dtls_step bq i dt = Some dt' \<and> dt_ok dt'"
proof (cases i)
  case (DiFingerprint cw ssl a evs alg digest)
  then show ?thesis using fingerprint_ok [of dt digest evs alg bq ssl cw a] assms by auto
next
  case (DiEvent ev)
  then show ?thesis using on_dtls_event_ok [of dt ev] assms by (auto simp: kept_def)
qed (use assms read_packet_dt_ok writable_ok dt_ok_receiving in auto)

lemma dtls_reachable_ok: "dtls_reachable bq dt \<Longrightarrow> dt_ok dt"
proof (induction rule: dtls_reachable.induct)
  case (start cert name ciphers dt)
  then show ?case
    by (auto simp: set_local_certificate_def new_dtls_transport_def dt_ok_def signalled_state_def)
next
  case (step dt i dt')
  then show ?case using dtls_step_ok [of dt i bq] by auto
qed

text \<open>C15: In every reachable state of a DTLS transport a handshake under way or done has its adapter
  and its stream, the transport is writable only when connected, the state it keeps is the one it
  signalled last, and every packet it handed up came while connected and is RTP by its first byte.\<close>

theorem dtls_machine:
  assumes "dtls_reachable bq dt"
  shows "(dt_state dt \<in> {dtls_connecting, dtls_connected} \<longrightarrow> dt_dtls dt \<noteq> None \<and> dt_downward dt = map_option fst (dt_dtls dt))
     \<and> (dt_writable dt \<longrightarrow> dt_state dt = dtls_connected)
     \<and> (dt_state dt = dtls_connected \<longrightarrow> dt_fingerprint_value dt \<noteq> [])
     \<and> signalled_state (dt_events dt) = dt_state dt
     \<and> media_after_handshake dtls_new (dt_events dt)"
  using dtls_reachable_ok [OF assms] by (simp add: dt_ok_def)

definition demo_queue :: "bytes list buffer_queue" where
  "demo_queue =
     \<lparr>bq_new = (\<lambda>capacity size. []), bq_write_back = (\<lambda>p q. if length q < 2 then (True, q @ [p]) else (False, q)),
      bq_read_front = (\<lambda>n q. case q of [] \<Rightarrow> (None, []) | p # ps \<Rightarrow> (Some (take n p), ps)), bq_clear = (\<lambda>q. [])\<rparr>"

definition demo_ssl :: ssl_results where
  "demo_ssl =
     \<lparr>ssl_create = True, ssl_set_digest = (\<lambda>alg digest. DigestOk), ssl_set_suites = (\<lambda>suites. True),
      ssl_start = 0, ssl_suite = Some 1, ssl_export = (\<lambda>label n. Some (map of_nat [0..<n]))\<rparr>"

definition demo_hello :: bytes where
  "demo_hello = [22, 254, 253, 0, 0, 0, 0, 0, 0, 0, 0, 0, 6, 1, 0, 0, 0, 0, 0]"

definition demo_rtp :: bytes where
  "demo_rtp = [128, 111, 0, 1, 0, 0, 0, 0, 0, 0, 0, 7]"

definition demo_open :: ssl_event where
  "demo_open = \<lparr>ev_open = True, ev_read = True, ev_close = False, ev_error = 0, ev_reads = [SR_BLOCK]\<rparr>"

text \<open>An early ClientHello, the answer, the channel becoming writable, the handshake, and a packet.\<close>

definition demo_inputs :: "dtls_input list" where
  "demo_inputs =
     [DiPacket False demo_ssl 1 [] demo_hello, DiFingerprint False demo_ssl 2 [] ''sha-256'' (replicate 32 5),
      DiWritable True demo_ssl [], DiEvent demo_open, DiPacket True demo_ssl 3 [] demo_rtp]"

fun dtls_run :: "'q buffer_queue \<Rightarrow> dtls_input list \<Rightarrow> 'q dtls_transport \<Rightarrow> 'q dtls_transport option" where
  "dtls_run bq [] dt = Some dt"
| "dtls_run bq (i # is) dt =
     (if dtls_input_ok i dt then Option.bind (dtls_step bq i dt) (dtls_run bq is) else None)"

lemma dtls_run_reachable:
  "dtls_run bq is dt = Some dt' \<Longrightarrow> dtls_reachable bq dt \<Longrightarrow> dtls_reachable bq dt'"
proof (induction "is" arbitrary: dt)
  case Nil
  then show ?case by simp
next
  case (Cons i "is")
  from Cons.prems obtain dt1 where "dtls_input_ok i dt" "dtls_step bq i dt = Some dt1" "dtls_run bq is dt1 = Some dt'"
    by (auto split: if_splits bind_splits)
  then show ?case using Cons.IH dtls_reachable.step [OF Cons.prems(2)] by blast
qed

definition demo_dtls :: "bytes list dtls_transport" where
  "demo_dtls = snd (set_local_certificate (Some 9) (new_dtls_transport ''audio'' [1]))"

definition demo_connected_dtls :: "bytes list dtls_transport" where
  "demo_connected_dtls = the (dtls_run demo_queue demo_inputs demo_dtls)"

lemma demo_dtls_run:
  "dtls_run demo_queue demo_inputs demo_dtls \<noteq> None
     \<and> dt_state demo_connected_dtls = dtls_connected \<and> dt_writable demo_connected_dtls
     \<and> last (dt_events demo_connected_dtls) = DtReadPacket demo_rtp"
  by code_simp

lemma demo_dtls_reachable: "dtls_reachable demo_queue demo_connected_dtls"
proof -
  have "dtls_reachable demo_queue demo_dtls"
    by (rule dtls_reachable.start [of 9 "''audio''" "[1]"])
      (simp add: demo_dtls_def set_local_certificate_def new_dtls_transport_def)
  moreover have "dtls_run demo_queue demo_inputs demo_dtls = Some demo_connected_dtls"
    using demo_dtls_run by (auto simp: demo_connected_dtls_def)
  ultimately show ?thesis by (rule dtls_run_reachable [rotated])
qed

theorem dtls_machine_witness:
  "dt_state demo_connected_dtls = dtls_connected \<and> dt_dtls demo_connected_dtls \<noteq> None
     \<and> signalled_state (dt_events demo_connected_dtls) = dtls_connected"
  using dtls_machine [OF demo_dtls_reachable] demo_dtls_run by simp

text \<open>C25: The callbacks of a DTLS transport are safe: in every reachable state each callback the
  channel, the adapter or the controller may make returns without using a null or freed adapter.\<close>

theorem dtls_callbacks_safe:
  assumes "dtls_reachable bq dt" "dtls_input_ok i dt"
  shows "\<exists>dt'. dtls_step bq i dt = Some dt' \<and> dtls_reachable bq dt'"
  using dtls_step_ok [OF dtls_reachable_ok [OF assms(1)] assms(2), of bq] dtls_reachable.step [OF assms]
  by blast

theorem dtls_callbacks_safe_witness:
  "\<exists>dt'. dtls_step demo_queue (DiPacket True demo_ssl 4 [] demo_hello) demo_connected_dtls = Some dt'"
  using dtls_callbacks_safe [OF demo_dtls_reachable, of "DiPacket True demo_ssl 4 [] demo_hello"] by auto

text \<open>When the adapter refuses the peer's fingerprint, the set-up of DTLS goes on as if it had
  accepted it: for digests of even size (all the hash functions of SDP have one) the bitwise test
  never sees the failure.\<close>

theorem refused_fingerprint_ignored:
  assumes "even (length (dt_fingerprint_value dt))"
  shows "setup_dtls bq (ssl\<lparr>ssl_set_digest := \<lambda>alg digest. VerificationFailed\<rparr>) cw a evs dt =
     setup_dtls bq (ssl\<lparr>ssl_set_digest := \<lambda>alg digest. DigestOk\<rparr>) cw a evs dt"
proof -
  have "and (length (dt_fingerprint_value dt)) 1 = 0" using assms by (simp add: and_one_eq even_iff_mod_2_eq_zero)
  then show ?thesis by (simp add: setup_dtls_def maybe_start_dtls_def Let_def)
qed

theorem refused_fingerprint_ignored_witness:
  "dt_fingerprint_value demo_connected_dtls = replicate 32 5
     \<and> setup_dtls demo_queue (demo_ssl\<lparr>ssl_set_digest := \<lambda>alg digest. VerificationFailed\<rparr>) True 7 [] demo_connected_dtls =
       setup_dtls demo_queue (demo_ssl\<lparr>ssl_set_digest := \<lambda>alg digest. DigestOk\<rparr>) True 7 [] demo_connected_dtls"
proof
  show v: "dt_fingerprint_value demo_connected_dtls = replicate 32 5" by code_simp
  show "setup_dtls demo_queue (demo_ssl\<lparr>ssl_set_digest := \<lambda>alg digest. VerificationFailed\<rparr>) True 7 [] demo_connected_dtls =
       setup_dtls demo_queue (demo_ssl\<lparr>ssl_set_digest := \<lambda>alg digest. DigestOk\<rparr>) True 7 [] demo_connected_dtls"
    by (rule refused_fingerprint_ignored) (simp add: v)
qed

end
