(* ===== verification/SrtpInvariant.thy ===== *)
theory SrtpInvariant
  imports Srtp DtlsInvariant
begin

text \<open>
  Properties of SRTP: the usage count of libsrtp over all transports of the process, the keys
  installed when the handshake completes, the buffer sizes of the send path, and what happens to
  packets that fail authentication.
\<close>

subsection \<open>The usage count\<close>

text \<open>How many of a transport's sessions hold a use of the library.\<close>

definition session_uses :: "'c srtp_session option \<Rightarrow> int" where
  "session_uses s = (case s of None \<Rightarrow> 0 | Some s \<Rightarrow> if ss_inited s then 1 else 0)"

definition transport_uses :: "'c srtp_transport \<Rightarrow> int" where
  "transport_uses t = session_uses (st_send_session t) + session_uses (st_recv_session t)"

text \<open>A session with a context is initialised; both sessions exist or none; both have contexts.\<close>

definition transport_ok :: "'c srtp_transport \<Rightarrow> bool" where
  "transport_ok t =
     (case (st_send_session t, st_recv_session t) of
        (None, None) \<Rightarrow> True
      | (Some s, Some r) \<Rightarrow> ss_inited s \<and> ss_session s \<noteq> None \<and> ss_inited r \<and> ss_session r \<noteq> None
      | _ \<Rightarrow> False)"

definition global_ok :: "srtp_global \<Rightarrow> bool" where
  "global_ok g = (0 \<le> g_usage_count g \<and> (0 < g_usage_count g \<longrightarrow> g_initialised g))"

lemma uses_nonneg [simp]: "0 \<le> session_uses s" "0 \<le> transport_uses t"
  by (auto simp: session_uses_def transport_uses_def split: option.splits)

lemma increment_ok:
  "increment_usage sr g = (ok, g1) \<Longrightarrow> global_ok g \<Longrightarrow>
     global_ok g1 \<and> g_usage_count g1 = g_usage_count g + (if ok then 1 else 0)"
  by (auto simp: increment_usage_def global_ok_def Let_def split: if_splits)

lemma decrement_ok:
  "global_ok g \<Longrightarrow> 0 < g_usage_count g \<Longrightarrow>
     global_ok (decrement_usage g) \<and> g_usage_count (decrement_usage g) = g_usage_count g - 1"
  by (auto simp: decrement_usage_def global_ok_def Let_def)

lemma destroy_session_ok:
  "global_ok g \<Longrightarrow> session_uses s \<le> g_usage_count g \<Longrightarrow>
     global_ok (destroy_session s g) \<and> g_usage_count (destroy_session s g) = g_usage_count g - session_uses s"
  using decrement_ok [of g]
  by (auto simp: destroy_session_def session_destroy_def session_uses_def split: option.splits)

lemma reset_ok:
  assumes "reset_params t g = (t1, g1)" "global_ok g" "transport_uses t \<le> g_usage_count g"
  shows "global_ok g1 \<and> transport_ok t1 \<and> transport_uses t1 = 0
     \<and> g_usage_count g1 = g_usage_count g - transport_uses t"
proof -
  have nn: "0 \<le> session_uses (st_recv_session t)" by simp
  let ?g = "destroy_session (st_send_session t) g"
  have s: "global_ok ?g \<and> g_usage_count ?g = g_usage_count g - session_uses (st_send_session t)"
    by (rule destroy_session_ok) (use assms nn in \<open>unfold transport_uses_def, linarith+\<close>)
  then have "global_ok (destroy_session (st_recv_session t) ?g)
      \<and> g_usage_count (destroy_session (st_recv_session t) ?g) = g_usage_count ?g - session_uses (st_recv_session t)"
    by (intro destroy_session_ok) (use assms in \<open>simp_all add: transport_uses_def\<close>)
  with s show ?thesis
    using assms(1) by (auto simp: reset_params_def transport_ok_def transport_uses_def session_uses_def)
qed

lemma do_set_key_ok:
  "do_set_key sr ty cs key s = (ok, s1) \<Longrightarrow>
     ss_inited s1 = ss_inited s \<and> (ok \<longrightarrow> ss_session s1 \<noteq> None)"
  by (auto simp: do_set_key_def Let_def split: option.splits if_splits prod.splits)

lemma set_key_fresh_ok:
  assumes "set_key sr ty cs key new_srtp_session g = (ok, s1, g1)" "global_ok g"
  shows "global_ok g1 \<and> g_usage_count g1 = g_usage_count g + session_uses (Some s1)
     \<and> (ok \<longrightarrow> ss_inited s1 \<and> ss_session s1 \<noteq> None)"
proof -
  obtain b g2 where i: "increment_usage sr g = (b, g2)" by (cases "increment_usage sr g")
  show ?thesis
  proof (cases b)
    case True
    obtain ret s2 where d: "do_set_key sr ty cs key (new_srtp_session\<lparr>ss_inited := True\<rparr>) = (ret, s2)"
      by (cases "do_set_key sr ty cs key (new_srtp_session\<lparr>ss_inited := True\<rparr>)")
    then show ?thesis
      using assms i True increment_ok [OF i assms(2)] do_set_key_ok [OF d]
      by (auto simp: set_key_def new_srtp_session_def session_uses_def)
  next
    case False
    then show ?thesis
      using assms i increment_ok [OF i assms(2)]
      by (auto simp: set_key_def new_srtp_session_def session_uses_def)
  qed
qed

text \<open>What an operation on one transport does to the count, with the transport's own uses.\<close>

definition balanced :: "'c srtp_transport \<Rightarrow> srtp_global \<Rightarrow> 'c srtp_transport \<Rightarrow> srtp_global \<Rightarrow> bool" where
  "balanced t g t1 g1 =
     (global_ok g1 \<and> transport_ok t1
        \<and> g_usage_count g1 - transport_uses t1 = g_usage_count g - transport_uses t)"

lemma reset_balanced:
  "global_ok g \<Longrightarrow> transport_uses t \<le> g_usage_count g \<Longrightarrow> reset_params t g = (t1, g1) \<Longrightarrow> balanced t g t1 g1"
  using reset_ok [of t g t1 g1] by (simp add: balanced_def)

text \<open>The three ways in which the parameters are set: each failure resets what was set up before it.\<close>

lemma reset_leaves:
  assumes "global_ok g1" "transport_uses t1 \<le> g_usage_count g1"
    and "g_usage_count g1 - transport_uses t1 = g_usage_count g - transport_uses t"
  shows "\<exists>ta ga. reset_params t1 g1 = (ta, ga) \<and> balanced t g ta ga \<and> \<not> is_srtp_active ta"
proof -
  obtain ta ga where r: "reset_params t1 g1 = (ta, ga)" by fastforce
  moreover have "\<not> is_srtp_active ta" using r by (auto simp: reset_params_def is_srtp_active_def)
  ultimately show ?thesis using reset_ok [OF r assms(1,2)] assms(3) by (auto simp: balanced_def)
qed

lemma set_params_ways:
  assumes "res = (if \<not> ok then Some (False, reset_params ta ga)
       else if \<not> ok' then Some (False, reset_params tb gb) else Some (True, tc, gc))"
    and "\<exists>t1 g1. reset_params ta ga = (t1, g1) \<and> balanced t g t1 g1 \<and> \<not> is_srtp_active t1"
    and "\<exists>t1 g1. reset_params tb gb = (t1, g1) \<and> balanced t g t1 g1 \<and> \<not> is_srtp_active t1"
    and "ok \<Longrightarrow> ok' \<Longrightarrow> balanced t g tc gc" "is_srtp_active tc"
  shows "\<exists>ok t1 g1. res = Some (ok, t1, g1) \<and> balanced t g t1 g1 \<and> (ok \<longleftrightarrow> is_srtp_active t1)"
  using assms by (cases ok; cases ok') auto

lemma set_params_create:
  assumes "global_ok g" "transport_ok t" "st_send_session t = None"
  shows "\<exists>ok t1 g1. set_rtp_params sr cs key cs' key' t g = Some (ok, t1, g1) \<and> balanced t g t1 g1
     \<and> (ok \<longleftrightarrow> is_srtp_active t1)"
proof -
  have r: "st_recv_session t = None" using assms by (auto simp: transport_ok_def split: option.splits)
  obtain ok s1 g1 where s: "set_key sr ssrc_any_outbound cs key new_srtp_session g = (ok, s1, g1)"
    by (cases "set_key sr ssrc_any_outbound cs key new_srtp_session g") auto
  note s1 = set_key_fresh_ok [OF s assms(1)]
  obtain ok' r1 g2 where k: "set_key sr ssrc_any_outbound cs' key' new_srtp_session g1 = (ok', r1, g2)"
    by (cases "set_key sr ssrc_any_outbound cs' key' new_srtp_session g1") auto
  have r1: "global_ok g2 \<and> g_usage_count g2 = g_usage_count g1 + session_uses (Some r1)
     \<and> (ok' \<longrightarrow> ss_inited r1 \<and> ss_session r1 \<noteq> None)" using set_key_fresh_ok [OF k] s1 by simp
  let ?t = "t\<lparr>st_recv_session := Some new_srtp_session, st_send_session := Some s1\<rparr>"
  let ?t' = "t\<lparr>st_send_session := Some s1, st_recv_session := Some r1\<rparr>"
  have u: "transport_uses t = 0" "0 \<le> g_usage_count g" "transport_uses ?t = session_uses (Some s1)"
    "transport_uses ?t' = session_uses (Some s1) + session_uses (Some r1)"
    using assms r by (simp_all add: transport_uses_def session_uses_def new_srtp_session_def global_ok_def)
  show ?thesis
  proof (rule set_params_ways)
    show "set_rtp_params sr cs key cs' key' t g =
        (if \<not> ok then Some (False, reset_params ?t g1)
         else if \<not> ok' then Some (False, reset_params ?t' g2) else Some (True, ?t', g2))"
      by (simp add: set_rtp_params_def create_srtp_session_def destroy_session_def set_send_def set_recv_def
          assms(3) r s k)
    show "\<exists>t1 g1'. reset_params ?t g1 = (t1, g1') \<and> balanced t g t1 g1' \<and> \<not> is_srtp_active t1"
      by (rule reset_leaves) (use s1 u in simp_all)
    show "\<exists>t1 g1. reset_params ?t' g2 = (t1, g1) \<and> balanced t g t1 g1 \<and> \<not> is_srtp_active t1"
      by (rule reset_leaves) (use s1 r1 u in simp_all)
    show "balanced t g ?t' g2" if ok ok'
      using that s1 r1 u by (simp add: balanced_def transport_ok_def)
    show "is_srtp_active ?t'" by (simp add: is_srtp_active_def)
  qed
qed

lemma set_params_update:
  assumes "global_ok g" "transport_ok t" "transport_uses t \<le> g_usage_count g" "st_send_session t = Some s"
  shows "\<exists>ok t1 g1. set_rtp_params sr cs key cs' key' t g = Some (ok, t1, g1) \<and> balanced t g t1 g1
     \<and> (ok \<longleftrightarrow> is_srtp_active t1)"
proof -
  obtain r where r: "st_recv_session t = Some r" and ok: "ss_inited s" "ss_session s \<noteq> None"
      "ss_inited r" "ss_session r \<noteq> None"
    using assms(2,4) by (auto simp: transport_ok_def split: option.splits)
  obtain ok1 s1 where s1: "update_send sr cs key s = (ok1, s1)" by (cases "update_send sr cs key s")
  obtain ok2 r1 where r1: "update_recv sr cs' key' r = (ok2, r1)" by (cases "update_recv sr cs' key' r")
  have i: "ss_inited s1" "ss_inited r1" "ok1 \<Longrightarrow> ss_session s1 \<noteq> None" "ok2 \<Longrightarrow> ss_session r1 \<noteq> None"
    using s1 r1 ok do_set_key_ok [of sr ssrc_any_inbound cs key s ok1 s1]
      do_set_key_ok [of sr ssrc_any_inbound cs' key' r ok2 r1]
    by (auto simp: update_send_def update_recv_def update_key_def)
  let ?t1 = "t\<lparr>st_send_session := Some s1\<rparr>" and ?t2 = "t\<lparr>st_send_session := Some s1, st_recv_session := Some r1\<rparr>"
  have u: "transport_uses ?t1 = transport_uses t" "transport_uses ?t2 = transport_uses t"
    using assms(4) r ok i by (simp_all add: transport_uses_def session_uses_def)
  show ?thesis
  proof (rule set_params_ways)
    show "set_rtp_params sr cs key cs' key' t g =
        (if \<not> ok1 then Some (False, reset_params ?t1 g)
         else if \<not> ok2 then Some (False, reset_params ?t2 g) else Some (True, ?t2, g))"
      by (simp add: set_rtp_params_def assms(4) r s1 r1)
    show "\<exists>ta ga. reset_params ?t1 g = (ta, ga) \<and> balanced t g ta ga \<and> \<not> is_srtp_active ta"
      "\<exists>ta ga. reset_params ?t2 g = (ta, ga) \<and> balanced t g ta ga \<and> \<not> is_srtp_active ta"
      by (rule reset_leaves; use assms u in simp)+
    show "balanced t g ?t2 g" if ok1 ok2
      using that i u assms(1) by (simp add: balanced_def transport_ok_def)
    show "is_srtp_active ?t2" by (simp add: is_srtp_active_def)
  qed
qed

lemma set_params_balanced:
  assumes "global_ok g" "transport_ok t" "transport_uses t \<le> g_usage_count g"
  shows "\<exists>ok t1 g1. set_rtp_params sr cs key cs' key' t g = Some (ok, t1, g1) \<and> balanced t g t1 g1
     \<and> (ok \<longleftrightarrow> is_srtp_active t1)"
  using set_params_create [OF assms(1,2)] set_params_update [OF assms] by (cases "st_send_session t") auto

lemma transport_uses_ok: "transport_ok t \<Longrightarrow> transport_uses t = (if is_srtp_active t then 2 else 0)"
  by (auto simp: transport_ok_def transport_uses_def session_uses_def is_srtp_active_def split: option.splits)

text \<open>All the SRTP transports of the process and the count they share.\<close>

inductive srtp_process :: "'c srtp_lib \<Rightarrow> 'c srtp_transport list \<Rightarrow> srtp_global \<Rightarrow> bool" for sr where
  start: "srtp_process sr [] \<lparr>g_usage_count = 0, g_initialised = False\<rparr>"
| create: "srtp_process sr ts g \<Longrightarrow> srtp_process sr (ts @ [new_srtp_transport mux]) g"
| set_params: "srtp_process sr ts g \<Longrightarrow> i < length ts \<Longrightarrow>
     set_rtp_params sr cs key cs' key' (ts ! i) g = Some (ok, t1, g1) \<Longrightarrow> srtp_process sr (ts[i := t1]) g1"
| reset: "srtp_process sr ts g \<Longrightarrow> i < length ts \<Longrightarrow> reset_params (ts ! i) g = (t1, g1) \<Longrightarrow>
     srtp_process sr (ts[i := t1]) g1"

definition process_ok :: "'c srtp_transport list \<Rightarrow> srtp_global \<Rightarrow> bool" where
  "process_ok ts g =
     (global_ok g \<and> list_all transport_ok ts \<and> g_usage_count g = sum_list (map transport_uses ts))"

lemma sum_uses_update:
  "i < length ts \<Longrightarrow>
     sum_list (map transport_uses (ts[i := t1])) = sum_list (map transport_uses ts) - transport_uses (ts ! i) + transport_uses t1"
proof (induction ts arbitrary: i)
  case Nil
  then show ?case by simp
next
  case (Cons t ts)
  then show ?case by (cases i) auto
qed

lemma sum_uses_ge: "i < length ts \<Longrightarrow> transport_uses (ts ! i) \<le> sum_list (map transport_uses ts)"
proof (induction ts arbitrary: i)
  case Nil
  then show ?case by simp
next
  case (Cons t ts)
  have "0 \<le> sum_list (map transport_uses ts)" by (intro sum_list_nonneg) auto
  then show ?case using Cons.IH [of "i - 1"] Cons.prems uses_nonneg(2) [of t]
    by (cases i) (auto intro: order_trans)
qed

lemma process_ok_step:
  assumes "process_ok ts g" "i < length ts" "balanced (ts ! i) g t1 g1"
  shows "process_ok (ts[i := t1]) g1"
  using assms by (auto simp: process_ok_def balanced_def sum_uses_update list_all_length nth_list_update)

lemma process_entry:
  assumes "process_ok ts g" "i < length ts"
  shows "global_ok g" "transport_ok (ts ! i)" "transport_uses (ts ! i) \<le> g_usage_count g"
  using assms sum_uses_ge [OF assms(2)] by (auto simp: process_ok_def list_all_length)

lemma srtp_process_ok: "srtp_process sr ts g \<Longrightarrow> process_ok ts g"
proof (induction rule: srtp_process.induct)
  case start
  then show ?case by (simp add: process_ok_def global_ok_def)
next
  case (create ts g mux)
  then show ?case
    by (simp add: process_ok_def transport_ok_def new_srtp_transport_def transport_uses_def session_uses_def)
next
  case (set_params ts g i cs key cs' key' ok t1 g1)
  note e = process_entry [OF set_params.IH set_params.hyps(2)]
  have "balanced (ts ! i) g t1 g1"
    using set_params_balanced [OF e, of sr cs key cs' key'] set_params.hyps(3) by auto
  then show ?case by (rule process_ok_step [OF set_params.IH set_params.hyps(2)])
next
  case (reset ts g i t1 g1)
  note e = process_entry [OF reset.IH reset.hyps(2)]
  have "balanced (ts ! i) g t1 g1" by (rule reset_balanced [OF e(1,3) reset.hyps(3)])
  then show ?case by (rule process_ok_step [OF reset.IH reset.hyps(2)])
qed

text \<open>C16: However SRTP transports are created, keyed (with or without success) and reset, the usage
  count of libsrtp is twice the number of active transports, so it returns to zero and the library
  is shut down exactly when none is left, and it is initialised while any is active; every active
  transport has a context for each direction.\<close>

theorem srtp_usage_count:
  assumes "srtp_process sr ts g"
  shows "g_usage_count g = 2 * int (length (filter is_srtp_active ts))
     \<and> (filter is_srtp_active ts \<noteq> [] \<longrightarrow> g_initialised g)
     \<and> list_all transport_ok ts"
proof -
  have ok: "process_ok ts g" by (rule srtp_process_ok [OF assms])
  then have "list_all transport_ok ts" by (simp add: process_ok_def)
  then have s: "sum_list (map transport_uses ts) = 2 * int (length (filter is_srtp_active ts))"
    by (induction ts) (auto simp: transport_uses_ok)
  then show ?thesis using ok by (auto simp: process_ok_def global_ok_def)
qed

text \<open>A library whose contexts are the policies they were made from.\<close>

definition demo_srtp :: "srtp_policy srtp_lib" where
  "demo_srtp =
     \<lparr>sr_init = True, sr_install = True,
      sr_policy_rtp = (\<lambda>cs. if cs = 1 then Some (30, 10) else None),
      sr_policy_rtcp = (\<lambda>cs. if cs = 1 then Some (30, 10) else None),
      sr_create = Some, sr_update = (\<lambda>c p. (True, p)),
      sr_protect = (\<lambda>c p. (True, p @ replicate 10 0, c)),
      sr_protect_rtcp = (\<lambda>c p. (True, p @ replicate 14 0, c)),
      sr_unprotect = (\<lambda>c p. (drop (length p - 10) p = replicate 10 0, take (length p - 10) p, c)),
      sr_unprotect_rtcp = (\<lambda>c p. (drop (length p - 14) p = replicate 14 0, take (length p - 14) p, c))\<rparr>"

definition demo_keys :: "bytes" where "demo_keys = replicate 30 9"

definition demo_keyed :: "bool \<times> srtp_policy srtp_transport \<times> srtp_global" where
  "demo_keyed = the (set_rtp_params demo_srtp 1 demo_keys 1 demo_keys (new_srtp_transport True)
     \<lparr>g_usage_count = 0, g_initialised = False\<rparr>)"

lemma demo_keyed_eq:
  "set_rtp_params demo_srtp 1 demo_keys 1 demo_keys (new_srtp_transport True)
     \<lparr>g_usage_count = 0, g_initialised = False\<rparr> = Some demo_keyed
   \<and> is_srtp_active (fst (snd demo_keyed))"
proof -
  have "set_rtp_params demo_srtp 1 demo_keys 1 demo_keys (new_srtp_transport True)
      \<lparr>g_usage_count = 0, g_initialised = False\<rparr> \<noteq> None \<and> is_srtp_active (fst (snd demo_keyed))"
    by code_simp
  then show ?thesis by (auto simp: demo_keyed_def)
qed

theorem srtp_usage_count_witness:
  "g_usage_count (snd (snd demo_keyed)) = 2 \<and> g_initialised (snd (snd demo_keyed))"
proof -
  have "srtp_process demo_srtp ([] @ [new_srtp_transport True]) \<lparr>g_usage_count = 0, g_initialised = False\<rparr>"
    by (intro srtp_process.start srtp_process.create)
  from srtp_process.set_params [OF this, of 0 1 demo_keys 1 demo_keys "fst demo_keyed" "fst (snd demo_keyed)" "snd (snd demo_keyed)"]
  have "srtp_process demo_srtp [fst (snd demo_keyed)] (snd (snd demo_keyed))"
    using demo_keyed_eq by simp
  from srtp_usage_count [OF this] show ?thesis using demo_keyed_eq by simp
qed

subsection \<open>The keys\<close>

lemma split_keys_layout:
  "split_keys (length ck) (length cs) (ck @ sk @ cs @ ss) = (sk @ ss, ck @ cs)"
  if "length sk = length ck" "length ss = length cs"
  using that by (simp add: split_keys_def Let_def)

definition session_policy :: "int \<Rightarrow> bytes \<Rightarrow> srtp_policy" where
  "session_policy cs key =
     \<lparr>pol_type = ssrc_any_outbound, pol_cs = cs, pol_key = key, pol_window_size = 1024, pol_allow_repeat_tx = True\<rparr>"

lemma set_key_fresh:
  assumes "sr_init sr" "sr_install sr" "sr_policy_rtp sr cs = Some (length key, tag)"
    and "sr_policy_rtcp sr cs = Some (n, rtcp_tag)" "sr_create sr (session_policy cs key) = Some ctx"
  shows "\<exists>g1. set_key sr ssrc_any_outbound cs key new_srtp_session g =
     (True, \<lparr>ss_session = Some ctx, ss_inited = True, ss_rtp_auth_tag_len = tag, ss_rtcp_auth_tag_len = rtcp_tag\<rparr>, g1)"
  using assms
  by (auto simp: set_key_def new_srtp_session_def increment_usage_def do_set_key_def session_policy_def Let_def)

lemma set_rtp_params_fresh:
  assumes "st_send_session t = None" "sr_init sr" "sr_install sr"
    and "sr_policy_rtp sr cs = Some (length key, tag)" "length key' = length key"
    and "sr_policy_rtcp sr cs = Some (n, rtcp_tag)"
    and "sr_create sr (session_policy cs key) = Some ctx" "sr_create sr (session_policy cs key') = Some ctx'"
  shows "\<exists>g1. set_rtp_params sr cs key cs key' t g = Some (True,
     t\<lparr>st_send_session := Some \<lparr>ss_session = Some ctx, ss_inited = True, ss_rtp_auth_tag_len = tag, ss_rtcp_auth_tag_len = rtcp_tag\<rparr>,
       st_recv_session := Some \<lparr>ss_session = Some ctx', ss_inited = True, ss_rtp_auth_tag_len = tag, ss_rtcp_auth_tag_len = rtcp_tag\<rparr>\<rparr>, g1)"
proof -
  obtain g0 where g0: "snd (create_srtp_session t g) = g0" by simp
  obtain g1 where s: "set_key sr ssrc_any_outbound cs key new_srtp_session g0 =
      (True, \<lparr>ss_session = Some ctx, ss_inited = True, ss_rtp_auth_tag_len = tag, ss_rtcp_auth_tag_len = rtcp_tag\<rparr>, g1)"
    using set_key_fresh [OF assms(2-4,6,7)] by blast
  obtain g2 where r: "set_key sr ssrc_any_outbound cs key' new_srtp_session g1 =
      (True, \<lparr>ss_session = Some ctx', ss_inited = True, ss_rtp_auth_tag_len = tag, ss_rtcp_auth_tag_len = rtcp_tag\<rparr>, g2)"
    using set_key_fresh [OF assms(2,3), of cs key' tag n rtcp_tag ctx' g1] assms by auto
  show ?thesis
    using assms(1) g0 s r
    by (simp add: set_rtp_params_def create_srtp_session_def set_send_def set_recv_def)
qed

text \<open>C9: When the DTLS handshake of a transport completes, its SRTP transport is keyed with the
  exported material as RFC 5764 lays it out: the server sends with the server key and salt and
  receives with the client key and salt, each a context of its own in libsrtp.\<close>

theorem handshake_keys:
  assumes "dtls_reachable bq dt" "dt_writable dt" "dts d = Some dt"
    and "ds_rtp_dtls ds = Some d" "st_rtcp_mux_enabled (ds_srtp ds)" "st_send_session (ds_srtp ds) = None"
    and "ssl_suite ssl = Some suite" "key_lengths suite = Some (length ck, length cs)"
    and "length sk = length ck" "length ss = length cs"
    and "ssl_export ssl k_dtls_srtp_exporter_label (length ck * 2 + length cs * 2) = Some (ck @ sk @ cs @ ss)"
    and "sr_init sr" "sr_install sr"
    and "sr_policy_rtp sr suite = Some (length ck + length cs, tag)" "sr_policy_rtcp sr suite = Some (n, rtcp_tag)"
    and "sr_create sr (session_policy suite (sk @ ss)) = Some send_ctx"
    and "sr_create sr (session_policy suite (ck @ cs)) = Some recv_ctx"
  shows "\<exists>ds' g' s r. ds_on_dtls_state sr key_lengths ssl dts dtls_connected ds g = Some (ds', g')
     \<and> is_srtp_active (ds_srtp ds')
     \<and> st_send_session (ds_srtp ds') = Some s \<and> ss_session s = Some send_ctx
     \<and> st_recv_session (ds_srtp ds') = Some r \<and> ss_session r = Some recv_ctx
     \<and> ss_rtp_auth_tag_len s = tag \<and> ss_rtcp_auth_tag_len s = rtcp_tag"
proof -
  have ok: "dt_ok dt" by (rule dtls_reachable_ok [OF assms(1)])
  then have c: "dt_state dt = dtls_connected" "dt_dtls dt \<noteq> None" "dt_active dt"
    using assms(2) by (auto simp: dt_ok_def)
  have x: "extract_params key_lengths ssl (Some dt) = Some (Some (suite, sk @ ss, ck @ cs))"
    using c assms(7-11) split_keys_layout [of sk ck ss cs]
    by (simp add: extract_params_def get_srtp_crypto_suite_def export_keying_material_def)
  have "is_dtls_writable dts ds = Some True"
    using assms(2-5) by (simp add: is_dtls_writable_def dtls_at_def)
  moreover have "\<not> is_srtp_active (ds_srtp ds)" using assms(6) by (simp add: is_srtp_active_def)
  moreover obtain g1 where "set_rtp_params sr suite (sk @ ss) suite (ck @ cs) (ds_srtp ds) g = Some (True,
     (ds_srtp ds)\<lparr>st_send_session := Some \<lparr>ss_session = Some send_ctx, ss_inited = True, ss_rtp_auth_tag_len = tag, ss_rtcp_auth_tag_len = rtcp_tag\<rparr>,
       st_recv_session := Some \<lparr>ss_session = Some recv_ctx, ss_inited = True, ss_rtp_auth_tag_len = tag, ss_rtcp_auth_tag_len = rtcp_tag\<rparr>\<rparr>, g1)"
    using set_rtp_params_fresh [OF assms(6,12,13), of suite "sk @ ss" tag "ck @ cs" n rtcp_tag send_ctx recv_ctx g]
      assms(9,10,14-17) by auto
  ultimately show ?thesis
    using assms(3,4,6) x
    by (simp add: ds_on_dtls_state_def maybe_setup_dtls_srtp_def setup_dtls_srtp_def dtls_at_def is_srtp_active_def)
qed

definition demo_ds :: "srtp_policy dtls_srtp" where
  "demo_ds = set_dtls_transports (Some 1) None (new_dtls_srtp ''audio'' True)"

theorem handshake_keys_witness:
  "\<exists>ds' g'. ds_on_dtls_state demo_srtp (\<lambda>cs. if cs = 1 then Some (16, 14) else None) demo_ssl
       [1 \<mapsto> demo_connected_dtls] dtls_connected demo_ds \<lparr>g_usage_count = 0, g_initialised = False\<rparr> = Some (ds', g')
     \<and> is_srtp_active (ds_srtp ds')"
proof -
  let ?b = "\<lambda>i j. map of_nat [i..<j] :: bytes"
  have split: "?b 0 60 = ?b 0 16 @ ?b 16 32 @ ?b 32 46 @ ?b 46 60"
    by code_simp
  have "ssl_export demo_ssl k_dtls_srtp_exporter_label 60 = Some (?b 0 60)" by (simp add: demo_ssl_def)
  then have e: "ssl_export demo_ssl k_dtls_srtp_exporter_label (length (?b 0 16) * 2 + length (?b 32 46) * 2)
      = Some (?b 0 16 @ ?b 16 32 @ ?b 32 46 @ ?b 46 60)"
    unfolding split by simp
  have "\<exists>ds' g' s r. ds_on_dtls_state demo_srtp (\<lambda>cs. if cs = 1 then Some (16, 14) else None) demo_ssl
       [1 \<mapsto> demo_connected_dtls] dtls_connected demo_ds \<lparr>g_usage_count = 0, g_initialised = False\<rparr> = Some (ds', g')
     \<and> is_srtp_active (ds_srtp ds')
     \<and> st_send_session (ds_srtp ds') = Some s \<and> ss_session s = Some (session_policy 1 (?b 16 32 @ ?b 46 60))
     \<and> st_recv_session (ds_srtp ds') = Some r \<and> ss_session r = Some (session_policy 1 (?b 0 16 @ ?b 32 46))
     \<and> ss_rtp_auth_tag_len s = 10 \<and> ss_rtcp_auth_tag_len s = 10"
    by (rule handshake_keys [OF demo_dtls_reachable _ _ _ _ _ _ _ _ _ e, where n = 30])
      (use demo_dtls_run in \<open>simp_all add: demo_ds_def set_dtls_transports_def new_dtls_srtp_def
         new_srtp_transport_def demo_ssl_def demo_srtp_def\<close>)
  then show ?thesis by blast
qed

subsection \<open>Packets\<close>

lemma active_send:
  assumes "is_srtp_active (ds_srtp ds)" "st_send_session (ds_srtp ds) = Some s" "ss_session s = Some ctx"
    and "ds_rtp_dtls ds = Some d" "12 \<le> length buf"
  shows "sr_protect sr ctx buf = (ok, packet, ctx') \<Longrightarrow>
       \<exists>ds'. send_rtp sr sent buf ds = Some (if ok then sent else - 1, ds')
          \<and> ds_events ds' = ds_events ds @ (if ok then [DsSent d packet] else [])
          \<and> st_send_session (ds_srtp ds') = Some (s\<lparr>ss_session := Some ctx'\<rparr>)"
    and "sr_protect_rtcp sr ctx buf = (ok, packet, ctx') \<Longrightarrow>
       \<exists>ds'. send_rtcp sr sent buf ds = Some (if ok then sent else - 1, ds')
          \<and> ds_events ds' = ds_events ds @ (if ok then [DsSent d packet] else [])
          \<and> st_send_session (ds_srtp ds') = Some (s\<lparr>ss_session := Some ctx'\<rparr>)"
  using assms
  by (auto simp: send_rtp_def send_rtcp_def st_protect_rtp_def ss_protect_rtp_def st_protect_rtcp_def
      ss_protect_rtcp_def get_send_auth_tag_len_def get_auth_tag_len_def parse_rtp_sequence_number_def
      parse_rtp_ssrc_def ds_emit_def Let_def)

text \<open>
  What sending an RTP packet leaves of an active transport: the context libsrtp returned and, when it
  accepted the packet, the sequence number and what it made of the packet on its way to the DTLS transport.
\<close>

definition srtp_sent ::
  "nat \<Rightarrow> bool \<Rightarrow> bytes \<Rightarrow> 'c \<Rightarrow> 'c srtp_session \<Rightarrow> bytes \<Rightarrow> 'c dtls_srtp \<Rightarrow> 'c dtls_srtp" where
  "srtp_sent d ok packet ctx' s buf ds =
     (let ds1 = ds\<lparr>ds_srtp := (ds_srtp ds)\<lparr>st_send_session := Some (s\<lparr>ss_session := Some ctx'\<rparr>)\<rparr>\<rparr>
      in if ok then ds1\<lparr>ds_last_send_seq_num := the (parse_rtp_sequence_number buf),
                        ds_events := ds_events ds @ [DsSent d packet]\<rparr>
         else ds1)"

lemma active_send_exact:
  assumes "is_srtp_active (ds_srtp ds)" "st_send_session (ds_srtp ds) = Some s" "ss_session s = Some ctx"
    and "ds_rtp_dtls ds = Some d" "12 \<le> length buf" "sr_protect sr ctx buf = (ok, packet, ctx')"
  shows "send_rtp sr sent buf ds = Some (if ok then sent else - 1, srtp_sent d ok packet ctx' s buf ds)"
  using assms
  by (auto simp: send_rtp_def st_protect_rtp_def ss_protect_rtp_def get_send_auth_tag_len_def get_auth_tag_len_def
      parse_rtp_sequence_number_def parse_rtp_ssrc_def ds_emit_def srtp_sent_def Let_def)

text \<open>The buffer of an outgoing packet always has room for the authentication tag: on an active
  transport a packet with an RTP header is refused only if libsrtp refuses it, and otherwise exactly
  what libsrtp made of it goes to the DTLS transport; the same holds for RTCP.\<close>

theorem outgoing_packets_fit:
  assumes "is_srtp_active (ds_srtp ds)" "st_send_session (ds_srtp ds) = Some s" "ss_session s = Some ctx"
    and "ds_rtp_dtls ds = Some d" "12 \<le> length buf"
  shows "(sr_protect sr ctx buf = (ok, packet, ctx') \<longrightarrow>
       (\<exists>ds'. send_rtp sr sent buf ds = Some (if ok then sent else - 1, ds')
          \<and> ds_events ds' = ds_events ds @ (if ok then [DsSent d packet] else [])
          \<and> st_send_session (ds_srtp ds') = Some (s\<lparr>ss_session := Some ctx'\<rparr>)))
     \<and> (sr_protect_rtcp sr ctx buf = (ok, packet, ctx') \<longrightarrow>
       (\<exists>ds'. send_rtcp sr sent buf ds = Some (if ok then sent else - 1, ds')
          \<and> ds_events ds' = ds_events ds @ (if ok then [DsSent d packet] else [])
          \<and> st_send_session (ds_srtp ds') = Some (s\<lparr>ss_session := Some ctx'\<rparr>)))"
  using active_send [OF assms] by blast

definition demo_active_ds :: "srtp_policy dtls_srtp" where
  "demo_active_ds = demo_ds\<lparr>ds_srtp := fst (snd demo_keyed)\<rparr>"

definition demo_session :: "srtp_policy srtp_session" where
  "demo_session = \<lparr>ss_session = Some (session_policy 1 demo_keys), ss_inited = True,
     ss_rtp_auth_tag_len = 10, ss_rtcp_auth_tag_len = 10\<rparr>"

lemma demo_active_facts:
  "is_srtp_active (ds_srtp demo_active_ds)" "st_send_session (ds_srtp demo_active_ds) = Some demo_session"
  "st_recv_session (ds_srtp demo_active_ds) = Some demo_session" "ds_rtp_dtls demo_active_ds = Some 1"
  "ds_events demo_active_ds = []" "ds_unprotect_fail_count demo_active_ds = 0"
  by code_simp+

theorem outgoing_packets_fit_witness:
  "\<exists>ds'. send_rtp demo_srtp 5 demo_rtp demo_active_ds = Some (5, ds')
     \<and> ds_events ds' = [DsSent 1 (demo_rtp @ replicate 10 0)]"
proof -
  have "sr_protect demo_srtp (session_policy 1 demo_keys) demo_rtp =
      (True, demo_rtp @ replicate 10 0, session_policy 1 demo_keys)"
    by (simp add: demo_srtp_def)
  then show ?thesis
    using outgoing_packets_fit [of demo_active_ds demo_session "session_policy 1 demo_keys" 1 demo_rtp demo_srtp
        True "demo_rtp @ replicate 10 0" "session_policy 1 demo_keys" 5] demo_active_facts
    by (auto simp: demo_session_def demo_rtp_def)
qed

text \<open>C38: An RTP packet that fails authentication is handed up all the same, as libsrtp left it in
  the buffer, and only counted; an RTCP packet that fails is dropped.\<close>

theorem unauthenticated_rtp_forwarded:
  assumes "is_srtp_active (ds_srtp ds)" "st_recv_session (ds_srtp ds) = Some r" "ss_session r = Some ctx"
    and "infer_rtp_packet_type p = k_rtp" "sr_unprotect sr ctx p = (False, p1, ctx1)"
    and "infer_rtp_packet_type q = k_rtcp" "sr_unprotect_rtcp sr ctx q = (False, q1, ctx2)"
  shows "(\<exists>ds'. ds_on_read_packet sr p ds = Some ds' \<and> ds_events ds' = ds_events ds @ [DsRtp p1]
       \<and> ds_unprotect_fail_count ds' = ds_unprotect_fail_count ds + 1)
     \<and> (\<exists>ds'. ds_on_read_packet sr q ds = Some ds' \<and> ds_events ds' = ds_events ds)"
proof -
  have "12 \<le> length p" using assms(4) by (auto simp: infer_rtp_packet_type_def is_rtp_def
      RtpUtils.k_min_rtp_packet_len_def split: if_splits)
  then show ?thesis
    using assms
    by (simp add: ds_on_read_packet_def on_rtp_packet_received_def on_rtcp_packet_received_def st_unprotect_rtp_def
        ss_unprotect_rtp_def st_unprotect_rtcp_def ss_unprotect_rtcp_def ds_emit_def parse_rtp_sequence_number_def
        parse_rtp_ssrc_def)
qed

definition demo_rtcp :: bytes where
  "demo_rtcp = [128, 200, 0, 1, 0, 0, 0, 7]"

theorem unauthenticated_rtp_forwarded_witness:
  "\<exists>ds'. ds_on_read_packet demo_srtp demo_rtp demo_active_ds = Some ds' \<and> ds_events ds' = [DsRtp [128, 111]]"
proof -
  have t: "infer_rtp_packet_type demo_rtp = k_rtp" "infer_rtp_packet_type demo_rtcp = k_rtcp" by code_simp+
  have p: "sr_unprotect demo_srtp (session_policy 1 demo_keys) demo_rtp = (False, [128, 111], session_policy 1 demo_keys)"
    by code_simp
  have q: "sr_unprotect_rtcp demo_srtp (session_policy 1 demo_keys) demo_rtcp = (False, [], session_policy 1 demo_keys)"
    by code_simp
  show ?thesis
    using unauthenticated_rtp_forwarded [OF demo_active_facts(1,3) _ t(1) p t(2) q] demo_active_facts
    by (auto simp: demo_session_def)
qed

end
