(* ===== verification/ControllerInvariant.thy ===== *)
theory ControllerInvariant
  imports TransportController SrtpInvariant
begin

text \<open>
  The maps of the transport controller. What identifies its objects (their names, the wiring of the
  SRTP transports and the channels of the agent) is the \<open>view\<close> of a controller; the handlers keep
  it, and \<open>set_local_description\<close> extends it. In every reachable state the entries of both maps are
  live and wired to each other, so recomputing the connection's state dereferences nothing dead.
\<close>

subsection \<open>The handlers of a DTLS transport keep its name\<close>

lemma name_sets [simp]:
  "dt_name (dt_emit es dt) = dt_name dt" "dt_name (set_dtls_state st dt) = dt_name dt"
  "dt_name (set_writable_state b dt) = dt_name dt" "dt_name (dt_set_receiving b dt) = dt_name dt"
  "dt_name (on_receiving_state b dt) = dt_name dt"
  by (simp_all add: dt_emit_def set_dtls_state_def set_writable_state_def dt_set_receiving_def on_receiving_state_def)

lemma read_loop_name: "read_loop rs dt = Some dt' \<Longrightarrow> dt_name dt' = dt_name dt"
  by (induction rs dt rule: read_loop.induct) auto

lemma on_dtls_event_name: "on_dtls_event ev dt = Some dt' \<Longrightarrow> dt_name dt' = dt_name dt"
  by (auto simp: on_dtls_event_def Let_def dest!: read_loop_name split: option.splits if_splits)

lemma dtls_events_name: "dtls_events evs dt = Some dt' \<Longrightarrow> dt_name dt' = dt_name dt"
  by (induction evs arbitrary: dt) (auto simp: bind_eq_Some_conv dest!: on_dtls_event_name)

lemma handle_packet_name: "handle_dtls_packet bq data evs dt = Some (ok, dt') \<Longrightarrow> dt_name dt' = dt_name dt"
  by (auto simp: handle_dtls_packet_def Let_def dest!: dtls_events_name split: if_splits option.splits prod.splits)

lemma maybe_start_name: "maybe_start_dtls bq ssl w evs dt = Some dt' \<Longrightarrow> dt_name dt' = dt_name dt"
  by (auto simp: maybe_start_dtls_def Let_def dest!: handle_packet_name split: if_splits option.splits)

lemma setup_dtls_name: "setup_dtls bq ssl w a evs dt = Some (ok, dt') \<Longrightarrow> dt_name dt' = dt_name dt"
  by (auto simp: setup_dtls_def Let_def dest!: maybe_start_name split: if_splits)

lemma set_remote_fingerprint_name:
  "set_remote_fingerprint bq ssl w a evs alg digest dt = Some (ok, dt') \<Longrightarrow> dt_name dt' = dt_name dt"
  by (auto simp: set_remote_fingerprint_def Let_def dest!: setup_dtls_name
      split: if_splits option.splits digest_result.splits)

lemma dt_on_read_packet_name: "dt_on_read_packet bq ssl w a evs buf dt = Some dt' \<Longrightarrow> dt_name dt' = dt_name dt"
  by (auto simp: dt_on_read_packet_def Let_def dest!: setup_dtls_name handle_packet_name
      split: if_splits dtls_state.splits)

lemma on_writable_state_name: "on_writable_state bq ssl w evs dt = Some dt' \<Longrightarrow> dt_name dt' = dt_name dt"
  by (auto simp: on_writable_state_def dest!: maybe_start_name split: if_splits dtls_state.splits)

lemmas handler_names = set_remote_fingerprint_name dt_on_read_packet_name on_writable_state_name

subsection \<open>The handlers of an SRTP transport keep its name and its wiring\<close>

definition ds_wiring :: "'c dtls_srtp \<Rightarrow> string \<times> nat option" where
  "ds_wiring ds = (ds_name ds, ds_rtp_dtls ds)"

lemma ds_on_dtls_state_wiring:
  "ds_on_dtls_state sr kl ssl dts st ds g = Some (ds', g') \<Longrightarrow> ds_wiring ds' = ds_wiring ds"
  by (auto simp: ds_on_dtls_state_def maybe_setup_dtls_srtp_def setup_dtls_srtp_def ds_wiring_def Let_def
      split: if_splits option.splits prod.splits bool.splits)

lemma ds_on_read_packet_wiring: "ds_on_read_packet sr p ds = Some ds' \<Longrightarrow> ds_wiring ds' = ds_wiring ds"
  by (auto simp: ds_on_read_packet_def on_rtp_packet_received_def on_rtcp_packet_received_def ds_emit_def
      ds_wiring_def Let_def split: if_splits prod.splits rtp_packet_type.splits)

lemma ds_send_wiring:
  "send_rtp sr sent p ds = Some (ret, ds') \<Longrightarrow> ds_wiring ds' = ds_wiring ds"
  "send_rtcp sr sent p ds = Some (ret, ds') \<Longrightarrow> ds_wiring ds' = ds_wiring ds"
  by (auto simp: send_rtp_def send_rtcp_def ds_emit_def ds_wiring_def Let_def
      split: if_splits prod.splits option.splits)

subsection \<open>The view\<close>

definition channel_keys :: "ice_agent \<Rightarrow> (string \<times> ice_component) list" where
  "channel_keys ag = map (\<lambda>ch. (ch_name ch, ch_component ch)) (ag_channels ag)"

record ctl_view =
  vw_dtls :: "(string \<times> nat) list"
  vw_srtp :: "(string \<times> nat) list"
  vw_dtls_names :: "nat \<Rightarrow> string option"
  vw_srtp_wiring :: "nat \<Rightarrow> (string \<times> nat option) option"
  vw_channels :: "(string \<times> ice_component) list"

definition view :: "('q, 'c) transport_controller \<Rightarrow> ctl_view" where
  "view tc =
     \<lparr>vw_dtls = ctl_dtls_by_name tc, vw_srtp = ctl_srtp_by_name tc,
      vw_dtls_names = (\<lambda>a. map_option dt_name (ctl_dtls_heap tc a)),
      vw_srtp_wiring = (\<lambda>b. map_option ds_wiring (ctl_srtp_heap tc b)),
      vw_channels = channel_keys (ctl_agent tc)\<rparr>"

lemma view_emit [simp]: "view (ctl_emit es tc) = view tc"
  by (simp add: view_def ctl_emit_def)

lemma view_update: "ctl_update_state tc = Some tc' \<Longrightarrow> view tc' = view tc"
  by (auto simp: ctl_update_state_def view_def ctl_emit_def Let_def)

lemma view_put_dtls:
  "ctl_dtls_heap tc d = Some old \<Longrightarrow> dt_name dt = dt_name old \<Longrightarrow> view (put_dtls d dt tc) = view tc"
  by (auto simp: view_def put_dtls_def fun_eq_iff)

lemma view_put_srtp:
  "ctl_srtp_heap tc b = Some old \<Longrightarrow> ds_wiring ds = ds_wiring old \<Longrightarrow> view (put_srtp b ds tc) = view tc"
  by (auto simp: view_def put_srtp_def fun_eq_iff)

lemma view_dtls_live:
  "view tc' = view tc \<Longrightarrow> ctl_dtls_heap tc d = Some dt \<Longrightarrow>
     \<exists>dt'. ctl_dtls_heap tc' d = Some dt' \<and> dt_name dt' = dt_name dt"
proof -
  assume v: "view tc' = view tc" and d: "ctl_dtls_heap tc d = Some dt"
  have "map_option dt_name (ctl_dtls_heap tc' d) = map_option dt_name (ctl_dtls_heap tc d)"
    using v by (simp add: view_def fun_eq_iff)
  then show ?thesis using d by auto
qed

lemma view_srtp_signals [simp]: "view (foldl (\<lambda>t e. srtp_signal e t) tc es) = view tc"
proof (induction es arbitrary: tc)
  case Nil
  then show ?case by simp
next
  case (Cons e es)
  then show ?case by (cases e) (simp_all add: ctl_on_rtp_packet_def ctl_on_rtcp_packet_def)
qed

lemma view_srtp_slot:
  assumes "srtp_slot name f tc g = Some (tc', g')"
    and "\<And>ds g1 ds' g2. f ds g1 = Some (ds', g2) \<Longrightarrow> ds_wiring ds' = ds_wiring ds"
  shows "view tc' = view tc"
proof -
  consider "tc' = tc"
    | b ds ds1 where "ctl_srtp_heap tc b = Some ds" "f ds g = Some (ds1, g')"
        "view tc' = view (put_srtp b ds1 tc)"
    using assms(1) by (auto simp: srtp_slot_def split: option.splits)
  then show ?thesis
  proof cases
    case 2
    then show ?thesis using view_put_srtp assms(2) by metis
  qed simp
qed

lemma view_dtls_signal:
  assumes "dtls_signal sv d e tc g = Some (tc', g')"
  shows "view tc' = view tc"
proof -
  obtain dt where d: "ctl_dtls_heap tc d = Some dt"
    using assms by (auto simp: dtls_signal_def split: option.splits)
  have p: "view (put_dtls d (dt\<lparr>dt_state := st\<rparr>) tc) = view tc"
    "view (put_dtls d (dt\<lparr>dt_writable := b\<rparr>) tc) = view tc"
    "view (put_dtls d (dt\<lparr>dt_receiving := b\<rparr>) tc) = view tc" for st b
    by (rule view_put_dtls [OF d], simp)+
  show ?thesis
  proof (cases e)
    case (DtState st)
    then obtain tc1 where "ctl_update_state (put_dtls d (dt\<lparr>dt_state := st\<rparr>) tc) = Some tc1"
        "srtp_slot (dt_name dt) (ds_on_dtls_state (ms_srtp sv) (ms_key_lengths sv) (ms_ssl sv) (ctl_dtls_heap tc1) st) tc1 g
           = Some (tc', g')"
      using assms d by (auto simp: dtls_signal_def split: option.splits)
    then show ?thesis using view_update view_srtp_slot ds_on_dtls_state_wiring p(1) by metis
  next
    case (DtReadPacket packet)
    then have s: "srtp_slot (dt_name dt) (\<lambda>ds g. map_option (\<lambda>ds1. (ds1, g)) (ds_on_read_packet (ms_srtp sv) packet ds)) tc g
        = Some (tc', g')" using assms d by (simp add: dtls_signal_def)
    show ?thesis by (rule view_srtp_slot [OF s]) (auto dest: ds_on_read_packet_wiring)
  qed (use assms d in \<open>auto simp: dtls_signal_def p dest!: view_update\<close>)
qed

lemma view_dtls_signals: "dtls_signals sv d es tc g = Some (tc', g') \<Longrightarrow> view tc' = view tc"
  by (induction es arbitrary: tc g) (auto dest!: view_dtls_signal split: option.splits)

lemma view_dtls_op:
  assumes "ctl_dtls_op sv d f tc g = Some (tc', g')"
    and "\<And>dt dt'. f dt = Some dt' \<Longrightarrow> dt_name dt' = dt_name dt"
  shows "view tc' = view tc"
proof -
  obtain dt dt1 tc0 tc1 where h: "ctl_dtls_heap tc d = Some dt" "f dt = Some dt1"
      "tc0 = put_dtls d (dt1\<lparr>dt_state := dt_state dt, dt_writable := dt_writable dt, dt_receiving := dt_receiving dt\<rparr>) tc"
      "dtls_signals sv d (drop (length (dt_events dt)) (dt_events dt1)) tc0 g = Some (tc1, g')"
      "tc' = put_dtls d dt1 tc1"
    using assms(1) by (auto simp: ctl_dtls_op_def split: option.splits)
  have n: "dt_name dt1 = dt_name dt" by (rule assms(2) [OF h(2)])
  have v0: "view tc0 = view tc" unfolding h(3) by (rule view_put_dtls [OF h(1)]) (simp add: n)
  have v1: "view tc1 = view tc" using view_dtls_signals [OF h(4)] v0 by simp
  obtain dt2 where "ctl_dtls_heap tc1 d = Some dt2" "dt_name dt2 = dt_name dt"
    using view_dtls_live [OF v1 h(1)] by blast
  then show ?thesis unfolding h(5) using view_put_dtls [of tc1 d dt2 dt1] n v1 by simp
qed

subsection \<open>The handlers of a channel\<close>

lemma keys_update_state [simp]: "channel_keys (agent_update_state ag) = channel_keys ag"
  by (simp add: channel_keys_def agent_update_state_def Let_def)

lemma view_agent:
  "channel_keys ag = channel_keys (ctl_agent tc) \<Longrightarrow> view (tc\<lparr>ctl_agent := ag\<rparr>) = view tc"
  by (simp add: view_def)

lemma view_put_channel [simp]: "view (put_channel ch tc) = view tc"
  unfolding put_channel_def by (rule view_agent) (auto simp: channel_keys_def same_channel_def)

lemma view_refresh: "ctl_refresh_agent tc = Some tc' \<Longrightarrow> view tc' = view tc"
  using view_agent [of "agent_update_state (ctl_agent tc)" tc]
  by (auto simp: ctl_refresh_agent_def Let_def dest!: view_update split: if_splits)

lemma view_to_dtls:
  assumes "to_dtls sv name f tc g = Some (tc', g')"
    and "\<And>dt dt'. f dt = Some dt' \<Longrightarrow> dt_name dt' = dt_name dt"
  shows "view tc' = view tc"
  using assms view_dtls_op [OF _ assms(2)] by (auto simp: to_dtls_def split: option.splits)

lemma view_channel_signal:
  assumes "channel_signal sv name e tc g = Some (tc', g')"
  shows "view tc' = view tc"
proof -
  obtain ch where ch: "get_channel name RTP (ctl_agent tc) = Some ch"
    using assms by (auto simp: channel_signal_def split: option.splits)
  show ?thesis
  proof (cases e)
    case (EvReceiving b)
    then obtain tc1 where r: "ctl_refresh_agent (put_channel (ch\<lparr>ch_receiving := b\<rparr>) tc) = Some tc1"
        "to_dtls sv name (\<lambda>dt. Some (on_receiving_state b dt)) tc1 g = Some (tc', g')"
      using assms ch by (auto simp: channel_signal_def split: option.splits)
    have "view tc' = view tc1" by (rule view_to_dtls [OF r(2)]) auto
    then show ?thesis using view_refresh [OF r(1)] by simp
  next
    case (EvWritable b)
    then obtain tc1 where r: "ctl_refresh_agent (put_channel (ch\<lparr>ch_writable := b\<rparr>) tc) = Some tc1"
        "to_dtls sv name (\<lambda>dt. on_writable_state (ms_queue sv) (ms_ssl sv) b (ms_react sv (dt_cached_client_hello dt)) dt)
           tc1 g = Some (tc', g')"
      using assms ch by (auto simp: channel_signal_def split: option.splits)
    have "view tc' = view tc1" by (rule view_to_dtls [OF r(2)]) (rule on_writable_state_name)
    then show ?thesis using view_refresh [OF r(1)] by simp
  next
    case (EvPacket buf ts)
    then have "to_dtls sv name (dt_on_read_packet (ms_queue sv) (ms_ssl sv) (ch_writable ch) (ms_adapter sv) (ms_react sv buf) buf)
        tc g = Some (tc', g')" using assms ch by (simp add: channel_signal_def)
    then show ?thesis by (rule view_to_dtls) (rule dt_on_read_packet_name)
  next
    case (EvCandidates cs)
    then show ?thesis
      using assms ch view_agent [of "on_candidate_allocate_done ch cs (ctl_agent tc)" tc]
      by (auto simp: channel_signal_def ctl_on_candidate_allocate_done_def on_candidate_allocate_done_def channel_keys_def)
  qed (use assms ch in \<open>auto simp: channel_signal_def dest!: view_refresh\<close>)
qed

lemma view_channel_signals: "channel_signals sv name es tc g = Some (tc', g') \<Longrightarrow> view tc' = view tc"
  by (induction es arbitrary: tc g) (auto dest!: view_channel_signal split: option.splits)

lemma view_channel_op: "ctl_channel_op sv name f tc g = Some (tc', g') \<Longrightarrow> view tc' = view tc"
  by (auto simp: ctl_channel_op_def dest!: view_channel_signals split: option.splits)

lemma view_remote_transport:
  assumes "remote_transport sv now desc mid tc g = Some (tc', g')"
  shows "view tc' = view tc"
proof (cases "get_transport_info mid desc")
  case None
  then show ?thesis using assms by (simp add: remote_transport_def)
next
  case (Some td)
  let ?params = "\<lparr>ice_ufrag = bytes_of (td_ice_ufrag td), ice_pwd = bytes_of (td_ice_pwd td)\<rparr>"
  obtain tc1 g1 where i: "(if get_channel mid RTP (ctl_agent tc) = None then Some (tc, g)
      else ctl_channel_op sv mid (set_remote_ice_params now ?params) tc g) = Some (tc1, g1)"
    using assms Some by (auto simp: remote_transport_def split: option.splits)
  have v1: "view tc1 = view tc" using i view_channel_op by (auto split: if_splits)
  show ?thesis
  proof (cases "get_dtls_transport mid tc1")
    case None
    then show ?thesis using assms Some i v1 by (simp add: remote_transport_def)
  next
    case d: (Some d)
    then obtain fp ch where fc: "td_fingerprint td = Some fp" "get_channel mid RTP (ctl_agent tc1) = Some ch"
      using assms Some i by (auto simp: remote_transport_def Let_def split: option.splits)
    then have op: "ctl_dtls_op sv d
        (\<lambda>dt. map_option snd (set_remote_fingerprint (ms_queue sv) (ms_ssl sv) (ch_writable ch) (ms_adapter sv)
           (ms_react sv (dt_cached_client_hello dt)) (fp_algorithm fp) (fp_digest fp) dt)) tc1 g1 = Some (tc', g')"
      using assms Some i d by (simp add: remote_transport_def Let_def)
    have "view tc' = view tc1"
      by (rule view_dtls_op [OF op]) (auto dest: set_remote_fingerprint_name)
    then show ?thesis using v1 by simp
  qed
qed

lemma view_remote_transports: "remote_transports sv now desc mids tc g = Some (tc', g') \<Longrightarrow> view tc' = view tc"
  by (induction mids arbitrary: tc g)
    (auto dest!: view_remote_transport split: option.splits bool.splits)

lemma view_set_remote: "set_remote_description sv now desc tc g = Some (ret, tc', g') \<Longrightarrow> view tc' = view tc"
  by (auto simp: set_remote_description_def dest!: view_remote_transports split: option.splits)

lemma view_send:
  "ctl_send_rtp sr sent name data tc = Some (ret, tc') \<Longrightarrow> view tc' = view tc"
  "ctl_send_rtcp sr sent name data tc = Some (ret, tc') \<Longrightarrow> view tc' = view tc"
  using view_put_srtp [of tc] ds_send_wiring
  by (fastforce simp: ctl_send_rtp_def ctl_send_rtcp_def put_srtp_def split: option.splits)+

lemma gather_ports_key:
  "ch_name (gather_ports sv c0 nets ch) = ch_name ch \<and> ch_component (gather_ports sv c0 nets ch) = ch_component ch"
  by (induction sv c0 nets ch rule: gather_ports.induct) (auto simp: Let_def split: prod.splits)

lemma gathering_key [simp]:
  "ch_name (gathering_candidate sv c0 nets ch) = ch_name ch"
  "ch_component (gathering_candidate sv c0 nets ch) = ch_component ch"
  by (simp_all add: gathering_candidate_def emit_def Let_def gather_ports_key)

lemma keys_allocated [simp]:
  "channel_keys (foldl (\<lambda>g cs. on_candidate_allocate_done ch cs g) ag css) = channel_keys ag"
  by (induction css arbitrary: ag) (simp_all add: on_candidate_allocate_done_def channel_keys_def)

lemma keys_gather:
  "channel_keys (gather_channels sv inp chs ag) = channel_keys ag @ map (\<lambda>ch. (ch_name ch, ch_component ch)) chs"
proof (induction chs arbitrary: ag)
  case Nil
  then show ?case by simp
next
  case (Cons ch chs)
  show ?case by (simp add: Cons.IH Let_def) (simp add: channel_keys_def)
qed

lemma view_gather: "view (ctl_gathering_candidate ice inp tc) = view tc"
proof -
  have "channel_keys (ag_gathering_candidate ice inp (ctl_agent tc)) = channel_keys (ctl_agent tc)"
    by (simp add: ag_gathering_candidate_def keys_gather) (simp add: channel_keys_def)
  then show ?thesis by (simp add: ctl_gathering_candidate_def Let_def view_agent)
qed

subsection \<open>The maps\<close>

text \<open>
  Names are unique; each DTLS entry is live, has its name and a channel; each SRTP entry is live,
  has its name and is wired to the DTLS entry of that name.
\<close>

definition view_ok :: "ctl_view \<Rightarrow> bool" where
  "view_ok v =
     (distinct (map fst (vw_dtls v)) \<and> distinct (map fst (vw_srtp v))
      \<and> (\<forall>n a. map_of (vw_dtls v) n = Some a \<longrightarrow> vw_dtls_names v a = Some n \<and> (n, RTP) \<in> set (vw_channels v))
      \<and> (\<forall>n b. map_of (vw_srtp v) n = Some b \<longrightarrow>
           (\<exists>a. vw_srtp_wiring v b = Some (n, Some a) \<and> map_of (vw_dtls v) n = Some a)))"

lemma view_okD:
  assumes "view_ok v"
  shows "map_of (vw_dtls v) n = Some a \<Longrightarrow> vw_dtls_names v a = Some n \<and> (n, RTP) \<in> set (vw_channels v)"
    and "map_of (vw_srtp v) n = Some b \<Longrightarrow>
      \<exists>a. vw_srtp_wiring v b = Some (n, Some a) \<and> map_of (vw_dtls v) n = Some a"
    and "distinct (map fst (vw_dtls v))" "distinct (map fst (vw_srtp v))"
  using assms unfolding view_ok_def by blast+

lemma get_channel_key: "get_channel n c ag \<noteq> None \<longleftrightarrow> (n, c) \<in> set (channel_keys ag)"
  by (auto simp: get_channel_def channel_keys_def find_None_iff same_channel_def image_iff)

lemma transport_states_some:
  assumes "\<And>n a. (n, a) \<in> set m \<Longrightarrow> \<exists>dt. heap a = Some dt \<and> get_channel (dt_name dt) RTP agent \<noteq> None"
  shows "transport_states heap agent m \<noteq> None"
  using assms
proof (induction m)
  case Nil
  then show ?case by simp
next
  case (Cons p m)
  obtain n a where p: "p = (n, a)" by (cases p)
  obtain dt where "heap a = Some dt" "get_channel (dt_name dt) RTP agent \<noteq> None"
    using Cons.prems [of n a] p by auto
  moreover have "transport_states heap agent m \<noteq> None"
  proof (rule Cons.IH)
    fix n' a' assume "(n', a') \<in> set m"
    then show "\<exists>dt. heap a' = Some dt \<and> get_channel (dt_name dt) RTP agent \<noteq> None"
      using Cons.prems [of n' a'] by simp
  qed
  ultimately show ?case using p by auto
qed

lemma update_state_some:
  assumes "view_ok (view tc)"
  shows "\<exists>tc'. ctl_update_state tc = Some tc'"
proof -
  have "\<exists>dt. ctl_dtls_heap tc a = Some dt \<and> get_channel (dt_name dt) RTP (ctl_agent tc) \<noteq> None"
    if "(n, a) \<in> set (ctl_dtls_by_name tc)" for n a
  proof -
    have "map_of (vw_dtls (view tc)) n = Some a"
      using that view_okD(3) [OF assms] by (simp add: view_def)
    from view_okD(1) [OF assms this] show ?thesis
      unfolding get_channel_key by (auto simp: view_def)
  qed
  then have "transport_states (ctl_dtls_heap tc) (ctl_agent tc) (ctl_dtls_by_name tc) \<noteq> None"
    by (rule transport_states_some)
  then show ?thesis by (auto simp: ctl_update_state_def)
qed

text \<open>The view after a transport of name \<open>mid\<close> was added.\<close>

definition forget :: "string \<Rightarrow> (string \<times> nat) list \<Rightarrow> (nat \<Rightarrow> 'b option) \<Rightarrow> nat \<Rightarrow> 'b option" where
  "forget n m h = (case map_of m n of None \<Rightarrow> h | Some old \<Rightarrow> h(old := None))"

definition view_added :: "string \<Rightarrow> nat \<Rightarrow> nat \<Rightarrow> ctl_view \<Rightarrow> ctl_view" where
  "view_added mid a b v =
     \<lparr>vw_dtls = AList.update mid a (vw_dtls v), vw_srtp = AList.update mid b (vw_srtp v),
      vw_dtls_names = forget mid (vw_dtls v) ((vw_dtls_names v)(a \<mapsto> mid)),
      vw_srtp_wiring = forget mid (vw_srtp v) ((vw_srtp_wiring v)(b \<mapsto> (mid, Some a))),
      vw_channels = (if (mid, RTP) \<in> set (vw_channels v) then vw_channels v else vw_channels v @ [(mid, RTP)])\<rparr>"

lemma view_added_ok:
  assumes "view_ok v" "vw_dtls_names v a = None" "vw_srtp_wiring v b = None"
  shows "view_ok (view_added mid a b v)"
proof -
  have da: "vw_dtls_names v c = Some n \<and> (n, RTP) \<in> set (vw_channels v)" if "map_of (vw_dtls v) n = Some c" for n c
    by (rule view_okD(1) [OF assms(1) that])
  have sa: "\<exists>a. vw_srtp_wiring v c = Some (n, Some a) \<and> map_of (vw_dtls v) n = Some a" if "map_of (vw_srtp v) n = Some c" for n c
    by (rule view_okD(2) [OF assms(1) that])
  have d: "vw_dtls_names (view_added mid a b v) c = Some n \<and> (n, RTP) \<in> set (vw_channels (view_added mid a b v))"
    if m: "map_of (AList.update mid a (vw_dtls v)) n = Some c" for n c
  proof (cases "n = mid")
    case True
    then have "c = a" using m by (simp add: update_conv')
    moreover have "map_of (vw_dtls v) mid \<noteq> Some a" using da [of mid a] assms(2) by auto
    ultimately show ?thesis using True by (auto simp: view_added_def forget_def split: option.split)
  next
    case False
    then have c: "map_of (vw_dtls v) n = Some c" using m by (simp add: update_conv')
    moreover have "c \<noteq> a" using da [OF c] assms(2) by auto
    moreover have "map_of (vw_dtls v) mid \<noteq> Some c" using da [OF c] da [of mid c] False by auto
    ultimately show ?thesis using da [OF c] by (auto simp: view_added_def forget_def split: option.split)
  qed
  have s: "\<exists>x. vw_srtp_wiring (view_added mid a b v) c = Some (n, Some x) \<and> map_of (AList.update mid a (vw_dtls v)) n = Some x"
    if m: "map_of (AList.update mid b (vw_srtp v)) n = Some c" for n c
  proof (cases "n = mid")
    case True
    then have "c = b" using m by (simp add: update_conv')
    moreover have "map_of (vw_srtp v) mid \<noteq> Some b" using sa [of mid b] assms(3) by auto
    ultimately show ?thesis using True by (auto simp: view_added_def forget_def update_conv' split: option.split)
  next
    case False
    then have c: "map_of (vw_srtp v) n = Some c" using m by (simp add: update_conv')
    moreover have "c \<noteq> b" using sa [OF c] assms(3) by auto
    moreover have "map_of (vw_srtp v) mid \<noteq> Some c" using sa [OF c] sa [of mid c] False by auto
    ultimately show ?thesis using sa [OF c] False
      by (auto simp: view_added_def forget_def update_conv' split: option.split)
  qed
  have "distinct (map fst (AList.update mid a (vw_dtls v)))" "distinct (map fst (AList.update mid b (vw_srtp v)))"
    using view_okD(3,4) [OF assms(1)] by (simp_all add: distinct_update)
  moreover have "vw_dtls (view_added mid a b v) = AList.update mid a (vw_dtls v)"
    "vw_srtp (view_added mid a b v) = AList.update mid b (vw_srtp v)"
    by (simp_all add: view_added_def)
  ultimately show ?thesis unfolding view_ok_def using d s by metis
qed


lemma update_first_total:
  "\<exists>ys. update_first P (\<lambda>x. Some (f x)) xs = Some ys
     \<and> ((\<forall>x. k (f x) = k x) \<longrightarrow> map k ys = map k xs)"
  by (induction xs) auto

lemma add_dtls_view:
  assumes "ctl_dtls_heap tc a = None" "dt_name dt = mid"
  shows "\<exists>tc'. add_dtls_transport a (tc\<lparr>ctl_agent := ag, ctl_dtls_heap := (ctl_dtls_heap tc)(a \<mapsto> dt)\<rparr>) = Some tc'
     \<and> ctl_dtls_by_name tc' = AList.update mid a (ctl_dtls_by_name tc)
     \<and> (\<lambda>c. map_option dt_name (ctl_dtls_heap tc' c))
          = forget mid (ctl_dtls_by_name tc) ((\<lambda>c. map_option dt_name (ctl_dtls_heap tc c))(a \<mapsto> mid))
     \<and> ctl_srtp_by_name tc' = ctl_srtp_by_name tc \<and> ctl_srtp_heap tc' = ctl_srtp_heap tc \<and> ctl_agent tc' = ag"
  using assms
  by (auto simp: add_dtls_transport_def get_dtls_transport_def forget_def fun_eq_iff split: option.splits)

lemma add_srtp_view:
  assumes "view_ok (view tc0)" "ctl_srtp_by_name tc = ctl_srtp_by_name tc0" "ctl_srtp_heap tc = ctl_srtp_heap tc0"
    and "ctl_srtp_heap tc b = None" "ds_name ds = mid"
  shows "\<exists>tc' g'. add_dtls_srtp_transport b (tc\<lparr>ctl_srtp_heap := (ctl_srtp_heap tc)(b \<mapsto> ds)\<rparr>) g = Some (tc', g')
     \<and> ctl_srtp_by_name tc' = AList.update mid b (ctl_srtp_by_name tc)
     \<and> (\<lambda>c. map_option ds_wiring (ctl_srtp_heap tc' c))
          = forget mid (ctl_srtp_by_name tc) ((\<lambda>c. map_option ds_wiring (ctl_srtp_heap tc c))(b \<mapsto> ds_wiring ds))
     \<and> ctl_dtls_by_name tc' = ctl_dtls_by_name tc \<and> ctl_dtls_heap tc' = ctl_dtls_heap tc \<and> ctl_agent tc' = ctl_agent tc"
proof (cases "map_of (ctl_srtp_by_name tc) mid")
  case None
  then show ?thesis
    using assms(5)
    by (auto simp: add_dtls_srtp_transport_def get_dtls_srtp_transport_def forget_def fun_eq_iff)
next
  case (Some old)
  then have "map_of (vw_srtp (view tc0)) mid = Some old" using assms(2) by (simp add: view_def)
  from view_okD(2) [OF assms(1) this] obtain od where "ctl_srtp_heap tc old = Some od"
    using assms(3) by (auto simp: view_def)
  moreover have "old \<noteq> b" using calculation assms(4) by auto
  ultimately show ?thesis
    using Some assms(5)
    by (auto simp: add_dtls_srtp_transport_def get_dtls_srtp_transport_def forget_def fun_eq_iff)
qed

text \<open>The agent gets a channel of the content's name, with the parameters of its description.\<close>

lemma local_agent_keys:
  obtains ag1 ag2 where "ag1 = snd (create_channel mid RTP ag)"
    "(case get_transport_info mid desc of None \<Rightarrow> Some ag1
      | Some td \<Rightarrow> ag_set_ice_params mid RTP \<lparr>ice_ufrag = bytes_of (td_ice_ufrag td), ice_pwd = bytes_of (td_ice_pwd td)\<rparr> ag1)
      = Some ag2"
    "channel_keys ag2 = (if (mid, RTP) \<in> set (channel_keys ag) then channel_keys ag else channel_keys ag @ [(mid, RTP)])"
proof -
  define ag1 where "ag1 = snd (create_channel mid RTP ag)"
  have k1: "channel_keys ag1 = (if (mid, RTP) \<in> set (channel_keys ag) then channel_keys ag
      else channel_keys ag @ [(mid, RTP)])"
    unfolding ag1_def create_channel_def get_channel_key
    by (simp add: channel_keys_def new_ice_channel_def)
  obtain ag2 where ag2: "(case get_transport_info mid desc of None \<Rightarrow> Some ag1
      | Some td \<Rightarrow> ag_set_ice_params mid RTP \<lparr>ice_ufrag = bytes_of (td_ice_ufrag td), ice_pwd = bytes_of (td_ice_pwd td)\<rparr> ag1)
      = Some ag2" and k2: "channel_keys ag2 = channel_keys ag1"
  proof (cases "get_transport_info mid desc")
    case (Some td)
    let ?p = "\<lparr>ice_ufrag = bytes_of (td_ice_ufrag td), ice_pwd = bytes_of (td_ice_pwd td)\<rparr>"
    obtain ys where "update_first (same_channel mid RTP) (\<lambda>ch. Some (set_ice_params ?p ch)) (ag_channels ag1) = Some ys"
        "map (\<lambda>ch. (ch_name ch, ch_component ch)) ys = map (\<lambda>ch. (ch_name ch, ch_component ch)) (ag_channels ag1)"
      using update_first_total [of "same_channel mid RTP" "set_ice_params ?p" "ag_channels ag1" "\<lambda>ch. (ch_name ch, ch_component ch)"]
      by (auto simp: set_ice_params_def)
    then show ?thesis using that [of "ag1\<lparr>ag_channels := ys\<rparr>"] Some
      by (simp add: ag_set_ice_params_def channel_keys_def)
  qed (use that in simp)
  show ?thesis by (rule that [OF ag1_def ag2]) (simp add: k1 k2)
qed

lemma local_transport_view:
  fixes tc :: "('q, 'c) transport_controller"
  assumes ok: "view_ok (view tc)" and "ctl_dtls_heap tc a = None" "ctl_srtp_heap tc b = None"
  shows "\<exists>tc' g'. local_transport ciphers desc mid a b tc g = Some (tc', g') \<and> view tc' = view_added mid a b (view tc)"
proof -
  obtain ag1 ag2 where ag1_def: "ag1 = snd (create_channel mid RTP (ctl_agent tc))"
    and ag2: "(case get_transport_info mid desc of None \<Rightarrow> Some ag1
      | Some td \<Rightarrow> ag_set_ice_params mid RTP \<lparr>ice_ufrag = bytes_of (td_ice_ufrag td), ice_pwd = bytes_of (td_ice_pwd td)\<rparr> ag1)
      = Some ag2"
    and k2: "channel_keys ag2 = (if (mid, RTP) \<in> set (channel_keys (ctl_agent tc)) then channel_keys (ctl_agent tc)
      else channel_keys (ctl_agent tc) @ [(mid, RTP)])"
    by (rule local_agent_keys)
  have "(mid, RTP) \<in> set (channel_keys ag2)" by (simp add: k2)
  then obtain ch where ch: "get_channel mid RTP ag2 = Some ch" using get_channel_key [of mid RTP ag2] by auto
  then have chn: "ch_name ch = mid" by (auto simp: get_channel_def find_Some_iff same_channel_def)
  define dt :: "'q dtls_transport" where "dt = snd (set_local_certificate (ctl_local_certificate tc) (new_dtls_transport (ch_name ch) ciphers))"
  have dtn: "dt_name dt = mid" by (simp add: dt_def set_local_certificate_def new_dtls_transport_def chn)
  obtain tc2 where tc2: "add_dtls_transport a (tc\<lparr>ctl_agent := ag2, ctl_dtls_heap := (ctl_dtls_heap tc)(a \<mapsto> dt)\<rparr>) = Some tc2"
     "ctl_dtls_by_name tc2 = AList.update mid a (ctl_dtls_by_name tc)"
     "(\<lambda>c. map_option dt_name (ctl_dtls_heap tc2 c))
          = forget mid (ctl_dtls_by_name tc) ((\<lambda>c. map_option dt_name (ctl_dtls_heap tc c))(a \<mapsto> mid))"
     "ctl_srtp_by_name tc2 = ctl_srtp_by_name tc" "ctl_srtp_heap tc2 = ctl_srtp_heap tc" "ctl_agent tc2 = ag2"
    using add_dtls_view [OF assms(2) dtn, of ag2] by blast
  define ds :: "'c dtls_srtp" where "ds = set_dtls_transports (Some a) None (new_dtls_srtp (dt_name dt) True)"
  have dsn: "ds_name ds = mid" "ds_wiring ds = (mid, Some a)"
    by (simp_all add: ds_def set_dtls_transports_def new_dtls_srtp_def ds_wiring_def dtn)
  have "ctl_srtp_heap tc2 b = None" using assms(3) tc2(5) by simp
  from add_srtp_view [OF ok tc2(4,5) this dsn(1), of g]
  obtain tc' g' where tc': "add_dtls_srtp_transport b (tc2\<lparr>ctl_srtp_heap := (ctl_srtp_heap tc2)(b \<mapsto> ds)\<rparr>) g = Some (tc', g')"
     "ctl_srtp_by_name tc' = AList.update mid b (ctl_srtp_by_name tc2)"
     "(\<lambda>c. map_option ds_wiring (ctl_srtp_heap tc' c))
          = forget mid (ctl_srtp_by_name tc2) ((\<lambda>c. map_option ds_wiring (ctl_srtp_heap tc2 c))(b \<mapsto> ds_wiring ds))"
     "ctl_dtls_by_name tc' = ctl_dtls_by_name tc2" "ctl_dtls_heap tc' = ctl_dtls_heap tc2" "ctl_agent tc' = ctl_agent tc2"
    by blast
  have "local_transport ciphers desc mid a b tc g = Some (tc', g')"
    by (simp only: local_transport_def Let_def ag1_def [symmetric] ag2 option.case ch dt_def [symmetric] tc2(1)
        ds_def [symmetric] tc'(1))
  moreover have "view tc' = view_added mid a b (view tc)"
    using tc' tc2 k2 dsn by (simp add: view_def view_added_def)
  ultimately show ?thesis by blast
qed


text \<open>The addresses of the objects that \<open>set_local_description\<close> makes are free and distinct.\<close>

definition fresh_addrs :: "(nat \<times> nat) list \<Rightarrow> ctl_view \<Rightarrow> bool" where
  "fresh_addrs addrs v =
     (distinct (map fst addrs) \<and> distinct (map snd addrs)
      \<and> (\<forall>(a, b) \<in> set addrs. vw_dtls_names v a = None \<and> vw_srtp_wiring v b = None))"

lemma forget_fresh: "h x = None \<Longrightarrow> x \<noteq> a \<Longrightarrow> forget n m (h(a \<mapsto> y)) x = None"
  by (simp add: forget_def split: option.split)

lemma fresh_tail:
  assumes "fresh_addrs ((a, b) # addrs) v"
  shows "fresh_addrs addrs (view_added mid a b v)"
proof -
  have "c \<noteq> a \<and> d \<noteq> b \<and> vw_dtls_names v c = None \<and> vw_srtp_wiring v d = None" if "(c, d) \<in> set addrs" for c d
    using assms that imageI [OF that, of fst] imageI [OF that, of snd] by (auto simp: fresh_addrs_def)
  then show ?thesis using assms by (auto simp: fresh_addrs_def view_added_def intro!: forget_fresh)
qed

lemma view_heaps:
  "vw_dtls_names (view tc) a = None \<longleftrightarrow> ctl_dtls_heap tc a = None"
  "vw_srtp_wiring (view tc) b = None \<longleftrightarrow> ctl_srtp_heap tc b = None"
  by (simp_all add: view_def)

lemma local_transports_ok:
  assumes "local_transports ciphers desc mids addrs tc g = Some (tc', g')"
    and "view_ok (view tc)" "fresh_addrs addrs (view tc)" "length mids \<le> length addrs"
  shows "view_ok (view tc')"
  using assms
proof (induction mids arbitrary: addrs tc g)
  case Nil
  then show ?case by simp
next
  case (Cons mid mids)
  then obtain a b rest where ad: "addrs = (a, b) # rest" by (cases addrs) auto
  show ?case
  proof (cases "has_own_transport mid desc")
    case None
    then show ?thesis using Cons.prems(1) by simp
  next
    case (Some own)
    show ?thesis
    proof (cases own)
      case False
      then have "local_transports ciphers desc mids addrs tc g = Some (tc', g')" using Some Cons.prems(1) by simp
      then show ?thesis using Cons.IH Cons.prems by simp
    next
      case True
      have f: "vw_dtls_names (view tc) a = None" "vw_srtp_wiring (view tc) b = None"
        using Cons.prems(3) ad by (auto simp: fresh_addrs_def)
      obtain tc1 g1 where l: "local_transport ciphers desc mid a b tc g = Some (tc1, g1)"
          "view tc1 = view_added mid a b (view tc)"
        using local_transport_view [OF Cons.prems(2)] f unfolding view_heaps by blast
      have "local_transports ciphers desc mids rest tc1 g1 = Some (tc', g')"
        using Cons.prems(1) Some True ad l(1) by simp
      moreover have "view_ok (view tc1)" unfolding l(2) by (rule view_added_ok [OF Cons.prems(2) f])
      moreover have "fresh_addrs rest (view tc1)" unfolding l(2) by (rule fresh_tail) (use Cons.prems(3) ad in simp)
      ultimately show ?thesis using Cons.IH Cons.prems(4) ad by simp
    qed
  qed
qed

lemma set_local_ok:
  assumes "set_local_description sv inp addrs desc tc g = Some (ret, tc', g')"
    and "view_ok (view tc)" "fresh_addrs addrs (view tc)"
    and "\<And>sd. desc = Some sd \<Longrightarrow> length (sd_contents sd) \<le> length addrs"
  shows "view_ok (view tc')"
proof (cases desc)
  case None
  then show ?thesis using assms by (simp add: set_local_description_def)
next
  case (Some sd)
  then obtain tc1 where "local_transports (ms_ciphers sv) sd (map mc_mid (sd_contents sd)) addrs tc g = Some (tc1, g')"
      "tc' = ctl_gathering_candidate (ms_ice sv) inp tc1"
    using assms(1) by (auto simp: set_local_description_def)
  with local_transports_ok [OF this(1) assms(2,3)] assms(4) [OF Some] show ?thesis by (simp add: view_gather)
qed

lemma local_transports_some:
  assumes "view_ok (view tc)" "fresh_addrs addrs (view tc)" "length mids \<le> length addrs"
    and "\<And>mid. mid \<in> set mids \<Longrightarrow> has_own_transport mid desc \<noteq> None"
  shows "\<exists>tc' g'. local_transports ciphers desc mids addrs tc g = Some (tc', g')"
  using assms
proof (induction mids arbitrary: addrs tc g)
  case Nil
  then show ?case by simp
next
  case (Cons mid mids)
  then obtain a b rest where ad: "addrs = (a, b) # rest" by (cases addrs) auto
  obtain own where own: "has_own_transport mid desc = Some own" using Cons.prems(4) [of mid] by auto
  have rest: "has_own_transport m desc \<noteq> None" if "m \<in> set mids" for m using Cons.prems(4) [of m] that by simp
  show ?case
  proof (cases own)
    case False
    have "length mids \<le> length addrs" using Cons.prems(3) by simp
    from Cons.IH [OF Cons.prems(1,2) this rest] show ?thesis using own False by simp
  next
    case True
    have f: "vw_dtls_names (view tc) a = None" "vw_srtp_wiring (view tc) b = None"
      using Cons.prems(2) ad by (auto simp: fresh_addrs_def)
    obtain tc1 g1 where l: "local_transport ciphers desc mid a b tc g = Some (tc1, g1)"
        "view tc1 = view_added mid a b (view tc)"
      using local_transport_view [OF Cons.prems(1)] f unfolding view_heaps by blast
    have v: "view_ok (view tc1)" unfolding l(2) by (rule view_added_ok [OF Cons.prems(1) f])
    have fr: "fresh_addrs rest (view tc1)" unfolding l(2) by (rule fresh_tail) (use Cons.prems(2) ad in simp)
    have "length mids \<le> length rest" using Cons.prems(3) ad by simp
    from Cons.IH [OF v fr this rest] show ?thesis using own True ad l(1) by simp
  qed
qed

text \<open>The groups of a description have names: then every content is bundled or not.\<close>

lemma own_transport_some:
  "(\<And>g. g \<in> set (sd_groups sd) \<Longrightarrow> cg_names g \<noteq> []) \<Longrightarrow> has_own_transport mid sd \<noteq> None"
proof -
  assume g: "\<And>g. g \<in> set (sd_groups sd) \<Longrightarrow> cg_names g \<noteq> []"
  have "get_first_bundle_mid sd \<noteq> None"
  proof (cases "get_group_by_name ''BUNDLE'' sd")
    case (Cons h hs)
    then have "h \<in> set (get_group_by_name ''BUNDLE'' sd)" by simp
    then have "h \<in> set (sd_groups sd)" by (simp add: get_group_by_name_def)
    with g have "cg_names h \<noteq> []" by blast
    then show ?thesis using Cons by (cases "cg_names h") (simp_all add: get_first_bundle_mid_def)
  qed (simp add: get_first_bundle_mid_def)
  then show ?thesis by (auto simp: has_own_transport_def)
qed

lemma set_local_some:
  assumes "view_ok (view tc)" "fresh_addrs addrs (view tc)" "length (sd_contents sd) \<le> length addrs"
    and "\<And>g. g \<in> set (sd_groups sd) \<Longrightarrow> cg_names g \<noteq> []"
  shows "\<exists>tc' g'. set_local_description sv inp addrs (Some sd) tc g = Some (0, tc', g')"
  using local_transports_some [OF assms(1,2), of "map mc_mid (sd_contents sd)" sd "ms_ciphers sv" g]
    own_transport_some [of sd] assms(3,4)
  by (auto simp: set_local_description_def)

text \<open>What happens to the controller of a peer connection.\<close>

inductive controller_reachable :: "('q, 'c) transport_controller \<Rightarrow> bool" where
  cr_new: "controller_reachable new_transport_controller"
| cr_certificate: "controller_reachable tc \<Longrightarrow> controller_reachable (ctl_set_local_certificate cert tc)"
| cr_local: "controller_reachable tc \<Longrightarrow> fresh_addrs addrs (view tc) \<Longrightarrow>
     (\<And>sd. desc = Some sd \<Longrightarrow> length (sd_contents sd) \<le> length addrs) \<Longrightarrow>
     set_local_description sv inp addrs desc tc g = Some (ret, tc', g') \<Longrightarrow> controller_reachable tc'"
| cr_remote: "controller_reachable tc \<Longrightarrow>
     set_remote_description sv now desc tc g = Some (ret, tc', g') \<Longrightarrow> controller_reachable tc'"
| cr_channel: "controller_reachable tc \<Longrightarrow>
     ctl_channel_op sv name f tc g = Some (tc', g') \<Longrightarrow> controller_reachable tc'"
| cr_send_rtp: "controller_reachable tc \<Longrightarrow>
     ctl_send_rtp sr sent name data tc = Some (ret, tc') \<Longrightarrow> controller_reachable tc'"
| cr_send_rtcp: "controller_reachable tc \<Longrightarrow>
     ctl_send_rtcp sr sent name data tc = Some (ret, tc') \<Longrightarrow> controller_reachable tc'"

lemma controller_reachable_ok: "controller_reachable tc \<Longrightarrow> view_ok (view tc)"
proof (induction rule: controller_reachable.induct)
  case cr_new
  show ?case by (simp add: view_ok_def view_def new_transport_controller_def)
next
  case (cr_certificate tc cert)
  then show ?case by (simp add: view_def ctl_set_local_certificate_def)
next
  case (cr_local tc addrs desc sv inp g ret tc' g')
  show ?case by (rule set_local_ok [OF cr_local.hyps(4) cr_local.IH cr_local.hyps(2,3)])
next
  case (cr_remote tc sv now desc g ret tc' g')
  then show ?case using view_set_remote by metis
next
  case (cr_channel tc sv name f g tc' g')
  then show ?case using view_channel_op by metis
next
  case (cr_send_rtp tc sr sent name data ret tc')
  then show ?case using view_send(1) by metis
next
  case (cr_send_rtcp tc sr sent name data ret tc')
  then show ?case using view_send(2) by metis
qed

text \<open>C13: In every reachable state of a transport controller the names in its two maps are unique, every
  DTLS entry is a live transport of that name with an ICE channel, every SRTP entry is live, has its
  name and is wired to the DTLS transport entered under the same name, and so recomputing the
  connection's state always succeeds.\<close>

theorem controller_maps:
  assumes "controller_reachable tc"
  shows "distinct (map fst (ctl_dtls_by_name tc)) \<and> distinct (map fst (ctl_srtp_by_name tc))
    \<and> (\<forall>n a. map_of (ctl_dtls_by_name tc) n = Some a \<longrightarrow>
         (\<exists>dt. ctl_dtls_heap tc a = Some dt \<and> dt_name dt = n \<and> get_channel n RTP (ctl_agent tc) \<noteq> None))
    \<and> (\<forall>n b. map_of (ctl_srtp_by_name tc) n = Some b \<longrightarrow>
         (\<exists>ds a. ctl_srtp_heap tc b = Some ds \<and> ds_name ds = n \<and> ds_rtp_dtls ds = Some a
            \<and> map_of (ctl_dtls_by_name tc) n = Some a))
    \<and> ctl_update_state tc \<noteq> None"
proof (intro conjI allI impI)
  note ok = controller_reachable_ok [OF assms]
  show "distinct (map fst (ctl_dtls_by_name tc))" "distinct (map fst (ctl_srtp_by_name tc))"
    using view_okD(3,4) [OF ok] by (simp_all add: view_def)
  show "\<exists>dt. ctl_dtls_heap tc a = Some dt \<and> dt_name dt = n \<and> get_channel n RTP (ctl_agent tc) \<noteq> None"
    if "map_of (ctl_dtls_by_name tc) n = Some a" for n a
    using view_okD(1) [OF ok, of n a] that unfolding get_channel_key by (auto simp: view_def)
  show "\<exists>ds a. ctl_srtp_heap tc b = Some ds \<and> ds_name ds = n \<and> ds_rtp_dtls ds = Some a
            \<and> map_of (ctl_dtls_by_name tc) n = Some a"
    if "map_of (ctl_srtp_by_name tc) n = Some b" for n b
    using view_okD(2) [OF ok, of n b] that by (auto simp: view_def ds_wiring_def)
  show "ctl_update_state tc \<noteq> None" using update_state_some [OF ok] by auto
qed


definition demo_media :: "(bytes list, srtp_policy) media_services" where
  "demo_media =
     \<lparr>ms_ice = demo_services, ms_queue = demo_queue, ms_ssl = demo_ssl, ms_react = (\<lambda>b. []), ms_adapter = 7,
      ms_srtp = demo_srtp, ms_key_lengths = (\<lambda>cs. if cs = 1 then Some (16, 14) else None), ms_ciphers = [1]\<rparr>"

definition demo_desc :: session_desc where
  "demo_desc = \<lparr>sd_type = k_offer, sd_contents = [audio_content], sd_groups = [], sd_transports = []\<rparr>"

theorem controller_maps_witness:
  "\<exists>tc' :: (bytes list, srtp_policy) transport_controller. ctl_dtls_by_name tc' = [(''audio'', 1)] \<and> ctl_srtp_by_name tc' = [(''audio'', 2)]
     \<and> (\<exists>dt. ctl_dtls_heap tc' 1 = Some dt \<and> dt_name dt = ''audio'') \<and> ctl_update_state tc' \<noteq> None"
proof -
  let ?tc = "new_transport_controller :: (bytes list, srtp_policy) transport_controller"
  have v: "view_ok (view ?tc)" by (rule controller_reachable_ok [OF cr_new])
  have h: "ctl_dtls_heap ?tc 1 = None" "ctl_srtp_heap ?tc 2 = None" by (simp_all add: new_transport_controller_def)
  obtain tc1 g1 where l: "local_transport [1] demo_desc ''audio'' 1 2 ?tc \<lparr>g_usage_count = 0, g_initialised = False\<rparr> = Some (tc1, g1)"
      "view tc1 = view_added ''audio'' 1 2 (view ?tc)"
    using local_transport_view [OF v h] by blast
  let ?sv = demo_media
  let ?inp = "(\<lambda>ch. (demo_candidate, []))"
  have "has_own_transport ''audio'' demo_desc = Some True"
    by (simp add: has_own_transport_def is_bundle_def demo_desc_def get_group_by_name_def)
  then have s: "set_local_description ?sv ?inp [(1, 2)] (Some demo_desc) ?tc \<lparr>g_usage_count = 0, g_initialised = False\<rparr>
      = Some (0, ctl_gathering_candidate (ms_ice ?sv) ?inp tc1, g1)"
    using l(1) by (simp add: demo_media_def set_local_description_def demo_desc_def mc_mid_def audio_content_def)
  have "fresh_addrs [(1, 2)] (view ?tc)"
    by (simp add: fresh_addrs_def view_def new_transport_controller_def)
  then have r: "controller_reachable (ctl_gathering_candidate (ms_ice ?sv) ?inp tc1)" (is "controller_reachable ?tc'")
    by (rule cr_local [OF cr_new _ _ s]) (simp add: demo_desc_def)
  have w: "view ?tc' = view_added ''audio'' 1 2 (view ?tc)" using l(2) by (simp add: view_gather)
  have "ctl_dtls_by_name ?tc' = vw_dtls (view ?tc')" "ctl_srtp_by_name ?tc' = vw_srtp (view ?tc')"
    by (simp_all add: view_def)
  then have "ctl_dtls_by_name ?tc' = [(''audio'', 1)]" "ctl_srtp_by_name ?tc' = [(''audio'', 2)]"
    unfolding w by (simp_all add: view_added_def view_def new_transport_controller_def)
  moreover from this have "map_of (ctl_dtls_by_name ?tc') ''audio'' = Some 1" by simp
  ultimately show ?thesis using controller_maps [OF r] by (intro exI [of _ ?tc']) blast
qed

end
