(* ===== verification/PeerInvariant.thy ===== *)
theory PeerInvariant
  imports PeerConnection ControllerInvariant
begin

text \<open>
  The offer of a peer connection: its contents and its group, and the transports that making it
  leaves in the controller. All contents are bundled, so there is one transport, that of the first.
\<close>

lemma add_transport_info_sel [simp]:
  "sd_contents (snd (add_transport_info sl mid p cert sd)) = sd_contents sd"
  "sd_groups (snd (add_transport_info sl mid p cert sd)) = sd_groups sd"
  by (auto simp: add_transport_info_def Let_def split: option.splits)

lemma add_streams_mid [simp]:
  "mc_mid (foldl (\<lambda>m stream. add_stream stream m) mc source) = mc_mid mc"
proof (induction source arbitrary: mc)
  case Nil
  then show ?case by simp
next
  case (Cons s source)
  then show ?case by (simp add: add_stream_def mc_mid_def)
qed

lemma content_mid [simp]:
  "mc_mid (mc\<lparr>mc_direction := d, mc_rtcp_mux := x\<rparr>) = mc_mid mc"
  by (simp add: mc_mid_def)

lemma offer_section_sel:
  "sd_groups (offer_section sl cert p send recv mux source content sd) = sd_groups sd"
  "map mc_mid (sd_contents (offer_section sl cert p send recv mux source content sd))
     = map mc_mid (sd_contents sd) @ (if recv \<or> send then [mc_mid content] else [])"
  by (simp_all add: offer_section_def Let_def add_content_def)

definition offer_mids :: "offer_options \<Rightarrow> string list" where
  "offer_mids opts =
     (if recv_audio opts \<or> send_audio opts then [''audio''] else [])
       @ (if recv_video opts \<or> send_video opts then [''video''] else [])"

lemma offer_mids_eq:
  "map mc_mid (sd_contents (build_offer sl opts cert p as vs)) = offer_mids opts"
proof -
  define sd where "sd = offer_section sl cert p (send_video opts) (recv_video opts) (use_rtcp_mux opts) vs video_content
     (offer_section sl cert p (send_audio opts) (recv_audio opts) (use_rtcp_mux opts) as audio_content (new_session_desc k_offer))"
  have "map mc_mid (sd_contents sd) = offer_mids opts"
    unfolding sd_def offer_section_sel
    by (simp add: new_session_desc_def offer_mids_def mc_mid_def audio_content_def video_content_def)
  moreover have "sd_contents (build_offer sl opts cert p as vs) = sd_contents sd"
    by (simp add: build_offer_def sd_def Let_def add_group_def)
  ultimately show ?thesis by simp
qed

lemma bundle_names:
  "cg_names (foldl (\<lambda>g mc. add_content_name (mc_mid mc) g) g mcs) = cg_names g @ map mc_mid mcs"
  if "distinct (cg_names g @ map mc_mid mcs)"
  using that
proof (induction mcs arbitrary: g)
  case Nil
  then show ?case by simp
next
  case (Cons mc mcs)
  then have "add_content_name (mc_mid mc) g = g\<lparr>cg_names := cg_names g @ [mc_mid mc]\<rparr>"
    by (auto simp: add_content_name_def has_content_name_def list_ex_iff)
  then show ?case using Cons by simp
qed

lemma bundle_semantics:
  "cg_semantics (foldl (\<lambda>g mc. add_content_name (mc_mid mc) g) g mcs) = cg_semantics g"
  by (induction mcs arbitrary: g) (simp_all add: add_content_name_def)

lemma offer_groups:
  "sd_groups (build_offer sl opts cert p as vs) =
     (if use_rtp_mux opts \<and> offer_mids opts \<noteq> []
      then [\<lparr>cg_semantics = ''BUNDLE'', cg_names = offer_mids opts\<rparr>] else [])"
proof -
  define sd where "sd = offer_section sl cert p (send_video opts) (recv_video opts) (use_rtcp_mux opts) vs video_content
     (offer_section sl cert p (send_audio opts) (recv_audio opts) (use_rtcp_mux opts) as audio_content (new_session_desc k_offer))"
  let ?g = "foldl (\<lambda>g mc. add_content_name (mc_mid mc) g) \<lparr>cg_semantics = ''BUNDLE'', cg_names = []\<rparr> (sd_contents sd)"
  have m: "map mc_mid (sd_contents sd) = offer_mids opts"
    unfolding sd_def offer_section_sel
    by (simp add: new_session_desc_def offer_mids_def mc_mid_def audio_content_def video_content_def)
  have g: "sd_groups sd = []" unfolding sd_def offer_section_sel by (simp add: new_session_desc_def)
  have "distinct (offer_mids opts)" by (simp add: offer_mids_def)
  then have "cg_names ?g = offer_mids opts" using bundle_names [of "\<lparr>cg_semantics = ''BUNDLE'', cg_names = []\<rparr>" "sd_contents sd"] m
    by simp
  moreover have "cg_semantics ?g = ''BUNDLE''" by (simp add: bundle_semantics)
  ultimately have "?g = \<lparr>cg_semantics = ''BUNDLE'', cg_names = offer_mids opts\<rparr>" by simp
  then show ?thesis using g
    by (simp add: build_offer_def sd_def [symmetric] Let_def add_group_def)
qed

lemma offer_own_transport:
  "has_own_transport mid (build_offer sl opts cert p as vs) =
     Some (\<not> use_rtp_mux opts \<or> mid \<notin> set (offer_mids opts) \<or> mid = hd (offer_mids opts))"
  by (cases "offer_mids opts")
    (auto simp: has_own_transport_def is_bundle_def get_group_by_name_def get_first_bundle_mid_def offer_groups list_ex_iff)

subsection \<open>Making the offer\<close>

lemma controller_signal_sel [simp]: "pn_controller (controller_signal e q) = pn_controller q"
  by (cases e) (auto simp: pn_on_connection_state_def pn_on_candidate_allocate_done_def pn_on_rtp_packet_def
      pn_on_rtcp_packet_def pn_emit_def split: option.splits)

lemma controller_signals_sel [simp]:
  "pn_controller (foldl (\<lambda>p e. controller_signal e p) q es) = pn_controller q"
  by (induction es arbitrary: q) simp_all

lemma with_controller_sel [simp]: "pn_controller (with_controller tc pc) = tc"
  by (simp add: with_controller_def)

lemma offer_one_transport:
  fixes tc :: "('q, 'c) transport_controller"
  assumes "use_rtp_mux opts" "offer_mids opts = m # ms"
  shows "local_transports ciphers (build_offer sl opts cert p as vs) (offer_mids opts) addrs tc g =
     local_transport ciphers (build_offer sl opts cert p as vs) m (fst (hd addrs)) (snd (hd addrs)) tc g"
proof -
  have "distinct (offer_mids opts)" by (simp add: offer_mids_def)
  then have "m \<notin> set ms" using assms(2) by simp
  have rest: "local_transports ciphers (build_offer sl opts cert p as vs) ns addrs' tc' g' = Some (tc', g')"
    if "set ns \<subseteq> set ms" for ns addrs' g' and tc' :: "('q, 'c) transport_controller"
    using that
  proof (induction ns arbitrary: addrs')
    case Nil
    then show ?case by simp
  next
    case (Cons n ns)
    then have "n \<noteq> m" "n \<in> set (offer_mids opts)" using \<open>m \<notin> set ms\<close> assms(2) by auto
    then have "has_own_transport n (build_offer sl opts cert p as vs) = Some False"
      using assms by (simp add: offer_own_transport)
    then show ?case using Cons by simp
  qed
  have "has_own_transport m (build_offer sl opts cert p as vs) = Some True"
    using assms by (simp add: offer_own_transport)
  then show ?thesis
    using assms rest [of ms] by (simp split: option.splits)
qed

lemma offer_made:
  assumes "pn_certificate pc = Some cert" "use_rtp_mux opts" "view_ok (view (pn_controller pc))"
    and "ctl_dtls_heap (pn_controller pc) a = None" "ctl_srtp_heap (pn_controller pc) b = None"
  shows "\<exists>offer pc' g'. create_offer sl sv addr rnd1 rnd2 inp ((a, b) # addrs) opts pc g = Some (offer, pc', g')
     \<and> view (pn_controller pc') = (case offer_mids opts of [] \<Rightarrow> view (pn_controller pc)
                                   | m # _ \<Rightarrow> view_added m a b (view (pn_controller pc)))"
proof -
  define desc where "desc = build_offer sl opts (Some cert) (create_random_ice_credentials rnd1 rnd2)
     (pn_audio_source pc) (pn_video_source pc)"
  have m: "map mc_mid (sd_contents desc) = offer_mids opts" by (simp add: desc_def offer_mids_eq)
  define v where "v = (case offer_mids opts of [] \<Rightarrow> view (pn_controller pc)
      | m # _ \<Rightarrow> view_added m a b (view (pn_controller pc)))"
  have "\<exists>tc g'. local_transports (ms_ciphers sv) desc (offer_mids opts) ((a, b) # addrs) (pn_controller pc) g = Some (tc, g')
      \<and> view tc = v"
  proof (cases "offer_mids opts")
    case (Cons n ns)
    have "local_transports (ms_ciphers sv) desc (offer_mids opts) ((a, b) # addrs) (pn_controller pc) g
        = local_transport (ms_ciphers sv) desc n a b (pn_controller pc) g"
      unfolding desc_def by (subst offer_one_transport [OF assms(2) Cons]) simp
    then show ?thesis using local_transport_view [OF assms(3-5), of "ms_ciphers sv" desc n g] Cons by (simp add: v_def)
  qed (simp add: v_def)
  then obtain tc g' where l: "local_transports (ms_ciphers sv) desc (offer_mids opts) ((a, b) # addrs) (pn_controller pc) g
      = Some (tc, g')" "view tc = v" by blast
  have "set_local_description sv inp ((a, b) # addrs) (Some desc) (pn_controller (pc\<lparr>pn_local_desc := Some desc\<rparr>)) g
      = Some (0, ctl_gathering_candidate (ms_ice sv) inp tc, g')"
    using l(1) by (simp add: set_local_description_def m)
  then show ?thesis
    using assms(1) l(2) unfolding v_def [symmetric] create_offer_def Let_def
    by (simp add: desc_def [symmetric] view_gather)
qed

subsection \<open>The text of the offer\<close>

lemma update_content_mids:
  "(\<And>mc. mc_mid (f mc) = mc_mid mc) \<Longrightarrow> map mc_mid (update_content name f mcs) = map mc_mid mcs"
  by (induction mcs) simp_all

lemma controller_signal_desc:
  assumes "pn_local_desc q = Some sd"
  shows "\<exists>sd'. pn_local_desc (controller_signal e q) = Some sd' \<and> map mc_mid (sd_contents sd') = map mc_mid (sd_contents sd)"
proof (cases e)
  case (TcCandidates name component cs)
  have "map mc_mid (update_content name (add_candidates cs) (sd_contents sd)) = map mc_mid (sd_contents sd)"
    by (rule update_content_mids) (simp add: add_candidates_def mc_mid_def)
  then show ?thesis using TcCandidates assms by (simp add: pn_on_candidate_allocate_done_def)
qed (use assms in \<open>simp_all add: pn_on_connection_state_def pn_on_rtp_packet_def pn_on_rtcp_packet_def pn_emit_def\<close>)

lemma controller_signals_desc:
  "pn_local_desc q = Some sd \<Longrightarrow>
     \<exists>sd'. pn_local_desc (foldl (\<lambda>p e. controller_signal e p) q es) = Some sd'
        \<and> map mc_mid (sd_contents sd') = map mc_mid (sd_contents sd)"
proof (induction es arbitrary: q sd)
  case Nil
  then show ?case by simp
next
  case (Cons e es)
  then show ?case using controller_signal_desc [OF Cons.prems, of e] by fastforce
qed

text \<open>
  The offer is the printed local description, with the candidates gathered while it was made, and the
  description has a section for each kind of media asked for.
\<close>

lemma offer_text:
  assumes "create_offer sl sv addr rnd1 rnd2 inp addrs opts pc g = Some (offer, pc', g')" "pn_certificate pc = Some cert"
  shows "\<exists>sd. pn_local_desc pc' = Some sd \<and> offer = sd_to_string sl addr sd \<and> map mc_mid (sd_contents sd) = offer_mids opts"
proof -
  define desc where "desc = build_offer sl opts (Some cert) (create_random_ice_credentials rnd1 rnd2)
     (pn_audio_source pc) (pn_video_source pc)"
  obtain tc where pc': "pc' = with_controller tc (pc\<lparr>pn_local_desc := Some desc\<rparr>)"
      "offer = sd_to_string sl addr (the (pn_local_desc pc'))"
    using assms by (auto simp: create_offer_def Let_def desc_def split: option.splits if_splits)
  have "map mc_mid (sd_contents desc) = offer_mids opts" by (simp add: desc_def offer_mids_eq)
  then have "\<exists>sd. pn_local_desc pc' = Some sd \<and> map mc_mid (sd_contents sd) = offer_mids opts"
    using controller_signals_desc [of "pc\<lparr>pn_local_desc := Some desc, pn_controller := tc\<rparr>" desc]
    unfolding pc'(1) with_controller_def by simp
  then show ?thesis using pc'(2) by auto
qed

end
