(* ===== verification/SdpText.thy ===== *)
theory SdpText
  imports SdpParser
begin

text \<open>
  The text services that the descriptions use, as \<open>rtc_base/string_encode.h\<close> documents them:
  splitting at a character, the non-empty pieces only, the text before and after the first run of
  a character, and numbers in decimal. The locale \<open>sdp_text_laws\<close> states them of a library, and
  \<open>doc_sdp_lib\<close> is a library that has them.
\<close>

fun split_at :: "char \<Rightarrow> string \<Rightarrow> string list" where
  "split_at d [] = [[]]"
| "split_at d (c # s) = (if c = d then [] # split_at d s else (c # hd (split_at d s)) # tl (split_at d s))"

definition tokens_at :: "char \<Rightarrow> string \<Rightarrow> string list" where
  "tokens_at d s = filter (\<lambda>t. t \<noteq> []) (split_at d s)"

definition first_token :: "char \<Rightarrow> string \<Rightarrow> (string \<times> string) option" where
  "first_token d s =
     (if d \<in> set s then Some (takeWhile (\<lambda>c. c \<noteq> d) s, dropWhile (\<lambda>c. c = d) (dropWhile (\<lambda>c. c \<noteq> d) s))
      else None)"

fun read_dec :: "nat \<Rightarrow> string \<Rightarrow> nat option" where
  "read_dec n [] = Some n"
| "read_dec n (c # s) =
     (let d = (of_char c :: nat) in if 48 \<le> d \<and> d \<le> 57 then read_dec (10 * n + (d - 48)) s else None)"

definition read_u32 :: "string \<Rightarrow> u32 option" where
  "read_u32 s =
     (if s = [] then None
      else (case read_dec 0 s of None \<Rightarrow> None | Some n \<Rightarrow> if n < 2 ^ 32 then Some (of_nat n) else None))"

subsection \<open>Facts about them\<close>

lemma split_at_ne [simp]: "split_at d s \<noteq> []"
  by (induction s) auto

lemma split_at_none: "d \<notin> set s \<Longrightarrow> split_at d s = [s]"
  by (induction s) auto

lemma split_at_cons: "d \<notin> set s \<Longrightarrow> split_at d (s @ d # t) = s # split_at d t"
  by (induction s) auto

lemma tokens_at_nil [simp]: "tokens_at d [] = []"
  by (simp add: tokens_at_def)

lemma tokens_at_none: "d \<notin> set s \<Longrightarrow> s \<noteq> [] \<Longrightarrow> tokens_at d s = [s]"
  by (simp add: tokens_at_def split_at_none)

lemma tokens_at_cons: "d \<notin> set s \<Longrightarrow> s \<noteq> [] \<Longrightarrow> tokens_at d (s @ d # t) = s # tokens_at d t"
  by (simp add: tokens_at_def split_at_cons)

lemma first_token_cons:
  "d \<notin> set s \<Longrightarrow> t = [] \<or> hd t \<noteq> d \<Longrightarrow> first_token d (s @ d # t) = Some (s, t)"
  by (cases t) (auto simp: first_token_def takeWhile_append dropWhile_append)

lemma read_dec_append: "read_dec n (s @ t) = (case read_dec n s of None \<Rightarrow> None | Some m \<Rightarrow> read_dec m t)"
  by (induction s arbitrary: n) (simp_all add: Let_def)

lemma digit_code: "n < 10 \<Longrightarrow> (of_char (char_of (48 + n :: nat)) :: nat) = 48 + n"
  by (simp add: of_char_of)

lemma read_dec_show: "read_dec 0 (show_nat n) = Some n"
proof (induction n rule: show_nat.induct)
  case (1 n)
  show ?case
  proof (cases "n < 10")
    case True
    then show ?thesis by (subst show_nat.simps) (simp add: digit_code Let_def)
  next
    case False
    have "n mod 10 < 10" by simp
    from digit_code [OF this] False 1 show ?thesis
      by (subst show_nat.simps) (simp add: read_dec_append Let_def)
  qed
qed

lemma show_nat_ne [simp]: "show_nat n \<noteq> []"
  by (subst show_nat.simps) simp

lemma read_u32_show: "read_u32 (show_nat (unat n)) = Some n" for n :: u32
  using unsigned_less [of n, where ?'a = nat] by (simp add: read_u32_def read_dec_show)

subsection \<open>The interface\<close>

locale sdp_text_laws =
  fixes sl :: sdp_lib
  assumes split: "sl_split sl s d = split_at d s"
    and tokenize: "sl_tokenize sl s d = tokens_at d s"
    and tokenize_first: "sl_tokenize_first sl s d = first_token d s"
    and from_string: "sl_from_string sl (show_nat (unat n)) = Some n"
begin

lemma get_atrribute_field:
  assumes "CHR '':'' \<notin> set a" "a \<noteq> []" "CHR '':'' \<notin> set b" "b \<noteq> []"
  shows "get_atrribute sl (a @ CHR '':'' # b) = b"
  using assms by (simp add: get_atrribute_def tokenize tokens_at_cons tokens_at_none)

lemma from_strings_show: "from_strings sl (map (\<lambda>n. show_nat (unat n)) ns) = Some ns"
  by (induction ns) (simp_all add: from_string)

end

definition doc_sdp_lib :: sdp_lib where
  "doc_sdp_lib =
     \<lparr>sl_split = (\<lambda>s d. split_at d s), sl_tokenize = (\<lambda>s d. tokens_at d s),
      sl_tokenize_first = (\<lambda>s d. first_token d s), sl_from_string = read_u32,
      sl_cert_fingerprint = (\<lambda>cert. Some \<lparr>fp_algorithm = ''sha-256'', fp_digest = [1, 2, 3]\<rparr>),
      sl_create_fingerprint = (\<lambda>alg txt. if alg = ''sha-256'' \<and> txt = ''01:02:03''
                                          then Some \<lparr>fp_algorithm = ''sha-256'', fp_digest = [1, 2, 3]\<rparr> else None),
      sl_fingerprint_text = (\<lambda>fp. ''01:02:03''), sl_private = (\<lambda>ip. True), sl_host_uri = (\<lambda>ip. '''')\<rparr>"

interpretation doc: sdp_text_laws doc_sdp_lib
  by unfold_locales (simp_all add: doc_sdp_lib_def read_u32_show)

end
