(* ===== verification/StreamInvariant.thy ===== *)
theory StreamInvariant
  imports Streams PeerInvariant SdpText
begin

text \<open>
  Properties of the stream manager: its maps and the live streams agree in every reachable state,
  its callbacks do not use a deleted stream, packets of a push stream go to the pull stream of the
  same name, and what a second puller does to the first.
\<close>

definition entry_ok ::
  "stream_type \<Rightarrow> (string \<times> nat) list \<Rightarrow> (nat \<Rightarrow> ('q, 'c) rtc_stream option) \<Rightarrow> bool" where
  "entry_ok ty m heap =
     (\<forall>name a. map_of m name = Some a \<longrightarrow>
        (\<exists>s. heap a = Some s \<and> rs_type s = ty \<and> rs_name s = name \<and> rs_listener s))"

text \<open>Every live push stream is the entry of its name.\<close>

definition push_kept :: "(string \<times> nat) list \<Rightarrow> (nat \<Rightarrow> ('q, 'c) rtc_stream option) \<Rightarrow> bool" where
  "push_kept m heap =
     (\<forall>a s. heap a = Some s \<longrightarrow> rs_type s = k_push \<longrightarrow> map_of m (rs_name s) = Some a)"

definition mg_ok :: "('q, 'c) stream_manager \<Rightarrow> bool" where
  "mg_ok mg =
     (entry_ok k_push (mg_push mg) (mg_heap mg) \<and> entry_ok k_pull (mg_pull mg) (mg_heap mg)
        \<and> push_kept (mg_push mg) (mg_heap mg))"

lemma push_entryD:
  "mg_ok mg \<Longrightarrow> map_of (mg_push mg) name = Some a \<Longrightarrow>
     \<exists>s. mg_heap mg a = Some s \<and> rs_type s = k_push \<and> rs_name s = name \<and> rs_listener s"
  by (simp add: mg_ok_def entry_ok_def)

lemma pull_entryD:
  "mg_ok mg \<Longrightarrow> map_of (mg_pull mg) name = Some a \<Longrightarrow>
     \<exists>s. mg_heap mg a = Some s \<and> rs_type s = k_pull \<and> rs_name s = name \<and> rs_listener s"
  by (simp add: mg_ok_def entry_ok_def)

lemma new_manager_ok: "mg_ok new_stream_manager"
  by (simp add: mg_ok_def entry_ok_def push_kept_def new_stream_manager_def)

lemma mg_ok_emit [simp]: "mg_ok (mg_emit es mg) = mg_ok mg"
  by (simp add: mg_ok_def mg_emit_def)

lemma mg_emit_sel [simp]:
  "mg_push (mg_emit es mg) = mg_push mg" "mg_pull (mg_emit es mg) = mg_pull mg"
  "mg_heap (mg_emit es mg) = mg_heap mg"
  by (simp_all add: mg_emit_def)

text \<open>The fields that identify a stream; the operations on its peer connection keep them.\<close>

definition same_stream :: "('q, 'c) rtc_stream \<Rightarrow> ('q, 'c) rtc_stream \<Rightarrow> bool" where
  "same_stream s t =
     (rs_type t = rs_type s \<and> rs_uid t = rs_uid s \<and> rs_name t = rs_name s \<and> rs_listener t = rs_listener s)"

lemma put_same_ok:
  assumes "mg_ok mg" "mg_heap mg a = Some s" "same_stream s t"
  shows "mg_ok (put_stream a t mg)"
proof -
  have e: "entry_ok ty m ((mg_heap mg)(a \<mapsto> t))" if "entry_ok ty m (mg_heap mg)" for ty m
    unfolding entry_ok_def
  proof (intro allI impI)
    fix name b assume "map_of m name = Some b"
    then obtain u where "mg_heap mg b = Some u" "rs_type u = ty" "rs_name u = name" "rs_listener u"
      using \<open>entry_ok ty m (mg_heap mg)\<close> by (auto simp: entry_ok_def)
    then show "\<exists>u. ((mg_heap mg)(a \<mapsto> t)) b = Some u \<and> rs_type u = ty \<and> rs_name u = name \<and> rs_listener u"
      using assms(2,3) by (cases "a = b") (auto simp: same_stream_def)
  qed
  have "push_kept (mg_push mg) ((mg_heap mg)(a \<mapsto> t))"
    using assms by (auto simp: mg_ok_def push_kept_def same_stream_def)
  then show ?thesis using assms(1) e by (simp add: mg_ok_def put_stream_def)
qed

lemma entry_delete:
  assumes "entry_ok ty m h" "\<And>n. map_of m' n \<noteq> Some a" "\<And>n b. map_of m' n = Some b \<Longrightarrow> map_of m n = Some b"
  shows "entry_ok ty m' (h(a := None))"
  unfolding entry_ok_def
proof (intro allI impI)
  fix name b assume b: "map_of m' name = Some b"
  then have "b \<noteq> a" using assms(2) by auto
  then show "\<exists>s. (h(a := None)) b = Some s \<and> rs_type s = ty \<and> rs_name s = name \<and> rs_listener s"
    using assms(1) assms(3) [OF b] by (simp add: entry_ok_def)
qed

lemma push_kept_delete:
  assumes "push_kept m h" "map_of m name = Some a" "\<And>n. n \<noteq> name \<Longrightarrow> map_of m' n = map_of m n"
  shows "push_kept m' (h(a := None))"
  unfolding push_kept_def
proof (intro allI impI)
  fix b s assume b: "(h(a := None)) b = Some s" "rs_type s = k_push"
  then have "b \<noteq> a" "h b = Some s" by (auto split: if_splits)
  then have "map_of m (rs_name s) = Some b" using assms(1) b(2) by (simp add: push_kept_def)
  then show "map_of m' (rs_name s) = Some b" using assms(2,3) \<open>b \<noteq> a\<close> by (metis option.inject)
qed

lemma delete_push_ok:
  assumes "mg_ok mg" "map_of (mg_push mg) name = Some a"
  shows "\<exists>mg'. delete_stream a (mg\<lparr>mg_push := AList.delete name (mg_push mg)\<rparr>) = Some mg' \<and> mg_ok mg'
     \<and> mg_heap mg' = (mg_heap mg)(a := None) \<and> mg_pull mg' = mg_pull mg"
proof -
  obtain s where s: "mg_heap mg a = Some s" "rs_type s = k_push" "rs_name s = name"
    using push_entryD [OF assms] by blast
  have others: "map_of (mg_push mg) n \<noteq> Some a" if "n \<noteq> name" for n
    using push_entryD [OF assms(1), of n a] s that by auto
  have pulls: "map_of (mg_pull mg) n \<noteq> Some a" for n
    using pull_entryD [OF assms(1), of n a] s by auto
  note ok = assms(1) [unfolded mg_ok_def]
  have "entry_ok k_push (AList.delete name (mg_push mg)) ((mg_heap mg)(a := None))"
    by (rule entry_delete [of k_push "mg_push mg"]) (use ok others in \<open>auto simp: delete_conv' split: if_splits\<close>)
  moreover have "entry_ok k_pull (mg_pull mg) ((mg_heap mg)(a := None))"
    by (rule entry_delete [of k_pull "mg_pull mg"]) (use ok pulls in auto)
  moreover have "push_kept (AList.delete name (mg_push mg)) ((mg_heap mg)(a := None))"
    by (rule push_kept_delete [of "mg_push mg" _ name]) (use ok assms(2) in \<open>auto simp: delete_conv'\<close>)
  ultimately show ?thesis using s by (simp add: delete_stream_def mg_ok_def)
qed

lemma delete_pull_ok:
  assumes "mg_ok mg" "map_of (mg_pull mg) name = Some a"
  shows "\<exists>mg'. delete_stream a (mg\<lparr>mg_pull := AList.delete name (mg_pull mg)\<rparr>) = Some mg' \<and> mg_ok mg'
     \<and> mg_heap mg' = (mg_heap mg)(a := None) \<and> mg_push mg' = mg_push mg"
proof -
  obtain s where s: "mg_heap mg a = Some s" "rs_type s = k_pull" "rs_name s = name"
    using pull_entryD [OF assms] by blast
  have others: "map_of (mg_pull mg) n \<noteq> Some a" if "n \<noteq> name" for n
    using pull_entryD [OF assms(1), of n a] s that by auto
  have pushes: "map_of (mg_push mg) n \<noteq> Some a" for n
    using push_entryD [OF assms(1), of n a] s by auto
  note ok = assms(1) [unfolded mg_ok_def]
  have "entry_ok k_pull (AList.delete name (mg_pull mg)) ((mg_heap mg)(a := None))"
    by (rule entry_delete [of k_pull "mg_pull mg"]) (use ok others in \<open>auto simp: delete_conv' split: if_splits\<close>)
  moreover have "entry_ok k_push (mg_push mg) ((mg_heap mg)(a := None))"
    by (rule entry_delete [of k_push "mg_push mg"]) (use ok pushes in auto)
  moreover have "push_kept (mg_push mg) ((mg_heap mg)(a := None))"
    using ok s by (auto simp: push_kept_def)
  ultimately show ?thesis using s by (simp add: delete_stream_def mg_ok_def)
qed

text \<open>Removing leaves at most the entry of that name out.\<close>

lemma remove_push_ok:
  assumes "mg_ok mg"
  shows "\<exists>mg'. remove_push_stream uid name mg = Some mg' \<and> mg_ok mg' \<and> mg_pull mg' = mg_pull mg
     \<and> (\<forall>a. mg_heap mg a = None \<longrightarrow> mg_heap mg' a = None)"
proof (cases "map_of (mg_push mg) name")
  case None
  then show ?thesis using assms by (simp add: remove_push_stream_def find_push_stream_def)
next
  case (Some a)
  then show ?thesis
    using assms push_entryD [OF assms Some] delete_push_ok [OF assms Some]
    by (auto simp: remove_push_stream_def find_push_stream_def)
qed

lemma remove_pull_ok:
  assumes "mg_ok mg"
  shows "\<exists>mg'. remove_pull_stream uid name mg = Some mg' \<and> mg_ok mg' \<and> mg_push mg' = mg_push mg
     \<and> (\<forall>a. mg_heap mg a = None \<longrightarrow> mg_heap mg' a = None)
     \<and> (\<forall>a s. mg_heap mg a = Some s \<longrightarrow> rs_type s = k_push \<longrightarrow> mg_heap mg' a = Some s)"
proof (cases "map_of (mg_pull mg) name")
  case None
  then show ?thesis using assms by (simp add: remove_pull_stream_def find_pull_stream_def)
next
  case (Some a)
  then show ?thesis
    using assms pull_entryD [OF assms Some] delete_pull_ok [OF assms Some]
    by (auto simp: remove_pull_stream_def find_pull_stream_def)
qed

lemma removed_pull_maps:
  assumes "remove_pull_stream uid name mg = Some mg'"
  shows "mg_push mg' = mg_push mg" "n \<noteq> name \<Longrightarrow> map_of (mg_pull mg') n = map_of (mg_pull mg) n"
  using assms
  by (auto simp: remove_pull_stream_def delete_stream_def mg_emit_def delete_conv' split: option.splits if_splits)

lemma remove_stream_ok: "mg_ok mg \<Longrightarrow> \<exists>mg'. remove_stream s mg = Some mg' \<and> mg_ok mg'"
  using remove_push_ok [of mg "rs_uid s" "rs_name s"] remove_pull_ok [of mg "rs_uid s" "rs_name s"]
  by (auto simp: remove_stream_def)

lemma state_signal_ok:
  assumes "mg_ok mg" "mg_heap mg a = Some s"
  shows "\<exists>mg'. stream_on_connection_state a st s mg = Some mg' \<and> mg_ok mg'"
proof -
  let ?s = "if st = pc_connected then s\<lparr>rs_state := st, rs_timer := False\<rparr> else s\<lparr>rs_state := st\<rparr>"
  have "mg_ok (put_stream a ?s mg)" by (rule put_same_ok [OF assms]) (simp add: same_stream_def)
  then have "mg_ok (mg_emit es (put_stream a ?s mg))" for es by simp
  note ok = this remove_stream_ok [OF this]
  consider "st = pc_failed" | "st = pc_connected" | "st \<noteq> pc_failed" "st \<noteq> pc_connected" by blast
  then show ?thesis
    using assms(1) ok
    by cases (auto simp: stream_on_connection_state_def Let_def mg_on_connection_state_def)
qed

lemma send_on_ok:
  assumes "mg_ok mg" "send_on send target mg = Some mg'"
    and "\<And>s ret s1. send s = Some (ret, s1) \<Longrightarrow> same_stream s s1"
  shows "mg_ok mg'"
  using assms put_same_ok [OF assms(1)]
  by (auto simp: send_on_def split: option.splits)

lemma send_same:
  "stream_send_rtp sv sent data s = Some (ret, s1) \<Longrightarrow> same_stream s s1"
  "stream_send_rtcp sv sent data s = Some (ret, s1) \<Longrightarrow> same_stream s s1"
  by (auto simp: stream_send_rtp_def stream_send_rtcp_def same_stream_def)

lemma stream_signal_ok:
  assumes "mg_ok mg" "stream_signal sv sent a e mg = Some mg'"
  shows "mg_ok mg'"
proof (cases "mg_heap mg a")
  case None
  then show ?thesis using assms by (simp add: stream_signal_def)
next
  case (Some s)
  show ?thesis
  proof (cases e)
    case (PcState st)
    then show ?thesis using assms Some state_signal_ok [OF assms(1) Some, of st] by (auto simp: stream_signal_def)
  next
    case (PcRtp p)
    then have "mg' = mg \<or> send_on (stream_send_rtp sv sent p) (find_pull_stream (rs_name s) mg) mg = Some mg'"
      using assms Some by (auto simp: stream_signal_def mg_on_rtp_packet_def split: if_splits)
    then show ?thesis
    proof
      assume "send_on (stream_send_rtp sv sent p) (find_pull_stream (rs_name s) mg) mg = Some mg'"
      then show ?thesis by (rule send_on_ok [OF assms(1)]) (rule send_same(1))
    qed (use assms(1) in simp)
  next
    case (PcRtcp p)
    then have "mg' = mg \<or> (\<exists>target. send_on (stream_send_rtcp sv sent p) target mg = Some mg')"
      using assms Some by (auto simp: stream_signal_def mg_on_rtcp_packet_def split: if_splits)
    then show ?thesis
    proof
      assume "\<exists>target. send_on (stream_send_rtcp sv sent p) target mg = Some mg'"
      then obtain target where "send_on (stream_send_rtcp sv sent p) target mg = Some mg'" ..
      then show ?thesis by (rule send_on_ok [OF assms(1)]) (rule send_same(2))
    qed (use assms(1) in simp)
  qed (use assms Some in \<open>simp_all add: stream_signal_def\<close>)
qed

lemma stream_signals_ok:
  "stream_signals sv sent a es mg = Some mg' \<Longrightarrow> mg_ok mg \<Longrightarrow> mg_ok mg'"
proof (induction es arbitrary: mg)
  case Nil
  then show ?case by simp
next
  case (Cons e es)
  then show ?case using stream_signal_ok [of mg sv sent a e] by (auto split: option.splits)
qed

lemma stream_pc_op_ok:
  assumes "mg_ok mg" "stream_pc_op sv sent a f mg g = Some (mg', g')"
  shows "mg_ok mg'"
proof -
  obtain s pc g1 where s: "mg_heap mg a = Some s" "f (rs_pc s) g = Some (pc, g1)"
      "stream_signals sv sent a (drop (length (pn_events (rs_pc s))) (pn_events pc)) (put_stream a (s\<lparr>rs_pc := pc\<rparr>) mg)
         = Some mg'"
    using assms(2) by (auto simp: stream_pc_op_def split: option.splits prod.splits)
  have "mg_ok (put_stream a (s\<lparr>rs_pc := pc\<rparr>) mg)"
    by (rule put_same_ok [OF assms(1) s(1)]) (simp add: same_stream_def)
  then show ?thesis using stream_signals_ok [OF s(3)] by simp
qed

lemma timeout_ok:
  assumes "mg_ok mg" "mg_heap mg a \<noteq> None"
  shows "\<exists>mg'. ice_timeout_cb a mg = Some mg' \<and> mg_ok mg'"
  using assms remove_stream_ok [OF assms(1)] by (auto simp: ice_timeout_cb_def mg_on_stream_exception_def)

section \<open>Reachable states\<close>

lemma delete_stream_maps:
  "delete_stream a mg = Some mg' \<Longrightarrow> mg_push mg' = mg_push mg \<and> mg_pull mg' = mg_pull mg"
  by (auto simp: delete_stream_def split: option.splits)

lemma entry_fresh:
  assumes "entry_ok ty m h" "h a = None"
  shows "entry_ok ty m (h(a \<mapsto> s))"
  unfolding entry_ok_def
proof (intro allI impI)
  fix name b assume "map_of m name = Some b"
  then obtain u where "h b = Some u" "rs_type u = ty" "rs_name u = name" "rs_listener u"
    using assms(1) by (auto simp: entry_ok_def)
  then show "\<exists>u. (h(a \<mapsto> s)) b = Some u \<and> rs_type u = ty \<and> rs_name u = name \<and> rs_listener u"
    using assms(2) by auto
qed

lemma entry_insert:
  assumes "entry_ok ty m h" "h a = None" "rs_type s = ty" "rs_name s = name" "rs_listener s"
  shows "entry_ok ty (AList.update name a m) (h(a \<mapsto> s))"
  using entry_fresh [OF assms(1,2)] assms(3-5) by (simp add: entry_ok_def update_conv')

lemma insert_push_ok:
  assumes "mg_ok mg" "mg_heap mg a = None" "map_of (mg_push mg) name = None"
    and "rs_type s = k_push" "rs_name s = name" "rs_listener s"
  shows "mg_ok ((put_stream a s mg)\<lparr>mg_push := AList.update name a (mg_push mg)\<rparr>)"
proof -
  have "entry_ok k_push (AList.update name a (mg_push mg)) ((mg_heap mg)(a \<mapsto> s))"
    by (rule entry_insert) (use assms in \<open>simp_all add: mg_ok_def\<close>)
  moreover have "entry_ok k_pull (mg_pull mg) ((mg_heap mg)(a \<mapsto> s))"
    by (rule entry_fresh) (use assms in \<open>simp_all add: mg_ok_def\<close>)
  moreover have "push_kept (AList.update name a (mg_push mg)) ((mg_heap mg)(a \<mapsto> s))"
    unfolding push_kept_def
  proof (intro allI impI)
    fix b t assume t: "((mg_heap mg)(a \<mapsto> s)) b = Some t" "rs_type t = k_push"
    show "map_of (AList.update name a (mg_push mg)) (rs_name t) = Some b"
    proof (cases "b = a")
      case False
      then have "map_of (mg_push mg) (rs_name t) = Some b"
        using t assms(1) by (simp add: mg_ok_def push_kept_def)
      then show ?thesis using assms(3) by (auto simp: update_conv')
    qed (use t assms in \<open>simp add: update_conv'\<close>)
  qed
  ultimately show ?thesis by (simp add: mg_ok_def put_stream_def)
qed

lemma insert_pull_ok:
  assumes "mg_ok mg" "mg_heap mg a = None"
    and "rs_type s = k_pull" "rs_name s = name" "rs_listener s"
  shows "mg_ok ((put_stream a s mg)\<lparr>mg_pull := AList.update name a (mg_pull mg)\<rparr>)"
proof -
  have "entry_ok k_push (mg_push mg) ((mg_heap mg)(a \<mapsto> s))"
    by (rule entry_fresh) (use assms in \<open>simp_all add: mg_ok_def\<close>)
  moreover have "entry_ok k_pull (AList.update name a (mg_pull mg)) ((mg_heap mg)(a \<mapsto> s))"
    by (rule entry_insert) (use assms in \<open>simp_all add: mg_ok_def\<close>)
  moreover have "push_kept (mg_push mg) ((mg_heap mg)(a \<mapsto> s))"
    using assms by (auto simp: mg_ok_def push_kept_def)
  ultimately show ?thesis by (simp add: mg_ok_def put_stream_def)
qed

lemma start_offer_same:
  assumes "stream_create_offer rv (snd (stream_start cert s)) g = Some (offer, s2, g1)"
  shows "same_stream s s2"
  using assms by (auto simp: stream_create_offer_def stream_start_def same_stream_def Let_def split: prod.splits)

lemma emit_put_push:
  "(mg_emit es (put_stream a s mg))\<lparr>mg_push := m\<rparr> = mg_emit es ((put_stream a s mg)\<lparr>mg_push := m\<rparr>)"
  "(mg_emit es (put_stream a s mg))\<lparr>mg_pull := m\<rparr> = mg_emit es ((put_stream a s mg)\<lparr>mg_pull := m\<rparr>)"
  by (simp_all add: mg_emit_def put_stream_def)

text \<open>The allocator may give a new stream any address that is free when it is made.\<close>

definition free_for_push :: "nat \<Rightarrow> string \<Rightarrow> ('q, 'c) stream_manager \<Rightarrow> bool" where
  "free_for_push a name mg = (mg_heap mg a = None \<or> find_push_stream name mg = Some a)"

definition free_for_pull :: "nat \<Rightarrow> u64 \<Rightarrow> string \<Rightarrow> ('q, 'c) stream_manager \<Rightarrow> bool" where
  "free_for_pull a uid name mg =
     (case remove_pull_stream uid name mg of None \<Rightarrow> False | Some mg1 \<Rightarrow> mg_heap mg1 a = None)"

lemma create_push_ok:
  assumes "mg_ok mg" "free_for_push a name mg"
    and "create_push_stream rv a uid name audio video log_id cert mg g = Some (ret, offer, mg', g')"
  shows "mg_ok mg'"
proof -
  obtain mg1 where mg1:
      "(case find_push_stream name mg of None \<Rightarrow> Some mg
        | Some old \<Rightarrow> delete_stream old (mg\<lparr>mg_push := AList.delete name (mg_push mg)\<rparr>)) = Some mg1"
    using assms(3) by (auto simp: create_push_stream_def split: option.splits)
  have ok: "mg_ok mg1 \<and> mg_heap mg1 a = None \<and> map_of (mg_push mg1) name = None"
  proof (cases "find_push_stream name mg")
    case None
    then show ?thesis using mg1 assms(1,2) by (auto simp: free_for_push_def find_push_stream_def)
  next
    case (Some old)
    then have "map_of (mg_push mg) name = Some old" by (simp add: find_push_stream_def)
    from delete_push_ok [OF assms(1) this] Some mg1 show ?thesis
      using assms(2) delete_stream_maps [of old "mg\<lparr>mg_push := AList.delete name (mg_push mg)\<rparr>" mg1]
      by (auto simp: free_for_push_def delete_conv')
  qed
  let ?s = "register_listener (new_stream k_push uid name audio video log_id)"
  obtain s2 g1 where s2: "stream_create_offer rv (snd (stream_start cert ?s)) g = Some (offer, s2, g1)"
      "mg' = (mg_emit [MgStartTimer a (k_ice_timeout * 1000)] (put_stream a s2 mg1))
                \<lparr>mg_push := AList.update name a (mg_push mg1)\<rparr>"
    using assms(3) mg1 by (auto simp: create_push_stream_def Let_def split: option.splits prod.splits)
  have "same_stream ?s s2" by (rule start_offer_same [OF s2(1)])
  then show ?thesis
    using insert_push_ok [of mg1 a name s2] ok s2(2)
    by (simp add: emit_put_push same_stream_def register_listener_def new_stream_def)
qed

lemma create_pull_ok:
  fixes mg :: "('q, 'c) stream_manager"
  assumes "mg_ok mg" "free_for_pull a uid name mg"
    and "create_pull_stream rv a uid name audio video log_id cert mg g = Some (ret, offer, mg', g')"
  shows "mg_ok mg'"
proof (cases "find_push_stream name mg")
  case None
  then show ?thesis using assms by (simp add: create_pull_stream_def)
next
  case (Some p)
  obtain mg1 where mg1: "remove_pull_stream uid name mg = Some mg1" "mg_ok mg1" "mg_heap mg1 a = None"
    using remove_pull_ok [OF assms(1), of uid name] assms(2) by (auto simp: free_for_pull_def)
  obtain push where push: "mg_heap mg p = Some push"
    using push_entryD [OF assms(1), of name p] Some by (auto simp: find_push_stream_def)
  define s :: "('q, 'c) rtc_stream" where "s = stream_add_sources (case get_audio_source push of None \<Rightarrow> [] | Some src \<Rightarrow> src)
      (case get_video_source push of None \<Rightarrow> [] | Some src \<Rightarrow> src)
      (register_listener (new_stream k_pull uid name audio video log_id))"
  obtain s2 g1 where s2: "stream_create_offer rv (snd (stream_start cert s)) g = Some (offer, s2, g1)"
      "mg' = (mg_emit [MgStartTimer a (k_ice_timeout * 1000)] (put_stream a s2 mg1))
                \<lparr>mg_pull := AList.update name a (mg_pull mg1)\<rparr>"
    using assms(3) mg1(1) push Some
    by (auto simp: create_pull_stream_def Let_def s_def split: option.splits prod.splits)
  have "same_stream s s2" by (rule start_offer_same [OF s2(1)])
  then show ?thesis
    using insert_pull_ok [of mg1 a s2 name] mg1(2,3) s2(2)
    by (simp add: emit_put_push same_stream_def s_def stream_add_sources_def register_listener_def new_stream_def)
qed

lemma set_answer_ok:
  assumes "mg_ok mg" "set_answer rv now sent uid name answer ty mg g = Some (ret, mg', g')"
  shows "mg_ok mg'"
proof -
  have "mg_ok mg2" if "answer_stream rv now sent uid answer target mg g = Some (r, mg2, g2)" for target r mg2 g2
    using that assms(1) stream_pc_op_ok [OF assms(1)]
    by (auto simp: answer_stream_def split: option.splits if_splits)
  then show ?thesis using assms by (auto simp: set_answer_def split: if_splits)
qed

text \<open>
  What the worker's thread and its event loop do with the manager: the requests, the timers and
  whatever happens on the peer connection of a live stream.
\<close>

inductive manager_reachable :: "('q, 'c) stream_manager \<Rightarrow> bool" where
  mr_new: "manager_reachable new_stream_manager"
| mr_push: "manager_reachable mg \<Longrightarrow> free_for_push a name mg \<Longrightarrow>
     create_push_stream rv a uid name audio video log_id cert mg g = Some (ret, offer, mg', g') \<Longrightarrow>
     manager_reachable mg'"
| mr_pull: "manager_reachable mg \<Longrightarrow> free_for_pull a uid name mg \<Longrightarrow>
     create_pull_stream rv a uid name audio video log_id cert mg g = Some (ret, offer, mg', g') \<Longrightarrow>
     manager_reachable mg'"
| mr_stop_push: "manager_reachable mg \<Longrightarrow> stop_push uid name mg = Some (ret, mg') \<Longrightarrow> manager_reachable mg'"
| mr_stop_pull: "manager_reachable mg \<Longrightarrow> stop_pull uid name mg = Some (ret, mg') \<Longrightarrow> manager_reachable mg'"
| mr_answer: "manager_reachable mg \<Longrightarrow>
     set_answer rv now sent uid name answer ty mg g = Some (ret, mg', g') \<Longrightarrow> manager_reachable mg'"
| mr_pc: "manager_reachable mg \<Longrightarrow> stream_pc_op sv sent a f mg g = Some (mg', g') \<Longrightarrow> manager_reachable mg'"
| mr_timeout: "manager_reachable mg \<Longrightarrow> ice_timeout_cb a mg = Some mg' \<Longrightarrow> manager_reachable mg'"

lemma manager_reachable_ok: "manager_reachable mg \<Longrightarrow> mg_ok mg"
proof (induction rule: manager_reachable.induct)
  case mr_new
  show ?case by (rule new_manager_ok)
next
  case (mr_push mg a name rv uid audio video log_id cert g ret offer mg' g')
  show ?case by (rule create_push_ok [OF mr_push.IH mr_push.hyps(2,3)])
next
  case (mr_pull mg a uid name rv audio video log_id cert g ret offer mg' g')
  show ?case by (rule create_pull_ok [OF mr_pull.IH mr_pull.hyps(2,3)])
next
  case (mr_stop_push mg uid name ret mg')
  then show ?case using remove_push_ok [of mg uid name] by (auto simp: stop_push_def)
next
  case (mr_stop_pull mg uid name ret mg')
  then show ?case using remove_pull_ok [of mg uid name] by (auto simp: stop_pull_def)
next
  case (mr_answer mg rv now sent uid name answer ty g ret mg' g')
  show ?case by (rule set_answer_ok [OF mr_answer.IH mr_answer.hyps(2)])
next
  case (mr_pc mg sv sent a f g mg' g')
  show ?case by (rule stream_pc_op_ok [OF mr_pc.IH mr_pc.hyps(2)])
next
  case (mr_timeout mg a mg')
  then show ?case using timeout_ok [of mg a] by (cases "mg_heap mg a") (auto simp: ice_timeout_cb_def)
qed

section \<open>The properties of the manager\<close>

text \<open>C12: In every reachable state of a worker's stream manager each entry of the push and the pull map
  is a live stream of that kind and name that reports to the manager, and every live push stream is
  the entry of its name: a replaced, stopped, failed or timed out publisher is gone.\<close>

theorem stream_maps:
  assumes "manager_reachable mg"
  shows "(\<forall>name a. map_of (mg_push mg) name = Some a \<longrightarrow>
        (\<exists>s. mg_heap mg a = Some s \<and> rs_type s = k_push \<and> rs_name s = name \<and> rs_listener s))
    \<and> (\<forall>name a. map_of (mg_pull mg) name = Some a \<longrightarrow>
        (\<exists>s. mg_heap mg a = Some s \<and> rs_type s = k_pull \<and> rs_name s = name \<and> rs_listener s))
    \<and> (\<forall>a s. mg_heap mg a = Some s \<and> rs_type s = k_push \<longrightarrow> map_of (mg_push mg) (rs_name s) = Some a)"
  using manager_reachable_ok [OF assms] by (auto simp: mg_ok_def entry_ok_def push_kept_def)

text \<open>C24: The manager's callbacks use no freed stream: in every reachable state stopping a stream, the
  timeout of a live stream and every state signal of its peer connection return, also when they
  delete the stream that raised them.\<close>

theorem manager_safe:
  assumes "manager_reachable mg"
  shows "stop_push uid name mg \<noteq> None \<and> stop_pull uid name mg \<noteq> None
    \<and> (mg_heap mg a \<noteq> None \<longrightarrow> ice_timeout_cb a mg \<noteq> None)
    \<and> stream_signal sv sent a (PcState st) mg \<noteq> None"
proof -
  note ok = manager_reachable_ok [OF assms]
  have "stream_signal sv sent a (PcState st) mg \<noteq> None"
    using state_signal_ok [OF ok, of a _ st] by (cases "mg_heap mg a") (auto simp: stream_signal_def)
  then show ?thesis
    using remove_push_ok [OF ok, of uid name] remove_pull_ok [OF ok, of uid name] timeout_ok [OF ok, of a]
    by (auto simp: stop_push_def stop_pull_def)
qed

text \<open>The SRTP transport over which a stream sends.\<close>

definition audio_srtp :: "('q, 'c) rtc_stream \<Rightarrow> 'c dtls_srtp option" where
  "audio_srtp t =
     Option.bind (get_dtls_srtp_transport ''audio'' (pn_controller (rs_pc t))) (ctl_srtp_heap (pn_controller (rs_pc t)))"

text \<open>The stream with the SRTP transport at address \<open>k\<close> replaced, all else as it was.\<close>

definition put_stream_srtp :: "nat \<Rightarrow> 'c dtls_srtp \<Rightarrow> ('q, 'c) rtc_stream \<Rightarrow> ('q, 'c) rtc_stream" where
  "put_stream_srtp k ds t = t\<lparr>rs_pc := (rs_pc t)\<lparr>pn_controller := put_srtp k ds (pn_controller (rs_pc t))\<rparr>\<rparr>"

lemma sent_on_pull:
  assumes "mg_heap mg b = Some t" "get_dtls_srtp_transport ''audio'' (pn_controller (rs_pc t)) = Some k"
    and "ctl_srtp_heap (pn_controller (rs_pc t)) k = Some ds" "send_rtp (ms_srtp sv) sent p ds = Some (ret, ds')"
  shows "send_on (stream_send_rtp sv sent p) (Some b) mg = Some (put_stream b (put_stream_srtp k ds' t) mg)"
  using assms
  by (simp add: send_on_def stream_send_rtp_def pn_send_rtp_def ctl_send_rtp_def put_stream_srtp_def put_srtp_def)

lemma put_stream_same: "mg_heap mg b = Some t \<Longrightarrow> put_stream b t mg = mg"
  by (simp add: put_stream_def fun_upd_idem)

lemma put_stream_srtp_same:
  "ctl_srtp_heap (pn_controller (rs_pc t)) k = Some ds \<Longrightarrow> put_stream_srtp k ds t = t"
  by (simp add: put_stream_srtp_def put_srtp_def fun_upd_idem)

text \<open>A subscriber whose transport \<open>audio\<close> is missing or not keyed: the packet is dropped.\<close>

definition cannot_send :: "('q, 'c) rtc_stream \<Rightarrow> bool" where
  "cannot_send t \<longleftrightarrow> get_dtls_srtp_transport ''audio'' (pn_controller (rs_pc t)) = None
     \<or> (\<exists>ds. audio_srtp t = Some ds \<and> \<not> is_srtp_active (ds_srtp ds))"

lemma dropped_on_pull:
  assumes "mg_heap mg b = Some t" "cannot_send t"
  shows "send_on (stream_send_rtp sv sent p) (Some b) mg = Some mg"
proof (cases "get_dtls_srtp_transport ''audio'' (pn_controller (rs_pc t))")
  case None
  then show ?thesis using assms(1)
    by (simp add: send_on_def stream_send_rtp_def pn_send_rtp_def ctl_send_rtp_def put_stream_same)
next
  case (Some k)
  then obtain ds where ds: "ctl_srtp_heap (pn_controller (rs_pc t)) k = Some ds" "\<not> is_srtp_active (ds_srtp ds)"
    using assms(2) by (auto simp: cannot_send_def audio_srtp_def)
  then have "send_rtp (ms_srtp sv) sent p ds = Some (- 1, ds)" by (simp add: send_rtp_def)
  from sent_on_pull [OF assms(1) Some ds(1) this] show ?thesis
    by (simp add: put_stream_srtp_same [OF ds(1)] put_stream_same [OF assms(1)])
qed

text \<open>C8: An RTP packet (of at least 12 bytes, the RTP header) that arrives at a publisher goes to the one
  subscriber entered under the same name, when that one's transport \<open>audio\<close> is keyed: the transport protects
  it and sends exactly what libsrtp made of it, or drops it when libsrtp refuses. The whole state of the
  manager afterwards is the state before with that one SRTP transport advanced. At a publisher without
  subscriber, at one whose subscriber has no keyed transport \<open>audio\<close>, and at a subscriber, a packet changes
  nothing.\<close>

theorem push_packet_relayed:
  assumes "manager_reachable mg"
    and "mg_heap mg a = Some s" "rs_type s = k_push" "map_of (mg_pull mg) (rs_name s) = Some b"
    and "mg_heap mg b = Some t" "get_dtls_srtp_transport ''audio'' (pn_controller (rs_pc t)) = Some k"
    and "ctl_srtp_heap (pn_controller (rs_pc t)) k = Some ds"
    and "is_srtp_active (ds_srtp ds)" "st_send_session (ds_srtp ds) = Some session" "ss_session session = Some ctx"
    and "ds_rtp_dtls ds = Some d" "12 \<le> length p" "sr_protect (ms_srtp sv) ctx p = (ok, out, ctx')"
  shows "rs_type t = k_pull \<and> rs_name t = rs_name s
    \<and> stream_signal sv sent a (PcRtp p) mg = Some (put_stream b (put_stream_srtp k (srtp_sent d ok out ctx' session p ds) t) mg)
    \<and> (\<forall>c u q. mg_heap mg c = Some u \<and> (rs_type u = k_pull \<or> map_of (mg_pull mg) (rs_name u) = None
           \<or> (\<exists>b' t'. map_of (mg_pull mg) (rs_name u) = Some b' \<and> mg_heap mg b' = Some t' \<and> cannot_send t')) \<longrightarrow>
         stream_signal sv sent c (PcRtp q) mg = Some mg)"
proof (intro conjI)
  note inv = manager_reachable_ok [OF assms(1)]
  show "rs_type t = k_pull" "rs_name t = rs_name s" using pull_entryD [OF inv assms(4)] assms(5) by auto
  have "map_of (mg_push mg) (rs_name s) = Some a" using inv assms(2,3) by (simp add: mg_ok_def push_kept_def)
  from push_entryD [OF inv this] have l: "rs_listener s" using assms(2) by auto
  show "stream_signal sv sent a (PcRtp p) mg = Some (put_stream b (put_stream_srtp k (srtp_sent d ok out ctx' session p ds) t) mg)"
    using sent_on_pull [OF assms(5-7) active_send_exact [OF assms(8-13)]] l assms(2-4)
    by (simp add: stream_signal_def mg_on_rtp_packet_def find_pull_stream_def)
qed (auto simp: stream_signal_def mg_on_rtp_packet_def send_on_def [of _ None] find_pull_stream_def
      dropped_on_pull split: option.splits)

section \<open>New streams\<close>

definition stream_options :: "('q, 'c) rtc_stream \<Rightarrow> offer_options" where
  "stream_options s = (if rs_type s = k_push then push_options s else pull_options s)"

lemma stream_mids:
  "use_rtp_mux (stream_options s) \<and> offer_mids (stream_options s) =
     (if rs_audio s then [''audio''] else []) @ (if rs_video s then [''video''] else [])"
  by (simp add: stream_options_def push_options_def pull_options_def new_offer_options_def offer_mids_def)

text \<open>A new stream whose controller is new makes its offer, and gets one transport.\<close>

lemma stream_offer_made:
  fixes s :: "('q, 'c) rtc_stream"
  assumes "pn_controller (rs_pc s) = new_transport_controller" "rv_addrs rv = (a, b) # rest"
  shows "\<exists>offer s2 g1. stream_create_offer rv (snd (stream_start (Some cert) s)) g = Some (offer, s2, g1)
     \<and> same_stream s s2
     \<and> ctl_srtp_by_name (pn_controller (rs_pc s2)) =
         (if rs_audio s then [(''audio'', b)] else if rs_video s then [(''video'', b)] else [])"
proof -
  define pc where "pc = rs_pc (snd (stream_start (Some cert) s))"
  have pc: "pn_certificate pc = Some cert"
      "pn_controller pc = ctl_set_local_certificate (Some cert) new_transport_controller"
    using assms(1) by (simp_all add: pc_def stream_start_def pn_init_def)
  have v: "view (pn_controller pc) = view (new_transport_controller :: ('q, 'c) transport_controller)"
    by (simp add: pc(2) view_def ctl_set_local_certificate_def)
  have ok: "view_ok (view (pn_controller pc))"
    unfolding pc(2) by (rule controller_reachable_ok [OF cr_certificate [OF cr_new]])
  have f: "ctl_dtls_heap (pn_controller pc) a = None" "ctl_srtp_heap (pn_controller pc) b = None"
    by (simp_all add: pc(2) ctl_set_local_certificate_def new_transport_controller_def)
  note m = stream_mids [of s]
  obtain offer pc' g' where o: "create_offer (rv_sdp rv) (rv_media rv) (rv_server_addr rv) (rv_rnd1 rv) (rv_rnd2 rv)
      (rv_gather rv) ((a, b) # rest) (stream_options s) pc g = Some (offer, pc', g')"
      "view (pn_controller pc') = (case offer_mids (stream_options s) of [] \<Rightarrow> view (pn_controller pc)
                                   | n # _ \<Rightarrow> view_added n a b (view (pn_controller pc)))"
    using offer_made [OF pc(1) _ ok f] m by blast
  have "ctl_srtp_by_name (pn_controller pc') = vw_srtp (view (pn_controller pc'))" by (simp add: view_def)
  then have "ctl_srtp_by_name (pn_controller pc') =
      (if rs_audio s then [(''audio'', b)] else if rs_video s then [(''video'', b)] else [])"
    unfolding o(2) v using m by (simp add: view_added_def view_def new_transport_controller_def)
  moreover have "stream_create_offer rv (snd (stream_start (Some cert) s)) g =
      Some (offer, (snd (stream_start (Some cert) s))\<lparr>rs_pc := pc'\<rparr>, g')"
  proof -
    let ?st = "snd (stream_start (Some cert) s)"
    have "(if rs_type ?st = k_push then push_options ?st else pull_options ?st) = stream_options s"
      by (simp add: stream_options_def stream_start_def pn_init_def push_options_def pull_options_def)
    then show ?thesis
      unfolding stream_create_offer_def assms(2) pc_def [symmetric] by (simp only: o(1)) simp
  qed
  ultimately show ?thesis using start_offer_same by fastforce
qed


lemma new_stream_sel [simp]:
  "rs_pc (new_stream ty uid name audio video log_id) = new_peer_connection"
  "rs_audio (new_stream ty uid name audio video log_id) = audio"
  "rs_video (new_stream ty uid name audio video log_id) = video"
  "rs_uid (new_stream ty uid name audio video log_id) = uid"
  "rs_name (new_stream ty uid name audio video log_id) = name"
  "rs_type (new_stream ty uid name audio video log_id) = ty"
  by (simp_all add: new_stream_def)

lemma register_listener_sel [simp]:
  "rs_pc (register_listener s) = rs_pc s" "rs_audio (register_listener s) = rs_audio s"
  "rs_video (register_listener s) = rs_video s" "rs_uid (register_listener s) = rs_uid s"
  "rs_name (register_listener s) = rs_name s" "rs_type (register_listener s) = rs_type s"
  "rs_listener (register_listener s)"
  by (simp_all add: register_listener_def)

lemma add_sources_sel [simp]:
  "pn_controller (rs_pc (stream_add_sources as vs s)) = pn_controller (rs_pc s)"
  "rs_audio (stream_add_sources as vs s) = rs_audio s" "rs_video (stream_add_sources as vs s) = rs_video s"
  "same_stream s (stream_add_sources as vs s)"
  by (simp_all add: stream_add_sources_def add_audio_source_def add_video_source_def same_stream_def)

lemma new_pc_controller [simp]: "pn_controller new_peer_connection = new_transport_controller"
  by (simp add: new_peer_connection_def)

lemma push_created:
  fixes mg :: "('q, 'c) stream_manager"
  assumes "mg_ok mg" "rv_addrs rv = (d, b) # rest"
  shows "\<exists>offer mg' g'. create_push_stream rv a uid name audio video log_id (Some cert) mg g = Some (0, offer, mg', g')
     \<and> map_of (mg_push mg') = (map_of (mg_push mg))(name \<mapsto> a) \<and> mg_pull mg' = mg_pull mg
     \<and> (\<forall>old. map_of (mg_push mg) name = Some old \<and> old \<noteq> a \<longrightarrow> mg_heap mg' old = None)"
proof -
  let ?s = "register_listener (new_stream k_push uid name audio video log_id) :: ('q, 'c) rtc_stream"
  obtain offer s2 g1 where o: "stream_create_offer rv (snd (stream_start (Some cert) ?s)) g = Some (offer, s2, g1)"
    using stream_offer_made [OF _ assms(2), of ?s cert g] by auto
  show ?thesis
  proof (cases "map_of (mg_push mg) name")
    case None
    then show ?thesis using o
      by (simp add: create_push_stream_def find_push_stream_def mg_emit_def put_stream_def update_conv')
  next
    case (Some old)
    from delete_push_ok [OF assms(1) this]
    obtain mg1 where m: "delete_stream old (mg\<lparr>mg_push := AList.delete name (mg_push mg)\<rparr>) = Some mg1"
        "mg_heap mg1 = (mg_heap mg)(old := None)" "mg_pull mg1 = mg_pull mg" by blast
    have "mg_push mg1 = AList.delete name (mg_push mg)" using delete_stream_maps [OF m(1)] by simp
    then show ?thesis using o Some m
      by (simp add: create_push_stream_def find_push_stream_def mg_emit_def put_stream_def update_conv' delete_conv' fun_eq_iff)
  qed
qed

lemma pull_created:
  fixes mg :: "('q, 'c) stream_manager"
  assumes "mg_ok mg" "rv_addrs rv = (d, b) # rest" "map_of (mg_push mg) name = Some p"
    and "remove_pull_stream uid name mg = Some mg1"
  shows "\<exists>offer mg' g' t. create_pull_stream rv a uid name audio video log_id (Some cert) mg g = Some (0, offer, mg', g')
     \<and> mg_pull mg' = AList.update name a (mg_pull mg1) \<and> mg_push mg' = mg_push mg1
     \<and> mg_heap mg' = (mg_heap mg1)(a \<mapsto> t)
     \<and> rs_uid t = uid \<and> rs_name t = name \<and> rs_type t = k_pull
     \<and> ctl_srtp_by_name (pn_controller (rs_pc t)) =
         (if audio then [(''audio'', b)] else if video then [(''video'', b)] else [])"
proof -
  obtain push where push: "mg_heap mg p = Some push" using push_entryD [OF assms(1,3)] by blast
  define s :: "('q, 'c) rtc_stream" where "s = stream_add_sources (case get_audio_source push of None \<Rightarrow> [] | Some src \<Rightarrow> src)
      (case get_video_source push of None \<Rightarrow> [] | Some src \<Rightarrow> src)
      (register_listener (new_stream k_pull uid name audio video log_id))"
  have c: "pn_controller (rs_pc s) = new_transport_controller" by (simp add: s_def)
  obtain offer s2 g1 where o: "stream_create_offer rv (snd (stream_start (Some cert) s)) g = Some (offer, s2, g1)"
      "same_stream s s2" "ctl_srtp_by_name (pn_controller (rs_pc s2)) =
         (if rs_audio s then [(''audio'', b)] else if rs_video s then [(''video'', b)] else [])"
    using stream_offer_made [OF c assms(2)] by blast
  have "same_stream (register_listener (new_stream k_pull uid name audio video log_id)) s" by (simp add: s_def)
  then have same: "rs_uid s2 = uid \<and> rs_name s2 = name \<and> rs_type s2 = k_pull"
    using o(2) by (simp add: same_stream_def)
  have av: "rs_audio s = audio" "rs_video s = video" by (simp_all add: s_def)
  have "create_pull_stream rv a uid name audio video log_id (Some cert) mg g = Some (0, offer,
      (mg_emit [MgStartTimer a (k_ice_timeout * 1000)] (put_stream a s2 mg1))\<lparr>mg_pull := AList.update name a (mg_pull mg1)\<rparr>, g1)"
    using o(1) assms(3,4) push
    by (simp add: create_pull_stream_def find_push_stream_def Let_def s_def [symmetric])
  moreover have "mg_push ((mg_emit es (put_stream a s2 mg1))\<lparr>mg_pull := m\<rparr>) = mg_push mg1"
    "mg_heap ((mg_emit es (put_stream a s2 mg1))\<lparr>mg_pull := m\<rparr>) = (mg_heap mg1)(a \<mapsto> s2)" for es m
    by (simp_all add: put_stream_def)
  moreover have "mg_pull (x\<lparr>mg_pull := m\<rparr>) = m" for x :: "('q, 'c) stream_manager" and m by simp
  ultimately show ?thesis using same o(3) unfolding av by blast
qed

subsection \<open>The offer of a stream\<close>

text \<open>
  \<open>offer\<close> is the SDP text of the stream's local description, which has a section for each kind of media
  the stream was asked to carry.
\<close>

definition stream_offers :: "('q, 'c) stream_services \<Rightarrow> ('q, 'c) rtc_stream \<Rightarrow> string \<Rightarrow> bool" where
  "stream_offers rv t offer \<longleftrightarrow>
     (\<exists>sd. pn_local_desc (rs_pc t) = Some sd \<and> offer = sd_to_string (rv_sdp rv) (rv_server_addr rv) sd
        \<and> map mc_mid (sd_contents sd) = (if rs_audio t then [''audio''] else []) @ (if rs_video t then [''video''] else []))"

lemma stream_offer_text:
  assumes "stream_create_offer rv (snd (stream_start (Some cert) s)) g = Some (offer, t, g')"
  shows "stream_offers rv t offer \<and> rs_audio t = rs_audio s \<and> rs_video t = rs_video s"
proof -
  let ?st = "snd (stream_start (Some cert) s)"
  have o: "(if rs_type ?st = k_push then push_options ?st else pull_options ?st) = stream_options s"
    by (simp add: stream_options_def stream_start_def pn_init_def push_options_def pull_options_def)
  obtain pc where "create_offer (rv_sdp rv) (rv_media rv) (rv_server_addr rv) (rv_rnd1 rv) (rv_rnd2 rv) (rv_gather rv)
      (rv_addrs rv) (stream_options s) (rs_pc ?st) g = Some (offer, pc, g')" "t = ?st\<lparr>rs_pc := pc\<rparr>"
    using assms by (auto simp: stream_create_offer_def o)
  moreover from offer_text [OF this(1), of cert]
  have "\<exists>sd. pn_local_desc pc = Some sd \<and> offer = sd_to_string (rv_sdp rv) (rv_server_addr rv) sd
      \<and> map mc_mid (sd_contents sd) = offer_mids (stream_options s)"
    by (simp add: stream_start_def pn_init_def)
  ultimately show ?thesis
    using stream_mids [of s] by (auto simp: stream_offers_def stream_start_def pn_init_def)
qed

text \<open>The stream that a request made, and the offer it gets.\<close>

definition made_stream ::
  "('q, 'c) stream_services \<Rightarrow> stream_type \<Rightarrow> u64 \<Rightarrow> string \<Rightarrow> bool \<Rightarrow> bool \<Rightarrow> string \<Rightarrow> ('q, 'c) rtc_stream option \<Rightarrow> bool" where
  "made_stream rv ty uid name audio video offer x \<longleftrightarrow>
     (\<exists>t. x = Some t \<and> rs_type t = ty \<and> rs_uid t = uid \<and> rs_name t = name \<and> rs_audio t = audio \<and> rs_video t = video
        \<and> stream_offers rv t offer)"

lemma made_streamI:
  assumes "stream_create_offer rv (snd (stream_start (Some cert) s)) g = Some (offer, t, g')"
    and "rs_type s = ty" "rs_uid s = uid" "rs_name s = name" "rs_audio s = audio" "rs_video s = video"
  shows "made_stream rv ty uid name audio video offer (Some t)"
  using stream_offer_text [OF assms(1)] start_offer_same [OF assms(1)] assms(2-)
  by (auto simp: made_stream_def same_stream_def)

lemma push_offered:
  assumes "create_push_stream rv a uid name audio video log_id (Some cert) mg g = Some (ret, offer, mg', g')"
  shows "made_stream rv k_push uid name audio video offer (mg_heap mg' a)"
proof -
  let ?s = "register_listener (new_stream k_push uid name audio video log_id)"
  obtain t g1 where "stream_create_offer rv (snd (stream_start (Some cert) ?s)) g = Some (offer, t, g1)"
      "mg_heap mg' a = Some t"
    using assms by (auto simp: create_push_stream_def Let_def mg_emit_def put_stream_def split: option.splits prod.splits)
  then show ?thesis using made_streamI [of rv cert ?s g offer t g1] by simp
qed

lemma pull_offered:
  assumes "create_pull_stream rv a uid name audio video log_id (Some cert) mg g = Some (0, offer, mg', g')"
  shows "made_stream rv k_pull uid name audio video offer (mg_heap mg' a)"
proof -
  obtain as vs t g1 where "stream_create_offer rv (snd (stream_start (Some cert)
       (stream_add_sources as vs (register_listener (new_stream k_pull uid name audio video log_id))))) g = Some (offer, t, g1)"
      "mg_heap mg' a = Some t"
    using assms by (auto simp: create_pull_stream_def Let_def mg_emit_def put_stream_def split: option.splits prod.splits)
  then show ?thesis
    using made_streamI [of rv cert "stream_add_sources as vs (register_listener (new_stream k_pull uid name audio video log_id))"
        g offer t g1] by (simp add: stream_add_sources_def)
qed

text \<open>A publisher is always admitted: in every reachable state, with a certificate, creating a push
  stream returns 0 with an offer, enters the new stream under its name, deletes the stream it
  replaces and leaves the other entries alone.\<close>

theorem publisher_admitted:
  assumes "manager_reachable mg" "rv_addrs rv = (d, b) # rest"
  shows "\<exists>offer mg' g'. create_push_stream rv a uid name audio video log_id (Some cert) mg g = Some (0, offer, mg', g')
     \<and> map_of (mg_push mg') = (map_of (mg_push mg))(name \<mapsto> a) \<and> mg_pull mg' = mg_pull mg
     \<and> (\<forall>old. map_of (mg_push mg) name = Some old \<and> old \<noteq> a \<longrightarrow> mg_heap mg' old = None)"
  using push_created [OF manager_reachable_ok [OF assms(1)] assms(2)] .

text \<open>C36: A second subscriber with another user identifier takes over the entry of the stream, but the
  first one is not deleted: it stays live, as its owner's stop request finds the new entry and does
  nothing, and its own timeout removes nothing.\<close>

theorem second_puller_leaks:
  assumes "manager_reachable mg" "rv_addrs rv = (d, b) # rest" "map_of (mg_push mg) name = Some p"
    and "map_of (mg_pull mg) name = Some old" "mg_heap mg old = Some s" "rs_uid s \<noteq> uid" "mg_heap mg a = None"
  shows "\<exists>offer mg' g'. create_pull_stream rv a uid name audio video log_id (Some cert) mg g = Some (0, offer, mg', g')
     \<and> map_of (mg_pull mg') name = Some a \<and> mg_heap mg' old = Some s
     \<and> stop_pull (rs_uid s) name mg' = Some (0, mg') \<and> ice_timeout_cb old mg' = Some mg'"
proof -
  note ok = manager_reachable_ok [OF assms(1)]
  have s: "rs_type s = k_pull" "rs_name s = name" using pull_entryD [OF ok assms(4)] assms(5) by auto
  have r: "remove_pull_stream uid name mg = Some mg"
    using assms(4-6) by (simp add: remove_pull_stream_def find_pull_stream_def)
  obtain offer mg' g' t where c: "create_pull_stream rv a uid name audio video log_id (Some cert) mg g = Some (0, offer, mg', g')"
     "mg_pull mg' = AList.update name a (mg_pull mg)" "mg_heap mg' = (mg_heap mg)(a \<mapsto> t)" "rs_uid t = uid"
    using pull_created [OF ok assms(2,3) r] by blast
  have "old \<noteq> a" using assms(5,7) by auto
  then have o: "mg_heap mg' old = Some s" using c(3) assms(5) by simp
  have m: "map_of (mg_pull mg') name = Some a" using c(2) by (simp add: update_conv')
  have stop: "remove_pull_stream (rs_uid s) name mg' = Some mg'"
    using m c(3,4) assms(6) by (simp add: remove_pull_stream_def find_pull_stream_def)
  have "ice_timeout_cb old mg' = Some mg'"
    using o s stop by (simp add: ice_timeout_cb_def mg_on_stream_exception_def remove_stream_def)
  then show ?thesis using c(1) m o stop by (auto simp: stop_pull_def)
qed

subsection \<open>Video without audio\<close>

text \<open>
  What happens to a peer connection after its offer: answers, packets and timer ticks of its channels (which
  carry the handshake and key the transports), and packets sent on it. Its SRTP transports stay the same.
\<close>

inductive pc_later :: "('q, 'c) peer_connection \<Rightarrow> ('q, 'c) peer_connection \<Rightarrow> bool" for pc where
  pl_here: "pc_later pc pc"
| pl_answer: "pc_later pc pc1 \<Longrightarrow> set_remote_sdp sl sv now sdp pc1 g = Some (ret, pc2, g') \<Longrightarrow> pc_later pc pc2"
| pl_channel: "pc_later pc pc1 \<Longrightarrow> pn_channel_op sv name f pc1 g = Some (pc2, g') \<Longrightarrow> pc_later pc pc2"
| pl_rtp: "pc_later pc pc1 \<Longrightarrow> pn_send_rtp sv sent data pc1 = Some (ret, pc2) \<Longrightarrow> pc_later pc pc2"
| pl_rtcp: "pc_later pc pc1 \<Longrightarrow> pn_send_rtcp sv sent data pc1 = Some (ret, pc2) \<Longrightarrow> pc_later pc pc2"

lemma pc_later_view: "pc_later pc pc' \<Longrightarrow> view (pn_controller pc') = view (pn_controller pc)"
proof (induction rule: pc_later.induct)
  case (pl_answer pc1 sl sv now sdp g ret pc2 g')
  then show ?case
    by (auto simp: set_remote_sdp_def Let_def dest!: view_set_remote split: option.splits if_splits)
next
  case (pl_channel pc1 sv name f g pc2 g')
  then show ?case by (auto simp: pn_channel_op_def dest!: view_channel_op)
next
  case (pl_rtp pc1 sv sent data ret pc2)
  then show ?case by (auto simp: pn_send_rtp_def dest!: view_send(1))
next
  case (pl_rtcp pc1 sv sent data ret pc2)
  then show ?case by (auto simp: pn_send_rtcp_def dest!: view_send(2))
qed simp

lemma pc_later_transports:
  "pc_later pc pc' \<Longrightarrow> ctl_srtp_by_name (pn_controller pc') = ctl_srtp_by_name (pn_controller pc)"
  using pc_later_view [of pc pc'] by (simp add: view_def)

text \<open>A publisher's packets, when the subscriber has no transport \<open>audio\<close>.\<close>

lemma no_audio_dropped:
  assumes "map_of (mg_pull mg) (rs_name s) = Some a" "mg_heap mg a = Some t" "mg_heap mg p = Some s" "rs_type s = k_push"
    and "get_dtls_srtp_transport ''audio'' (pn_controller (rs_pc t)) = None"
  shows "stream_signal sv sent p (PcRtp packet) mg = Some mg \<and> stream_signal sv sent p (PcRtcp packet) mg = Some mg"
proof -
  have "send_on (stream_send_rtp sv sent packet) (Some a) mg = Some mg"
    "send_on (stream_send_rtcp sv sent packet) (Some a) mg = Some mg"
    using assms(2,5) by (simp_all add: send_on_def stream_send_rtp_def stream_send_rtcp_def pn_send_rtp_def
        pn_send_rtcp_def ctl_send_rtp_def ctl_send_rtcp_def put_stream_same)
  then show ?thesis using assms(1,3,4)
    by (simp add: stream_signal_def mg_on_rtp_packet_def mg_on_rtcp_packet_def find_pull_stream_def)
qed

text \<open>C37: A subscriber that asked for video only gets nothing, ever. Its offer makes one SRTP transport,
  named \<open>video\<close>, and whatever happens to its peer connection afterwards (the answer, the handshake that
  keys the transport, packets) that stays its only one; in every later state of the manager in which it
  is the entry of its name, each RTP and RTCP packet of the publisher of that name leaves the whole
  manager as it was, the keyed transport included: the packets are sent over a transport named \<open>audio\<close>.\<close>

theorem video_only_starves:
  assumes "manager_reachable mg" "rv_addrs rv = (d, b) # rest" "map_of (mg_push mg) name = Some p"
  shows "\<exists>offer mg' g' t. create_pull_stream rv a uid name False True log_id (Some cert) mg g = Some (0, offer, mg', g')
     \<and> map_of (mg_pull mg') name = Some a \<and> mg_heap mg' a = Some t
     \<and> ctl_srtp_by_name (pn_controller (rs_pc t)) = [(''video'', b)]
     \<and> (\<forall>mg'' t' q s sv sent packet. pc_later (rs_pc t) (rs_pc t')
          \<and> map_of (mg_pull mg'') name = Some a \<and> mg_heap mg'' a = Some t'
          \<and> mg_heap mg'' q = Some s \<and> rs_type s = k_push \<and> rs_name s = name \<longrightarrow>
          ctl_srtp_by_name (pn_controller (rs_pc t')) = [(''video'', b)]
          \<and> stream_signal sv sent q (PcRtp packet) mg'' = Some mg''
          \<and> stream_signal sv sent q (PcRtcp packet) mg'' = Some mg'')"
proof -
  note ok = manager_reachable_ok [OF assms(1)]
  obtain mg1 where r: "remove_pull_stream uid name mg = Some mg1" using remove_pull_ok [OF ok] by blast
  obtain offer mg' g' t where c: "create_pull_stream rv a uid name False True log_id (Some cert) mg g = Some (0, offer, mg', g')"
     "mg_pull mg' = AList.update name a (mg_pull mg1)" "mg_heap mg' = (mg_heap mg1)(a \<mapsto> t)"
     "ctl_srtp_by_name (pn_controller (rs_pc t)) = [(''video'', b)]"
    using pull_created [OF ok assms(2,3) r(1), of a False True log_id cert g] by auto
  have later: "ctl_srtp_by_name (pn_controller (rs_pc t')) = [(''video'', b)]
       \<and> stream_signal sv sent q (PcRtp packet) mg'' = Some mg'' \<and> stream_signal sv sent q (PcRtcp packet) mg'' = Some mg''"
    if "pc_later (rs_pc t) (rs_pc t')" "map_of (mg_pull mg'') name = Some a" "mg_heap mg'' a = Some t'"
      "mg_heap mg'' q = Some s" "rs_type s = k_push" "rs_name s = name" for mg'' t' q s sv sent packet
  proof -
    have v: "ctl_srtp_by_name (pn_controller (rs_pc t')) = [(''video'', b)]"
      using pc_later_transports [OF that(1)] c(4) by simp
    then have "get_dtls_srtp_transport ''audio'' (pn_controller (rs_pc t')) = None"
      by (simp add: get_dtls_srtp_transport_def)
    then show ?thesis using v no_audio_dropped [of mg'' s a t' q] that(2-6) by blast
  qed
  have "map_of (mg_pull mg') name = Some a" "mg_heap mg' a = Some t" using c(2,3) by (simp_all add: update_conv')
  then show ?thesis using c(1,4) later by blast
qed

section \<open>A worker with streams\<close>

definition demo_rv :: "(bytes list, srtp_policy) stream_services" where
  "demo_rv =
     \<lparr>rv_sdp = doc_sdp_lib, rv_media = demo_media, rv_server_addr = ''192.0.2.1'',
      rv_rnd1 = (\<lambda>n. replicate n 97), rv_rnd2 = (\<lambda>n. replicate n 98),
      rv_gather = (\<lambda>ch. (demo_candidate, [(IPv4 [10, 0, 0, 1], demo_net)])), rv_addrs = [(1, 11)]\<rparr>"

definition demo_global :: srtp_global where
  "demo_global = \<lparr>g_usage_count = 0, g_initialised = False\<rparr>"

type_synonym demo_manager = "(bytes list, srtp_policy) stream_manager"

lemma demo_addrs: "rv_addrs demo_rv = (1, 11) # []"
  by (simp add: demo_rv_def)

text \<open>A publisher of \<open>room\<close> at address 1; user 6 subscribes to it at address 2.\<close>

lemma demo_publisher:
  "\<exists>mg :: demo_manager. manager_reachable mg \<and> map_of (mg_push mg) = [''room'' \<mapsto> 1] \<and> mg_pull mg = []
     \<and> (\<forall>a. a \<noteq> 1 \<longrightarrow> mg_heap mg a = None)"
proof -
  let ?s = "register_listener (new_stream k_push 5 ''room'' True True 77) :: (bytes list, srtp_policy) rtc_stream"
  obtain offer s2 g1 where o: "stream_create_offer demo_rv (snd (stream_start (Some 9) ?s)) demo_global = Some (offer, s2, g1)"
    using stream_offer_made [OF _ demo_addrs, of ?s 9 demo_global] by auto
  let ?mg = "(mg_emit [MgStartTimer 1 (k_ice_timeout * 1000)] (put_stream 1 s2 new_stream_manager))
      \<lparr>mg_push := AList.update ''room'' 1 []\<rparr> :: demo_manager"
  have "create_push_stream demo_rv 1 5 ''room'' True True 77 (Some 9) new_stream_manager demo_global = Some (0, offer, ?mg, g1)"
    using o by (simp add: create_push_stream_def find_push_stream_def new_stream_manager_def)
  then have "manager_reachable ?mg"
    by (rule mr_push [OF mr_new, rotated]) (simp add: free_for_push_def new_stream_manager_def)
  then show ?thesis
    by (intro exI [of _ ?mg]) (simp add: mg_emit_def put_stream_def new_stream_manager_def)
qed

lemma demo_subscriber:
  "\<exists>(mg :: demo_manager) t. manager_reachable mg \<and> map_of (mg_push mg) ''room'' = Some 1
     \<and> map_of (mg_pull mg) ''room'' = Some 2 \<and> mg_heap mg 2 = Some t \<and> rs_uid t = 6
     \<and> get_dtls_srtp_transport ''audio'' (pn_controller (rs_pc t)) = Some 11
     \<and> (\<forall>a. a \<noteq> 1 \<and> a \<noteq> 2 \<longrightarrow> mg_heap mg a = None)"
proof -
  obtain mg :: demo_manager where mg: "manager_reachable mg" "map_of (mg_push mg) = [''room'' \<mapsto> 1]" "mg_pull mg = []"
      "\<forall>a. a \<noteq> 1 \<longrightarrow> mg_heap mg a = None" using demo_publisher by blast
  have r: "remove_pull_stream 6 ''room'' mg = Some mg"
    using mg(3) by (simp add: remove_pull_stream_def find_pull_stream_def)
  have p: "map_of (mg_push mg) ''room'' = Some 1" using mg(2) by simp
  obtain offer mg' g' t where c: "create_pull_stream demo_rv 2 6 ''room'' True True 78 (Some 9) mg demo_global = Some (0, offer, mg', g')"
     "mg_pull mg' = AList.update ''room'' 2 (mg_pull mg)" "mg_push mg' = mg_push mg" "mg_heap mg' = (mg_heap mg)(2 \<mapsto> t)"
     "rs_uid t = 6" "ctl_srtp_by_name (pn_controller (rs_pc t)) = [(''audio'', 11)]"
    using pull_created [OF manager_reachable_ok [OF mg(1)] demo_addrs p r, of 2 True True 78 9 demo_global] by auto
  have "manager_reachable mg'"
    by (rule mr_pull [OF mg(1) _ c(1)]) (use r mg(4) in \<open>simp add: free_for_pull_def\<close>)
  then show ?thesis using p c(2-6) mg(3,4)
    by (intro exI [of _ mg'] exI [of _ t]) (simp add: get_dtls_srtp_transport_def)
qed

theorem stream_maps_witness:
  "\<exists>(mg :: demo_manager) s. map_of (mg_pull mg) ''room'' = Some 2 \<and> mg_heap mg 2 = Some s \<and> rs_type s = k_pull"
proof -
  obtain mg :: demo_manager where mg: "manager_reachable mg" "map_of (mg_pull mg) ''room'' = Some 2"
    using demo_subscriber by blast
  then show ?thesis using stream_maps [OF mg(1)] by blast
qed

theorem manager_safe_witness:
  "\<exists>mg :: demo_manager. map_of (mg_pull mg) ''room'' = Some 2
     \<and> stop_pull 6 ''room'' mg \<noteq> None \<and> ice_timeout_cb 2 mg \<noteq> None"
proof -
  obtain mg :: demo_manager and t where mg: "manager_reachable mg" "map_of (mg_pull mg) ''room'' = Some 2" "mg_heap mg 2 = Some t"
    using demo_subscriber by blast
  then show ?thesis using manager_safe [OF mg(1), of 6 "''room''" 2] by (intro exI [of _ mg]) simp
qed

theorem publisher_admitted_witness:
  "\<exists>offer (mg' :: demo_manager) g'.
     create_push_stream demo_rv 1 5 ''room'' True True 77 (Some 9) new_stream_manager demo_global = Some (0, offer, mg', g')
     \<and> map_of (mg_push mg') ''room'' = Some 1"
  using publisher_admitted [OF mr_new demo_addrs, of 1 5 "''room''" True True 77 9 demo_global]
  by (auto simp: new_stream_manager_def)

theorem second_puller_leaks_witness:
  "\<exists>(mg' :: demo_manager) s. map_of (mg_pull mg') ''room'' = Some 3 \<and> mg_heap mg' 2 = Some s \<and> rs_uid s = 6
     \<and> stop_pull 6 ''room'' mg' = Some (0, mg')"
proof -
  obtain mg :: demo_manager and t where mg: "manager_reachable mg" "map_of (mg_push mg) ''room'' = Some 1"
      "map_of (mg_pull mg) ''room'' = Some 2" "mg_heap mg 2 = Some t" "rs_uid t = 6" "mg_heap mg 3 = None"
    using demo_subscriber by force
  have "rs_uid t \<noteq> 7" using mg(5) by simp
  from second_puller_leaks [OF mg(1) demo_addrs mg(2,3,4) this mg(6), of True True 78 9 demo_global] mg(5)
  show ?thesis by auto
qed

theorem video_only_starves_witness:
  "\<exists>(mg' :: demo_manager) t. map_of (mg_pull mg') ''room'' = Some 2 \<and> mg_heap mg' 2 = Some t
     \<and> ctl_srtp_by_name (pn_controller (rs_pc t)) = [(''video'', 11)]
     \<and> stream_signal demo_media 12 1 (PcRtp demo_rtp) mg' = Some mg'"
proof -
  obtain mg :: demo_manager where mg: "manager_reachable mg" "map_of (mg_push mg) = [''room'' \<mapsto> 1]" "mg_pull mg = []"
      "\<forall>a. a \<noteq> 1 \<longrightarrow> mg_heap mg a = None" using demo_publisher by blast
  have p: "map_of (mg_push mg) ''room'' = Some 1" using mg(2) by simp
  have f: "free_for_pull 2 6 ''room'' mg"
    using mg(3,4) by (simp add: free_for_pull_def remove_pull_stream_def find_pull_stream_def)
  obtain offer mg' g' t where c: "create_pull_stream demo_rv 2 6 ''room'' False True 78 (Some 9) mg demo_global = Some (0, offer, mg', g')"
      "map_of (mg_pull mg') ''room'' = Some 2" "mg_heap mg' 2 = Some t"
      "ctl_srtp_by_name (pn_controller (rs_pc t)) = [(''video'', 11)]"
    and later: "\<forall>mg'' t' q s sv sent packet. pc_later (rs_pc t) (rs_pc t')
          \<and> map_of (mg_pull mg'') ''room'' = Some 2 \<and> mg_heap mg'' 2 = Some t'
          \<and> mg_heap mg'' q = Some s \<and> rs_type s = k_push \<and> rs_name s = ''room'' \<longrightarrow>
          ctl_srtp_by_name (pn_controller (rs_pc t')) = [(''video'', 11)]
          \<and> stream_signal sv sent q (PcRtp packet) mg'' = Some mg''
          \<and> stream_signal sv sent q (PcRtcp packet) mg'' = Some mg''"
    using video_only_starves [OF mg(1) demo_addrs p, of 2 6 78 9 demo_global] by blast
  have r: "manager_reachable mg'" by (rule mr_pull [OF mg(1) f c(1)])
  have "remove_pull_stream 6 ''room'' mg = Some mg" using mg(3) by (simp add: remove_pull_stream_def find_pull_stream_def)
  then have "map_of (mg_push mg') ''room'' = Some 1"
    using pull_created [OF manager_reachable_ok [OF mg(1)] demo_addrs p, of 6 mg 2 False True 78 9 demo_global] c(1) p by auto
  then obtain s where s: "mg_heap mg' 1 = Some s" "rs_type s = k_push" "rs_name s = ''room''"
    using push_entryD [OF manager_reachable_ok [OF r]] by blast
  have "stream_signal demo_media 12 1 (PcRtp demo_rtp) mg' = Some mg'" using later pl_here c(2,3) s by blast
  then show ?thesis using c(2-4) by blast
qed

text \<open>The subscriber's transport has been keyed by its handshake.\<close>

theorem push_packet_relayed_witness:
  "\<exists>(mg :: demo_manager) t ds. map_of (mg_pull mg) ''room'' = Some 2 \<and> mg_heap mg 2 = Some t
     \<and> audio_srtp t = Some demo_active_ds \<and> ds_events ds = [DsSent 1 (demo_rtp @ replicate 10 0)]
     \<and> stream_signal demo_media 12 1 (PcRtp demo_rtp) mg = Some (put_stream 2 (put_stream_srtp 11 ds t) mg)"
proof -
  obtain mg :: demo_manager and t where mg: "manager_reachable mg" "map_of (mg_push mg) ''room'' = Some 1"
      "map_of (mg_pull mg) ''room'' = Some 2" "mg_heap mg 2 = Some t"
      "get_dtls_srtp_transport ''audio'' (pn_controller (rs_pc t)) = Some 11"
    using demo_subscriber by blast
  obtain s where s: "mg_heap mg 1 = Some s" "rs_type s = k_push" "rs_name s = ''room''"
    using push_entryD [OF manager_reachable_ok [OF mg(1)] mg(2)] by blast
  let ?t = "put_stream_srtp 11 demo_active_ds t"
  let ?mg = "put_stream 2 ?t mg"
  have "stream_pc_op demo_media 12 2 (\<lambda>pc g. Some (rs_pc ?t, g)) mg demo_global = Some (?mg, demo_global)"
    using mg(4) by (simp add: stream_pc_op_def put_stream_srtp_def)
  from mr_pc [OF mg(1) this] have r: "manager_reachable ?mg" .
  have h: "mg_heap ?mg 1 = Some s" "mg_heap ?mg 2 = Some ?t" "map_of (mg_pull ?mg) (rs_name s) = Some 2"
    using s mg(3) by (simp_all add: put_stream_def)
  have a: "get_dtls_srtp_transport ''audio'' (pn_controller (rs_pc ?t)) = Some 11"
      "ctl_srtp_heap (pn_controller (rs_pc ?t)) 11 = Some demo_active_ds"
    using mg(5) by (simp_all add: get_dtls_srtp_transport_def put_stream_srtp_def put_srtp_def)
  have p: "sr_protect (ms_srtp demo_media) (session_policy 1 demo_keys) demo_rtp =
      (True, demo_rtp @ replicate 10 0, session_policy 1 demo_keys)"
    by (simp add: demo_media_def demo_srtp_def)
  have k: "ss_session demo_session = Some (session_policy 1 demo_keys)" by (simp add: demo_session_def)
  have l: "12 \<le> length demo_rtp" by (simp add: demo_rtp_def)
  let ?ds = "srtp_sent 1 True (demo_rtp @ replicate 10 0) (session_policy 1 demo_keys) demo_session demo_rtp demo_active_ds"
  have "stream_signal demo_media 12 1 (PcRtp demo_rtp) ?mg = Some (put_stream 2 (put_stream_srtp 11 ?ds ?t) ?mg)"
    using push_packet_relayed [OF r h(1) s(2) h(3) h(2) a demo_active_facts(1,2) k demo_active_facts(4) l p, of 12] by blast
  moreover have "ds_events ?ds = [DsSent 1 (demo_rtp @ replicate 10 0)]"
    using demo_active_facts(5) by (simp add: srtp_sent_def)
  moreover have "map_of (mg_pull ?mg) ''room'' = Some 2" using mg(3) by (simp add: put_stream_def)
  moreover have "audio_srtp ?t = Some demo_active_ds" using a by (simp add: audio_srtp_def)
  ultimately show ?thesis using h(2) by blast
qed

end
