(* ===== verification/ServerInvariant.thy ===== *)
theory ServerInvariant
  imports Servers StreamInvariant
begin

text \<open>
  Properties of the servers: the RTC server hands every message, in order and with its certificate,
  to the worker that the stream's name selects; the signaling server deals connections out evenly;
  an RTC worker answers every request it takes from its queue.
\<close>

subsection \<open>Routing\<close>

lemma process_one:
  assumes "rsv_certificate srv = Some c" "\<not> expired c" "rsv_q_msg srv = m # ms"
    and "length (rsv_workers srv) \<noteq> 0" "int (length (rsv_workers srv)) = rsv_worker_num srv"
  shows "rsv_process_rtc_msg crc expired gen srv = srv\<lparr>rsv_q_msg := ms,
     rsv_events := rsv_events srv @ [RsToWorker (rsv_workers srv ! (unat (crc (m_stream_name m)) mod length (rsv_workers srv)))
        (m\<lparr>m_certificate := Some c\<rparr>)]\<rparr>"
proof -
  have "nat (rsv_worker_num srv) = length (rsv_workers srv)" using assms(5) by (metis nat_int)
  then show ?thesis
    using assms
    by (simp add: rsv_process_rtc_msg_def rsv_pop_msg_def generate_and_check_certificate_def get_worker_def rsv_emit_def)
qed

text \<open>C26: Every message queued at the RTC server goes to exactly one worker, the one the checksum of its
  stream name selects, so all messages of a stream meet the same worker, in the order they were
  queued, each with the server's certificate.\<close>

theorem messages_routed:
  assumes "rsv_certificate srv = Some c" "\<not> expired c" "rsv_q_msg srv = ms"
    and "rsv_workers srv \<noteq> []" "int (length (rsv_workers srv)) = rsv_worker_num srv"
  shows "(rsv_process_rtc_msg crc expired gen ^^ length ms) srv = srv\<lparr>rsv_q_msg := [],
     rsv_events := rsv_events srv @
       map (\<lambda>m. RsToWorker (rsv_workers srv ! (unat (crc (m_stream_name m)) mod length (rsv_workers srv)))
                  (m\<lparr>m_certificate := Some c\<rparr>)) ms\<rparr>"
  using assms
proof (induction ms arbitrary: srv)
  case Nil
  then show ?case by simp
next
  case (Cons m ms)
  have l: "length (rsv_workers srv) \<noteq> 0" using Cons.prems(4) by simp
  note one = process_one [where expired = expired, OF Cons.prems(1,2,3) l Cons.prems(5), of crc gen]
  show ?case
    unfolding list.size funpow_Suc_right comp_def add_0_right add_Suc_right one
    by (subst Cons.IH) (use Cons.prems in simp_all)
qed

text \<open>The connections in the order they were accepted.\<close>

fun dispatch_all :: "int list \<Rightarrow> signaling_server \<Rightarrow> signaling_server option" where
  "dispatch_all [] srv = Some srv"
| "dispatch_all (fd # fds) srv = Option.bind (dispatch_new_conn fd srv) (dispatch_all fds)"

lemma dispatch_one:
  assumes "sgs_next_worker_index srv < length (sgs_workers srv)"
  shows "dispatch_new_conn fd srv = Some (srv\<lparr>
     sgs_next_worker_index := Suc (sgs_next_worker_index srv) mod length (sgs_workers srv),
     sgs_events := sgs_events srv @ [SsNewConn (sgs_workers srv ! sgs_next_worker_index srv) fd]\<rparr>)"
proof (cases "Suc (sgs_next_worker_index srv) = length (sgs_workers srv)")
  case True
  then show ?thesis using assms by (simp add: dispatch_new_conn_def Let_def sgs_emit_def)
next
  case False
  then show ?thesis using assms by (simp add: dispatch_new_conn_def Let_def sgs_emit_def)
qed

text \<open>C33: Accepted connections go to the signaling workers in turn: with \<open>k\<close> workers the \<open>j\<close>-th one goes to
  the worker \<open>j\<close> places after the next, modulo \<open>k\<close>, and the index never leaves the vector.\<close>

theorem connections_dealt:
  assumes "sgs_next_worker_index srv < length (sgs_workers srv)"
  shows "dispatch_all fds srv = Some (srv\<lparr>
     sgs_next_worker_index := (sgs_next_worker_index srv + length fds) mod length (sgs_workers srv),
     sgs_events := sgs_events srv @
       map (\<lambda>j. SsNewConn (sgs_workers srv ! ((sgs_next_worker_index srv + j) mod length (sgs_workers srv))) (fds ! j))
         [0..<length fds]\<rparr>)"
  using assms
proof (induction fds arbitrary: srv)
  case Nil
  then show ?case by simp
next
  case (Cons fd fds)
  let ?k = "length (sgs_workers srv)" and ?i = "sgs_next_worker_index srv"
  let ?srv = "srv\<lparr>sgs_next_worker_index := Suc ?i mod ?k, sgs_events := sgs_events srv @ [SsNewConn (sgs_workers srv ! ?i) fd]\<rparr>"
  have "0 < ?k" using Cons.prems by linarith
  then have "sgs_next_worker_index ?srv < length (sgs_workers ?srv)" by simp
  note ih = Cons.IH [OF this]
  have idx: "map (\<lambda>j. SsNewConn (sgs_workers srv ! ((?i + j) mod ?k)) ((fd # fds) ! j)) [0..<length (fd # fds)]
      = SsNewConn (sgs_workers srv ! ?i) fd
        # map (\<lambda>j. SsNewConn (sgs_workers srv ! ((Suc ?i mod ?k + j) mod ?k)) (fds ! j)) [0..<length fds]"
    using Cons.prems
    by (simp add: map_upt_Suc mod_simps del: upt_Suc)
  show ?case
    unfolding dispatch_all.simps dispatch_one [OF Cons.prems] Option.bind.simps(2) ih idx
    by (simp add: mod_simps)
qed


subsection \<open>The RTC worker\<close>

lemma pop_front:
  assumes "lfq_rep (rw_q_msg w) (m # ms)"
  shows "\<exists>q. rw_pop_msg w = Some (Some m, w\<lparr>rw_q_msg := q\<rparr>) \<and> lfq_rep q ms"
  using lf_queue.deq_Cons_law [OF assms] by (auto simp: rw_pop_msg_def)

lemmas cmdno_defs = CMDNO_PUSH_def CMDNO_PULL_def CMDNO_STOPPUSH_def CMDNO_STOPPULL_def CMDNO_ANSWER_def

text \<open>
  The stream at address \<open>a\<close> is the one the message asks for, and the offer is the text of its local
  description.
\<close>

definition made_for ::
  "('q, 'c) stream_services \<Rightarrow> stream_type \<Rightarrow> rtc_msg \<Rightarrow> string \<Rightarrow> nat \<Rightarrow> ('q, 'c) stream_manager \<Rightarrow> bool" where
  "made_for rv ty msg offer a mg \<longleftrightarrow>
     made_stream rv ty (m_uid msg) (m_stream_name msg) (m_audio msg \<noteq> 0) (m_video msg \<noteq> 0) offer (mg_heap mg a)"

text \<open>The first message \<open>msg\<close> of the queue, for every command but \<open>answer\<close>.\<close>

lemma push_answered:
  assumes "lfq_rep (rw_q_msg w) (msg # msgs)" "manager_reachable (rw_mgr w)" "rv_addrs rv = (d, b) # rest"
    and "m_certificate msg = Some cert" "m_worker msg = Some sw" "m_cmdno msg = CMDNO_PUSH"
  shows "\<exists>w' g' offer. rw_process_rtc_msg rv now sent a w g = Some (w', g') \<and> lfq_rep (rw_q_msg w') msgs
     \<and> rw_events w' = rw_events w @ [RwReply sw (msg\<lparr>m_sdp := offer\<rparr>)]
     \<and> made_for rv k_push msg offer a (rw_mgr w')
     \<and> map_of (mg_push (rw_mgr w')) = (map_of (mg_push (rw_mgr w)))(m_stream_name msg \<mapsto> a)
     \<and> mg_pull (rw_mgr w') = mg_pull (rw_mgr w)"
proof -
  obtain q where q: "rw_pop_msg w = Some (Some msg, w\<lparr>rw_q_msg := q\<rparr>)" "lfq_rep q msgs"
    using pop_front [OF assms(1)] by blast
  obtain offer mg' g' where c: "create_push_stream rv a (m_uid msg) (m_stream_name msg) (m_audio msg \<noteq> 0)
      (m_video msg \<noteq> 0) (m_log_id msg) (Some cert) (rw_mgr w) g = Some (0, offer, mg', g')"
      "map_of (mg_push mg') = (map_of (mg_push (rw_mgr w)))(m_stream_name msg \<mapsto> a)" "mg_pull mg' = mg_pull (rw_mgr w)"
    using push_created [OF manager_reachable_ok [OF assms(2)] assms(3), of a "m_uid msg" "m_stream_name msg"
        "m_audio msg \<noteq> 0" "m_video msg \<noteq> 0" "m_log_id msg" cert g] by blast
  have "made_for rv k_push msg offer a mg'" using push_offered [OF c(1)] by (simp add: made_for_def)
  then show ?thesis
    using assms(4-6) q c by (simp add: rw_process_rtc_msg_def rw_process_push_def rw_reply_def rw_emit_def Let_def) blast
qed

lemma pull_answered:
  assumes "lfq_rep (rw_q_msg w) (msg # msgs)" "manager_reachable (rw_mgr w)" "rv_addrs rv = (d, b) # rest"
    and "m_certificate msg = Some cert" "m_worker msg = Some sw" "m_cmdno msg = CMDNO_PULL"
    and "map_of (mg_push (rw_mgr w)) (m_stream_name msg) = Some p"
  shows "\<exists>w' g' offer. rw_process_rtc_msg rv now sent a w g = Some (w', g') \<and> lfq_rep (rw_q_msg w') msgs
     \<and> rw_events w' = rw_events w @ [RwReply sw (msg\<lparr>m_sdp := offer\<rparr>)]
     \<and> made_for rv k_pull msg offer a (rw_mgr w')
     \<and> map_of (mg_pull (rw_mgr w')) = (map_of (mg_pull (rw_mgr w)))(m_stream_name msg \<mapsto> a)
     \<and> mg_push (rw_mgr w') = mg_push (rw_mgr w)"
proof -
  note ok = manager_reachable_ok [OF assms(2)]
  obtain q where q: "rw_pop_msg w = Some (Some msg, w\<lparr>rw_q_msg := q\<rparr>)" "lfq_rep q msgs"
    using pop_front [OF assms(1)] by blast
  obtain mg1 where r: "remove_pull_stream (m_uid msg) (m_stream_name msg) (rw_mgr w) = Some mg1"
    using remove_pull_ok [OF ok] by blast
  obtain offer mg' g' where c: "create_pull_stream rv a (m_uid msg) (m_stream_name msg) (m_audio msg \<noteq> 0)
      (m_video msg \<noteq> 0) (m_log_id msg) (Some cert) (rw_mgr w) g = Some (0, offer, mg', g')"
      "mg_pull mg' = AList.update (m_stream_name msg) a (mg_pull mg1)" "mg_push mg' = mg_push mg1"
    using pull_created [OF ok assms(3,7) r, of a "m_audio msg \<noteq> 0" "m_video msg \<noteq> 0" "m_log_id msg" cert g] by blast
  have "made_for rv k_pull msg offer a mg'" using pull_offered [OF c(1)] by (simp add: made_for_def)
  moreover have "map_of (mg_pull mg') = (map_of (mg_pull (rw_mgr w)))(m_stream_name msg \<mapsto> a)"
    "mg_push mg' = mg_push (rw_mgr w)"
    using c(2,3) removed_pull_maps [OF r] by (auto simp: update_conv')
  ultimately show ?thesis
    using q c(1) assms(4-6)
    by (simp add: rw_process_rtc_msg_def rw_process_pull_def rw_reply_def rw_emit_def Let_def cmdno_defs) blast
qed

lemma unknown_pull_answered:
  assumes "lfq_rep (rw_q_msg w) (msg # msgs)" "m_worker msg = Some sw"
    and "m_cmdno msg = CMDNO_PULL" "map_of (mg_push (rw_mgr w)) (m_stream_name msg) = None"
  shows "\<exists>w'. rw_process_rtc_msg rv now sent a w g = Some (w', g) \<and> lfq_rep (rw_q_msg w') msgs
     \<and> rw_events w' = rw_events w @ [RwReply sw (msg\<lparr>m_sdp := [], m_err_no := - 1\<rparr>)] \<and> rw_mgr w' = rw_mgr w"
proof -
  obtain q where "rw_pop_msg w = Some (Some msg, w\<lparr>rw_q_msg := q\<rparr>)" "lfq_rep q msgs"
    using pop_front [OF assms(1)] by blast
  then show ?thesis
    using assms(2-4)
    by (simp add: rw_process_rtc_msg_def rw_process_pull_def rw_reply_def rw_emit_def Let_def cmdno_defs
        create_pull_stream_def find_push_stream_def)
qed

text \<open>
  A stop request of user \<open>uid\<close>, over the map \<open>m\<close> of its kind: the entry goes and its stream is deleted when
  the stream is the user's own; otherwise nothing changes.
\<close>

definition stopped ::
  "(('q, 'c) stream_manager \<Rightarrow> (string \<times> nat) list) \<Rightarrow> u64 \<Rightarrow> string \<Rightarrow> ('q, 'c) stream_manager
     \<Rightarrow> ('q, 'c) stream_manager \<Rightarrow> bool" where
  "stopped m uid name mg mg' \<longleftrightarrow>
     (case map_of (m mg) name of
        None \<Rightarrow> mg' = mg
      | Some p \<Rightarrow>
          (\<exists>s. mg_heap mg p = Some s
             \<and> (if uid = rs_uid s
                then map_of (m mg') = (map_of (m mg))(name := None) \<and> mg_heap mg' = (mg_heap mg)(p := None)
                   \<and> mg_dying mg' = mg_dying mg @ [pn_destroy (rs_pc s)]
                else mg' = mg)))"

lemma stop_push_stopped:
  assumes "mg_ok mg"
  shows "\<exists>mg'. stop_push uid name mg = Some (0, mg') \<and> stopped mg_push uid name mg mg' \<and> mg_pull mg' = mg_pull mg"
proof (cases "map_of (mg_push mg) name")
  case None
  then show ?thesis by (simp add: stop_push_def remove_push_stream_def find_push_stream_def stopped_def)
next
  case (Some p)
  obtain s where "mg_heap mg p = Some s" using push_entryD [OF assms Some] by blast
  then show ?thesis using Some
    by (simp add: stop_push_def remove_push_stream_def find_push_stream_def stopped_def delete_stream_def mg_emit_def
        delete_conv')
qed

lemma stop_pull_stopped:
  assumes "mg_ok mg"
  shows "\<exists>mg'. stop_pull uid name mg = Some (0, mg') \<and> stopped mg_pull uid name mg mg' \<and> mg_push mg' = mg_push mg"
proof (cases "map_of (mg_pull mg) name")
  case None
  then show ?thesis by (simp add: stop_pull_def remove_pull_stream_def find_pull_stream_def stopped_def)
next
  case (Some p)
  obtain s where "mg_heap mg p = Some s" using pull_entryD [OF assms Some] by blast
  then show ?thesis using Some
    by (simp add: stop_pull_def remove_pull_stream_def find_pull_stream_def stopped_def delete_stream_def mg_emit_def
        delete_conv')
qed

lemma stop_done:
  assumes "lfq_rep (rw_q_msg w) (msg # msgs)" "mg_ok (rw_mgr w)"
  shows "m_cmdno msg = CMDNO_STOPPUSH \<Longrightarrow> \<exists>w'. rw_process_rtc_msg rv now sent a w g = Some (w', g)
       \<and> lfq_rep (rw_q_msg w') msgs \<and> rw_events w' = rw_events w
       \<and> stopped mg_push (m_uid msg) (m_stream_name msg) (rw_mgr w) (rw_mgr w') \<and> mg_pull (rw_mgr w') = mg_pull (rw_mgr w)"
    and "m_cmdno msg = CMDNO_STOPPULL \<Longrightarrow> \<exists>w'. rw_process_rtc_msg rv now sent a w g = Some (w', g)
       \<and> lfq_rep (rw_q_msg w') msgs \<and> rw_events w' = rw_events w
       \<and> stopped mg_pull (m_uid msg) (m_stream_name msg) (rw_mgr w) (rw_mgr w') \<and> mg_push (rw_mgr w') = mg_push (rw_mgr w)"
proof -
  obtain q where q: "rw_pop_msg w = Some (Some msg, w\<lparr>rw_q_msg := q\<rparr>)" "lfq_rep q msgs"
    using pop_front [OF assms(1)] by blast
  obtain mg1 where "stop_push (m_uid msg) (m_stream_name msg) (rw_mgr w) = Some (0, mg1)"
      "stopped mg_push (m_uid msg) (m_stream_name msg) (rw_mgr w) mg1" "mg_pull mg1 = mg_pull (rw_mgr w)"
    using stop_push_stopped [OF assms(2)] by blast
  then show "\<exists>w'. rw_process_rtc_msg rv now sent a w g = Some (w', g) \<and> lfq_rep (rw_q_msg w') msgs \<and> rw_events w' = rw_events w
       \<and> stopped mg_push (m_uid msg) (m_stream_name msg) (rw_mgr w) (rw_mgr w') \<and> mg_pull (rw_mgr w') = mg_pull (rw_mgr w)"
    if "m_cmdno msg = CMDNO_STOPPUSH"
    using that q by (simp add: rw_process_rtc_msg_def rw_process_stop_push_def cmdno_defs)
  obtain mg2 where "stop_pull (m_uid msg) (m_stream_name msg) (rw_mgr w) = Some (0, mg2)"
      "stopped mg_pull (m_uid msg) (m_stream_name msg) (rw_mgr w) mg2" "mg_push mg2 = mg_push (rw_mgr w)"
    using stop_pull_stopped [OF assms(2)] by blast
  then show "\<exists>w'. rw_process_rtc_msg rv now sent a w g = Some (w', g) \<and> lfq_rep (rw_q_msg w') msgs \<and> rw_events w' = rw_events w
       \<and> stopped mg_pull (m_uid msg) (m_stream_name msg) (rw_mgr w) (rw_mgr w') \<and> mg_push (rw_mgr w') = mg_push (rw_mgr w)"
    if "m_cmdno msg = CMDNO_STOPPULL"
    using that q by (simp add: rw_process_rtc_msg_def rw_process_stop_pull_def cmdno_defs)
qed

text \<open>C21: An RTC worker serves the first request of its queue, in every reachable state of its streams.
  A push, and a pull of a published stream, make the stream the message asks for and enter it under its
  name, the other entries staying; the one reply goes to the signaling worker the request came from and
  its offer is the SDP text of the new stream's local description, with a section for each kind of media
  asked for. A pull of an unknown stream gets error -1 and changes nothing. A stop request (it names no
  signaling worker) deletes the stream and its entry when the stream is the user's own, changes nothing
  otherwise, and gets no reply.\<close>

theorem worker_answers:
  assumes "lfq_rep (rw_q_msg w) (msg # msgs)" "manager_reachable (rw_mgr w)" "rv_addrs rv = (d, b) # rest"
  shows "(m_cmdno msg = CMDNO_PUSH \<and> m_worker msg = Some sw \<and> m_certificate msg = Some cert \<longrightarrow>
       (\<exists>w' g' offer. rw_process_rtc_msg rv now sent a w g = Some (w', g') \<and> lfq_rep (rw_q_msg w') msgs
          \<and> rw_events w' = rw_events w @ [RwReply sw (msg\<lparr>m_sdp := offer\<rparr>)]
          \<and> made_for rv k_push msg offer a (rw_mgr w')
          \<and> map_of (mg_push (rw_mgr w')) = (map_of (mg_push (rw_mgr w)))(m_stream_name msg \<mapsto> a)
          \<and> mg_pull (rw_mgr w') = mg_pull (rw_mgr w)))
    \<and> (m_cmdno msg = CMDNO_PULL \<and> m_worker msg = Some sw \<and> m_certificate msg = Some cert
         \<and> map_of (mg_push (rw_mgr w)) (m_stream_name msg) \<noteq> None \<longrightarrow>
       (\<exists>w' g' offer. rw_process_rtc_msg rv now sent a w g = Some (w', g') \<and> lfq_rep (rw_q_msg w') msgs
          \<and> rw_events w' = rw_events w @ [RwReply sw (msg\<lparr>m_sdp := offer\<rparr>)]
          \<and> made_for rv k_pull msg offer a (rw_mgr w')
          \<and> map_of (mg_pull (rw_mgr w')) = (map_of (mg_pull (rw_mgr w)))(m_stream_name msg \<mapsto> a)
          \<and> mg_push (rw_mgr w') = mg_push (rw_mgr w)))
    \<and> (m_cmdno msg = CMDNO_PULL \<and> m_worker msg = Some sw
         \<and> map_of (mg_push (rw_mgr w)) (m_stream_name msg) = None \<longrightarrow>
       (\<exists>w'. rw_process_rtc_msg rv now sent a w g = Some (w', g) \<and> lfq_rep (rw_q_msg w') msgs
          \<and> rw_events w' = rw_events w @ [RwReply sw (msg\<lparr>m_sdp := [], m_err_no := - 1\<rparr>)]
          \<and> rw_mgr w' = rw_mgr w))
    \<and> (m_cmdno msg = CMDNO_STOPPUSH \<longrightarrow>
       (\<exists>w'. rw_process_rtc_msg rv now sent a w g = Some (w', g) \<and> lfq_rep (rw_q_msg w') msgs
          \<and> rw_events w' = rw_events w \<and> stopped mg_push (m_uid msg) (m_stream_name msg) (rw_mgr w) (rw_mgr w')
          \<and> mg_pull (rw_mgr w') = mg_pull (rw_mgr w)))
    \<and> (m_cmdno msg = CMDNO_STOPPULL \<longrightarrow>
       (\<exists>w'. rw_process_rtc_msg rv now sent a w g = Some (w', g) \<and> lfq_rep (rw_q_msg w') msgs
          \<and> rw_events w' = rw_events w \<and> stopped mg_pull (m_uid msg) (m_stream_name msg) (rw_mgr w) (rw_mgr w')
          \<and> mg_push (rw_mgr w') = mg_push (rw_mgr w)))"
proof (intro conjI impI; (elim conjE)?)
  assume "m_cmdno msg = CMDNO_PULL" "m_worker msg = Some sw" "m_certificate msg = Some cert"
    "map_of (mg_push (rw_mgr w)) (m_stream_name msg) \<noteq> None"
  then show "\<exists>w' g' offer. rw_process_rtc_msg rv now sent a w g = Some (w', g') \<and> lfq_rep (rw_q_msg w') msgs
      \<and> rw_events w' = rw_events w @ [RwReply sw (msg\<lparr>m_sdp := offer\<rparr>)] \<and> made_for rv k_pull msg offer a (rw_mgr w')
      \<and> map_of (mg_pull (rw_mgr w')) = (map_of (mg_pull (rw_mgr w)))(m_stream_name msg \<mapsto> a)
      \<and> mg_push (rw_mgr w') = mg_push (rw_mgr w)"
    using pull_answered [OF assms] by blast
qed (rule push_answered [OF assms] unknown_pull_answered [OF assms(1)]
       stop_done [OF assms(1) manager_reachable_ok [OF assms(2)]]; assumption)+

subsection \<open>Concrete servers\<close>

definition demo_rtc_server :: rtc_server where
  "demo_rtc_server = (new_rtc_server 2)
     \<lparr>rsv_workers := [31, 32], rsv_certificate := Some 9,
      rsv_q_msg := [new_rtc_msg\<lparr>m_stream_name := ''room''\<rparr>, new_rtc_msg\<lparr>m_stream_name := ''hall''\<rparr>,
        new_rtc_msg\<lparr>m_stream_name := ''room'', m_uid := 6\<rparr>]\<rparr>"

definition demo_crc :: "string \<Rightarrow> u32" where
  "demo_crc name = (if name = ''room'' then 7 else 4)"

theorem messages_routed_witness:
  "rsv_events ((rsv_process_rtc_msg demo_crc (\<lambda>c. False) None ^^ 3) demo_rtc_server) =
     [RsToWorker 32 (new_rtc_msg\<lparr>m_stream_name := ''room'', m_certificate := Some 9\<rparr>),
      RsToWorker 31 (new_rtc_msg\<lparr>m_stream_name := ''hall'', m_certificate := Some 9\<rparr>),
      RsToWorker 32 (new_rtc_msg\<lparr>m_stream_name := ''room'', m_uid := 6, m_certificate := Some 9\<rparr>)]"
proof -
  have h: "rsv_certificate demo_rtc_server = Some 9" "rsv_workers demo_rtc_server \<noteq> []"
      "int (length (rsv_workers demo_rtc_server)) = rsv_worker_num demo_rtc_server"
    by (simp_all add: demo_rtc_server_def new_rtc_server_def)
  have l: "length (rsv_q_msg demo_rtc_server) = 3" by (simp add: demo_rtc_server_def)
  show ?thesis
    unfolding messages_routed [where expired = "\<lambda>c. False" and crc = demo_crc and gen = None,
        OF h(1) _ refl h(2,3), simplified, unfolded l]
    by code_simp
qed

definition demo_signaling_server :: signaling_server where
  "demo_signaling_server = new_signaling_server\<lparr>sgs_workers := [41, 42], sgs_next_worker_index := 1\<rparr>"

theorem connections_dealt_witness:
  "\<exists>srv. dispatch_all [7, 8, 9] demo_signaling_server = Some srv
     \<and> sgs_events srv = [SsNewConn 42 7, SsNewConn 41 8, SsNewConn 42 9]"
proof -
  have "sgs_next_worker_index demo_signaling_server < length (sgs_workers demo_signaling_server)"
    by (simp add: demo_signaling_server_def)
  note dealt = connections_dealt [OF this, of "[7, 8, 9]"]
  have "map (\<lambda>j. SsNewConn (sgs_workers demo_signaling_server !
      ((sgs_next_worker_index demo_signaling_server + j) mod length (sgs_workers demo_signaling_server))) ([7, 8, 9] ! j))
      [0..<length [7, 8, 9 :: int]] = [SsNewConn 42 7, SsNewConn 41 8, SsNewConn 42 9]"
    by code_simp
  moreover have "sgs_events demo_signaling_server = []"
    by (simp add: demo_signaling_server_def new_signaling_server_def)
  ultimately show ?thesis unfolding dealt by simp
qed

theorem worker_answers_witness:
  "\<exists>(w :: (bytes list, srtp_policy) rtc_worker) w' g' offer.
     rw_process_rtc_msg demo_rv 0 12 1 w demo_global = Some (w', g')
     \<and> rw_events w' = [RwReply 4 (new_rtc_msg\<lparr>m_cmdno := CMDNO_PUSH, m_stream_name := ''room'', m_audio := 1,
          m_worker := Some 4, m_certificate := Some 9, m_sdp := offer\<rparr>)]
     \<and> made_stream demo_rv k_push 0 ''room'' True False offer (mg_heap (rw_mgr w') 1)
     \<and> map_of (mg_push (rw_mgr w')) = [''room'' \<mapsto> 1]"
proof -
  let ?m = "new_rtc_msg\<lparr>m_cmdno := CMDNO_PUSH, m_stream_name := ''room'', m_audio := 1, m_worker := Some 4, m_certificate := Some 9\<rparr>"
  obtain q where q: "lfq_rep q [?m]"
    using lf_queue.enq_law [OF lfq_rep_new, of ?m] by auto
  let ?w = "(new_rtc_worker 0)\<lparr>rw_q_msg := q\<rparr> :: (bytes list, srtp_policy) rtc_worker"
  have "lfq_rep (rw_q_msg ?w) (?m # [])" "manager_reachable (rw_mgr ?w)"
    using q mr_new by (simp_all add: new_rtc_worker_def)
  from worker_answers [OF this demo_addrs, of 4 9 0 12 1 demo_global]
  obtain w' g' offer where "rw_process_rtc_msg demo_rv 0 12 1 ?w demo_global = Some (w', g')"
      "rw_events w' = rw_events ?w @ [RwReply 4 (?m\<lparr>m_sdp := offer\<rparr>)]" "made_for demo_rv k_push ?m offer 1 (rw_mgr w')"
      "map_of (mg_push (rw_mgr w')) = (map_of (mg_push (rw_mgr ?w)))(m_stream_name ?m \<mapsto> 1)"
    by auto
  then show ?thesis
    by (intro exI [of _ ?w] exI [of _ w'] exI [of _ g'] exI [of _ offer])
      (simp add: new_rtc_worker_def new_stream_manager_def made_for_def new_rtc_msg_def)
qed

end
