(* ===== verification/RequestFlow.thy ===== *)
theory RequestFlow
  imports ServerInvariant SignalingReply
begin

text \<open>
  The way of a push or pull request through the three kinds of threads: the bytes a client sends to
  its signaling worker (\<open>server/signaling_worker.cpp\<close>), the message the RTC server hands on
  (\<open>server/rtc_server.cpp\<close>), the RTC worker that makes the offer (\<open>server/rtc_worker.cpp\<close>), and the reply
  the signaling worker writes. The theory composes what the single theories promise; it models no
  further code. Each message is delivered by the sender's call and the receiver's pipe callback.
\<close>

subsection \<open>The stations\<close>

text \<open>
  \<open>body\<close> is the JSON text of a push or pull request, and \<open>msg\<close> the message a signaling worker makes of
  it for the connection at address \<open>a\<close>.
\<close>

definition offer_request ::
  "'v json_lib \<Rightarrow> bytes \<Rightarrow> u32 \<Rightarrow> nat \<Rightarrow> nat \<Rightarrow> int \<Rightarrow> rtc_msg \<Rightarrow> bool" where
  "offer_request js body log_id worker a fd msg \<longleftrightarrow>
     (\<exists>root. js_parse js body = Some root \<and> js_int js root ''cmdno'' = Some (m_cmdno msg)
        \<and> js_uint64 js root ''uid'' = Some (m_uid msg)
        \<and> js_string js root ''stream_name'' = Some (m_stream_name msg)
        \<and> js_int js root ''audio'' = Some (m_audio msg) \<and> js_int js root ''video'' = Some (m_video msg))
     \<and> (m_cmdno msg = CMDNO_PUSH \<or> m_cmdno msg = CMDNO_PULL)
     \<and> msg = new_rtc_msg\<lparr>m_cmdno := m_cmdno msg, m_uid := m_uid msg, m_stream_name := m_stream_name msg,
         m_audio := m_audio msg, m_video := m_video msg, m_log_id := log_id, m_worker := Some worker,
         m_conn := Some a, m_fd := fd\<rparr>"

lemma offer_request_fields:
  assumes "offer_request js body log_id worker a fd msg"
  shows "m_worker msg = Some worker" "m_conn msg = Some a" "m_fd msg = fd" "m_log_id msg = log_id"
    "m_err_no msg = 0" "m_cmdno msg = CMDNO_PUSH \<or> m_cmdno msg = CMDNO_PULL"
proof -
  obtain k u n au v where "msg = new_rtc_msg\<lparr>m_cmdno := k, m_uid := u, m_stream_name := n,
         m_audio := au, m_video := v, m_log_id := log_id, m_worker := Some worker,
         m_conn := Some a, m_fd := fd\<rparr>"
    using assms unfolding offer_request_def by blast
  then show "m_worker msg = Some worker" "m_conn msg = Some a" "m_fd msg = fd" "m_log_id msg = log_id"
    "m_err_no msg = 0"
    by (simp_all add: new_rtc_msg_def)
  show "m_cmdno msg = CMDNO_PUSH \<or> m_cmdno msg = CMDNO_PULL" using assms by (simp add: offer_request_def)
qed

lemma request_parsed:
  assumes "offer_request js body (head_log_id header) (sw_id w) a fd msg"
  shows "process_request js rs a fd header body w = Some (rs msg, sw_emit [SwRtc msg] w)"
proof -
  have msg: "new_rtc_msg\<lparr>m_cmdno := m_cmdno msg, m_uid := m_uid msg, m_stream_name := m_stream_name msg,
         m_audio := m_audio msg, m_video := m_video msg, m_log_id := head_log_id header,
         m_worker := Some (sw_id w), m_conn := Some a, m_fd := fd\<rparr> = msg"
    using assms unfolding offer_request_def by (elim conjE) (rule sym)
  obtain root where p: "js_parse js body = Some root" "js_int js root ''cmdno'' = Some (m_cmdno msg)"
    and g: "js_uint64 js root ''uid'' = Some (m_uid msg)" "js_string js root ''stream_name'' = Some (m_stream_name msg)"
      "js_int js root ''audio'' = Some (m_audio msg)" "js_int js root ''video'' = Some (m_video msg)"
    using assms unfolding offer_request_def by blast
  have "sw_process_push js rs (m_cmdno msg) a fd root (head_log_id header) w = send_to_rtc_server rs msg w"
    "sw_process_pull js rs (m_cmdno msg) a fd root (head_log_id header) w = send_to_rtc_server rs msg w"
    unfolding sw_process_push_def sw_process_pull_def g Option.bind.simps option.case prod.case msg
    by (rule refl)+
  moreover have "m_cmdno msg = CMDNO_PUSH \<or> m_cmdno msg = CMDNO_PULL"
    using assms by (rule offer_request_fields)
  ultimately show ?thesis
    by (elim disjE) (simp_all add: process_request_def p send_to_rtc_server_def Let_def cmdno_defs)
qed

text \<open>A connection that has read nothing and has nothing to write.\<close>

definition idle_conn :: "int \<Rightarrow> nat \<Rightarrow> tcp_conn \<Rightarrow> signaling_worker \<Rightarrow> bool" where
  "idle_conn fd a c w \<longleftrightarrow> 0 < fd \<and> nat fd < length (sw_conns w) \<and> sw_conns w ! nat fd = Some a
     \<and> sw_heap w a = Some c \<and> tc_fd c = fd \<and> tc_bytes_expected c = XHEAD_SIZE \<and> tc_querybuf c = []
     \<and> tc_current_state c = STATE_HEAD \<and> tc_bytes_processed c = 0 \<and> tc_reply_list c = []
     \<and> tc_cur_resp_pos c = 0"

definition conn_served :: "tcp_conn \<Rightarrow> u64 \<Rightarrow> bytes \<Rightarrow> tcp_conn" where
  "conn_served c t p = (conn_after c t p)\<lparr>tc_bytes_processed := 65535\<rparr>"

lemma request_read:
  assumes "idle_conn fd a c w" "offer_request js body log_id (sw_id w) a fd msg" "rs msg = 0"
    and "header = xhead ident version log_id provider XHEADER_MAGIC_NUM res (of_nat (length body))"
    and "bytes_read xs @ x = header @ body" "length provider = 16" "length body < 65535"
    and "\<forall>y \<in> set xs. delivers (fst y)" "x \<noteq> []"
  shows "feed_reads js rs fd (xs @ [(RdData x, t0)]) w = Some (put_tc a (conn_served c t0 (header @ body))
     (w\<lparr>sw_events := sw_events w @ [SwRtc msg]\<rparr>))"
proof -
  let ?w = "put_tc a (conn_after c t0 (header @ body)) w"
  have "head_log_id header = log_id"
    using xhead_fields(1) [OF assms(6), of _ _ _ _ _ _ "[]"] assms(4) by simp
  then have "process_request js rs a fd header body ?w = Some (0, sw_emit [SwRtc msg] ?w)"
    using request_parsed [of js body header ?w a fd msg rs] assms(2,3) by (simp add: put_tc_def)
  then show ?thesis
    using feed_whole_request [of fd w a c xs x ident version log_id provider res body js rs t0] assms(1,4-9)
    by (simp add: idle_conn_def finish_request_def after_query_def sw_emit_def put_tc_def conn_served_def)
qed

lemma message_forwarded:
  assumes "rsv_certificate srv = Some c" "\<not> expired c" "rsv_q_msg srv = []"
    and "rsv_workers srv \<noteq> []" "int (length (rsv_workers srv)) = rsv_worker_num srv"
  shows "rtc_server_recv_notify crc expired gen (Some RTC_MSG) (rsv_send_rtc_msg msg srv) =
     srv\<lparr>rsv_events := rsv_events srv @ [RsPipe RTC_MSG,
       RsToWorker (rsv_workers srv ! (unat (crc (m_stream_name msg)) mod length (rsv_workers srv)))
         (msg\<lparr>m_certificate := Some c\<rparr>)]\<rparr>"
  using process_one [of "rsv_send_rtc_msg msg srv" c expired msg "[]" crc gen] assms
  by (simp add: rtc_server_recv_notify_def rsv_process_notify_def RTC_MSG_def RTC_QUIT_def
      rsv_send_rtc_msg_def rsv_notify_def rsv_emit_def rsv_push_msg_def)

lemma worker_message:
  assumes "lfq_rep (rw_q_msg w) []"
  obtains w0 where "rw_send_rtc_msg msg w = Some w0" "lfq_rep (rw_q_msg w0) [msg]" "rw_mgr w0 = rw_mgr w"
    "rw_events w0 = rw_events w @ [RwPipe RTC_MSG]"
proof -
  obtain q where "lfq_produce msg (rw_q_msg w) = Some q" "lfq_rep q [msg]"
    using lf_queue.enq_law [OF assms, of msg] by auto
  then show ?thesis
    using that [of "rw_notify RTC_MSG (w\<lparr>rw_q_msg := q\<rparr>)"]
    by (simp add: rw_send_rtc_msg_def rw_push_msg_def rw_notify_def rw_emit_def)
qed

text \<open>The kind of stream a message asks for, and the map in which it is entered.\<close>

definition asked_type :: "rtc_msg \<Rightarrow> stream_type" where
  "asked_type msg = (if m_cmdno msg = CMDNO_PUSH then k_push else k_pull)"

definition entered :: "rtc_msg \<Rightarrow> ('q, 'c) stream_manager \<Rightarrow> nat option" where
  "entered msg mg = map_of ((if m_cmdno msg = CMDNO_PUSH then mg_push else mg_pull) mg) (m_stream_name msg)"

lemma worker_offer_made:
  assumes "lfq_rep (rw_q_msg w) []" "manager_reachable (rw_mgr w)" "rv_addrs rv = (d, n) # rest"
    and "m_certificate msg = Some cert" "m_worker msg = Some sw"
    and "m_cmdno msg = CMDNO_PUSH \<or> m_cmdno msg = CMDNO_PULL \<and> map_of (mg_push (rw_mgr w)) (m_stream_name msg) \<noteq> None"
  shows "\<exists>w0 w1 g1 offer. rw_send_rtc_msg msg w = Some w0
     \<and> rtc_worker_recv_notify rv now sent b (Some RTC_MSG) w0 g = Some (w1, g1)
     \<and> rw_events w1 = rw_events w @ [RwPipe RTC_MSG, RwReply sw (msg\<lparr>m_sdp := offer\<rparr>)]
     \<and> made_for rv (asked_type msg) msg offer b (rw_mgr w1) \<and> entered msg (rw_mgr w1) = Some b"
proof -
  obtain w0 where 0: "rw_send_rtc_msg msg w = Some w0" "lfq_rep (rw_q_msg w0) [msg]" "rw_mgr w0 = rw_mgr w"
    "rw_events w0 = rw_events w @ [RwPipe RTC_MSG]"
    using worker_message [OF assms(1)] by blast
  have mr: "manager_reachable (rw_mgr w0)" using assms(2) by (simp add: 0(3))
  have "\<exists>w1 g1 offer. rw_process_rtc_msg rv now sent b w0 g = Some (w1, g1)
      \<and> rw_events w1 = rw_events w0 @ [RwReply sw (msg\<lparr>m_sdp := offer\<rparr>)]
      \<and> made_for rv (asked_type msg) msg offer b (rw_mgr w1) \<and> entered msg (rw_mgr w1) = Some b"
  proof (cases "m_cmdno msg = CMDNO_PUSH")
    case True
    then show ?thesis using push_answered [OF 0(2) mr assms(3-5), of now sent b g]
      by (auto simp: entered_def asked_type_def)
  next
    case False
    then obtain p where "m_cmdno msg = CMDNO_PULL" "map_of (mg_push (rw_mgr w0)) (m_stream_name msg) = Some p"
      using assms(6) by (auto simp: 0(3))
    then show ?thesis using pull_answered [OF 0(2) mr assms(3-5), of p now sent b g] False
      by (auto simp: entered_def asked_type_def)
  qed
  then show ?thesis
    using 0(1,4) by (auto simp: rtc_worker_recv_notify_def rw_process_notify_def RTC_MSG_def RTC_QUIT_def)
qed

lemma reply_queued:
  assumes "sw_q_msg w = []" "m_cmdno msg = CMDNO_PUSH \<or> m_cmdno msg = CMDNO_PULL"
    and "m_conn msg = Some a" "m_fd msg = fd" "0 < fd" "nat fd < length (sw_conns w)"
    and "sw_conns w ! nat fd = Some a" "sw_heap w a = Some c" "XHEAD_SIZE \<le> length (tc_querybuf c)"
  shows "worker_recv_notify js (Some SW_RTC_MSG) d now (sw_send_rtc_msg msg w) =
     Some (put_tc a (c\<lparr>tc_reply_list := tc_reply_list c @
         [make_reply (take XHEAD_SIZE (tc_querybuf c)) (js_write js (offer_members msg))]\<rparr>)
       (w\<lparr>sw_events := sw_events w @ [SwPipe SW_RTC_MSG, SwStartWrite (tc_fd c)]\<rparr>))"
  using assms
  by (auto simp: worker_recv_notify_def process_notify_def process_rtc_msg_def response_server_offer_def
      sw_send_rtc_msg_def sw_notify_def sw_emit_def put_tc_def push_msg_def add_reply_def
      SW_RTC_MSG_def SW_QUIT_def SW_NEW_CONN_def)

lemma one_reply_written:
  assumes "0 < fd" "nat fd < length (sw_conns w)" "sw_conns w ! nat fd = Some a"
    and "sw_heap w a = Some c" "tc_fd c = fd" "tc_reply_list c = [r]" "tc_cur_resp_pos c = 0" "reply_ok r"
    and "\<forall>x \<in> set results. written x \<or> x = SysErr EAGAIN"
    and "rp_len r \<le> length (filter written results)"
  shows "\<exists>w' es. write_reply fd results now w = Some w' \<and> sw_events w' = sw_events w @ es
     \<and> sent_on fd es = reply_slice r"
proof -
  have p: "pending c = reply_slice r" using assms(6,7) by (simp add: pending_def)
  have ok: "replies_ok c" using assms(6-8) by (simp add: replies_ok_def reply_ok_def)
  have "length (pending c) \<le> length (filter written results)" using assms(8,10) by (simp add: p)
  from write_replies_done [OF assms(4) ok assms(9) this]
  obtain w' es where "write_replies results a now w = Some w'" "sw_events w' = sw_events w @ es"
    "sent_on fd es = reply_slice r"
    using assms(5) p by fastforce
  then show ?thesis using assms(1-3) by (auto simp: write_reply_def)
qed

text \<open>The reply \<open>msg\<close> of the RTC worker, on the connection that has read its request \<open>header @ body\<close>.\<close>

lemma offer_replied:
  assumes "idle_conn fd a c w" "sw_q_msg w = []" "length header = 36"
    and "m_cmdno msg = CMDNO_PUSH \<or> m_cmdno msg = CMDNO_PULL" "m_conn msg = Some a" "m_fd msg = fd"
    and "w1 = put_tc a (conn_served c t0 (header @ body)) (w\<lparr>sw_events := es1\<rparr>)"
    and "json = js_write js (offer_members msg)"
  shows "\<exists>w2. worker_recv_notify js (Some SW_RTC_MSG) d t (sw_send_rtc_msg msg w1) = Some w2
     \<and> ((\<forall>x \<in> set results. written x \<or> x = SysErr EAGAIN) \<and> length json \<le> 4095 \<and> 0 \<notin> set json
        \<and> 36 + length json \<le> length (filter written results) \<longrightarrow>
        (\<exists>w3 es. write_reply fd results t' w2 = Some w3 \<and> sw_events w3 = sw_events w2 @ es
           \<and> sent_on fd es = set_body_len (length json) header @ json))"
proof -
  define c2 where "c2 = (conn_served c t0 (header @ body))\<lparr>tc_reply_list := [make_reply header json]\<rparr>"
  define w2 where "w2 = put_tc a c2 (w1\<lparr>sw_events := es1 @ [SwPipe SW_RTC_MSG, SwStartWrite fd]\<rparr>)"
  have c2: "tc_fd c2 = fd" "tc_reply_list c2 = [make_reply header json]" "tc_cur_resp_pos c2 = 0"
    using assms(1) by (simp_all add: c2_def conn_served_def conn_after_def idle_conn_def)
  have w2: "0 < fd" "nat fd < length (sw_conns w2)" "sw_conns w2 ! nat fd = Some a" "sw_heap w2 a = Some c2"
    using assms(1) by (simp_all add: w2_def assms(7) idle_conn_def put_tc_def)
  have "worker_recv_notify js (Some SW_RTC_MSG) d t (sw_send_rtc_msg msg w1) = Some w2"
    using reply_queued [of w1 msg a fd "conn_served c t0 (header @ body)" js d t] assms
    by (simp add: w2_def c2_def conn_served_def conn_after_def idle_conn_def XHEAD_SIZE_def put_tc_def)
  moreover have "\<exists>w3 es. write_reply fd results t' w2 = Some w3 \<and> sw_events w3 = sw_events w2 @ es
      \<and> sent_on fd es = set_body_len (length json) header @ json"
    if fit: "\<forall>x \<in> set results. written x \<or> x = SysErr EAGAIN" "length json \<le> 4095" "0 \<notin> set json"
      "36 + length json \<le> length (filter written results)"
  proof -
    note frame = slice_make_reply [OF assms(3) fit(2,3)]
    have "rp_len (make_reply header json) = 36 + length json"
      using fit(2) by (intro rp_len_make_reply) simp
    then have l: "rp_len (make_reply header json) \<le> length (filter written results)" using fit(4) by simp
    from one_reply_written [OF w2 c2 frame(2) fit(1) l] show ?thesis unfolding frame(1) .
  qed
  ultimately show ?thesis by blast
qed

subsection \<open>The whole way\<close>

text \<open>C3: A client's push request, or pull request for a published stream, whose body is shorter than 65535
  bytes and that reaches its signaling worker in any pieces is answered. The worker sends one message to the
  RTC server, which hands it with the certificate to the RTC worker of the stream's name; that worker makes
  the stream the message asks for, enters it and replies once to the signaling worker, with the SDP text of
  the new stream's local description as the offer; the signaling worker queues that offer on the client's
  connection. When the JSON text of the reply has at most 4095 bytes and no NUL, the socket then gets,
  however short the writes are, the request's header with the new body length and the text.\<close>

theorem request_answered:
  assumes client: "idle_conn fd a c sw" "sw_q_msg sw = []" "rs msg = 0"
      "offer_request js body log_id (sw_id sw) a fd msg"
      "header = xhead ident version log_id provider XHEADER_MAGIC_NUM res (of_nat (length body))"
      "bytes_read xs @ x = header @ body" "length provider = 16" "length body < 65535"
      "\<forall>y \<in> set xs. delivers (fst y)" "x \<noteq> []"
    and server: "rsv_certificate srv = Some cert" "\<not> expired cert" "rsv_q_msg srv = []"
      "rsv_workers srv \<noteq> []" "int (length (rsv_workers srv)) = rsv_worker_num srv"
    and worker: "lfq_rep (rw_q_msg rw) []" "manager_reachable (rw_mgr rw)" "rv_addrs rv = (d, n) # rest"
      "m_cmdno msg = CMDNO_PULL \<Longrightarrow> map_of (mg_push (rw_mgr rw)) (m_stream_name msg) \<noteq> None"
    and msg1: "msg1 = msg\<lparr>m_certificate := Some cert\<rparr>"
  shows "\<exists>sw1 rw0 rw1 g1 offer sw2.
       feed_reads js rs fd (xs @ [(RdData x, t0)]) sw = Some sw1 \<and> sw_events sw1 = sw_events sw @ [SwRtc msg]
     \<and> rsv_events (rtc_server_recv_notify crc expired gen (Some RTC_MSG) (rsv_send_rtc_msg msg srv)) =
         rsv_events srv @ [RsPipe RTC_MSG, RsToWorker
           (rsv_workers srv ! (unat (crc (m_stream_name msg)) mod length (rsv_workers srv))) msg1]
     \<and> rw_send_rtc_msg msg1 rw = Some rw0
     \<and> rtc_worker_recv_notify rv now sent b (Some RTC_MSG) rw0 g = Some (rw1, g1)
     \<and> rw_events rw1 = rw_events rw @ [RwPipe RTC_MSG, RwReply (sw_id sw) (msg1\<lparr>m_sdp := offer\<rparr>)]
     \<and> made_for rv (asked_type msg) msg offer b (rw_mgr rw1) \<and> entered msg (rw_mgr rw1) = Some b
     \<and> worker_recv_notify js (Some SW_RTC_MSG) e t (sw_send_rtc_msg (msg1\<lparr>m_sdp := offer\<rparr>) sw1) = Some sw2
     \<and> (let json = js_write js [(''err_no'', JInt 0), (''err_msg'', JStr ''success''), (''offer'', JStr offer)]
        in (\<forall>x \<in> set results. written x \<or> x = SysErr EAGAIN) \<and> length json \<le> 4095 \<and> 0 \<notin> set json
           \<and> 36 + length json \<le> length (filter written results) \<longrightarrow>
           (\<exists>sw3 es. write_reply fd results t' sw2 = Some sw3 \<and> sw_events sw3 = sw_events sw2 @ es
             \<and> sent_on fd es = set_body_len (length json) header @ json))"
proof -
  define sw1 where "sw1 = put_tc a (conn_served c t0 (header @ body))
     (sw\<lparr>sw_events := sw_events sw @ [SwRtc msg]\<rparr>)"
  have hl: "length header = 36" using client(5,7) by (simp add: XHEAD_SIZE_def)
  note f = offer_request_fields [OF client(4)]
  have 1: "feed_reads js rs fd (xs @ [(RdData x, t0)]) sw = Some sw1" "sw_events sw1 = sw_events sw @ [SwRtc msg]"
    using request_read [where rs = rs, OF client(1,4,3,5-10)] by (simp_all add: sw1_def)
  have m1: "m_certificate msg1 = Some cert" "m_worker msg1 = Some (sw_id sw)" "m_conn msg1 = Some a"
    "m_fd msg1 = fd" "m_err_no msg1 = 0" "m_cmdno msg1 = m_cmdno msg" "m_stream_name msg1 = m_stream_name msg"
    using f by (simp_all add: msg1)
  have "m_cmdno msg1 = CMDNO_PUSH \<or> m_cmdno msg1 = CMDNO_PULL \<and> map_of (mg_push (rw_mgr rw)) (m_stream_name msg1) \<noteq> None"
    using f(6) worker(4) m1 by auto
  from worker_offer_made [OF worker(1-3) m1(1,2) this, of now sent b g]
  obtain rw0 rw1 g1 offer where 2: "rw_send_rtc_msg msg1 rw = Some rw0"
    "rtc_worker_recv_notify rv now sent b (Some RTC_MSG) rw0 g = Some (rw1, g1)"
    "rw_events rw1 = rw_events rw @ [RwPipe RTC_MSG, RwReply (sw_id sw) (msg1\<lparr>m_sdp := offer\<rparr>)]"
    "made_for rv (asked_type msg1) msg1 offer b (rw_mgr rw1)" "entered msg1 (rw_mgr rw1) = Some b"
    by blast
  have r: "m_cmdno (msg1\<lparr>m_sdp := offer\<rparr>) = CMDNO_PUSH \<or> m_cmdno (msg1\<lparr>m_sdp := offer\<rparr>) = CMDNO_PULL"
    "m_conn (msg1\<lparr>m_sdp := offer\<rparr>) = Some a" "m_fd (msg1\<lparr>m_sdp := offer\<rparr>) = fd"
    "offer_members (msg1\<lparr>m_sdp := offer\<rparr>) =
       [(''err_no'', JInt 0), (''err_msg'', JStr ''success''), (''offer'', JStr offer)]"
    using f(6) m1 by (simp_all add: offer_members_def)
  note 3 = offer_replied [OF client(1,2) hl r(1-3) sw1_def refl, where js = js and d = e and t = t
      and results = results and t' = t', unfolded r(4)]
  have 4: "rsv_events (rtc_server_recv_notify crc expired gen (Some RTC_MSG) (rsv_send_rtc_msg msg srv)) =
      rsv_events srv @ [RsPipe RTC_MSG, RsToWorker
        (rsv_workers srv ! (unat (crc (m_stream_name msg)) mod length (rsv_workers srv))) msg1]"
    using message_forwarded [of srv cert expired crc gen msg] server by (simp add: msg1)
  have "made_for rv (asked_type msg) msg offer b (rw_mgr rw1)" "entered msg (rw_mgr rw1) = Some b"
    using 2(4,5) m1 by (simp_all add: entered_def asked_type_def made_for_def msg1)
  then show ?thesis using 1 2(1-3) 3 4 unfolding Let_def by blast
qed

definition demo_header :: bytes where
  "demo_header = xhead 1 1 9 (replicate 16 0) XHEADER_MAGIC_NUM 0 (of_nat (length [1 :: byte]))"

definition demo_msg :: rtc_msg where
  "demo_msg = new_rtc_msg\<lparr>m_cmdno := CMDNO_PUSH, m_uid := 7, m_stream_name := ''room'', m_audio := 1,
     m_video := 1, m_log_id := 9, m_worker := Some 1, m_conn := Some 3, m_fd := 5\<rparr>"

lemma demo_request_msg: "offer_request demo_json [1] 9 (sw_id demo_worker) 3 5 demo_msg"
  by (simp add: offer_request_def demo_json_def demo_msg_def demo_worker_def new_signaling_worker_def
      put_tc_def CMDNO_PUSH_def)

lemma demo_idle: "idle_conn 5 3 (new_tcp_connection 5) demo_worker" "sw_q_msg demo_worker = []"
  by (simp_all add: idle_conn_def demo_worker_def new_signaling_worker_def put_tc_def new_tcp_connection_def)

theorem request_answered_witness:
  "\<exists>sw1 (rw1 :: (bytes list, srtp_policy) rtc_worker) offer sw2 sw3 es.
       feed_reads demo_json (\<lambda>_. 0) 5 (demo_reads [1] @ [(RdData (demo_last [1]), 200)]) demo_worker = Some sw1
     \<and> rw_events rw1 = [RwPipe RTC_MSG, RwReply 1 (demo_msg\<lparr>m_certificate := Some 9, m_sdp := offer\<rparr>)]
     \<and> made_stream demo_rv k_push 7 ''room'' True True offer (mg_heap (rw_mgr rw1) 1)
     \<and> map_of (mg_push (rw_mgr rw1)) ''room'' = Some 1
     \<and> worker_recv_notify demo_json (Some SW_RTC_MSG) 0 300
         (sw_send_rtc_msg (demo_msg\<lparr>m_certificate := Some 9, m_sdp := offer\<rparr>) sw1) = Some sw2
     \<and> write_reply 5 (SysErr EAGAIN # replicate 38 (SysRet 1)) 310 sw2 = Some sw3
     \<and> sw_events sw3 = sw_events sw2 @ es
     \<and> sent_on 5 es = set_body_len 2 demo_header @ bytes_of ''{}''"
proof -
  let ?srv = "demo_rtc_server\<lparr>rsv_q_msg := []\<rparr>"
  let ?rw = "new_rtc_worker 0 :: (bytes list, srtp_policy) rtc_worker"
  let ?rs = "SysErr EAGAIN # replicate 38 (SysRet 1)"
  have pieces: "bytes_read (demo_reads [1]) @ demo_last [1] = demo_header @ [1]"
    unfolding demo_header_def by (rule demo_pieces_whole)
  have srv: "rsv_certificate ?srv = Some 9" "rsv_q_msg ?srv = []" "rsv_workers ?srv \<noteq> []"
    "int (length (rsv_workers ?srv)) = rsv_worker_num ?srv"
    by (simp_all add: demo_rtc_server_def new_rtc_server_def)
  have rw: "lfq_rep (rw_q_msg ?rw) []" "manager_reachable (rw_mgr ?rw)" "rw_events ?rw = []"
    using lfq_rep_new mr_new by (simp_all add: new_rtc_worker_def)
  have m: "m_cmdno demo_msg = CMDNO_PUSH" "m_stream_name demo_msg = ''room''" "m_uid demo_msg = 7"
      "m_audio demo_msg = 1" "m_video demo_msg = 1" by (simp_all add: demo_msg_def)
  have w: "\<forall>x \<in> set ?rs. written x \<or> x = SysErr EAGAIN" "length (filter written ?rs) = 38"
    by (simp_all add: written_def)
  have j: "js_write demo_json ms = bytes_of ''{}''" "length (bytes_of ''{}'') = 2" "0 \<notin> set (bytes_of ''{}'')" for ms
    by (simp_all add: demo_json_def bytes_of_def)
  have id: "sw_id demo_worker = 1" by (simp add: demo_worker_def new_signaling_worker_def put_tc_def)
  show ?thesis
    using request_answered [OF demo_idle _ demo_request_msg demo_header_def pieces _ _ demo_delivers
        srv(1) _ srv(2-4) rw(1,2) demo_addrs _ refl, of "\<lambda>_. 0" "\<lambda>_. False" 200 demo_crc None 0 12 1 demo_global
        0 300 ?rs 310] m w j id rw(3)
    by (simp add: Let_def entered_def asked_type_def made_for_def cmdno_defs)
      (elim exE conjE, intro exI conjI, (assumption | simp add: numeral_2_eq_2)+)
qed

end
