(* ===== verification/SdpRoundtrip.thy ===== *)
theory SdpRoundtrip
  imports SdpText
begin

text \<open>
  The SDP text that \<open>to_string\<close> writes, read back by the parser of \<open>set_remote_sdp\<close>: the lines are
  recovered, every attribute lands in the transport info and the tracks of its media section, and
  what the parser makes of lines it does not expect.
\<close>

subsection \<open>Lines of the text\<close>

abbreviation lf :: char where "lf \<equiv> char_of (10::nat)"
abbreviation cr :: char where "cr \<equiv> char_of (13::nat)"

lemma end_chars [simp]: "lf = CHR 0x0A" "cr = CHR 0x0D"
  by code_simp+

lemma tokens_lines:
  "\<forall>l \<in> set ls. lf \<notin> set l \<Longrightarrow> tokens_at lf (sdp_text ls) = map (\<lambda>l. l @ [cr]) ls"
proof (induction ls)
  case Nil
  then show ?case by (simp add: sdp_text_def)
next
  case (Cons l ls)
  have n: "lf \<notin> set (l @ [cr])" using Cons.prems by simp
  have "sdp_text (l # ls) = (l @ [cr]) @ lf # sdp_text ls" by (simp add: sdp_text_def crlf_def)
  then show ?case using tokens_at_cons [OF n, of "sdp_text ls"] Cons by simp
qed

lemma contains_append: "contains p t \<Longrightarrow> contains p (s @ t)"
  by (induction s) auto

lemma contains_prefix: "p \<noteq> [] \<Longrightarrow> contains p (p @ t)"
  by (cases p) (simp_all add: starts_with_def)

lemma text_has_crlf: "ls \<noteq> [] \<Longrightarrow> contains crlf (sdp_text ls)"
proof (cases ls)
  case (Cons l rest)
  have "contains crlf (crlf @ sdp_text rest)" by (rule contains_prefix) (simp add: crlf_def)
  then show ?thesis using Cons contains_append by (simp add: sdp_text_def)
qed simp

lemma lines_recovered:
  assumes "\<forall>l \<in> set ls. lf \<notin> set l" "ls \<noteq> []"
  shows "map butlast (tokens_at lf (sdp_text ls)) = ls" "contains crlf (sdp_text ls)" "tokens_at lf (sdp_text ls) \<noteq> []"
  using tokens_lines [OF assms(1)] text_has_crlf [OF assms(2)] assms(2) by (simp_all add: map_idI)

subsection \<open>Attribute lines\<close>

text \<open>A field without the characters that separate fields, keys and lines.\<close>

definition seps :: "char set" where "seps = {CHR ''='', CHR '':'', CHR '' '', cr, lf}"

definition clean :: "string \<Rightarrow> bool" where "clean s = (s \<noteq> [] \<and> set s \<inter> seps = {})"

text \<open>The text after \<open>a=\<close>: no equals sign and no end of line.\<close>

definition body :: "string \<Rightarrow> bool" where "body s = (CHR ''='' \<notin> set s \<and> lf \<notin> set s)"

lemma body_append [simp]: "body (s @ t) \<longleftrightarrow> body s \<and> body t"
  by (auto simp: body_def)

lemma body_nil [simp]: "body []"
  by (simp add: body_def)

lemma body_cons [simp]: "body (c # s) \<longleftrightarrow> c \<noteq> CHR ''='' \<and> c \<noteq> lf \<and> body s"
  by (auto simp: body_def)

lemma clean_body: "clean s \<Longrightarrow> body s"
  by (auto simp: clean_def body_def seps_def)

lemma cleanD:
  "clean s \<Longrightarrow> s \<noteq> []" "clean s \<Longrightarrow> CHR '':'' \<notin> set s" "clean s \<Longrightarrow> CHR '' '' \<notin> set s"
  "clean s \<Longrightarrow> hd s \<noteq> CHR '':''" "clean s \<Longrightarrow> hd s \<noteq> CHR '' ''"
  by (cases s; auto simp: clean_def seps_def)+

lemma seps_codes: "c \<in> seps \<Longrightarrow> (of_char c :: nat) \<in> {61, 58, 32, 13, 10}"
  by (auto simp: seps_def)

lemma digit_clean: "n < 10 \<Longrightarrow> char_of (48 + n :: nat) \<notin> seps"
  using seps_codes [of "char_of (48 + n)"] digit_code [of n] by auto

lemma show_nat_clean: "clean (show_nat n)"
proof (induction n rule: show_nat.induct)
  case (1 n)
  then show ?case
    using digit_clean [of n] digit_clean [of "n mod 10"]
    by (subst show_nat.simps) (auto simp: clean_def)
qed

lemma show_nat_body [simp]: "body (show_nat n)"
  by (rule clean_body) (rule show_nat_clean)

lemma show_int_body [simp]: "body (show_int i)"
  by (simp add: show_int_def)

lemma contains_subset: "contains p s \<Longrightarrow> set p \<subseteq> set s"
proof (induction s)
  case Nil
  then show ?case by simp
next
  case (Cons c s)
  show ?case
  proof (cases "starts_with p (c # s)")
    case True
    then show ?thesis unfolding starts_with_def by (metis set_take_subset)
  next
    case False
    then show ?thesis using Cons by auto
  qed
qed

text \<open>A key is found in such a line only at its beginning.\<close>

lemma contains_key:
  assumes "CHR ''='' \<notin> set b" "c \<noteq> CHR ''=''"
  shows "contains (c # CHR ''='' # p) (d # CHR ''='' # b) \<longleftrightarrow> c = d \<and> starts_with p b"
proof -
  have "\<not> contains (c # CHR ''='' # p) b" using contains_subset [of "c # CHR ''='' # p" b] assms(1) by auto
  then show ?thesis using assms by (auto simp: starts_with_def)
qed

text \<open>Lines the parser passes over.\<close>

definition inert :: "string \<Rightarrow> bool" where
  "inert l =
     (\<not> contains ''m='' l \<and> \<not> contains ''a=ice-ufrag'' l \<and> \<not> contains ''a=ice-pwd'' l
      \<and> \<not> contains ''a=fingerprint'' l \<and> \<not> contains ''a=ssrc:'' l \<and> \<not> contains ''a=ssrc-group:'' l)"

lemma starts_with_iff: "starts_with p s \<longleftrightarrow> (\<exists>t. s = p @ t)"
  unfolding starts_with_def
proof
  assume "take (length p) s = p"
  then have "s = p @ drop (length p) s" using append_take_drop_id [of "length p" s] by simp
  then show "\<exists>t. s = p @ t" ..
qed auto

lemma contains_weaken: "contains (p @ q) s \<Longrightarrow> contains p s"
proof (induction s)
  case Nil
  then show ?case by simp
next
  case (Cons c s)
  have "starts_with p (c # s)" if "starts_with (p @ q) (c # s)"
    using that unfolding starts_with_iff append_assoc by blast
  then show ?case using Cons by auto
qed

lemma no_group: "\<not> contains ''m='' l \<Longrightarrow> \<not> contains ''m=group:BUNDLE'' l"
proof
  assume n: "\<not> contains ''m='' l" and c: "contains ''m=group:BUNDLE'' l"
  have "contains (''m='' @ ''group:BUNDLE'') l" using c by (simp only: append.simps)
  then have "contains ''m='' l" by (rule contains_weaken)
  with n show False ..
qed

lemma media_passes: "\<not> contains ''m='' l \<Longrightarrow> remote_media_line sl l st = Some (0, st)"
  unfolding remote_media_line_def by (frule no_group) (simp only: if_False)

lemma transport_passes:
  "\<not> contains ''a=ice-ufrag'' l \<Longrightarrow> \<not> contains ''a=ice-pwd'' l \<Longrightarrow> \<not> contains ''a=fingerprint'' l \<Longrightarrow>
     parse_transport_info sl td l = Some (0, td)"
  by (simp only: parse_transport_info_def if_False)

lemma ssrc_passes: "\<not> contains ''a=ssrc:'' l \<Longrightarrow> parse_ssrc_info sl infos l = Some (0, infos)"
  by (simp only: parse_ssrc_info_def if_True not_False_eq_True)

lemma group_passes: "\<not> contains ''a=ssrc-group:'' l \<Longrightarrow> parse_ssrc_group_info sl gs l = Some (0, gs)"
  by (simp only: parse_ssrc_group_info_def if_True not_False_eq_True)

lemma and_then_ok [simp]: "and_then (Some (0, a)) f = f a"
  by (simp add: and_then_def)

lemma attr_line:
  "remote_attr_line sl l st =
     (if rm_media st = ''audio''
      then and_then (map_option (\<lambda>(ret, td). (ret, st\<lparr>rm_audio_td := td\<rparr>)) (parse_transport_info sl (rm_audio_td st) l))
             (\<lambda>st1. map_option (\<lambda>(ret, infos). (ret, st1\<lparr>rm_audio_ssrc := infos\<rparr>)) (parse_ssrc_info sl (rm_audio_ssrc st1) l))
      else if rm_media st = ''video''
      then and_then (map_option (\<lambda>(ret, td). (ret, st\<lparr>rm_video_td := td\<rparr>)) (parse_transport_info sl (rm_video_td st) l))
             (\<lambda>st1. and_then (map_option (\<lambda>(ret, gs). (ret, st1\<lparr>rm_video_groups := gs\<rparr>)) (parse_ssrc_group_info sl (rm_video_groups st1) l))
               (\<lambda>st2. map_option (\<lambda>(ret, infos). (ret, st2\<lparr>rm_video_ssrc := infos\<rparr>)) (parse_ssrc_info sl (rm_video_ssrc st2) l)))
      else Some (0, st))"
  by (simp only: remote_attr_line_def)

lemma inert_line: "inert l \<Longrightarrow> remote_line sl l st = Some (0, st)"
  by (simp add: remote_line_def media_passes attr_line transport_passes ssrc_passes group_passes inert_def
      del: contains.simps)

lemma inert_attr:
  assumes "body b" "\<not> starts_with ''ice-ufrag'' b" "\<not> starts_with ''ice-pwd'' b" "\<not> starts_with ''fingerprint'' b"
    and "\<not> starts_with ''ssrc:'' b" "\<not> starts_with ''ssrc-group:'' b"
  shows "inert (CHR ''a'' # CHR ''='' # b)"
  using assms by (simp add: inert_def contains_key body_def del: contains.simps)

lemma remote_lines_append:
  "remote_lines sl (xs @ ys) st = and_then (remote_lines sl xs st) (remote_lines sl ys)"
  by (induction xs arbitrary: st) (auto simp: and_then_def split: option.splits prod.splits)

lemma inert_lines: "list_all inert ls \<Longrightarrow> remote_lines sl ls st = Some (0, st)"
  by (induction ls) (auto simp: inert_line and_then_def)


declare contains.simps [simp del]

lemma starts_simps [simp]:
  "starts_with [] s" "starts_with (x # xs) (y # ys) \<longleftrightarrow> x = y \<and> starts_with xs ys" "\<not> starts_with (x # xs) []"
  by (auto simp: starts_with_def)

subsection \<open>One attribute\<close>

text \<open>The transport info and the SSRC infos of a section's media type.\<close>

definition get_td :: "media_type \<Rightarrow> remote_parse \<Rightarrow> transport_desc" where
  "get_td ty st = (if ty = MEDIA_TYPE_AUDIO then rm_audio_td st else rm_video_td st)"

definition put_td :: "media_type \<Rightarrow> transport_desc \<Rightarrow> remote_parse \<Rightarrow> remote_parse" where
  "put_td ty td st = (if ty = MEDIA_TYPE_AUDIO then st\<lparr>rm_audio_td := td\<rparr> else st\<lparr>rm_video_td := td\<rparr>)"

definition get_infos :: "media_type \<Rightarrow> remote_parse \<Rightarrow> ssrc_info list" where
  "get_infos ty st = (if ty = MEDIA_TYPE_AUDIO then rm_audio_ssrc st else rm_video_ssrc st)"

definition put_infos :: "media_type \<Rightarrow> ssrc_info list \<Rightarrow> remote_parse \<Rightarrow> remote_parse" where
  "put_infos ty infos st = (if ty = MEDIA_TYPE_AUDIO then st\<lparr>rm_audio_ssrc := infos\<rparr> else st\<lparr>rm_video_ssrc := infos\<rparr>)"

definition in_section :: "media_type \<Rightarrow> remote_parse \<Rightarrow> bool" where
  "in_section ty st = (rm_media st = media_mid ty)"

lemma section_sel [simp]:
  "get_td ty (put_td ty td st) = td" "get_infos ty (put_infos ty infos st) = infos"
  "get_td ty (put_infos ty infos st) = get_td ty st" "get_infos ty (put_td ty td st) = get_infos ty st"
  "in_section ty (put_td ty td st) = in_section ty st" "in_section ty (put_infos ty infos st) = in_section ty st"
  "put_td ty td' (put_td ty td st) = put_td ty td' st" "put_infos ty i' (put_infos ty i st) = put_infos ty i' st"
  "put_infos ty (get_infos ty st) st = st"
  "rm_video_groups (put_td ty td st) = rm_video_groups st" "rm_video_groups (put_infos ty infos st) = rm_video_groups st"
  by (simp_all add: get_td_def put_td_def get_infos_def put_infos_def in_section_def)

lemma transport_line:
  assumes "in_section ty st" "\<not> contains ''m='' l" "\<not> contains ''a=ssrc:'' l" "\<not> contains ''a=ssrc-group:'' l"
    and "parse_transport_info sl (get_td ty st) l = Some (0, td)"
  shows "remote_line sl l st = Some (0, put_td ty td st)"
  using assms
  by (cases ty) (simp_all add: remote_line_def media_passes attr_line ssrc_passes group_passes in_section_def
      get_td_def put_td_def)

lemma ssrc_attr_line:
  assumes "in_section ty st" "\<not> contains ''m='' l" "\<not> contains ''a=ice-ufrag'' l" "\<not> contains ''a=ice-pwd'' l"
    and "\<not> contains ''a=fingerprint'' l" "\<not> contains ''a=ssrc-group:'' l"
    and "parse_ssrc_info sl (get_infos ty st) l = Some (0, infos)"
  shows "remote_line sl l st = Some (0, put_infos ty infos st)"
  using assms
  by (cases ty) (simp_all add: remote_line_def media_passes attr_line transport_passes group_passes in_section_def
      get_infos_def put_infos_def)

lemma group_attr_line:
  assumes "in_section MEDIA_TYPE_VIDEO st" "\<not> contains ''m='' l" "\<not> contains ''a=ice-ufrag'' l"
    and "\<not> contains ''a=ice-pwd'' l" "\<not> contains ''a=fingerprint'' l" "\<not> contains ''a=ssrc:'' l"
    and "parse_ssrc_group_info sl (rm_video_groups st) l = Some (0, gs)"
  shows "remote_line sl l st = Some (0, st\<lparr>rm_video_groups := gs\<rparr>)"
  using assms
  by (simp add: remote_line_def media_passes attr_line transport_passes ssrc_passes in_section_def)

text \<open>In the audio section groups are not read.\<close>

lemma group_audio_line:
  assumes "in_section MEDIA_TYPE_AUDIO st" "\<not> contains ''m='' l" "\<not> contains ''a=ice-ufrag'' l"
    and "\<not> contains ''a=ice-pwd'' l" "\<not> contains ''a=fingerprint'' l" "\<not> contains ''a=ssrc:'' l"
  shows "remote_line sl l st = Some (0, st)"
  using assms
  by (simp add: remote_line_def media_passes attr_line transport_passes ssrc_passes in_section_def)

lemma clean_no_eq [simp]: "clean s \<Longrightarrow> CHR ''='' \<notin> set s"
  by (auto simp: clean_def seps_def)

text \<open>The text of an SSRC attribute's value: nothing that ends it or the line.\<close>

definition ssrc_infos :: "stream_params \<Rightarrow> ssrc_info list" where
  "ssrc_infos t = map (\<lambda>ssrc. \<lparr>si_ssrc_id = ssrc, si_cname = sp_cname t, si_stream_id = sp_stream_id t, si_track_id = sp_id t\<rparr>)
     (sp_ssrcs t)"

lemma set_info_new:
  "ssrc \<notin> si_ssrc_id ` set infos \<Longrightarrow> set_ssrc_info ssrc f infos =
     infos @ [f \<lparr>si_ssrc_id = ssrc, si_cname = '''', si_stream_id = '''', si_track_id = ''''\<rparr>]"
  by (induction infos) auto

lemma set_info_last:
  "ssrc \<notin> si_ssrc_id ` set infos \<Longrightarrow> si_ssrc_id i = ssrc \<Longrightarrow>
     set_ssrc_info ssrc f (infos @ [i]) = infos @ [f i]"
  by (induction infos) auto

context sdp_text_laws begin

lemma read_ufrag:
  assumes "clean u"
  shows "parse_transport_info sl td (''a=ice-ufrag:'' @ u) = Some (0, td\<lparr>td_ice_ufrag := u\<rparr>)"
proof -
  have "get_atrribute sl (''a=ice-ufrag'' @ CHR '':'' # u) = u"
    by (rule get_atrribute_field) (use assms cleanD in simp_all)
  then show ?thesis using assms cleanD(1) by (simp add: parse_transport_info_def contains_key Let_def)
qed

lemma read_pwd:
  assumes "clean u"
  shows "parse_transport_info sl td (''a=ice-pwd:'' @ u) = Some (0, td\<lparr>td_ice_pwd := u\<rparr>)"
proof -
  have "get_atrribute sl (''a=ice-pwd'' @ CHR '':'' # u) = u"
    by (rule get_atrribute_field) (use assms cleanD in simp_all)
  then show ?thesis using assms cleanD(1) by (simp add: parse_transport_info_def contains_key Let_def)
qed

lemma read_fingerprint:
  assumes "clean alg" "map lower_char alg = alg" "body txt" "CHR '' '' \<notin> set txt" "txt \<noteq> []"
    and "sl_create_fingerprint sl alg txt = Some fp"
  shows "parse_transport_info sl td (''a=fingerprint:'' @ alg @ '' '' @ txt) = Some (0, td\<lparr>td_fingerprint := Some fp\<rparr>)"
proof -
  have n: "CHR '' '' \<notin> set (''a=fingerprint:'' @ alg)" using cleanD(3) [OF assms(1)] by simp
  have "sl_tokenize sl ((''a=fingerprint:'' @ alg) @ CHR '' '' # txt) CHR '' '' = [''a=fingerprint:'' @ alg, txt]"
    unfolding tokenize by (subst tokens_at_cons [OF n]) (use assms(4,5) tokens_at_none in simp_all)
  moreover have "substr 14 (''a=fingerprint:'' @ alg) = Some alg" by (simp add: substr_def)
  moreover have "CHR ''='' \<notin> set alg" "CHR ''='' \<notin> set txt" using assms(1,3) by (simp_all add: body_def)
  ultimately show ?thesis
    using assms(2,6) by (simp add: parse_transport_info_def contains_key Let_def)
qed

lemma read_ssrc:
  assumes "clean attr" "body val" "val \<noteq> []" "hd val \<noteq> CHR '':''"
  shows "parse_ssrc_info sl infos (ssrc_line ssrc attr val) =
     (if attr = ''cname'' then Some (0, set_ssrc_info ssrc (\<lambda>i. i\<lparr>si_cname := val\<rparr>) infos)
      else if attr = ''msid''
      then (let fields = split_at CHR '' '' val in
            if length fields < 1 \<or> length fields > 2 then Some (- 1, set_ssrc_info ssrc id infos)
            else Some (0, set_ssrc_info ssrc
              (\<lambda>i. let i1 = i\<lparr>si_stream_id := fields ! 0\<rparr> in if length fields = 2 then i1\<lparr>si_track_id := fields ! 1\<rparr> else i1) infos))
      else Some (0, set_ssrc_info ssrc id infos))"
proof -
  let ?n = "show_nat (unat ssrc)"
  have n: "clean ?n" by (rule show_nat_clean)
  have l: "ssrc_line ssrc attr val = ''a='' @ (''ssrc:'' @ ?n) @ CHR '' '' # attr @ CHR '':'' # val"
    by (simp add: ssrc_line_def)
  have "CHR ''='' \<notin> set (?n @ CHR '' '' # attr @ CHR '':'' # val)"
    using n assms(1,2) by (simp add: body_def)
  then have "contains ''a=ssrc:'' (ssrc_line ssrc attr val)" unfolding l by (simp add: contains_key)
  moreover have "substr 2 (ssrc_line ssrc attr val) = Some ((''ssrc:'' @ ?n) @ CHR '' '' # attr @ CHR '':'' # val)"
    unfolding l by (simp add: substr_def)
  moreover have "first_token CHR '' '' ((''ssrc:'' @ ?n) @ CHR '' '' # attr @ CHR '':'' # val)
      = Some (''ssrc:'' @ ?n, attr @ CHR '':'' # val)"
    by (rule first_token_cons) (use n assms(1) cleanD in \<open>auto simp: hd_append\<close>)
  moreover have "substr 5 (''ssrc:'' @ ?n) = Some ?n" by (simp add: substr_def)
  moreover have "first_token CHR '':'' (attr @ CHR '':'' # val) = Some (attr, val)"
    by (rule first_token_cons) (use assms cleanD in auto)
  ultimately show ?thesis
    by (simp add: parse_ssrc_info_def tokenize_first split from_string)
qed

end


subsection \<open>The tracks of a section\<close>

definition track_ok :: "stream_params \<Rightarrow> bool" where
  "track_ok t =
     (clean (sp_id t) \<and> clean (sp_cname t) \<and> clean (sp_stream_id t) \<and> sp_ssrcs t \<noteq> []
      \<and> list_all (\<lambda>g. clean (sg_semantics g) \<and> sg_ssrcs g \<noteq> [] \<and> hd (sg_ssrcs g) \<in> set (sp_ssrcs t)) (sp_ssrc_groups t))"

definition tracks_ok :: "stream_params list \<Rightarrow> bool" where
  "tracks_ok ts = (list_all track_ok ts \<and> distinct (map sp_id ts) \<and> distinct (concat (map sp_ssrcs ts)))"

definition ssrc_four :: "stream_params \<Rightarrow> u32 \<Rightarrow> string list" where
  "ssrc_four t ssrc =
     [ssrc_line ssrc ''cname'' (sp_cname t), ssrc_line ssrc ''msid'' (sp_stream_id t @ '' '' @ sp_id t),
      ssrc_line ssrc ''mslabel'' (sp_stream_id t), ssrc_line ssrc ''label'' (sp_id t)]"

definition group_line :: "ssrc_group \<Rightarrow> string" where
  "group_line g = ''a=ssrc-group:'' @ sg_semantics g @ concat (map (\<lambda>ssrc. '' '' @ show_nat (unat ssrc)) (sg_ssrcs g))"

definition track_lines :: "stream_params \<Rightarrow> string list" where
  "track_lines t = map group_line (sp_ssrc_groups t) @ concat (map (ssrc_four t) (sp_ssrcs t))"

lemma ssrc_lines_tracks:
  "list_all track_ok (mc_streams mc) \<Longrightarrow> ssrc_lines mc = concat (map track_lines (mc_streams mc))"
proof -
  assume ok: "list_all track_ok (mc_streams mc)"
  have f: "filter (\<lambda>g. sg_ssrcs g \<noteq> []) (sp_ssrc_groups t) = sp_ssrc_groups t" if "t \<in> set (mc_streams mc)" for t
    using ok that by (auto simp: list_all_iff track_ok_def intro: filter_True)
  show ?thesis
    unfolding ssrc_lines_def track_lines_def group_line_def ssrc_four_def
    by (intro arg_cong [where f = concat] map_cong) (simp_all add: f cong: map_cong)
qed

lemma sdp_split_fields:
  "d \<notin> set x \<Longrightarrow> \<forall>y \<in> set ys. d \<notin> set y \<Longrightarrow> split_at d (x @ concat (map (\<lambda>y. d # y) ys)) = x # ys"
proof (induction ys arbitrary: x)
  case Nil
  then show ?case by (simp add: split_at_none)
next
  case (Cons y ys)
  have "split_at d (y @ concat (map (\<lambda>y. d # y) ys)) = y # ys" using Cons by simp
  then show ?case using split_at_cons [OF Cons.prems(1)] by simp
qed

lemma ssrc_line_keys:
  assumes "clean attr" "body val"
  shows "\<not> contains ''m='' (ssrc_line ssrc attr val)" "\<not> contains ''a=ice-ufrag'' (ssrc_line ssrc attr val)"
    "\<not> contains ''a=ice-pwd'' (ssrc_line ssrc attr val)" "\<not> contains ''a=fingerprint'' (ssrc_line ssrc attr val)"
    "\<not> contains ''a=ssrc-group:'' (ssrc_line ssrc attr val)"
proof -
  have "CHR ''='' \<notin> set (''ssrc:'' @ show_nat (unat ssrc) @ '' '' @ attr @ '':'' @ val)"
    using show_nat_clean assms by (simp add: body_def)
  then show "\<not> contains ''m='' (ssrc_line ssrc attr val)" "\<not> contains ''a=ice-ufrag'' (ssrc_line ssrc attr val)"
    "\<not> contains ''a=ice-pwd'' (ssrc_line ssrc attr val)" "\<not> contains ''a=fingerprint'' (ssrc_line ssrc attr val)"
    "\<not> contains ''a=ssrc-group:'' (ssrc_line ssrc attr val)"
    by (simp_all add: ssrc_line_def contains_key)
qed

lemma group_line_keys:
  assumes "clean (sg_semantics g)"
  shows "\<not> contains ''m='' (group_line g)" "\<not> contains ''a=ice-ufrag'' (group_line g)"
    "\<not> contains ''a=ice-pwd'' (group_line g)" "\<not> contains ''a=fingerprint'' (group_line g)"
    "\<not> contains ''a=ssrc:'' (group_line g)" "contains ''a=ssrc-group:'' (group_line g)"
proof -
  have "CHR ''='' \<notin> set (''ssrc-group:'' @ sg_semantics g @ concat (map (\<lambda>ssrc. '' '' @ show_nat (unat ssrc)) (sg_ssrcs g)))"
    using show_nat_clean assms by simp
  then show "\<not> contains ''m='' (group_line g)" "\<not> contains ''a=ice-ufrag'' (group_line g)"
    "\<not> contains ''a=ice-pwd'' (group_line g)" "\<not> contains ''a=fingerprint'' (group_line g)"
    "\<not> contains ''a=ssrc:'' (group_line g)" "contains ''a=ssrc-group:'' (group_line g)"
    by (simp_all add: group_line_def contains_key)
qed

definition track_info :: "stream_params \<Rightarrow> u32 \<Rightarrow> ssrc_info" where
  "track_info t ssrc = \<lparr>si_ssrc_id = ssrc, si_cname = sp_cname t, si_stream_id = sp_stream_id t, si_track_id = sp_id t\<rparr>"

lemma clean_words: "clean ''cname''" "clean ''msid''" "clean ''mslabel''" "clean ''label''"
  by (simp_all add: clean_def seps_def)

context sdp_text_laws begin

lemma read_ssrc_line:
  assumes "in_section ty st" "clean attr" "body val"
    and "parse_ssrc_info sl (get_infos ty st) (ssrc_line ssrc attr val) = Some (0, infos)"
  shows "remote_line sl (ssrc_line ssrc attr val) st = Some (0, put_infos ty infos st)"
  by (rule ssrc_attr_line) (use assms ssrc_line_keys [OF assms(2,3)] in simp_all)

lemma read_ssrc_four:
  assumes "in_section ty st" "track_ok t" "ssrc \<notin> si_ssrc_id ` set (get_infos ty st)"
  shows "remote_lines sl (ssrc_four t ssrc) st = Some (0, put_infos ty (get_infos ty st @ [track_info t ssrc]) st)"
proof -
  have c: "clean (sp_id t)" "clean (sp_cname t)" "clean (sp_stream_id t)" using assms(2) by (auto simp: track_ok_def)
  note b = c [THEN clean_body] and d = c [THEN cleanD(1)] c [THEN cleanD(4)]
  let ?is = "get_infos ty st"
  let ?i1 = "\<lparr>si_ssrc_id = ssrc, si_cname = sp_cname t, si_stream_id = '''', si_track_id = ''''\<rparr>"
  have f: "split_at CHR '' '' (sp_stream_id t @ '' '' @ sp_id t) = [sp_stream_id t, sp_id t]"
    using sdp_split_fields [of "CHR '' ''" "sp_stream_id t" "[sp_id t]"] cleanD(3) [OF c(3)] cleanD(3) [OF c(1)] by simp
  have h: "hd (sp_stream_id t @ '' '' @ sp_id t) \<noteq> CHR '':''" using d by (cases "sp_stream_id t") simp_all
  have 1: "parse_ssrc_info sl ?is (ssrc_line ssrc ''cname'' (sp_cname t)) = Some (0, ?is @ [?i1])"
    by (subst read_ssrc) (use b d assms(3) clean_words in \<open>simp_all add: set_info_new\<close>)
  have 2: "parse_ssrc_info sl (?is @ [?i1]) (ssrc_line ssrc ''msid'' (sp_stream_id t @ '' '' @ sp_id t)) = Some (0, ?is @ [track_info t ssrc])"
    by (subst read_ssrc) (use b d h f assms(3) clean_words in \<open>simp_all add: set_info_last track_info_def Let_def\<close>)
  have 3: "parse_ssrc_info sl (?is @ [track_info t ssrc]) (ssrc_line ssrc ''mslabel'' (sp_stream_id t)) = Some (0, ?is @ [track_info t ssrc])"
    "parse_ssrc_info sl (?is @ [track_info t ssrc]) (ssrc_line ssrc ''label'' (sp_id t)) = Some (0, ?is @ [track_info t ssrc])"
    by (subst read_ssrc; use b d assms(3) clean_words in \<open>simp_all add: set_info_last track_info_def\<close>)+
  let ?st1 = "put_infos ty (?is @ [?i1]) st" and ?st2 = "put_infos ty (?is @ [track_info t ssrc]) st"
  have l1: "remote_line sl (ssrc_line ssrc ''cname'' (sp_cname t)) st = Some (0, ?st1)"
    by (rule read_ssrc_line [OF assms(1) clean_words(1) b(2) 1])
  have l2: "remote_line sl (ssrc_line ssrc ''msid'' (sp_stream_id t @ '' '' @ sp_id t)) ?st1 = Some (0, ?st2)"
    using read_ssrc_line [of ty ?st1 "''msid''" "sp_stream_id t @ '' '' @ sp_id t" ssrc] 2 assms(1) b clean_words by simp
  have l3: "remote_line sl (ssrc_line ssrc ''mslabel'' (sp_stream_id t)) ?st2 = Some (0, ?st2)"
    using read_ssrc_line [of ty ?st2 "''mslabel''" "sp_stream_id t" ssrc] 3(1) assms(1) b clean_words by simp
  have l4: "remote_line sl (ssrc_line ssrc ''label'' (sp_id t)) ?st2 = Some (0, ?st2)"
    using read_ssrc_line [of ty ?st2 "''label''" "sp_id t" ssrc] 3(2) assms(1) b clean_words by simp
  show ?thesis unfolding ssrc_four_def by (simp only: remote_lines.simps l1 l2 l3 l4 and_then_ok)
qed

lemma read_ssrcs:
  assumes "in_section ty st" "track_ok t" "distinct ssrcs" "set ssrcs \<inter> si_ssrc_id ` set (get_infos ty st) = {}"
  shows "remote_lines sl (concat (map (ssrc_four t) ssrcs)) st
     = Some (0, put_infos ty (get_infos ty st @ map (track_info t) ssrcs) st)"
  using assms
proof (induction ssrcs arbitrary: st)
  case Nil
  then show ?case by simp
next
  case (Cons ssrc ssrcs)
  let ?st = "put_infos ty (get_infos ty st @ [track_info t ssrc]) st"
  have "remote_lines sl (ssrc_four t ssrc) st = Some (0, ?st)"
    by (rule read_ssrc_four) (use Cons.prems in auto)
  moreover have "remote_lines sl (concat (map (ssrc_four t) ssrcs)) ?st
      = Some (0, put_infos ty (get_infos ty ?st @ map (track_info t) ssrcs) ?st)"
    by (rule Cons.IH) (use Cons.prems in \<open>auto simp: track_info_def\<close>)
  ultimately show ?case by (simp add: remote_lines_append)
qed

lemma read_group:
  assumes "in_section MEDIA_TYPE_VIDEO st" "clean (sg_semantics g)" "sg_ssrcs g \<noteq> []"
  shows "remote_line sl (group_line g) st = Some (0, st\<lparr>rm_video_groups := rm_video_groups st @ [g]\<rparr>)"
proof -
  define ns where "ns = map (\<lambda>ssrc. show_nat (unat ssrc)) (sg_ssrcs g)"
  define x where "x = ''ssrc-group:'' @ sg_semantics g"
  have "CHR '' '' \<notin> set x" "\<forall>y \<in> set ns. CHR '' '' \<notin> set y"
    using cleanD(3) [OF assms(2)] cleanD(3) [OF show_nat_clean] by (auto simp: x_def ns_def)
  then have f: "sl_split sl (x @ concat (map (\<lambda>y. CHR '' '' # y) ns)) CHR '' '' = x # ns"
    unfolding split by (rule sdp_split_fields)
  have s: "substr 2 (group_line g) = Some (x @ concat (map (\<lambda>y. CHR '' '' # y) ns))"
    by (simp add: group_line_def substr_def x_def ns_def comp_def)
  have "get_atrribute sl (''ssrc-group'' @ CHR '':'' # sg_semantics g) = sg_semantics g"
    by (rule get_atrribute_field) (use assms(2) cleanD in simp_all)
  then have a: "get_atrribute sl x = sg_semantics g" by (simp add: x_def)
  have n: "from_strings sl ns = Some (sg_ssrcs g)" "ns \<noteq> []" using assms(3) from_strings_show by (simp_all add: ns_def)
  then have "parse_ssrc_group_info sl (rm_video_groups st) (group_line g) = Some (0, rm_video_groups st @ [g])"
    using group_line_keys(6) [OF assms(2)] cleanD(1) [OF assms(2)] f
    by (cases ns) (simp_all add: parse_ssrc_group_info_def s a Let_def)
  then show ?thesis
    by (rule group_attr_line [OF assms(1) group_line_keys(1-5) [OF assms(2)]])
qed

end

text \<open>Groups of the video section are kept in the order of the lines, those of audio are passed over.\<close>

definition put_groups :: "media_type \<Rightarrow> ssrc_group list \<Rightarrow> remote_parse \<Rightarrow> remote_parse" where
  "put_groups ty gs st =
     (if ty = MEDIA_TYPE_VIDEO then st\<lparr>rm_video_groups := rm_video_groups st @ gs\<rparr> else st)"

lemma put_groups_sel [simp]:
  "get_infos ty' (put_groups ty gs st) = get_infos ty' st" "get_td ty' (put_groups ty gs st) = get_td ty' st"
  "in_section ty' (put_groups ty gs st) = in_section ty' st" "put_groups ty [] st = st"
  "put_groups ty gs' (put_groups ty gs st) = put_groups ty (gs @ gs') st"
  "put_groups ty gs (put_infos ty' is st) = put_infos ty' is (put_groups ty gs st)"
  by (simp_all add: put_groups_def get_infos_def get_td_def in_section_def put_infos_def)

context sdp_text_laws begin

lemma read_groups:
  assumes "in_section ty st" "list_all (\<lambda>g. clean (sg_semantics g) \<and> sg_ssrcs g \<noteq> []) gs"
  shows "remote_lines sl (map group_line gs) st = Some (0, put_groups ty gs st)"
  using assms
proof (induction gs arbitrary: st)
  case Nil
  then show ?case by simp
next
  case (Cons g gs)
  have "remote_line sl (group_line g) st = Some (0, put_groups ty [g] st)"
  proof (cases ty)
    case MEDIA_TYPE_AUDIO
    then show ?thesis using group_audio_line [of st "group_line g"] group_line_keys Cons.prems
      by (simp add: put_groups_def)
  next
    case MEDIA_TYPE_VIDEO
    then show ?thesis using read_group [of st g] Cons.prems by (simp add: put_groups_def)
  qed
  then show ?case using Cons by simp
qed

lemma read_track:
  assumes "in_section ty st" "track_ok t" "distinct (sp_ssrcs t)" "set (sp_ssrcs t) \<inter> si_ssrc_id ` set (get_infos ty st) = {}"
  shows "remote_lines sl (track_lines t) st
    = Some (0, put_infos ty (get_infos ty st @ map (track_info t) (sp_ssrcs t)) (put_groups ty (sp_ssrc_groups t) st))"
proof -
  have "remote_lines sl (map group_line (sp_ssrc_groups t)) st = Some (0, put_groups ty (sp_ssrc_groups t) st)"
    by (rule read_groups [OF assms(1)]) (use assms(2) in \<open>auto simp: track_ok_def list_all_iff\<close>)
  moreover have "remote_lines sl (concat (map (ssrc_four t) (sp_ssrcs t))) (put_groups ty (sp_ssrc_groups t) st)
      = Some (0, put_infos ty (get_infos ty st @ map (track_info t) (sp_ssrcs t)) (put_groups ty (sp_ssrc_groups t) st))"
    using read_ssrcs [of ty "put_groups ty (sp_ssrc_groups t) st" t "sp_ssrcs t"] assms by simp
  ultimately show ?thesis by (simp add: track_lines_def remote_lines_append)
qed

lemma read_tracks:
  assumes "in_section ty st" "list_all track_ok ts" "distinct (concat (map sp_ssrcs ts))"
    "set (concat (map sp_ssrcs ts)) \<inter> si_ssrc_id ` set (get_infos ty st) = {}"
  shows "remote_lines sl (concat (map track_lines ts)) st
    = Some (0, put_infos ty (get_infos ty st @ concat (map (\<lambda>t. map (track_info t) (sp_ssrcs t)) ts))
                 (put_groups ty (concat (map sp_ssrc_groups ts)) st))"
  using assms
proof (induction ts arbitrary: st)
  case Nil
  then show ?case by simp
next
  case (Cons t ts)
  let ?st = "put_infos ty (get_infos ty st @ map (track_info t) (sp_ssrcs t)) (put_groups ty (sp_ssrc_groups t) st)"
  have "remote_lines sl (track_lines t) st = Some (0, ?st)"
    by (rule read_track) (use Cons.prems in auto)
  moreover have "remote_lines sl (concat (map track_lines ts)) ?st
      = Some (0, put_infos ty (get_infos ty ?st @ concat (map (\<lambda>t. map (track_info t) (sp_ssrcs t)) ts))
                   (put_groups ty (concat (map sp_ssrc_groups ts)) ?st))"
    by (rule Cons.IH) (use Cons.prems in \<open>auto simp: track_info_def, blast\<close>)
  ultimately show ?case by (simp add: remote_lines_append)
qed

end

subsection \<open>The tracks made from the attributes\<close>

lemma add_to_track_new:
  "si_track_id i \<notin> sp_id ` set ts \<Longrightarrow> add_to_track i ts = ts @ add_to_track i []"
  by (induction ts) auto

lemma add_to_track_last:
  "si_track_id i \<notin> sp_id ` set ts \<Longrightarrow> sp_id t = si_track_id i \<Longrightarrow>
     add_to_track i (ts @ [t]) = ts @ add_to_track i [t]"
  by (induction ts) auto

definition bare :: "stream_params \<Rightarrow> stream_params" where
  "bare t = t\<lparr>sp_ssrc_groups := []\<rparr>"

lemma make_track:
  "sp_id t \<notin> sp_id ` set acc \<Longrightarrow>
     create_track_from_ssrc_info (map (track_info t) ssrcs) (acc @ [bare t\<lparr>sp_ssrcs := ss\<rparr>])
       = acc @ [bare t\<lparr>sp_ssrcs := ss @ ssrcs\<rparr>]"
  by (induction ssrcs arbitrary: ss)
     (simp_all add: create_track_from_ssrc_info_def track_info_def add_to_track_last bare_def)

lemma create_append:
  "create_track_from_ssrc_info (is @ js) ts = create_track_from_ssrc_info js (create_track_from_ssrc_info is ts)"
  by (simp add: create_track_from_ssrc_info_def)

lemma make_first:
  assumes "sp_id t \<notin> sp_id ` set acc" "sp_ssrcs t \<noteq> []"
  shows "create_track_from_ssrc_info (map (track_info t) (sp_ssrcs t)) acc = acc @ [bare t]"
proof -
  obtain s ss where s: "sp_ssrcs t = s # ss" using assms(2) by (cases "sp_ssrcs t") auto
  have "add_to_track (track_info t s) acc = acc @ [bare t\<lparr>sp_ssrcs := [s]\<rparr>]"
    using add_to_track_new [of "track_info t s" acc] assms(1) by (simp add: track_info_def bare_def new_stream_params_def)
  then have "create_track_from_ssrc_info (map (track_info t) (sp_ssrcs t)) acc
      = create_track_from_ssrc_info (map (track_info t) ss) (acc @ [bare t\<lparr>sp_ssrcs := [s]\<rparr>])"
    by (simp add: s create_track_from_ssrc_info_def)
  then show ?thesis unfolding make_track [OF assms(1)] by (simp add: bare_def s)
qed

lemma make_tracks:
  "list_all track_ok ts \<Longrightarrow> distinct (map sp_id (acc @ ts)) \<Longrightarrow>
     create_track_from_ssrc_info (concat (map (\<lambda>t. map (track_info t) (sp_ssrcs t)) ts)) acc = acc @ map bare ts"
proof (induction ts arbitrary: acc)
  case Nil
  then show ?case by (simp add: create_track_from_ssrc_info_def)
next
  case (Cons t ts)
  have "create_track_from_ssrc_info (map (track_info t) (sp_ssrcs t)) acc = acc @ [bare t]"
    by (rule make_first) (use Cons.prems in \<open>auto simp: track_ok_def\<close>)
  moreover have "create_track_from_ssrc_info (concat (map (\<lambda>t. map (track_info t) (sp_ssrcs t)) ts)) (acc @ [bare t])
      = (acc @ [bare t]) @ map bare ts"
    by (rule Cons.IH) (use Cons.prems in \<open>auto simp: bare_def\<close>)
  ultimately show ?case by (simp add: create_append)
qed

text \<open>A group goes back to the only track that has its first SSRC.\<close>

lemma group_to_track:
  assumes "sg_ssrcs g \<noteq> []" "hd (sg_ssrcs g) \<in> set (sp_ssrcs t)"
    and "\<forall>u \<in> set (before @ after). hd (sg_ssrcs g) \<notin> set (sp_ssrcs u)"
  shows "add_group_to_tracks (before @ t # after) g = before @ t\<lparr>sp_ssrc_groups := sp_ssrc_groups t @ [g]\<rparr> # after"
  using assms
  by (cases "sg_ssrcs g") (auto simp: add_group_to_tracks_def has_ssrc_def list_ex_iff intro!: map_idI)

lemma groups_to_track:
  assumes "\<forall>g \<in> set gs. sg_ssrcs g \<noteq> [] \<and> hd (sg_ssrcs g) \<in> set (sp_ssrcs t)
      \<and> (\<forall>u \<in> set (before @ after). hd (sg_ssrcs g) \<notin> set (sp_ssrcs u))"
  shows "foldl add_group_to_tracks (before @ t # after) gs = before @ t\<lparr>sp_ssrc_groups := sp_ssrc_groups t @ gs\<rparr> # after"
  using assms
proof (induction gs arbitrary: t)
  case Nil
  then show ?case by simp
next
  case (Cons g gs)
  have "add_group_to_tracks (before @ t # after) g = before @ t\<lparr>sp_ssrc_groups := sp_ssrc_groups t @ [g]\<rparr> # after"
    by (rule group_to_track) (use Cons.prems in auto)
  then show ?case using Cons.IH [of "t\<lparr>sp_ssrc_groups := sp_ssrc_groups t @ [g]\<rparr>"] Cons.prems by simp
qed

lemma groups_back:
  assumes "list_all track_ok ts" "distinct (concat (map sp_ssrcs (front @ ts)))"
  shows "foldl add_group_to_tracks (front @ map bare ts) (concat (map sp_ssrc_groups ts)) = front @ ts"
  using assms
proof (induction ts arbitrary: front)
  case Nil
  then show ?case by simp
next
  case (Cons t ts)
  have "foldl add_group_to_tracks (front @ bare t # map bare ts) (sp_ssrc_groups t)
      = front @ (bare t)\<lparr>sp_ssrc_groups := sp_ssrc_groups (bare t) @ sp_ssrc_groups t\<rparr> # map bare ts"
    by (rule groups_to_track) (use Cons.prems in \<open>auto simp: track_ok_def list_all_iff bare_def, blast\<close>)
  also have "(bare t)\<lparr>sp_ssrc_groups := sp_ssrc_groups (bare t) @ sp_ssrc_groups t\<rparr> = t" by (simp add: bare_def)
  finally show ?case using Cons.IH [of "front @ [t]"] Cons.prems by simp
qed

subsection \<open>A media section\<close>

lemma body_concat [simp]: "body (concat xs) \<longleftrightarrow> list_all body xs"
  by (induction xs) auto

lemma media_mid_clean [simp]: "clean (media_mid ty)"
  by (cases ty) (simp_all add: clean_def seps_def)

text \<open>What the line of a section does: it selects the media type, adds the content and names its transport.\<close>

definition enter :: "media_type \<Rightarrow> remote_parse \<Rightarrow> remote_parse" where
  "enter ty st = put_td ty ((get_td ty st)\<lparr>td_mid := media_mid ty\<rparr>)
     (st\<lparr>rm_media := media_mid ty, rm_contents := rm_contents st @ [ty]\<rparr>)"

text \<open>The parts of a description whose lines the parser is to pass over.\<close>

definition plain :: "string \<Rightarrow> bool" where "plain l = (inert l \<and> lf \<notin> set l)"

definition content_ok :: "sdp_lib \<Rightarrow> string \<Rightarrow> media_content \<Rightarrow> bool" where
  "content_ok sl addr mc =
     (list_all plain (map (candidate_line sl addr) (mc_candidates mc)) \<and> list_all plain (rtp_map_lines mc)
      \<and> tracks_ok (mc_streams mc))"

definition transport_ok :: "sdp_lib \<Rightarrow> transport_desc \<Rightarrow> bool" where
  "transport_ok sl td =
     (clean (td_ice_ufrag td) \<and> clean (td_ice_pwd td)
      \<and> (case td_fingerprint td of
           None \<Rightarrow> True
         | Some fp \<Rightarrow>
             clean (fp_algorithm fp) \<and> map lower_char (fp_algorithm fp) = fp_algorithm fp
             \<and> body (sl_fingerprint_text sl fp) \<and> CHR '' '' \<notin> set (sl_fingerprint_text sl fp)
             \<and> sl_fingerprint_text sl fp \<noteq> []
             \<and> sl_create_fingerprint sl (fp_algorithm fp) (sl_fingerprint_text sl fp) = Some fp))"

text \<open>What reading the lines of a transport leaves in the transport info.\<close>

definition td_read :: "transport_desc \<Rightarrow> transport_desc \<Rightarrow> transport_desc" where
  "td_read td td0 = td0\<lparr>td_ice_ufrag := td_ice_ufrag td, td_ice_pwd := td_ice_pwd td,
     td_fingerprint := (if td_fingerprint td = None then td_fingerprint td0 else td_fingerprint td)\<rparr>"

lemma fixed_lines_inert:
  "inert ''c=IN IP4 0.0.0.0''" "inert ''a=rtcp:9 IN IP4 0.0.0.0''" "inert ''a=rtcp-mux''"
  "inert (direction_line mc)" "inert (''a=mid:'' @ media_mid ty)" "inert (''a=setup:'' @ connection_role_to_string r)"
  "inert ''v=0''" "inert ''s=-''" "inert ''o=- 0 2 IN IP4 127.0.0.1''" "inert ''t=0 0''" "inert ''a=msid-semantic: WMS''"
proof -
  show "inert (direction_line mc)"
    by (auto simp: direction_line_def intro!: inert_attr split: option.splits rtp_direction.splits)
  show "inert (''a=setup:'' @ connection_role_to_string r)"
    using inert_attr [of "''setup:'' @ connection_role_to_string r"] by (cases r) simp_all
  show "inert (''a=mid:'' @ media_mid ty)" using inert_attr [of "''mid:'' @ media_mid ty"] by (cases ty) simp_all
  show "inert ''a=rtcp:9 IN IP4 0.0.0.0''" "inert ''a=rtcp-mux''" "inert ''a=msid-semantic: WMS''"
    by (rule inert_attr; simp)+
qed (simp_all add: inert_def contains_key)

context sdp_text_laws begin

lemma read_media_line:
  assumes "body rest"
  shows "remote_line sl (''m='' @ media_mid ty @ '' 9 '' @ k_media_protocol_dtls_savpf @ rest) st = Some (0, enter ty st)"
proof -
  define p where "p = k_media_protocol_dtls_savpf @ rest"
  have p: "CHR ''='' \<notin> set p" using assms by (auto simp: p_def k_media_protocol_dtls_savpf_def body_def)
  obtain items where i: "sl_split sl (''m='' @ media_mid ty @ '' 9 '' @ p) CHR '' '' = (''m='' @ media_mid ty) # ''9'' # items" "items \<noteq> []"
  proof -
    have "CHR '' '' \<notin> set (''m='' @ media_mid ty)" using cleanD(3) [OF media_mid_clean] by simp
    note a = split_at_cons [OF this, of "''9'' @ CHR '' '' # p"]
    have "CHR '' '' \<notin> set ''9''" by simp
    note b = split_at_cons [OF this, of p]
    show thesis using that [of "split_at CHR '' '' p"] a b by (simp add: split)
  qed
  have m: "media_mid ty @ '' 9 '' @ p = hd (media_mid ty) # tl (media_mid ty) @ '' 9 '' @ p" by (cases ty) simp_all
  have k: "\<not> contains ''m=group:BUNDLE'' (''m='' @ media_mid ty @ '' 9 '' @ p)" "contains ''m='' (''m='' @ media_mid ty @ '' 9 '' @ p)"
    "\<not> contains ''a=ice-ufrag'' (''m='' @ media_mid ty @ '' 9 '' @ p)" "\<not> contains ''a=ice-pwd'' (''m='' @ media_mid ty @ '' 9 '' @ p)"
    "\<not> contains ''a=fingerprint'' (''m='' @ media_mid ty @ '' 9 '' @ p)" "\<not> contains ''a=ssrc:'' (''m='' @ media_mid ty @ '' 9 '' @ p)"
    "\<not> contains ''a=ssrc-group:'' (''m='' @ media_mid ty @ '' 9 '' @ p)"
    using p by (cases ty; simp add: contains_key)+
  have "remote_media_line sl (''m='' @ media_mid ty @ '' 9 '' @ p) st = Some (0, enter ty st)"
    unfolding remote_media_line_def using k(1,2) i
    by (cases ty) (simp_all add: Let_def substr_def enter_def put_td_def get_td_def Suc_le_eq)
  moreover have "remote_attr_line sl (''m='' @ media_mid ty @ '' 9 '' @ p) (enter ty st) = Some (0, enter ty st)"
    unfolding attr_line transport_passes [OF k(3-5)] ssrc_passes [OF k(6)] group_passes [OF k(7)] by simp
  ultimately show ?thesis unfolding remote_line_def p_def by simp
qed

lemma read_transport:
  assumes "in_section ty st" "transport_ok sl td"
  shows "remote_lines sl (transport_lines sl (Some td)) st = Some (0, put_td ty (td_read td (get_td ty st)) st)"
proof -
  let ?st1 = "put_td ty ((get_td ty st)\<lparr>td_ice_ufrag := td_ice_ufrag td\<rparr>) st"
  let ?st2 = "put_td ty ((get_td ty st)\<lparr>td_ice_ufrag := td_ice_ufrag td, td_ice_pwd := td_ice_pwd td\<rparr>) st"
  have c: "clean (td_ice_ufrag td)" "clean (td_ice_pwd td)" using assms(2) by (simp_all add: transport_ok_def)
  have 1: "remote_line sl (''a=ice-ufrag:'' @ td_ice_ufrag td) st = Some (0, ?st1)"
    by (rule transport_line [OF assms(1)]) (use c(1) read_ufrag in \<open>simp_all add: contains_key\<close>)
  have 2: "remote_line sl (''a=ice-pwd:'' @ td_ice_pwd td) ?st1 = Some (0, ?st2)"
    using transport_line [of ty ?st1 "''a=ice-pwd:'' @ td_ice_pwd td"] read_pwd [OF c(2), of "get_td ty ?st1"] assms(1) c(2)
    by (simp add: contains_key)
  show ?thesis
  proof (cases "td_fingerprint td")
    case None
    then show ?thesis using 1 2 by (simp add: transport_lines_def td_read_def)
  next
    case (Some fp)
    let ?l = "''a=fingerprint:'' @ fp_algorithm fp @ '' '' @ sl_fingerprint_text sl fp"
    have f: "clean (fp_algorithm fp)" "body (sl_fingerprint_text sl fp)" and
      r: "parse_transport_info sl (get_td ty ?st2) ?l = Some (0, (get_td ty ?st2)\<lparr>td_fingerprint := Some fp\<rparr>)"
      using assms(2) Some read_fingerprint by (auto simp: transport_ok_def)
    have "CHR ''='' \<notin> set (sl_fingerprint_text sl fp)" using f(2) by (simp add: body_def)
    then have 3: "remote_line sl ?l ?st2 = Some (0, put_td ty (td_read td (get_td ty st)) st)"
      using transport_line [of ty ?st2 ?l, OF _ _ _ _ r] assms(1) f(1) Some by (simp add: contains_key td_read_def)
    show ?thesis
      using 1 2 3 inert_line [OF fixed_lines_inert(6)] Some by (simp add: transport_lines_def)
  qed
qed

end

text \<open>The state after the section of \<open>mc\<close> whose transport is \<open>td\<close>.\<close>

definition all_infos :: "media_content \<Rightarrow> ssrc_info list" where
  "all_infos mc = concat (map (\<lambda>t. map (track_info t) (sp_ssrcs t)) (mc_streams mc))"

definition all_groups :: "media_content \<Rightarrow> ssrc_group list" where
  "all_groups mc = concat (map sp_ssrc_groups (mc_streams mc))"

definition section_read :: "media_content \<Rightarrow> transport_desc \<Rightarrow> remote_parse \<Rightarrow> remote_parse" where
  "section_read mc td st =
     (let ty = mc_type mc in
      put_infos ty (get_infos ty st @ all_infos mc)
        (put_groups ty (all_groups mc) (put_td ty (td_read td (get_td ty (enter ty st))) (enter ty st))))"

lemma enter_sel [simp]:
  "get_infos ty' (enter ty st) = get_infos ty' st" "in_section ty (enter ty st)"
  by (simp_all add: enter_def get_infos_def put_td_def in_section_def)

lemma section_read_sel:
  "get_infos ty (section_read mc td st) = (if ty = mc_type mc then get_infos ty st @ all_infos mc else get_infos ty st)"
  "get_td ty (section_read mc td st) =
     (if ty = mc_type mc then td_read td ((get_td ty st)\<lparr>td_mid := media_mid ty\<rparr>) else get_td ty st)"
  "rm_video_groups (section_read mc td st) =
     rm_video_groups st @ (if mc_type mc = MEDIA_TYPE_VIDEO then all_groups mc else [])"
  "rm_contents (section_read mc td st) = rm_contents st @ [mc_type mc]"
  "rm_groups (section_read mc td st) = rm_groups st"
  by (cases ty; cases "mc_type mc";
      simp add: section_read_def enter_def put_infos_def get_infos_def put_td_def get_td_def put_groups_def Let_def)+

context sdp_text_laws begin

lemma read_section:
  assumes "get_transport_info (mc_mid mc) sd = Some td" "content_ok sl addr mc" "transport_ok sl td"
    and "get_infos (mc_type mc) st = []"
  shows "remote_lines sl (content_lines sl addr sd mc) st = Some (0, section_read mc td st)"
proof -
  let ?ty = "mc_type mc"
  let ?st = "put_td ?ty (td_read td (get_td ?ty (enter ?ty st))) (enter ?ty st)"
  let ?rest = "concat (map (\<lambda>codec. '' '' @ show_int (ci_id codec)) (mc_codecs mc))"
  have m: "mc_mid mc = media_mid ?ty" by (simp add: mc_mid_def)
  have "body ?rest" by (simp add: list_all_iff)
  from read_media_line [OF this]
  have 1: "remote_line sl (''m='' @ mc_mid mc @ '' 9 '' @ k_media_protocol_dtls_savpf @ ?rest) st = Some (0, enter ?ty st)"
    unfolding m .
  have c: "list_all inert (map (candidate_line sl addr) (mc_candidates mc))" "list_all inert (rtp_map_lines mc)"
    and ok: "tracks_ok (mc_streams mc)"
    using assms(2) by (auto simp: content_ok_def plain_def list_all_iff)
  have 2: "remote_lines sl (transport_lines sl (Some td)) (enter ?ty st) = Some (0, ?st)"
    by (rule read_transport) (simp_all add: assms(3))
  have 3: "remote_lines sl (ssrc_lines mc) ?st = Some (0, section_read mc td st)"
    using read_tracks [of ?ty ?st "mc_streams mc"] ok assms(4)
    by (simp add: ssrc_lines_tracks tracks_ok_def section_read_def all_infos_def all_groups_def Let_def)
  show ?thesis
    unfolding content_lines_def remote_lines_append assms(1)
    using 1 2 3 inert_lines [OF c(1)] inert_lines [OF c(2)] inert_line [OF fixed_lines_inert(1)]
      inert_line [OF fixed_lines_inert(2)] inert_line [OF fixed_lines_inert(3)] inert_line [OF fixed_lines_inert(4)]
      inert_line [OF fixed_lines_inert(5)]
    by (simp add: m del: append.simps)
qed

lemma read_contents:
  assumes "\<forall>mc \<in> set mcs. content_ok sl addr mc \<and> get_infos (mc_type mc) st = []
      \<and> (\<exists>td. get_transport_info (mc_mid mc) sd = Some td \<and> transport_ok sl td)"
    and "distinct (map mc_type mcs)"
  shows "remote_lines sl (concat (map (content_lines sl addr sd) mcs)) st
     = Some (0, foldl (\<lambda>s mc. section_read mc (the (get_transport_info (mc_mid mc) sd)) s) st mcs)"
  using assms
proof (induction mcs arbitrary: st)
  case Nil
  then show ?case by simp
next
  case (Cons mc mcs)
  then obtain td where td: "get_transport_info (mc_mid mc) sd = Some td" "transport_ok sl td" by auto
  have "remote_lines sl (content_lines sl addr sd mc) st = Some (0, section_read mc td st)"
    by (rule read_section) (use td Cons.prems in auto)
  moreover have "remote_lines sl (concat (map (content_lines sl addr sd) mcs)) (section_read mc td st)
      = Some (0, foldl (\<lambda>s mc. section_read mc (the (get_transport_info (mc_mid mc) sd)) s) (section_read mc td st) mcs)"
    by (rule Cons.IH) (use Cons.prems in \<open>auto simp: section_read_sel, metis image_eqI\<close>)
  ultimately show ?case using td by (simp add: remote_lines_append)
qed

end

subsection \<open>A whole description\<close>

definition desc_ok :: "sdp_lib \<Rightarrow> string \<Rightarrow> session_desc \<Rightarrow> bool" where
  "desc_ok sl addr sd =
     (distinct (map mc_type (sd_contents sd)) \<and> list_all (\<lambda>g. list_all body (cg_names g)) (sd_groups sd)
      \<and> list_all (\<lambda>mc. content_ok sl addr mc
           \<and> (case get_transport_info (mc_mid mc) sd of None \<Rightarrow> False | Some td \<Rightarrow> transport_ok sl td)) (sd_contents sd))"

lemma body_no_lf: "body b \<Longrightarrow> lf \<notin> set b"
  by (simp add: body_def)

lemma track_no_lf: "track_ok t \<Longrightarrow> l \<in> set (track_lines t) \<Longrightarrow> lf \<notin> set l"
  using body_no_lf [OF clean_body] body_no_lf [OF show_nat_body]
  by (auto simp: track_lines_def group_line_def ssrc_four_def ssrc_line_def track_ok_def list_all_iff)

lemma transport_no_lf: "transport_ok sl td \<Longrightarrow> l \<in> set (transport_lines sl (Some td)) \<Longrightarrow> lf \<notin> set l"
  using body_no_lf [OF clean_body]
  by (cases "td_role td")
     (auto simp: transport_lines_def transport_ok_def body_def split: option.splits)

lemma content_no_lf:
  assumes "get_transport_info (mc_mid mc) sd = Some td" "content_ok sl addr mc" "transport_ok sl td"
    and "l \<in> set (content_lines sl addr sd mc)"
  shows "lf \<notin> set l"
proof -
  have t: "list_all track_ok (mc_streams mc)" using assms(2) by (simp add: content_ok_def tracks_ok_def)
  have m: "lf \<notin> set (mc_mid mc)" by (cases "mc_type mc") (simp_all add: mc_mid_def)
  have i: "lf \<notin> set (show_int n)" for n by (rule body_no_lf) simp
  have d: "lf \<notin> set (direction_line mc)"
    by (auto simp: direction_line_def split: option.splits rtp_direction.splits)
  have p: "lf \<notin> set k_media_protocol_dtls_savpf" by (simp add: k_media_protocol_dtls_savpf_def)
  have "l \<in> set (map (candidate_line sl addr) (mc_candidates mc)) \<Longrightarrow> ?thesis" "l \<in> set (rtp_map_lines mc) \<Longrightarrow> ?thesis"
    using assms(2) unfolding content_ok_def plain_def list_all_iff by blast+
  moreover have "l \<in> set (ssrc_lines mc) \<Longrightarrow> ?thesis"
    using t track_no_lf by (auto simp: ssrc_lines_tracks list_all_iff)
  moreover have "l \<in> set (transport_lines sl (Some td)) \<Longrightarrow> ?thesis" by (rule transport_no_lf [OF assms(3)])
  ultimately show ?thesis
    using assms(4) m i d p unfolding content_lines_def assms(1)
    by (auto split: if_splits)
qed

lemma bundle_plain:
  assumes "desc_ok sl addr sd"
  shows "list_all plain
     (case get_group_by_name ''BUNDLE'' sd of
        [] \<Rightarrow> []
      | gs \<Rightarrow> [''a=group:BUNDLE'' @ concat (map (\<lambda>g. concat (map (\<lambda>name. '' '' @ name) (cg_names g))) gs)])"
proof -
  define rest where "rest = concat (map (\<lambda>g. concat (map (\<lambda>name. '' '' @ name) (cg_names g))) (get_group_by_name ''BUNDLE'' sd))"
  have "body rest" using assms by (auto simp: rest_def desc_ok_def get_group_by_name_def list_all_iff)
  then have "plain (''a=group:BUNDLE'' @ rest)"
    using inert_attr [of "''group:BUNDLE'' @ rest"] body_no_lf by (simp add: plain_def)
  then show ?thesis
    by (cases "get_group_by_name ''BUNDLE'' sd") (simp_all only: rest_def list.case list.pred_inject simp_thms)
qed

text \<open>The lines before the first media section.\<close>

lemma session_lines_split:
  assumes "desc_ok sl addr sd"
  obtains head where "session_lines sl addr sd = head @ concat (map (content_lines sl addr sd) (sd_contents sd))"
    "list_all plain head" "head \<noteq> []"
proof -
  let ?g = "case get_group_by_name ''BUNDLE'' sd of
      [] \<Rightarrow> []
    | gs \<Rightarrow> [''a=group:BUNDLE'' @ concat (map (\<lambda>g. concat (map (\<lambda>name. '' '' @ name) (cg_names g))) gs)]"
  let ?head = "[''v=0'', ''o=- 0 2 IN IP4 127.0.0.1'', ''s=-'', ''t=0 0''] @ ?g @ [''a=msid-semantic: WMS'']"
  have "list_all plain ?head"
    using fixed_lines_inert bundle_plain [OF assms] by (simp add: plain_def)
  then show thesis by (rule that [rotated]) (simp_all add: session_lines_def)
qed

lemma desc_transport:
  "desc_ok sl addr sd \<Longrightarrow> mc \<in> set (sd_contents sd) \<Longrightarrow>
     \<exists>td. get_transport_info (mc_mid mc) sd = Some td \<and> content_ok sl addr mc \<and> transport_ok sl td"
  by (auto simp: desc_ok_def list_all_iff split: option.splits)

lemma desc_no_lf:
  assumes "desc_ok sl addr sd" "l \<in> set (session_lines sl addr sd)"
  shows "lf \<notin> set l"
proof -
  obtain head where h: "session_lines sl addr sd = head @ concat (map (content_lines sl addr sd) (sd_contents sd))"
    "list_all plain head" using session_lines_split [OF assms(1)] .
  then show ?thesis using assms desc_transport content_no_lf by (fastforce simp: list_all_iff plain_def)
qed

text \<open>What a content of the description reads as: only video groups come back.\<close>

definition tracks_read :: "media_content \<Rightarrow> stream_params list" where
  "tracks_read mc = (if mc_type mc = MEDIA_TYPE_VIDEO then mc_streams mc else map bare (mc_streams mc))"

abbreviation sections ::
  "session_desc \<Rightarrow> remote_parse \<Rightarrow> media_content list \<Rightarrow> remote_parse" where
  "sections sd \<equiv> foldl (\<lambda>s mc. section_read mc (the (get_transport_info (mc_mid mc) sd)) s)"

lemma sections_sel:
  "rm_contents (sections sd st mcs) = rm_contents st @ map mc_type mcs"
  "rm_groups (sections sd st mcs) = rm_groups st"
  "ty \<notin> mc_type ` set mcs \<Longrightarrow> get_infos ty (sections sd st mcs) = get_infos ty st"
  "ty \<notin> mc_type ` set mcs \<Longrightarrow> get_td ty (sections sd st mcs) = get_td ty st"
  "MEDIA_TYPE_VIDEO \<notin> mc_type ` set mcs \<Longrightarrow> rm_video_groups (sections sd st mcs) = rm_video_groups st"
  by (induction mcs arbitrary: st) (auto simp: section_read_sel)

lemma sections_of:
  assumes "distinct (map mc_type mcs)" "mc \<in> set mcs"
  shows "get_infos (mc_type mc) (sections sd st mcs) = get_infos (mc_type mc) st @ all_infos mc"
    "get_td (mc_type mc) (sections sd st mcs)
       = td_read (the (get_transport_info (mc_mid mc) sd)) ((get_td (mc_type mc) st)\<lparr>td_mid := mc_mid mc\<rparr>)"
    "mc_type mc = MEDIA_TYPE_VIDEO \<Longrightarrow> rm_video_groups (sections sd st mcs) = rm_video_groups st @ all_groups mc"
proof -
  obtain before after where s: "mcs = before @ mc # after" using assms(2) by (metis split_list)
  then have n: "mc_type mc \<notin> mc_type ` set before" "mc_type mc \<notin> mc_type ` set after" using assms(1) by auto
  show "get_infos (mc_type mc) (sections sd st mcs) = get_infos (mc_type mc) st @ all_infos mc"
    using sections_sel(3) [OF n(1)] sections_sel(3) [OF n(2)] by (simp add: s section_read_sel)
  show "get_td (mc_type mc) (sections sd st mcs)
       = td_read (the (get_transport_info (mc_mid mc) sd)) ((get_td (mc_type mc) st)\<lparr>td_mid := mc_mid mc\<rparr>)"
    using sections_sel(4) [OF n(1)] sections_sel(4) [OF n(2)] by (simp add: s section_read_sel mc_mid_def)
  assume "mc_type mc = MEDIA_TYPE_VIDEO"
  then show "rm_video_groups (sections sd st mcs) = rm_video_groups st @ all_groups mc"
    using sections_sel(5) [of before] sections_sel(5) [of after] n by (simp add: s section_read_sel)
qed

lemma streams_added:
  "mc_streams (foldl (\<lambda>m t. add_stream t m) c ts) = mc_streams c @ ts"
  "mc_type (foldl (\<lambda>m t. add_stream t m) c ts) = mc_type c"
  by (induction ts arbitrary: c) (simp_all add: add_stream_def)

lemma no_infos: "tracks_ok (mc_streams mc) \<Longrightarrow> all_infos mc = [] \<Longrightarrow> mc_streams mc = []"
  by (cases "mc_streams mc") (auto simp: all_infos_def tracks_ok_def track_ok_def)

text \<open>The content that \<open>finish_remote\<close> makes of a media type.\<close>

definition finished :: "media_type \<Rightarrow> remote_parse \<Rightarrow> media_content" where
  "finished ty st =
     (case ty of
        MEDIA_TYPE_AUDIO \<Rightarrow>
          (if rm_audio_ssrc st \<noteq> []
           then foldl (\<lambda>m t. add_stream t m) audio_content (create_track_from_ssrc_info (rm_audio_ssrc st) [])
           else audio_content)
      | MEDIA_TYPE_VIDEO \<Rightarrow>
          (if rm_video_ssrc st \<noteq> []
           then foldl (\<lambda>m t. add_stream t m) video_content
                  (foldl add_group_to_tracks (create_track_from_ssrc_info (rm_video_ssrc st) []) (rm_video_groups st))
           else video_content))"

lemma finish_remote_view:
  "sd_contents (finish_remote st) = map (\<lambda>ty. finished ty st) (rm_contents st)"
  "sd_type (finish_remote st) = k_answer" "sd_groups (finish_remote st) = rm_groups st"
  "sd_transports (finish_remote st) = [get_td MEDIA_TYPE_AUDIO st, get_td MEDIA_TYPE_VIDEO st]"
proof -
  show "sd_contents (finish_remote st) = map (\<lambda>ty. finished ty st) (rm_contents st)"
    by (auto simp: finish_remote_def remote_desc_def finished_def Let_def split: media_type.split)
qed (simp_all add: finish_remote_def remote_desc_def get_td_def Let_def)

lemma finished_tracks:
  assumes "tracks_ok (mc_streams mc)" "get_infos (mc_type mc) st = all_infos mc"
    and "mc_type mc = MEDIA_TYPE_VIDEO \<Longrightarrow> rm_video_groups st = all_groups mc"
  shows "mc_type (finished (mc_type mc) st) = mc_type mc" "mc_streams (finished (mc_type mc) st) = tracks_read mc"
proof -
  have ok: "list_all track_ok (mc_streams mc)" "distinct (map sp_id (mc_streams mc))" "distinct (concat (map sp_ssrcs (mc_streams mc)))"
    using assms(1) by (simp_all add: tracks_ok_def)
  have m: "create_track_from_ssrc_info (all_infos mc) [] = map bare (mc_streams mc)"
    using make_tracks [OF ok(1), of "[]"] ok(2) by (simp add: all_infos_def)
  have g: "foldl add_group_to_tracks (map bare (mc_streams mc)) (all_groups mc) = mc_streams mc"
    using groups_back [OF ok(1), of "[]"] ok(3) by (simp add: all_groups_def)
  show "mc_type (finished (mc_type mc) st) = mc_type mc"
    by (cases "mc_type mc") (simp_all add: finished_def streams_added audio_content_def video_content_def)
  show "mc_streams (finished (mc_type mc) st) = tracks_read mc"
    using assms(2,3) m g no_infos [OF assms(1)]
    by (cases "mc_type mc")
       (simp_all add: finished_def streams_added tracks_read_def get_infos_def audio_content_def video_content_def)
qed

context sdp_text_laws begin

lemma read_session:
  assumes "desc_ok sl addr sd"
  shows "parse_remote_sdp sl (sd_to_string sl addr sd) old
     = Some (0, Some (finish_remote (sections sd new_remote_parse (sd_contents sd))))"
proof -
  obtain head where h: "session_lines sl addr sd = head @ concat (map (content_lines sl addr sd) (sd_contents sd))"
    "list_all plain head" "head \<noteq> []" using session_lines_split [OF assms] .
  have lf: "\<forall>l \<in> set (session_lines sl addr sd). lf \<notin> set l" using desc_no_lf [OF assms] by blast
  have ne: "session_lines sl addr sd \<noteq> []" using h by simp
  have "list_all inert head" using h(2) by (auto simp: list_all_iff plain_def)
  then have 1: "remote_lines sl head new_remote_parse = Some (0, new_remote_parse)" by (rule inert_lines)
  have 2: "remote_lines sl (concat (map (content_lines sl addr sd) (sd_contents sd))) new_remote_parse
      = Some (0, sections sd new_remote_parse (sd_contents sd))"
    by (rule read_contents)
       (use assms desc_transport [OF assms] in \<open>auto simp: desc_ok_def get_infos_def new_remote_parse_def\<close>)
  show ?thesis
    unfolding parse_remote_sdp_def sd_to_string_def tokenize
    using lines_recovered [OF lf ne] 1 2 by (simp add: h(1) remote_lines_append Let_def)
qed

lemma session_read_back:
  assumes "desc_ok sl addr sd"
  shows "\<exists>sd'. parse_remote_sdp sl (sd_to_string sl addr sd) old = Some (0, Some sd')
     \<and> sd_type sd' = k_answer \<and> sd_groups sd' = []
     \<and> list_all2 (\<lambda>mc mc'. mc_type mc' = mc_type mc \<and> mc_streams mc' = tracks_read mc
          \<and> (\<exists>td td'. get_transport_info (mc_mid mc) sd = Some td \<and> get_transport_info (mc_mid mc) sd' = Some td'
               \<and> td_ice_ufrag td' = td_ice_ufrag td \<and> td_ice_pwd td' = td_ice_pwd td \<and> td_fingerprint td' = td_fingerprint td))
         (sd_contents sd) (sd_contents sd')"
proof -
  define st where "st = sections sd new_remote_parse (sd_contents sd)"
  have d: "distinct (map mc_type (sd_contents sd))" using assms by (simp add: desc_ok_def)
  have n: "get_infos ty new_remote_parse = []" "get_td ty new_remote_parse = new_transport_desc"
    "rm_video_groups new_remote_parse = []" "rm_contents new_remote_parse = []" "rm_groups new_remote_parse = []" for ty
    by (simp_all add: new_remote_parse_def get_infos_def get_td_def)
  have mid: "td_mid (get_td ty st) \<in> {[], media_mid ty}" for ty
  proof (cases "ty \<in> mc_type ` set (sd_contents sd)")
    case True
    then obtain mc where "mc \<in> set (sd_contents sd)" "ty = mc_type mc" by auto
    then show ?thesis using sections_of(2) [OF d] by (simp add: st_def td_read_def mc_mid_def)
  next
    case False
    then show ?thesis using sections_sel(4) [OF False] by (simp add: st_def n new_transport_desc_def)
  qed
  have "mc_type (finished (mc_type mc) st) = mc_type mc \<and> mc_streams (finished (mc_type mc) st) = tracks_read mc
      \<and> (\<exists>td td'. get_transport_info (mc_mid mc) sd = Some td \<and> get_transport_info (mc_mid mc) (finish_remote st) = Some td'
           \<and> td_ice_ufrag td' = td_ice_ufrag td \<and> td_ice_pwd td' = td_ice_pwd td \<and> td_fingerprint td' = td_fingerprint td)"
    if mc: "mc \<in> set (sd_contents sd)" for mc
  proof -
    obtain td where td: "get_transport_info (mc_mid mc) sd = Some td" "content_ok sl addr mc"
      using desc_transport [OF assms mc] by blast
    have t: "tracks_ok (mc_streams mc)" using td(2) by (simp add: content_ok_def)
    have r: "get_td (mc_type mc) st = td_read td (new_transport_desc\<lparr>td_mid := mc_mid mc\<rparr>)"
      using sections_of(2) [OF d mc] td(1) by (simp add: st_def n)
    have "get_transport_info (mc_mid mc) (finish_remote st) = Some (get_td (mc_type mc) st)"
      using mid [of MEDIA_TYPE_AUDIO] r
      by (cases "mc_type mc") (auto simp: get_transport_info_def finish_remote_view mc_mid_def td_read_def)
    then show ?thesis
      using finished_tracks [OF t] sections_of [OF d mc] td(1) r
      by (simp add: st_def n td_read_def new_transport_desc_def)
  qed
  then show ?thesis
    using read_session [OF assms, of old] sections_sel(1,2)
    by (simp add: finish_remote_view n list_all2_conv_all_nth flip: st_def) (simp add: st_def n sections_sel)
qed

end

text \<open>C18: 
  The text of a description whose fields hold no separators is read back by the parser of an answer: the
  contents in their order, the tracks of each with their SSRCs, the SSRC groups of video, and the ICE
  credentials and the fingerprint of each content's transport. The bundle group and the SSRC groups of
  audio are lost.
\<close>

theorem sdp_roundtrip:
  assumes "sdp_text_laws sl" "desc_ok sl addr sd"
  shows "\<exists>sd'. parse_remote_sdp sl (sd_to_string sl addr sd) old = Some (0, Some sd')
     \<and> sd_type sd' = k_answer \<and> sd_groups sd' = []
     \<and> list_all2 (\<lambda>mc mc'. mc_type mc' = mc_type mc
          \<and> mc_streams mc' = (if mc_type mc = MEDIA_TYPE_VIDEO then mc_streams mc
                               else map (\<lambda>t. t\<lparr>sp_ssrc_groups := []\<rparr>) (mc_streams mc))
          \<and> (\<exists>td td'. get_transport_info (mc_mid mc) sd = Some td \<and> get_transport_info (mc_mid mc) sd' = Some td'
               \<and> td_ice_ufrag td' = td_ice_ufrag td \<and> td_ice_pwd td' = td_ice_pwd td \<and> td_fingerprint td' = td_fingerprint td))
         (sd_contents sd) (sd_contents sd')"
  using sdp_text_laws.session_read_back [OF assms, of old] unfolding tracks_read_def bare_def .

definition demo_offer :: session_desc where
  "demo_offer =
     build_offer doc_sdp_lib new_offer_options (Some 7) \<lparr>ice_ufrag = [97, 98, 99, 100], ice_pwd = [101, 102]\<rparr>
       [\<lparr>sp_id = ''mic'', sp_ssrcs = [1111], sp_ssrc_groups = [\<lparr>sg_semantics = ''LS'', sg_ssrcs = [1111]\<rparr>],
         sp_cname = ''peer'', sp_stream_id = ''room''\<rparr>]
       [\<lparr>sp_id = ''cam'', sp_ssrcs = [22, 33], sp_ssrc_groups = [\<lparr>sg_semantics = ''FID'', sg_ssrcs = [22, 33]\<rparr>],
         sp_cname = ''peer'', sp_stream_id = ''room''\<rparr>]"

lemma digit_chars:
  "char_of (48::nat) = CHR ''0''" "char_of (49::nat) = CHR ''1''" "char_of (50::nat) = CHR ''2''" "char_of (51::nat) = CHR ''3''" "char_of (52::nat) = CHR ''4''"
  "char_of (53::nat) = CHR ''5''" "char_of (54::nat) = CHR ''6''" "char_of (55::nat) = CHR ''7''" "char_of (56::nat) = CHR ''8''" "char_of (57::nat) = CHR ''9''"
  by code_simp+

lemma codec_lines_plain: "list_all plain (rtp_map_lines audio_content)" "list_all plain (rtp_map_lines video_content)"
  by (simp_all add: rtp_map_lines_def rtcp_fb_lines_def fmtp_lines_def audio_content_def video_content_def
      opus_codec_def h264_codec_def rtx_codec_def show_int_def show_nat.simps plain_def inert_def contains.simps digit_chars)

lemma demo_offer_codecs:
  "list_all (\<lambda>mc. rtp_map_lines mc \<in> {rtp_map_lines audio_content, rtp_map_lines video_content} \<and> mc_candidates mc = [])
     (sd_contents demo_offer)"
  by (simp add: demo_offer_def build_offer_def offer_section_def new_offer_options_def add_transport_info_def doc_sdp_lib_def
      add_content_def add_stream_def add_group_def new_session_desc_def rtp_map_lines_def Let_def audio_content_def video_content_def)

lemma demo_offer_parts:
  "list_all (transport_ok doc_sdp_lib) (sd_transports demo_offer)"
  "list_all (\<lambda>mc. tracks_ok (mc_streams mc) \<and> get_transport_info (mc_mid mc) demo_offer \<noteq> None) (sd_contents demo_offer)"
  "distinct (map mc_type (sd_contents demo_offer))" "list_all (\<lambda>g. list_all body (cg_names g)) (sd_groups demo_offer)"
  by code_simp+

lemma transport_info_in: "get_transport_info mid sd = Some td \<Longrightarrow> td \<in> set (sd_transports sd)"
  by (auto simp: get_transport_info_def find_Some_iff)

lemma demo_offer_ok: "desc_ok doc_sdp_lib ''10.0.0.1'' demo_offer"
proof -
  have "content_ok doc_sdp_lib ''10.0.0.1'' mc
      \<and> (case get_transport_info (mc_mid mc) demo_offer of None \<Rightarrow> False | Some td \<Rightarrow> transport_ok doc_sdp_lib td)"
    if mc: "mc \<in> set (sd_contents demo_offer)" for mc
  proof -
    have "rtp_map_lines mc \<in> {rtp_map_lines audio_content, rtp_map_lines video_content}" "mc_candidates mc = []"
      using demo_offer_codecs mc unfolding list_all_iff by blast+
    then have "content_ok doc_sdp_lib ''10.0.0.1'' mc" if "tracks_ok (mc_streams mc)"
      using that codec_lines_plain by (auto simp: content_ok_def)
    moreover obtain td where "get_transport_info (mc_mid mc) demo_offer = Some td" "tracks_ok (mc_streams mc)"
      using demo_offer_parts(2) mc unfolding list_all_iff by blast
    moreover have "transport_ok doc_sdp_lib td" if "td \<in> set (sd_transports demo_offer)" for td
      using demo_offer_parts(1) that unfolding list_all_iff by blast
    ultimately show ?thesis using transport_info_in by simp
  qed
  then show ?thesis using demo_offer_parts(3,4) unfolding desc_ok_def list_all_iff by blast
qed

lemma demo_offer_tracks:
  "map mc_type (sd_contents demo_offer) = [MEDIA_TYPE_AUDIO, MEDIA_TYPE_VIDEO]"
  "map (\<lambda>mc. map sp_ssrcs (mc_streams mc)) (sd_contents demo_offer) = [[[1111]], [[22, 33]]]"
  "map cg_names (sd_groups demo_offer) = [[''audio'', ''video'']]"
  by code_simp+

lemma same_types:
  "list_all2 (\<lambda>mc mc'. mc_type mc' = mc_type mc \<and> Q mc mc') xs ys \<Longrightarrow> map mc_type ys = map mc_type xs"
  by (induction rule: list_all2_induct) simp_all

theorem sdp_roundtrip_witness:
  "\<exists>sd'. parse_remote_sdp doc_sdp_lib (sd_to_string doc_sdp_lib ''10.0.0.1'' demo_offer) None = Some (0, Some sd')
     \<and> sd_groups sd' = [] \<and> sd_groups demo_offer \<noteq> []
     \<and> map mc_type (sd_contents sd') = [MEDIA_TYPE_AUDIO, MEDIA_TYPE_VIDEO]"
proof -
  have "\<exists>sd'. parse_remote_sdp doc_sdp_lib (sd_to_string doc_sdp_lib ''10.0.0.1'' demo_offer) None = Some (0, Some sd')
      \<and> sd_groups sd' = [] \<and> map mc_type (sd_contents sd') = map mc_type (sd_contents demo_offer)"
    using sdp_roundtrip [OF doc.sdp_text_laws_axioms demo_offer_ok, of None]
    by (elim exE conjE, intro exI conjI) (assumption, assumption, rule same_types)
  moreover have "sd_groups demo_offer \<noteq> []" using demo_offer_tracks(3) by (cases "sd_groups demo_offer") simp_all
  ultimately show ?thesis
    unfolding demo_offer_tracks(1) by (elim exE conjE, intro exI conjI) (assumption, assumption, assumption, assumption)
qed

end
