(* ===== verification/EventLoop.thy ===== *)
theory EventLoop
  imports Prelude
begin

text \<open>
  The event loop (\<open>base/event_loop.cpp\<close>): the watchers of descriptors and the timers. libev is the
  parameter \<open>ev_lib\<close>: what \<open>ev_is_active\<close> and the \<open>events\<close> field give and what \<open>ev_init\<close>, \<open>ev_io_set\<close>,
  \<open>ev_io_start\<close>, \<open>ev_io_stop\<close> and the timer calls make of a watcher, with the laws of \<open>ev_laws\<close> from its
  documentation. The conversion of microseconds to seconds in \<open>float\<close> is the field \<open>ev_seconds\<close>.
\<close>

unbundle bit_operations_syntax

record ('w, 't, 's) ev_lib =
  ev_read :: u32
  ev_write :: u32
  ev_none :: u32
  ev_init :: "'w \<Rightarrow> 'w"
  ev_is_active :: "'w \<Rightarrow> bool"
  ev_events :: "'w \<Rightarrow> u32"
  ev_io_set :: "int \<Rightarrow> u32 \<Rightarrow> 'w \<Rightarrow> 'w"
  ev_io_start :: "'w \<Rightarrow> 'w"
  ev_io_stop :: "'w \<Rightarrow> 'w"
  ev_timer_init :: "'t \<Rightarrow> 't"
  ev_timer_set :: "'s \<Rightarrow> 's \<Rightarrow> 't \<Rightarrow> 't"
  ev_timer_repeat :: "'s \<Rightarrow> 't \<Rightarrow> 't"
  ev_timer_start :: "'t \<Rightarrow> 't"
  ev_timer_stop :: "'t \<Rightarrow> 't"
  ev_timer_again :: "'t \<Rightarrow> 't"
  ev_seconds :: "u32 \<Rightarrow> 's"
  ev_zero :: 's

definition EL_READ :: u32 where "EL_READ = 1"
definition EL_WRITE :: u32 where "EL_WRITE = 2"

lemmas el_masks = EL_READ_def EL_WRITE_def

definition trans_to_ev_mask :: "('w, 't, 's) ev_lib \<Rightarrow> u32 \<Rightarrow> u32" where
  "trans_to_ev_mask lib m =
     (if m AND EL_READ \<noteq> 0 then ev_read lib else 0) OR (if m AND EL_WRITE \<noteq> 0 then ev_write lib else 0)"

definition trans_from_ev_mask :: "('w, 't, 's) ev_lib \<Rightarrow> u32 \<Rightarrow> u32" where
  "trans_from_ev_mask lib m =
     (if m AND ev_read lib \<noteq> 0 then EL_READ else 0) OR (if m AND ev_write lib \<noteq> 0 then EL_WRITE else 0)"

subsection \<open>Descriptors\<close>

text \<open>A watcher's callback gets the events in the loop's own masks.\<close>

definition generic_io_cb :: "('w, 't, 's) ev_lib \<Rightarrow> (u32 \<Rightarrow> 'a) \<Rightarrow> u32 \<Rightarrow> 'a" where
  "generic_io_cb lib cb events = cb (trans_from_ev_mask lib events)"

text \<open>\<open>w\<close> is the new watcher's uninitialised memory.\<close>

definition create_io_event :: "('w, 't, 's) ev_lib \<Rightarrow> 'w \<Rightarrow> 'w" where
  "create_io_event lib w = ev_init lib w"

definition start_io_event :: "('w, 't, 's) ev_lib \<Rightarrow> int \<Rightarrow> u32 \<Rightarrow> 'w \<Rightarrow> 'w" where
  "start_io_event lib fd m w =
     (if ev_is_active lib w
      then (let active_events = trans_from_ev_mask lib (ev_events lib w);
                events = active_events OR m
            in if events = active_events then w
               else ev_io_start lib (ev_io_set lib fd (trans_to_ev_mask lib events) (ev_io_stop lib w)))
      else ev_io_start lib (ev_io_set lib fd (trans_to_ev_mask lib m) w))"

definition stop_io_event :: "('w, 't, 's) ev_lib \<Rightarrow> int \<Rightarrow> u32 \<Rightarrow> 'w \<Rightarrow> 'w" where
  "stop_io_event lib fd m w =
     (let active_events = trans_from_ev_mask lib (ev_events lib w);
          events = active_events AND NOT m
      in if events = active_events then w
         else (let ev = trans_to_ev_mask lib events;
                   w1 = ev_io_stop lib w
               in if ev \<noteq> ev_none lib then ev_io_start lib (ev_io_set lib fd ev w1) else w1))"

subsection \<open>Timers\<close>

record 't time_watcher =
  tw_timer :: 't
  tw_need_repeat :: bool

definition create_timer :: "('w, 't, 's) ev_lib \<Rightarrow> 't \<Rightarrow> bool \<Rightarrow> 't time_watcher" where
  "create_timer lib t need_repeat = \<lparr>tw_timer = ev_timer_init lib t, tw_need_repeat = need_repeat\<rparr>"

definition start_timer :: "('w, 't, 's) ev_lib \<Rightarrow> u32 \<Rightarrow> 't time_watcher \<Rightarrow> 't time_watcher" where
  "start_timer lib usec w =
     (let sec = ev_seconds lib usec in
      if \<not> tw_need_repeat w
      then w\<lparr>tw_timer := ev_timer_start lib (ev_timer_set lib sec (ev_zero lib) (ev_timer_stop lib (tw_timer w)))\<rparr>
      else w\<lparr>tw_timer := ev_timer_again lib (ev_timer_repeat lib sec (tw_timer w))\<rparr>)"

definition stop_timer :: "('w, 't, 's) ev_lib \<Rightarrow> 't time_watcher \<Rightarrow> 't time_watcher" where
  "stop_timer lib w = w\<lparr>tw_timer := ev_timer_stop lib (tw_timer w)\<rparr>"

text \<open>A timer's callback gets the data given when the timer was created.\<close>

definition generic_time_cb :: "('d \<Rightarrow> 'a) \<Rightarrow> 'd \<Rightarrow> 'a" where
  "generic_time_cb cb data = cb data"

text \<open>The watchers of a loop are objects in a heap; \<open>None\<close> is the use of a deleted one.\<close>

definition delete_io_event :: "('w, 't, 's) ev_lib \<Rightarrow> nat \<Rightarrow> (nat \<rightharpoonup> 'w) \<Rightarrow> ('w \<times> (nat \<rightharpoonup> 'w)) option" where
  "delete_io_event lib a h =
     (case h a of None \<Rightarrow> None | Some w \<Rightarrow> Some (ev_io_stop lib w, h(a := None)))"

definition delete_timer ::
  "('w, 't, 's) ev_lib \<Rightarrow> nat \<Rightarrow> (nat \<rightharpoonup> 't time_watcher) \<Rightarrow> ('t time_watcher \<times> (nat \<rightharpoonup> 't time_watcher)) option" where
  "delete_timer lib a h =
     (case h a of None \<Rightarrow> None | Some w \<Rightarrow> Some (stop_timer lib w, h(a := None)))"

subsection \<open>The loop\<close>

text \<open>
  \<open>'l\<close> is libev's loop. \<open>ev_run\<close> waits for events and runs callbacks until \<open>ev_break\<close>; \<open>ev_now_us\<close> is
  \<open>ev_now\<close> times a million, a \<open>double\<close>, cut to an integer.
\<close>

record 'l ev_loop_lib =
  ev_run :: "'l \<Rightarrow> 'l"
  ev_break_all :: "'l \<Rightarrow> 'l"
  ev_now_us :: "'l \<Rightarrow> u64"

definition el_start :: "'l ev_loop_lib \<Rightarrow> 'l \<Rightarrow> 'l" where
  "el_start lib l = ev_run lib l"

definition el_stop :: "'l ev_loop_lib \<Rightarrow> 'l \<Rightarrow> 'l" where
  "el_stop lib l = ev_break_all lib l"

definition el_now :: "'l ev_loop_lib \<Rightarrow> 'l \<Rightarrow> u64" where
  "el_now lib l = ev_now_us lib l"

subsection \<open>What the documentation promises\<close>

text \<open>
  The masks are different bits. \<open>ev_init\<close> gives an inactive watcher, start and stop make it active and
  inactive and leave its events, \<open>ev_io_set\<close> sets the events and is not to be called on an active one.
\<close>

locale ev_laws =
  fixes lib :: "('w, 't, 's) ev_lib"
  assumes masks: "ev_read lib AND ev_write lib = 0" "ev_read lib \<noteq> 0" "ev_write lib \<noteq> 0" "ev_none lib = 0"
    and init: "\<not> ev_is_active lib (ev_init lib w)"
    and start: "ev_is_active lib (ev_io_start lib w)" "ev_events lib (ev_io_start lib w) = ev_events lib w"
    and stop: "\<not> ev_is_active lib (ev_io_stop lib w)" "ev_events lib (ev_io_stop lib w) = ev_events lib w"
    and set_events: "\<not> ev_is_active lib w \<Longrightarrow> ev_events lib (ev_io_set lib fd m w) = m"

text \<open>The events a watcher is watching, and the condition that \<open>stop_io_event\<close> needs of a stopped watcher.\<close>

definition watched :: "('w, 't, 's) ev_lib \<Rightarrow> 'w \<Rightarrow> u32" where
  "watched lib w = (if ev_is_active lib w then trans_from_ev_mask lib (ev_events lib w) else 0)"

definition at_most_one :: "('w, 't, 's) ev_lib \<Rightarrow> 'w \<Rightarrow> bool" where
  "at_most_one lib w \<longleftrightarrow>
     (\<not> ev_is_active lib w \<longrightarrow> trans_from_ev_mask lib (ev_events lib w) \<in> {0, EL_READ, EL_WRITE})"

lemma el_mask_cases: "m \<in> {0, 1, 2, 3 :: u32} \<Longrightarrow> n \<in> {0, 1, 2, 3} \<Longrightarrow> m OR n \<in> {0, 1, 2, 3} \<and> m AND NOT n \<in> {0, 1, 2, 3}"
  by (elim insertE emptyE; simp)

context ev_laws begin

lemma from_range: "trans_from_ev_mask lib m \<in> {0, 1, 2, 3}"
  by (simp add: trans_from_ev_mask_def el_masks)

lemma from_to [simp]: "m \<in> {0, 1, 2, 3} \<Longrightarrow> trans_from_ev_mask lib (trans_to_ev_mask lib m) = m"
  using masks by (elim insertE emptyE) (simp_all add: trans_from_ev_mask_def trans_to_ev_mask_def el_masks and.commute bit.conj_disj_distrib2)

lemma to_none [simp]: "m \<in> {0, 1, 2, 3} \<Longrightarrow> trans_to_ev_mask lib m = ev_none lib \<longleftrightarrow> m = 0"
  using masks from_to [of m] from_to [of 0] by (auto simp: trans_to_ev_mask_def)

lemma set_watched:
  "m \<in> {0, 1, 2, 3} \<Longrightarrow> \<not> ev_is_active lib w \<Longrightarrow>
     watched lib (ev_io_start lib (ev_io_set lib fd (trans_to_ev_mask lib m) w)) = m"
  by (simp add: watched_def start set_events)

lemma start_watched:
  assumes "m \<in> {0, 1, 2, 3}"
  shows "watched lib (start_io_event lib fd m w) = watched lib w OR m"
proof (cases "ev_is_active lib w")
  case True
  let ?a = "trans_from_ev_mask lib (ev_events lib w)"
  have "?a OR m \<in> {0, 1, 2, 3}" using el_mask_cases [OF from_range assms] by blast
  then show ?thesis
    using True set_watched [of "?a OR m" "ev_io_stop lib w" fd]
    by (auto simp: start_io_event_def Let_def watched_def stop)
next
  case False
  then show ?thesis using set_watched [OF assms False, of fd] by (simp add: start_io_event_def watched_def)
qed

lemma start_at_most_one: "at_most_one lib w \<Longrightarrow> at_most_one lib (start_io_event lib fd m w)"
  by (simp add: at_most_one_def start_io_event_def Let_def start)

lemma started_at_most_one: "\<not> ev_is_active lib w \<Longrightarrow> at_most_one lib (start_io_event lib fd m w)"
  by (simp add: at_most_one_def start_io_event_def start)

lemma stop_watched:
  assumes "m \<in> {EL_READ, EL_WRITE}" "at_most_one lib w"
  shows "watched lib (stop_io_event lib fd m w) = watched lib w AND NOT m"
    and "at_most_one lib (stop_io_event lib fd m w)"
proof -
  let ?a = "trans_from_ev_mask lib (ev_events lib w)" and ?s = "ev_io_stop lib w"
  have m: "m \<in> {0, 1, 2, 3}" using assms(1) by (auto simp: el_masks)
  have r: "?a AND NOT m \<in> {0, 1, 2, 3}" using el_mask_cases [OF from_range m] by blast
  have n: "trans_to_ev_mask lib (?a AND NOT m) = ev_none lib \<longleftrightarrow> ?a AND NOT m = 0" by (rule to_none [OF r])
  have s: "ev_is_active lib w \<Longrightarrow> ?a AND NOT m = 0 \<Longrightarrow> ?a \<in> {0, EL_READ, EL_WRITE}"
    using from_range [of "ev_events lib w"] assms(1) by (auto simp: el_masks)
  have i: "\<not> ev_is_active lib w \<Longrightarrow> ?a AND NOT m \<noteq> ?a \<Longrightarrow> ?a AND NOT m = 0"
    using assms by (auto simp: el_masks at_most_one_def)
  show "watched lib (stop_io_event lib fd m w) = watched lib w AND NOT m"
    using set_watched [OF r, of ?s fd] i
    by (auto simp: stop_io_event_def Let_def watched_def stop start n)
  show "at_most_one lib (stop_io_event lib fd m w)"
    using assms(2) s i by (auto simp: stop_io_event_def Let_def at_most_one_def stop start n)
qed

end

subsection \<open>A library with these laws\<close>

record doc_watcher =
  dw_active :: bool
  dw_fd :: int
  dw_events :: u32

record doc_timer =
  dt_running :: bool
  dt_at :: nat
  dt_every :: nat

definition doc_ev_lib :: "(doc_watcher, doc_timer, nat) ev_lib" where
  "doc_ev_lib =
     \<lparr>ev_read = 1, ev_write = 2, ev_none = 0, ev_init = (\<lambda>w. w\<lparr>dw_active := False\<rparr>), ev_is_active = dw_active,
      ev_events = dw_events, ev_io_set = (\<lambda>fd m w. w\<lparr>dw_fd := fd, dw_events := m\<rparr>),
      ev_io_start = (\<lambda>w. w\<lparr>dw_active := True\<rparr>), ev_io_stop = (\<lambda>w. w\<lparr>dw_active := False\<rparr>),
      ev_timer_init = (\<lambda>t. t\<lparr>dt_running := False\<rparr>),
      ev_timer_set = (\<lambda>at every t. t\<lparr>dt_at := at, dt_every := every\<rparr>),
      ev_timer_repeat = (\<lambda>every t. t\<lparr>dt_every := every\<rparr>), ev_timer_start = (\<lambda>t. t\<lparr>dt_running := True\<rparr>),
      ev_timer_stop = (\<lambda>t. t\<lparr>dt_running := False\<rparr>),
      ev_timer_again = (\<lambda>t. if dt_every t = 0 then t\<lparr>dt_running := False\<rparr>
                             else t\<lparr>dt_running := True, dt_at := dt_every t\<rparr>),
      ev_seconds = unat, ev_zero = 0\<rparr>"

interpretation libev: ev_laws doc_ev_lib
  by unfold_locales (simp_all add: doc_ev_lib_def)

subsection \<open>Starting and stopping\<close>

datatype io_op = IoStart u32 | IoStop u32

fun io_apply :: "('w, 't, 's) ev_lib \<Rightarrow> int \<Rightarrow> 'w \<Rightarrow> io_op \<Rightarrow> 'w" where
  "io_apply lib fd w (IoStart m) = start_io_event lib fd m w"
| "io_apply lib fd w (IoStop m) = stop_io_event lib fd m w"

fun io_mask :: "u32 \<Rightarrow> io_op \<Rightarrow> u32" where
  "io_mask s (IoStart m) = s OR m"
| "io_mask s (IoStop m) = s AND NOT m"

fun single_op :: "io_op \<Rightarrow> bool" where
  "single_op (IoStart m) = (m \<in> {EL_READ, EL_WRITE, EL_READ OR EL_WRITE})"
| "single_op (IoStop m) = (m \<in> {EL_READ, EL_WRITE})"

lemma io_run:
  assumes "ev_laws lib" "list_all single_op ops" "at_most_one lib w"
  shows "watched lib (foldl (io_apply lib fd) w ops) = foldl io_mask (watched lib w) ops"
  using assms(2,3)
proof (induction ops arbitrary: w)
  case Nil
  then show ?case by simp
next
  case (Cons op ops)
  show ?case
  proof (cases op)
    case (IoStart m)
    then have "m \<in> {0, 1, 2, 3}" using Cons.prems by (auto simp: el_masks)
    then show ?thesis
      using IoStart Cons ev_laws.start_watched [OF assms(1)] ev_laws.start_at_most_one [OF assms(1)] by simp
  next
    case (IoStop m)
    then show ?thesis using Cons ev_laws.stop_watched [OF assms(1)] by simp
  qed
qed

text \<open>
  What a watcher watches is what the calls say: starting adds events and stopping one event removes it,
  whatever the order, from the first start on.
\<close>

theorem io_watch_refines:
  assumes "ev_laws lib" "list_all single_op (IoStart m # ops)"
  shows "watched lib (foldl (io_apply lib fd) (create_io_event lib w) (IoStart m # ops))
     = foldl io_mask 0 (IoStart m # ops)"
proof -
  have i: "\<not> ev_is_active lib (create_io_event lib w)"
    using ev_laws.init [OF assms(1)] by (simp add: create_io_event_def)
  then have "watched lib (create_io_event lib w) = 0" by (simp add: watched_def)
  moreover have "m \<in> {0, 1, 2, 3}" using assms(2) by (auto simp: el_masks)
  ultimately show ?thesis
    using io_run [OF assms(1), of ops "start_io_event lib fd m (create_io_event lib w)"] assms(2)
      ev_laws.start_watched [OF assms(1)] ev_laws.started_at_most_one [OF assms(1) i] by simp
qed

theorem io_watch_refines_witness:
  "watched doc_ev_lib (foldl (io_apply doc_ev_lib 7) (create_io_event doc_ev_lib w)
     [IoStart EL_READ, IoStart EL_WRITE, IoStop EL_READ, IoStart EL_READ, IoStop EL_WRITE]) = EL_READ"
  by (subst io_watch_refines [OF libev.ev_laws_axioms]) (simp_all add: el_masks)

text \<open>
  Stopping a watcher that is not active looks at the events it had: a watcher that was stopped with
  both events is started again by stopping one of them.
\<close>

lemma stop_restarts:
  assumes "ev_laws lib" "watched lib w = EL_READ OR EL_WRITE"
  shows "watched lib (stop_io_event lib fd (EL_READ OR EL_WRITE) w) = 0"
    and "watched lib (stop_io_event lib fd EL_READ (stop_io_event lib fd (EL_READ OR EL_WRITE) w)) = EL_WRITE"
proof -
  let ?s = "ev_io_stop lib w"
  have a: "ev_is_active lib w" "trans_from_ev_mask lib (ev_events lib w) = 3"
    using assms(2) by (auto simp: watched_def el_masks split: if_splits)
  then have s: "stop_io_event lib fd (EL_READ OR EL_WRITE) w = ?s"
    using ev_laws.to_none [OF assms(1), of 0] by (simp add: stop_io_event_def el_masks)
  show "watched lib (stop_io_event lib fd (EL_READ OR EL_WRITE) w) = 0"
    unfolding s by (simp add: watched_def ev_laws.stop [OF assms(1)])
  have "stop_io_event lib fd EL_READ ?s = ev_io_start lib (ev_io_set lib fd (trans_to_ev_mask lib 2) (ev_io_stop lib ?s))"
    using a(2) ev_laws.to_none [OF assms(1), of 2] by (simp add: stop_io_event_def el_masks ev_laws.stop [OF assms(1)])
  then show "watched lib (stop_io_event lib fd EL_READ (stop_io_event lib fd (EL_READ OR EL_WRITE) w)) = EL_WRITE"
    unfolding s using ev_laws.set_watched [OF assms(1), of 2 "ev_io_stop lib ?s" fd] ev_laws.stop [OF assms(1)]
    by (simp add: el_masks)
qed

subsection \<open>All watchers of a loop\<close>

text \<open>
  A program of calls on many watchers. \<open>IoCreate\<close> carries the address and the uninitialised memory of the
  new watcher.
\<close>

datatype 'w loop_op = IoCreate nat 'w | IoOn nat int io_op | IoDelete nat

fun loop_apply :: "('w, 't, 's) ev_lib \<Rightarrow> 'w loop_op \<Rightarrow> (nat \<rightharpoonup> 'w) \<Rightarrow> (nat \<rightharpoonup> 'w) option" where
  "loop_apply lib (IoCreate a w) h = (if h a \<noteq> None then None else Some (h(a \<mapsto> create_io_event lib w)))"
| "loop_apply lib (IoOn a fd op) h = map_option (\<lambda>w. h(a \<mapsto> io_apply lib fd w op)) (h a)"
| "loop_apply lib (IoDelete a) h = map_option snd (delete_io_event lib a h)"

fun loop_run :: "('w, 't, 's) ev_lib \<Rightarrow> 'w loop_op list \<Rightarrow> (nat \<rightharpoonup> 'w) \<Rightarrow> (nat \<rightharpoonup> 'w) option" where
  "loop_run lib [] h = Some h"
| "loop_run lib (op # ops) h = Option.bind (loop_apply lib op h) (loop_run lib ops)"

text \<open>
  The abstract loop: for every watcher that is not deleted, \<open>None\<close> before its first start and then the
  set of events it watches. A call on a deleted watcher, or a stop before the first start, has no meaning.
\<close>

fun spec_apply :: "'w loop_op \<Rightarrow> (nat \<rightharpoonup> u32 option) \<Rightarrow> (nat \<rightharpoonup> u32 option) option" where
  "spec_apply (IoCreate a w) m = (if m a \<noteq> None then None else Some (m(a \<mapsto> None)))"
| "spec_apply (IoOn a fd op) m =
     (case (m a, op) of
        (Some None, IoStart e) \<Rightarrow> if single_op op then Some (m(a \<mapsto> Some e)) else None
      | (Some (Some s), _) \<Rightarrow> if single_op op then Some (m(a \<mapsto> Some (io_mask s op))) else None
      | _ \<Rightarrow> None)"
| "spec_apply (IoDelete a) m = (if m a = None then None else Some (m(a := None)))"

fun spec_run :: "'w loop_op list \<Rightarrow> (nat \<rightharpoonup> u32 option) \<Rightarrow> (nat \<rightharpoonup> u32 option) option" where
  "spec_run [] m = Some m"
| "spec_run (op # ops) m = Option.bind (spec_apply op m) (spec_run ops)"

definition watcher_rel :: "('w, 't, 's) ev_lib \<Rightarrow> 'w option \<Rightarrow> u32 option option \<Rightarrow> bool" where
  "watcher_rel lib w m \<longleftrightarrow>
     (case (w, m) of
        (None, None) \<Rightarrow> True
      | (Some w, Some None) \<Rightarrow> \<not> ev_is_active lib w
      | (Some w, Some (Some s)) \<Rightarrow> watched lib w = s \<and> at_most_one lib w
      | _ \<Rightarrow> False)"

definition loop_rel :: "('w, 't, 's) ev_lib \<Rightarrow> (nat \<rightharpoonup> 'w) \<Rightarrow> (nat \<rightharpoonup> u32 option) \<Rightarrow> bool" where
  "loop_rel lib h m \<longleftrightarrow> (\<forall>a. watcher_rel lib (h a) (m a))"

lemma watcher_rel_simps [simp]:
  "watcher_rel lib None m \<longleftrightarrow> m = None"
  "watcher_rel lib w None \<longleftrightarrow> w = None"
  "watcher_rel lib (Some v) (Some None) \<longleftrightarrow> \<not> ev_is_active lib v"
  "watcher_rel lib (Some v) (Some (Some s)) \<longleftrightarrow> watched lib v = s \<and> at_most_one lib v"
  by (simp_all add: watcher_rel_def split: option.splits)

lemma loop_rel_update: "loop_rel lib h m \<Longrightarrow> watcher_rel lib w v \<Longrightarrow> loop_rel lib (h(a := w)) (m(a := v))"
  by (simp add: loop_rel_def)

lemma on_step:
  assumes "ev_laws lib" "watcher_rel lib (Some w) (Some v)" "single_op op"
    and "v = None \<Longrightarrow> op = IoStart e"
  shows "watcher_rel lib (Some (io_apply lib fd w op))
     (Some (Some (case v of None \<Rightarrow> e | Some s \<Rightarrow> io_mask s op)))"
proof (cases op)
  case (IoStart m)
  then have m: "m \<in> {0, 1, 2, 3}" using assms(3) by (auto simp: el_masks)
  show ?thesis
    using assms(2,4) IoStart ev_laws.start_watched [OF assms(1) m, of fd w]
      ev_laws.start_at_most_one [OF assms(1)] ev_laws.started_at_most_one [OF assms(1)]
    by (cases v) (auto simp: watched_def)
next
  case (IoStop m)
  then show ?thesis using assms ev_laws.stop_watched [OF assms(1), of m w fd] by (cases v) auto
qed

lemma loop_step:
  assumes "ev_laws lib" "loop_rel lib h m" "spec_apply op m = Some m'"
  shows "\<exists>h'. loop_apply lib op h = Some h' \<and> loop_rel lib h' m'"
proof (cases op)
  case (IoCreate a w)
  then have "h a = None" "m' = m(a \<mapsto> None)"
    using assms(2,3) by (auto simp: loop_rel_def split: if_splits dest: spec [of _ a])
  moreover have "\<not> ev_is_active lib (create_io_event lib w)"
    using ev_laws.init [OF assms(1)] by (simp add: create_io_event_def)
  ultimately show ?thesis using IoCreate loop_rel_update [OF assms(2)] by simp
next
  case (IoOn a fd io)
  obtain v where v: "m a = Some v" "single_op io"
    "m' = m(a \<mapsto> Some (case v of None \<Rightarrow> (case io of IoStart e \<Rightarrow> e | IoStop e \<Rightarrow> 0) | Some s \<Rightarrow> io_mask s io))"
    "v = None \<Longrightarrow> \<exists>e. io = IoStart e"
    using assms(3) IoOn by (auto split: option.splits io_op.splits if_splits)
  obtain w where w: "h a = Some w" "watcher_rel lib (Some w) (Some v)"
    using assms(2) v(1) unfolding loop_rel_def
    by (metis option.exhaust watcher_rel_simps(1) option.distinct(1))
  have "watcher_rel lib (Some (io_apply lib fd w io)) (m' a)"
    using on_step [OF assms(1) w(2) v(2)] v(3,4) by fastforce
  then show ?thesis
    using IoOn w(1) v(3) loop_rel_update [OF assms(2)] by simp
next
  case (IoDelete a)
  then have "m a \<noteq> None" "m' = m(a := None)" using assms(3) by (auto split: if_splits)
  moreover from this obtain w where "h a = Some w"
    using assms(2) unfolding loop_rel_def by (metis option.exhaust watcher_rel_simps(1))
  ultimately show ?thesis
    using IoDelete loop_rel_update [OF assms(2)] by (simp add: delete_io_event_def)
qed

lemma loop_run_rel:
  "ev_laws lib \<Longrightarrow> loop_rel lib h m \<Longrightarrow> spec_run ops m = Some m' \<Longrightarrow>
     \<exists>h'. loop_run lib ops h = Some h' \<and> loop_rel lib h' m'"
proof (induction ops arbitrary: h m)
  case (Cons op ops)
  then obtain m1 where "spec_apply op m = Some m1" "spec_run ops m1 = Some m'"
    by (auto split: bind_splits)
  then show ?case using loop_step [OF Cons.prems(1,2)] Cons.IH [OF Cons.prems(1)] by fastforce
qed simp

text \<open>C28: The event loop keeps its watchers apart. A program of calls that the abstract loop gives a meaning
  (no call on a deleted watcher, no stop before the first start) never touches freed memory, and
  afterwards exactly the watchers that are not deleted are allocated and each watches the events the
  calls on it say, whatever the calls on the others.
\<close>

theorem event_loop_refines:
  assumes "ev_laws lib" "spec_run ops Map.empty = Some m"
  shows "\<exists>h. loop_run lib ops Map.empty = Some h \<and> dom h = dom m
     \<and> (\<forall>a w. h a = Some w \<longrightarrow> watched lib w = (case m a of Some (Some s) \<Rightarrow> s | _ \<Rightarrow> 0))"
proof -
  have "loop_rel lib Map.empty Map.empty" by (simp add: loop_rel_def)
  from loop_run_rel [OF assms(1) this assms(2)]
  obtain h where h: "loop_run lib ops Map.empty = Some h" "\<And>a. watcher_rel lib (h a) (m a)"
    unfolding loop_rel_def by blast
  have "h a = None \<longleftrightarrow> m a = None" for a
    using h(2) [of a] by (metis watcher_rel_simps(1,2))
  then have "dom h = dom m" by (auto simp: dom_def)
  moreover have "watched lib w = (case m a of Some (Some s) \<Rightarrow> s | _ \<Rightarrow> 0)" if "h a = Some w" for a w
    using h(2) [of a] that by (auto simp: watched_def split: option.splits)
  ultimately show ?thesis using h(1) by blast
qed

theorem event_loop_refines_witness:
  "\<exists>h w. loop_run doc_ev_lib [IoCreate 0 \<lparr>dw_active = True, dw_fd = 0, dw_events = 0\<rparr>,
       IoCreate 1 \<lparr>dw_active = False, dw_fd = 0, dw_events = 3\<rparr>, IoOn 0 7 (IoStart EL_READ), IoOn 1 8 (IoStart EL_WRITE),
       IoOn 0 7 (IoStart EL_WRITE), IoDelete 1, IoOn 0 7 (IoStop EL_READ)] Map.empty = Some h
     \<and> dom h = {0} \<and> h 0 = Some w \<and> watched doc_ev_lib w = EL_WRITE"
proof -
  let ?ops = "[IoCreate 0 \<lparr>dw_active = True, dw_fd = 0, dw_events = 0\<rparr>,
       IoCreate 1 \<lparr>dw_active = False, dw_fd = 0, dw_events = 3\<rparr>, IoOn 0 7 (IoStart EL_READ), IoOn 1 8 (IoStart EL_WRITE),
       IoOn 0 7 (IoStart EL_WRITE), IoDelete 1, IoOn 0 7 (IoStop EL_READ)] :: doc_watcher loop_op list"
  have "spec_run ?ops Map.empty = Some [0 \<mapsto> Some EL_WRITE]"
    by (simp add: el_masks fun_upd_twist)
  from event_loop_refines [OF libev.ev_laws_axioms this] obtain h
    where h: "loop_run doc_ev_lib ?ops Map.empty = Some h"
      and d: "dom h = dom [0 \<mapsto> Some EL_WRITE]"
      and w: "\<forall>a w. h a = Some w \<longrightarrow> watched doc_ev_lib w
         = (case [0 \<mapsto> Some EL_WRITE] a of Some (Some s) \<Rightarrow> s | _ \<Rightarrow> 0)" by blast
  from d have d: "dom h = {0}" by simp
  then have "0 \<in> dom h" by simp
  then obtain v where "h 0 = Some v" by blast
  with d w have "dom h = {0} \<and> h 0 = Some v \<and> watched doc_ev_lib v = EL_WRITE" by fastforce
  with h show ?thesis by blast
qed

text \<open>A watcher is deleted at most once, and it is stopped before its memory is freed.\<close>

lemma deleted_once:
  "delete_io_event lib a h = Some (w, h') \<Longrightarrow> delete_io_event lib a h' = None"
  "delete_timer lib a g = Some (t, g') \<Longrightarrow> delete_timer lib a g' = None"
  by (auto simp: delete_io_event_def delete_timer_def split: option.splits)

lemma deleted_inactive:
  "ev_laws lib \<Longrightarrow> delete_io_event lib a h = Some (w, h') \<Longrightarrow> \<not> ev_is_active lib w"
  by (auto simp: delete_io_event_def ev_laws.stop split: option.splits)

end
