(* ===== verification/AsyncUdp.thy ===== *)
theory AsyncUdp
  imports EventLoop Sockets IceDefs "HOL-Library.Sublist"
begin

text \<open>
  The UDP socket of a port (\<open>base/async_udp_socket.h\<close>, \<open>base/async_udp_socket.cpp\<close>): the queue of the
  packets that the kernel did not take at once, and the write event that is watched while there are any.
  \<open>kern n\<close> is the result of the n-th call of \<open>sendto\<close>, counted by \<open>us_calls\<close>; \<open>us_log\<close> records what
  became of the packets and what was read.
\<close>

type_synonym udp_packet = "bytes \<times> socket_address"

datatype udp_event =
    UdpSent udp_packet
  | UdpFailed udp_packet
  | UdpRead bytes socket_address int

record 'w udp_socket =
  us_socket :: int
  us_watcher :: 'w
  us_list :: "udp_packet list"
  us_calls :: nat
  us_log :: "udp_event list"

definition MAX_BUF_SIZE :: nat where "MAX_BUF_SIZE = 1500"

definition new_udp_socket :: "('w, 't, 's) ev_lib \<Rightarrow> 'w \<Rightarrow> int \<Rightarrow> 'w udp_socket" where
  "new_udp_socket lib w fd =
     \<lparr>us_socket = fd, us_watcher = start_io_event lib fd EL_READ (create_io_event lib w), us_list = [],
      us_calls = 0, us_log = []\<rparr>"

text \<open>
  The loop over the queue that \<open>send_data\<close> and \<open>_add_udp_packet\<close> share: the front packet is removed when
  it was sent or failed and kept when the kernel is full. The loop ends when the queue is empty or at the
  first packet that failed or was kept.
\<close>

datatype send_end = Emptied | FrontFailed | KernelFull

fun send_queue ::
  "(nat \<Rightarrow> sys_result) \<Rightarrow> nat \<Rightarrow> udp_packet list \<Rightarrow> send_end \<times> nat \<times> udp_packet list \<times> udp_event list" where
  "send_queue kern n [] = (Emptied, n, [], [])"
| "send_queue kern n (p # q) =
     (let sent = sock_send_to (kern n) in
      if sent < 0 then (FrontFailed, n + 1, q, [UdpFailed p])
      else if 0 = sent then (KernelFull, n + 1, p # q, [])
      else (let (e, n1, q1, l) = send_queue kern (n + 1) q in (e, n1, q1, UdpSent p # l)))"

definition run_queue :: "(nat \<Rightarrow> sys_result) \<Rightarrow> 'w udp_socket \<Rightarrow> send_end \<times> 'w udp_socket" where
  "run_queue kern s =
     (let (e, n, q, l) = send_queue kern (us_calls s) (us_list s)
      in (e, s\<lparr>us_calls := n, us_list := q, us_log := us_log s @ l\<rparr>))"

definition send_data :: "('w, 't, 's) ev_lib \<Rightarrow> (nat \<Rightarrow> sys_result) \<Rightarrow> 'w udp_socket \<Rightarrow> 'w udp_socket" where
  "send_data lib kern s =
     (let (e, s1) = run_queue kern s in
      if e = Emptied then s1\<lparr>us_watcher := stop_io_event lib (us_socket s1) EL_WRITE (us_watcher s1)\<rparr> else s1)"

text \<open>The label \<open>SEND_AGAIN\<close>.\<close>

definition send_again ::
  "('w, 't, 's) ev_lib \<Rightarrow> udp_packet \<Rightarrow> 'w udp_socket \<Rightarrow> int \<times> 'w udp_socket" where
  "send_again lib p s =
     (int32 (int (length (fst p))),
      s\<lparr>us_list := us_list s @ [p], us_watcher := start_io_event lib (us_socket s) EL_WRITE (us_watcher s)\<rparr>)"

definition add_udp_packet ::
  "('w, 't, 's) ev_lib \<Rightarrow> (nat \<Rightarrow> sys_result) \<Rightarrow> bytes \<Rightarrow> socket_address \<Rightarrow> 'w udp_socket
     \<Rightarrow> int \<times> 'w udp_socket" where
  "add_udp_packet lib kern data addr s =
     (case run_queue kern s of
        (FrontFailed, s1) \<Rightarrow> (- 1, s1)
      | (KernelFull, s1) \<Rightarrow> send_again lib (data, addr) s1
      | (Emptied, s1) \<Rightarrow>
          (let sent = sock_send_to (kern (us_calls s1));
               s2 = s1\<lparr>us_calls := us_calls s1 + 1\<rparr>
           in if sent < 0 then (- 1, s2\<lparr>us_log := us_log s2 @ [UdpFailed (data, addr)]\<rparr>)
              else if 0 = sent then send_again lib (data, addr) s2
              else (sent, s2\<lparr>us_log := us_log s2 @ [UdpSent (data, addr)]\<rparr>)))"

definition send_to ::
  "('w, 't, 's) ev_lib \<Rightarrow> (nat \<Rightarrow> sys_result) \<Rightarrow> bytes \<Rightarrow> socket_address \<Rightarrow> 'w udp_socket
     \<Rightarrow> int \<times> 'w udp_socket" where
  "send_to lib kern data addr s = add_udp_packet lib kern data addr s"

text \<open>
  A call of \<open>recvfrom\<close>: its result, the bytes in the buffer, the sender and the time stamp. The loop
  ends at the first call that read nothing; \<open>None\<close>: the calls given do not reach one.
\<close>

fun recv_data ::
  "(sys_result \<times> bytes \<times> socket_address \<times> int) list \<Rightarrow> 'w udp_socket \<Rightarrow> 'w udp_socket option" where
  "recv_data [] s = None"
| "recv_data ((r, buf, addr, ts) # calls) s =
     (let len = sock_recv_from r in
      if len \<le> 0 then Some s
      else recv_data calls (s\<lparr>us_log := us_log s @ [UdpRead (take (nat len) buf) addr ts]\<rparr>))"

definition async_udp_socket_io_cb ::
  "('w, 't, 's) ev_lib \<Rightarrow> (nat \<Rightarrow> sys_result) \<Rightarrow> (sys_result \<times> bytes \<times> socket_address \<times> int) list \<Rightarrow> u32
     \<Rightarrow> 'w udp_socket \<Rightarrow> 'w udp_socket option" where
  "async_udp_socket_io_cb lib kern calls events s =
     (case (if EL_READ AND events \<noteq> 0 then recv_data calls s else Some s) of
        None \<Rightarrow> None
      | Some s1 \<Rightarrow> Some (if EL_WRITE AND events \<noteq> 0 then send_data lib kern s1 else s1))"

subsection \<open>What becomes of the packets\<close>

text \<open>The packets that were sent or failed, in order, and those that are still to go.\<close>

definition settled :: "udp_event list \<Rightarrow> udp_packet list" where
  "settled l = concat (map (\<lambda>e. case e of UdpSent p \<Rightarrow> [p] | UdpFailed p \<Rightarrow> [p] | UdpRead _ _ _ \<Rightarrow> []) l)"

definition accepted :: "'w udp_socket \<Rightarrow> udp_packet list" where
  "accepted s = settled (us_log s) @ us_list s"

lemma settled_simps [simp]:
  "settled [] = []" "settled (l @ m) = settled l @ settled m" "settled (UdpSent p # l) = p # settled l"
  "settled (UdpFailed p # l) = p # settled l" "settled (UdpRead b a t # l) = settled l"
  by (simp_all add: settled_def)

lemma send_queue_keeps: "send_queue kern n q = (e, n1, q1, l) \<Longrightarrow> settled l @ q1 = q \<and> (e = Emptied \<longrightarrow> q1 = [])"
  by (induction kern n q arbitrary: e n1 q1 l rule: send_queue.induct)
     (auto simp: Let_def split: if_splits prod.splits)

lemma send_queue_failed:
  "send_queue kern n q = (FrontFailed, n1, q1, l) \<Longrightarrow> \<exists>p l'. l = l' @ [UdpFailed p]"
  by (induction kern n q arbitrary: n1 q1 l rule: send_queue.induct)
     (fastforce simp: Let_def split: if_splits prod.splits)+

lemma send_queue_all:
  "\<forall>i. 0 < sock_send_to (kern i) \<Longrightarrow> send_queue kern n q = (Emptied, n + length q, [], map UdpSent q)"
  by (induction q arbitrary: n) (simp_all add: Let_def not_less less_imp_neq order.strict_implies_order)

lemma run_queue_keeps:
  assumes "run_queue kern s = (e, s1)"
  shows "accepted s1 = accepted s" "us_watcher s1 = us_watcher s" "us_socket s1 = us_socket s"
    "e = Emptied \<Longrightarrow> us_list s1 = []" "us_list s = [] \<Longrightarrow> us_list s1 = []"
  using assms send_queue_keeps by (auto simp: run_queue_def accepted_def split: prod.splits)

lemma send_data_writable:
  assumes "\<forall>i. 0 < sock_send_to (kern i)"
  shows "us_list (send_data lib kern s) = [] \<and> us_log (send_data lib kern s) = us_log s @ map UdpSent (us_list s)
     \<and> us_watcher (send_data lib kern s) = stop_io_event lib (us_socket s) EL_WRITE (us_watcher s)"
  using send_queue_all [OF assms, of "us_calls s" "us_list s"] by (simp add: send_data_def run_queue_def Let_def)

lemma send_to_accepts:
  assumes "send_to lib kern data addr s = (r, s1)"
  shows "accepted s1 = accepted s @ [(data, addr)] \<or> r = - 1 \<and> accepted s1 = accepted s"
    "us_socket s1 = us_socket s"
    "us_watcher s1 = us_watcher s \<and> (us_list s = [] \<longrightarrow> us_list s1 = []) \<or>
       us_watcher s1 = start_io_event lib (us_socket s) EL_WRITE (us_watcher s)"
proof -
  obtain e s2 where q: "run_queue kern s = (e, s2)" by fastforce
  note k = run_queue_keeps [OF q]
  have f: "send_to lib kern data addr s =
      (case e of
         FrontFailed \<Rightarrow> (- 1, s2)
       | KernelFull \<Rightarrow> send_again lib (data, addr) s2
       | Emptied \<Rightarrow>
           (let sent = sock_send_to (kern (us_calls s2)); s3 = s2\<lparr>us_calls := us_calls s2 + 1\<rparr>
            in if sent < 0 then (- 1, s3\<lparr>us_log := us_log s3 @ [UdpFailed (data, addr)]\<rparr>)
               else if 0 = sent then send_again lib (data, addr) s3
               else (sent, s3\<lparr>us_log := us_log s3 @ [UdpSent (data, addr)]\<rparr>)))"
    by (simp add: send_to_def add_udp_packet_def q split: send_end.split)
  show "accepted s1 = accepted s @ [(data, addr)] \<or> r = - 1 \<and> accepted s1 = accepted s"
    using assms f k(4) unfolding k(1) [symmetric]
    by (cases e) (auto simp: send_again_def accepted_def Let_def split: if_splits)
  show "us_socket s1 = us_socket s"
    using assms f k(3) by (cases e) (auto simp: send_again_def Let_def split: if_splits)
  show "us_watcher s1 = us_watcher s \<and> (us_list s = [] \<longrightarrow> us_list s1 = []) \<or>
       us_watcher s1 = start_io_event lib (us_socket s) EL_WRITE (us_watcher s)"
    using assms f k(2-5) by (cases e) (auto simp: send_again_def Let_def split: if_splits)
qed

lemma recv_data_keeps:
  "recv_data calls s = Some s1 \<Longrightarrow>
     accepted s1 = accepted s \<and> us_list s1 = us_list s \<and> us_watcher s1 = us_watcher s \<and> us_socket s1 = us_socket s"
  by (induction calls s rule: recv_data.induct) (auto simp: Let_def accepted_def split: if_splits)

subsection \<open>Every run\<close>

text \<open>\<open>sub\<close> are the packets given to \<open>send_to\<close>, in order.\<close>

inductive udp_reachable :: "('w, 't, 's) ev_lib \<Rightarrow> udp_packet list \<Rightarrow> 'w udp_socket \<Rightarrow> bool" for lib where
  udp_new: "udp_reachable lib [] (new_udp_socket lib w fd)"
| udp_send: "udp_reachable lib sub s \<Longrightarrow> send_to lib kern data addr s = (r, s1) \<Longrightarrow>
     udp_reachable lib (sub @ [(data, addr)]) s1"
| udp_io: "udp_reachable lib sub s \<Longrightarrow> async_udp_socket_io_cb lib kern calls events s = Some s1 \<Longrightarrow>
     udp_reachable lib sub s1"

definition udp_ok :: "('w, 't, 's) ev_lib \<Rightarrow> udp_packet list \<Rightarrow> 'w udp_socket \<Rightarrow> bool" where
  "udp_ok lib sub s =
     (subseq (accepted s) sub \<and> watched lib (us_watcher s) \<in> {EL_READ, EL_READ OR EL_WRITE}
      \<and> (us_list s \<noteq> [] \<longrightarrow> watched lib (us_watcher s) = EL_READ OR EL_WRITE))"

context ev_laws begin

lemma active_at_most_one: "watched lib w \<noteq> 0 \<Longrightarrow> at_most_one lib w"
  by (simp add: watched_def at_most_one_def split: if_splits)

lemma watch_write:
  assumes "watched lib w \<in> {EL_READ, EL_READ OR EL_WRITE}"
  shows "watched lib (start_io_event lib fd EL_WRITE w) = EL_READ OR EL_WRITE"
    "watched lib (stop_io_event lib fd EL_WRITE w) = EL_READ"
proof -
  have "at_most_one lib w" by (rule active_at_most_one) (use assms in \<open>auto simp: el_masks\<close>)
  then show "watched lib (stop_io_event lib fd EL_WRITE w) = EL_READ"
    using assms by (subst stop_watched) (auto simp: el_masks)
  show "watched lib (start_io_event lib fd EL_WRITE w) = EL_READ OR EL_WRITE"
    using assms by (subst start_watched) (auto simp: el_masks)
qed

lemma new_socket_ok: "udp_ok lib [] (new_udp_socket lib w fd)"
proof -
  have "watched lib (create_io_event lib w) = 0" by (simp add: create_io_event_def watched_def init)
  then show ?thesis
    using start_watched [of EL_READ fd "create_io_event lib w"]
    by (simp add: udp_ok_def new_udp_socket_def accepted_def el_masks)
qed

lemma send_data_ok:
  assumes "udp_ok lib sub s"
  shows "udp_ok lib sub (send_data lib kern s)"
proof -
  obtain e s1 where q: "run_queue kern s = (e, s1)" by fastforce
  have "us_list s1 \<noteq> [] \<Longrightarrow> us_list s \<noteq> []" using run_queue_keeps(5) [OF q] by blast
  then have ok: "udp_ok lib sub s1" using assms unfolding udp_ok_def run_queue_keeps(1,2) [OF q] by blast
  show ?thesis
  proof (cases "e = Emptied")
    case True
    moreover have "watched lib (stop_io_event lib (us_socket s1) EL_WRITE (us_watcher s1)) = EL_READ"
      by (rule watch_write(2)) (use ok in \<open>simp add: udp_ok_def\<close>)
    ultimately show ?thesis
      using ok run_queue_keeps(4) [OF q True] by (simp add: send_data_def q udp_ok_def accepted_def)
  next
    case False
    then show ?thesis using ok by (simp add: send_data_def q)
  qed
qed

lemma send_to_ok:
  assumes "udp_ok lib sub s" "send_to lib kern data addr s = (r, s1)"
  shows "udp_ok lib (sub @ [(data, addr)]) s1"
proof -
  have sub: "subseq (accepted s) sub" using assms(1) by (simp add: udp_ok_def)
  have "subseq (accepted s1) (sub @ [(data, addr)])"
    using send_to_accepts(1) [OF assms(2)] sub by (elim disjE conjE) (simp, simp add: list_emb_prefix)
  then show ?thesis
    using send_to_accepts(3) [OF assms(2)] assms(1) watch_write [of "us_watcher s"] by (auto simp: udp_ok_def)
qed

lemma io_cb_ok:
  assumes "udp_ok lib sub s" "async_udp_socket_io_cb lib kern calls events s = Some s1"
  shows "udp_ok lib sub s1"
proof -
  obtain s2 where s2: "(if EL_READ AND events \<noteq> 0 then recv_data calls s else Some s) = Some s2"
    "s1 = (if EL_WRITE AND events \<noteq> 0 then send_data lib kern s2 else s2)"
    using assms(2) by (auto simp: async_udp_socket_io_cb_def split: option.splits if_splits)
  have "udp_ok lib sub s2"
    using s2(1) assms(1) recv_data_keeps [of calls s s2] by (auto simp: udp_ok_def split: if_splits)
  then show ?thesis using send_data_ok s2(2) by simp
qed

lemma reachable_udp_ok: "udp_reachable lib sub s \<Longrightarrow> udp_ok lib sub s"
  by (induction rule: udp_reachable.induct) (auto intro: new_socket_ok send_to_ok io_cb_ok)

end

text \<open>C27: 
  A UDP socket never reorders or doubles packets: those it sent, failed to send or keeps are packets it
  was given, in that order. While it keeps packets the write event is watched, and a call of \<open>send_data\<close>
  on a socket that takes packets sends them all, in order, and ends the watch.
\<close>

theorem udp_queue_watched:
  assumes "ev_laws lib" "udp_reachable lib sub s"
  shows "subseq (settled (us_log s) @ us_list s) sub
     \<and> (us_list s \<noteq> [] \<longrightarrow> watched lib (us_watcher s) = EL_READ OR EL_WRITE)
     \<and> watched lib (us_watcher s) AND EL_READ = EL_READ
     \<and> (\<forall>kern. (\<forall>i. 0 < sock_send_to (kern i)) \<longrightarrow>
          us_list (send_data lib kern s) = []
          \<and> us_log (send_data lib kern s) = us_log s @ map UdpSent (us_list s)
          \<and> watched lib (us_watcher (send_data lib kern s)) = EL_READ)"
proof -
  have ok: "udp_ok lib sub s" by (rule ev_laws.reachable_udp_ok [OF assms])
  then have "watched lib (us_watcher s) AND EL_READ = EL_READ" by (auto simp: udp_ok_def el_masks)
  moreover have "us_list (send_data lib kern s) = [] \<and> us_log (send_data lib kern s) = us_log s @ map UdpSent (us_list s)
      \<and> watched lib (us_watcher (send_data lib kern s)) = EL_READ" if "\<forall>i. 0 < sock_send_to (kern i)" for kern
    using send_data_writable [OF that, of lib s] ev_laws.watch_write(2) [OF assms(1)] ok by (simp add: udp_ok_def)
  ultimately show ?thesis using ok by (simp add: udp_ok_def accepted_def)
qed

text \<open>
  A packet that fails while older packets wait takes the new packet with it: the call returns \<open>- 1\<close> and
  the new packet is neither sent nor kept, also when the kernel would have taken it.
\<close>

lemma front_failure_drops_new:
  assumes "us_list s = q # qs" "kern (us_calls s) = SysErr EOTHER"
  shows "send_to lib kern data addr s
     = (- 1, s\<lparr>us_calls := us_calls s + 1, us_list := qs, us_log := us_log s @ [UdpFailed q]\<rparr>)"
  using assms by (simp add: send_to_def add_udp_packet_def run_queue_def sock_send_to_def Let_def)

definition full_then_free :: "nat \<Rightarrow> sys_result" where
  "full_then_free n = (if n = 1 then SysErr EAGAIN else SysRet 3)"

theorem udp_queue_watched_witness:
  "\<exists>sub s. udp_reachable doc_ev_lib sub s \<and> us_list s \<noteq> [] \<and> watched doc_ev_lib (us_watcher s) = EL_READ OR EL_WRITE
     \<and> us_log (send_data doc_ev_lib full_then_free s) = map UdpSent sub"
proof -
  let ?w = "\<lparr>dw_active = False, dw_fd = 0, dw_events = 0\<rparr>"
  let ?s0 = "new_udp_socket doc_ev_lib ?w 5"
  let ?s1 = "snd (send_to doc_ev_lib full_then_free [1, 2, 3] demo_addr ?s0)"
  let ?s2 = "snd (send_to doc_ev_lib full_then_free [4, 5, 6] demo_addr ?s1)"
  have "udp_reachable doc_ev_lib ([] @ [([1, 2, 3], demo_addr)]) ?s1"
    by (rule udp_send [OF udp_new prod.collapse [symmetric]])
  from udp_send [OF this prod.collapse [symmetric]]
  have r: "udp_reachable doc_ev_lib (([] @ [([1, 2, 3], demo_addr)]) @ [([4, 5, 6], demo_addr)]) ?s2" .
  have "us_list ?s2 = [([4, 5, 6], demo_addr)]"
    "us_log (send_data doc_ev_lib full_then_free ?s2) = [UdpSent ([1, 2, 3], demo_addr), UdpSent ([4, 5, 6], demo_addr)]"
    by (simp_all add: new_udp_socket_def send_to_def add_udp_packet_def run_queue_def send_again_def full_then_free_def
        sock_send_to_def send_data_def Let_def)
  then show ?thesis using r udp_queue_watched [OF libev.ev_laws_axioms r] by (intro exI conjI) auto
qed

end
