(* ===== verification/SocketSetup.thy ===== *)
theory SocketSetup
  imports Sockets
begin

text \<open>
  The helpers of \<open>base/socket.cpp\<close> that set sockets up and ask for addresses. The results of the system
  calls are arguments, in the order of the calls; the descriptors that are closed are part of the result.
\<close>

definition sys_failed :: "sys_result \<Rightarrow> bool" where
  "sys_failed r = (case r of SysErr _ \<Rightarrow> True | SysRet n \<Rightarrow> n = - 1)"

definition create_udp_socket :: "sys_result \<Rightarrow> int" where
  "create_udp_socket r = (case r of SysErr _ \<Rightarrow> - 1 | SysRet fd \<Rightarrow> fd)"

text \<open>
  \<open>aton\<close> is whether the address text is valid, \<open>None\<close> for a null address. The result is the descriptor
  or \<open>- 1\<close>, and what was closed.
\<close>

definition create_tcp_server ::
  "sys_result \<Rightarrow> sys_result \<Rightarrow> bool option \<Rightarrow> sys_result \<Rightarrow> sys_result \<Rightarrow> int \<times> int list" where
  "create_tcp_server sock_r opt_r aton bind_r listen_r =
     (case sock_r of
        SysErr _ \<Rightarrow> (- 1, [])
      | SysRet sock \<Rightarrow>
          if sock = - 1 then (- 1, [])
          else if sys_failed opt_r then (- 1, [sock])
          else if aton = Some False then (- 1, [sock])
          else if sys_failed bind_r then (- 1, [sock])
          else if sys_failed listen_r then (- 1, [sock])
          else (sock, []))"

text \<open>\<open>peer\<close> is the address that \<open>accept\<close> filled in.\<close>

definition tcp_accept :: "sys_result list \<Rightarrow> string \<times> int \<Rightarrow> (int \<times> (string \<times> int) option) option" where
  "tcp_accept rs peer =
     map_option (\<lambda>fd. if fd = - 1 then (- 1, None) else (fd, Some peer)) (generic_accept rs)"

definition sock_peer_to_str :: "sys_result \<Rightarrow> string \<times> int \<Rightarrow> int \<times> string \<times> int" where
  "sock_peer_to_str r peer = (if sys_failed r then (- 1, ''?'', 0) else (0, fst peer, snd peer))"

definition sock_get_address :: "sys_result \<Rightarrow> string \<times> int \<Rightarrow> int \<times> (string \<times> int) option" where
  "sock_get_address r addr = (if r \<noteq> SysRet 0 then (- 1, None) else (0, Some addr))"

definition sock_get_recv_timestamp :: "sys_result \<Rightarrow> int \<Rightarrow> int \<Rightarrow> int" where
  "sock_get_recv_timestamp r sec usec = (if r \<noteq> SysRet 0 then - 1 else sec * 1000000 + usec)"

text \<open>The set-up of a server leaks no descriptor: the socket is either returned or closed.\<close>

lemma tcp_server_no_leak:
  "create_tcp_server sock_r opt_r aton bind_r listen_r = (ret, closed) \<Longrightarrow>
     (case sock_r of
        SysErr _ \<Rightarrow> ret = - 1 \<and> closed = []
      | SysRet sock \<Rightarrow> sock = - 1 \<and> ret = - 1 \<and> closed = [] \<or> ret = sock \<and> closed = [] \<or> ret = - 1 \<and> closed = [sock])"
  by (auto simp: create_tcp_server_def split: sys_result.splits if_splits)

text \<open>A call of \<open>accept\<close> that was interrupted is made again, any number of times.\<close>

lemma accept_interrupted:
  "tcp_accept (replicate n (SysErr EINTR) @ rs) peer = tcp_accept rs peer"
  by (induction n) (simp_all add: tcp_accept_def)

lemma accept_ends:
  "r \<noteq> SysErr EINTR \<Longrightarrow>
     tcp_accept (replicate n (SysErr EINTR) @ r # rs) peer =
       Some (case r of SysErr _ \<Rightarrow> (- 1, None) | SysRet fd \<Rightarrow> if fd = - 1 then (- 1, None) else (fd, Some peer))"
  unfolding accept_interrupted by (cases r) (simp_all add: tcp_accept_def)

end
