(* ===== verification/HostNetwork.thy ===== *)
theory HostNetwork
  imports SocketSetup IceDefs
begin

text \<open>
  The network interfaces (\<open>base/network.cpp\<close>) and the port range (\<open>ice/port_allocator.cpp\<close>). The list that
  \<open>getifaddrs\<close> gives is an argument: an interface has a name and, unless its address is null, a flag
  for \<open>AF_INET\<close> and the address; \<open>loopback\<close> is \<open>rtc::IPIsLoopback\<close>.
\<close>

record ifaddr =
  ifa_name :: string
  ifa_addr :: "(bool \<times> ip_address) option"

record network =
  nw_name :: string
  nw_ip :: ip_address

text \<open>Reading the family of a null address is \<open>None\<close>.\<close>

fun gather_networks :: "(ip_address \<Rightarrow> bool) \<Rightarrow> ifaddr list \<Rightarrow> network list option" where
  "gather_networks loopback [] = Some []"
| "gather_networks loopback (cur # rest) =
     (case ifa_addr cur of
        None \<Rightarrow> None
      | Some (inet, ip) \<Rightarrow>
          if \<not> inet then gather_networks loopback rest
          else if loopback ip \<or> take 6 (ifa_name cur) = ''docker'' then gather_networks loopback rest
          else map_option ((#) \<lparr>nw_name = ifa_name cur, nw_ip = ip\<rparr>) (gather_networks loopback rest))"

text \<open>\<open>server\<close> is the network of the configuration (\<open>if_name\<close> and \<open>server_addr\<close>).\<close>

definition create_networks ::
  "(ip_address \<Rightarrow> bool) \<Rightarrow> ifaddr list option \<Rightarrow> network \<Rightarrow> network list \<Rightarrow> (int \<times> network list) option" where
  "create_networks loopback interfaces server nets =
     (case interfaces of
        None \<Rightarrow> Some (- 1, nets)
      | Some ifs \<Rightarrow>
          map_option (\<lambda>ns. (0, if nets @ ns = [] then [server] else nets @ ns)) (gather_networks loopback ifs))"

record port_allocator =
  pa_networks :: "network list"
  pa_min_port :: int
  pa_max_port :: int

text \<open>The constructor ignores the result of \<open>create_networks\<close>.\<close>

definition new_port_allocator ::
  "(ip_address \<Rightarrow> bool) \<Rightarrow> ifaddr list option \<Rightarrow> network \<Rightarrow> port_allocator option" where
  "new_port_allocator loopback interfaces server =
     map_option (\<lambda>(ret, nets). \<lparr>pa_networks = nets, pa_min_port = 0, pa_max_port = 0\<rparr>)
       (create_networks loopback interfaces server [])"

definition get_networks :: "port_allocator \<Rightarrow> network list" where
  "get_networks pa = pa_networks pa"

definition set_port_range :: "int \<Rightarrow> int \<Rightarrow> port_allocator \<Rightarrow> port_allocator" where
  "set_port_range min_port max_port pa =
     (let pa1 = (if min_port > 0 then pa\<lparr>pa_min_port := min_port\<rparr> else pa)
      in if max_port > 0 then pa1\<lparr>pa_max_port := max_port\<rparr> else pa1)"

lemma gather_networks_filter:
  "list_all (\<lambda>i. ifa_addr i \<noteq> None) ifs \<Longrightarrow>
     gather_networks loopback ifs =
       Some (map (\<lambda>i. \<lparr>nw_name = ifa_name i, nw_ip = snd (the (ifa_addr i))\<rparr>)
         (filter (\<lambda>i. fst (the (ifa_addr i)) \<and> \<not> loopback (snd (the (ifa_addr i))) \<and> take 6 (ifa_name i) \<noteq> ''docker'') ifs))"
  by (induction loopback ifs rule: gather_networks.induct) (auto split: option.splits)

text \<open>An interface without an address, which \<open>getifaddrs\<close> may list, is a null dereference.\<close>

lemma null_address_crashes: "ifa_addr i = None \<Longrightarrow> gather_networks loopback (ifs @ i # rest) = None"
  by (induction ifs) (auto split: option.splits)

text \<open>Once the interfaces could be listed there is a network to gather on.\<close>

lemma some_network:
  "new_port_allocator loopback (Some ifs) server = Some pa \<Longrightarrow> get_networks pa \<noteq> []"
  by (auto simp: new_port_allocator_def create_networks_def get_networks_def split: if_splits)

text \<open>
  A maximal port without a minimal one makes the range begin at port 0: the first \<open>bind\<close> asks the
  kernel for any port and succeeds with one outside the range.
\<close>

lemma max_only_takes_any_port:
  assumes "pa_min_port pa = 0" "min_port \<le> 0" "0 < max_port" "bind_port (Some 0) = 0"
  defines "pa' \<equiv> set_port_range min_port max_port pa"
  shows "sock_bind bind_port (pa_min_port pa') (pa_max_port pa') = bind_port (Some 0)"
proof -
  have "bind_from bind_port 0 max_port (- 1) = bind_from bind_port 1 max_port 0"
    using assms(3,4) by (simp add: bind_from.simps [of _ 0])
  then show ?thesis
    using assms(1-4) by (simp add: pa'_def set_port_range_def sock_bind_def bind_from.simps [of _ 1])
qed

end
