(* ===== verification/LogService.thy ===== *)
theory LogService
  imports Prelude
begin

text \<open>
  The configuration file (\<open>base/conf.cpp\<close>) and the log (\<open>base/log.cpp\<close>). yaml-cpp is the parameter
  \<open>yaml_doc\<close>: what a path in the file converts to, \<open>None\<close> where the conversion throws.
\<close>

subsection \<open>The configuration\<close>

record yaml_doc =
  y_str :: "string list \<Rightarrow> string option"
  y_int :: "string list \<Rightarrow> int option"
  y_bool :: "string list \<Rightarrow> bool option"

record general_conf =
  gc_log_dir :: string
  gc_log_name :: string
  gc_log_level :: string
  gc_log_to_stderr :: bool
  gc_ice_min_port :: int
  gc_ice_max_port :: int
  gc_server_addr :: string
  gc_if_name :: string

definition new_general_conf :: general_conf where
  "new_general_conf =
     \<lparr>gc_log_dir = '''', gc_log_name = '''', gc_log_level = '''', gc_log_to_stderr = False,
      gc_ice_min_port = 0, gc_ice_max_port = 0, gc_server_addr = '''', gc_if_name = ''''\<rparr>"

text \<open>The assignments of the \<open>try\<close> block in order; the first that throws ends it (\<open>False\<close>).\<close>

type_synonym 'c conf_step = "'c \<Rightarrow> 'c option"

fun run_steps :: "'c conf_step list \<Rightarrow> 'c \<Rightarrow> bool \<times> 'c" where
  "run_steps [] c = (True, c)"
| "run_steps (s # ss) c = (case s c of None \<Rightarrow> (False, c) | Some c1 \<Rightarrow> run_steps ss c1)"

definition conf_steps :: "yaml_doc \<Rightarrow> general_conf conf_step list" where
  "conf_steps y =
     [\<lambda>c. map_option (\<lambda>v. c\<lparr>gc_log_dir := v\<rparr>) (y_str y [''log'', ''log_dir'']),
      \<lambda>c. map_option (\<lambda>v. c\<lparr>gc_log_name := v\<rparr>) (y_str y [''log'', ''log_name'']),
      \<lambda>c. map_option (\<lambda>v. c\<lparr>gc_log_level := v\<rparr>) (y_str y [''log'', ''log_level'']),
      \<lambda>c. map_option (\<lambda>v. c\<lparr>gc_log_to_stderr := v\<rparr>) (y_bool y [''log'', ''log_to_stderr'']),
      \<lambda>c. map_option (\<lambda>v. c\<lparr>gc_ice_min_port := v\<rparr>) (y_int y [''ice'', ''min_port'']),
      \<lambda>c. map_option (\<lambda>v. c\<lparr>gc_ice_max_port := v\<rparr>) (y_int y [''ice'', ''max_port'']),
      \<lambda>c. map_option (\<lambda>v. c\<lparr>gc_server_addr := v\<rparr>) (y_str y [''server_addr'']),
      \<lambda>c. map_option (\<lambda>v. c\<lparr>gc_if_name := v\<rparr>) (y_str y [''if_name''])]"

text \<open>
  \<open>load\<close> is the result of \<open>YAML::LoadFile\<close>, \<open>None\<close> when it throws: it is called outside the \<open>try\<close>
  block, so the whole call is \<open>None\<close> then. \<open>filename\<close> and \<open>conf\<close> may be null.
\<close>

definition load_general_conf ::
  "(string \<Rightarrow> yaml_doc option) \<Rightarrow> string option \<Rightarrow> general_conf option \<Rightarrow> (int \<times> general_conf option) option" where
  "load_general_conf load filename conf =
     (case (filename, conf) of
        (Some f, Some c) \<Rightarrow>
          (let c1 = c\<lparr>gc_log_dir := ''./log'', gc_log_name := ''undefined'', gc_log_level := ''info'',
                      gc_log_to_stderr := False\<rparr>
           in case load f of
                None \<Rightarrow> None
              | Some y \<Rightarrow>
                  (let (ok, c2) = run_steps (conf_steps y) c1 in Some (if ok then 0 else - 1, Some c2)))
      | _ \<Rightarrow> Some (- 1, conf))"

text \<open>A configuration without errors is read whole; a file that cannot be read ends the process.\<close>

lemma conf_loaded:
  assumes "load f = Some y" "load_general_conf load (Some f) (Some c) = Some (0, r)"
  shows "\<exists>c'. r = Some c' \<and> y_str y [''log'', ''log_dir''] = Some (gc_log_dir c')
     \<and> y_str y [''log'', ''log_level''] = Some (gc_log_level c')
     \<and> y_int y [''ice'', ''min_port''] = Some (gc_ice_min_port c') \<and> y_int y [''ice'', ''max_port''] = Some (gc_ice_max_port c')
     \<and> y_str y [''server_addr''] = Some (gc_server_addr c') \<and> y_str y [''if_name''] = Some (gc_if_name c')"
  using assms by (auto simp: load_general_conf_def conf_steps_def Let_def split: option.splits prod.splits if_splits)

lemma conf_unreadable: "load f = None \<Longrightarrow> load_general_conf load (Some f) (Some c) = None"
  by (simp add: load_general_conf_def Let_def)

subsection \<open>The log\<close>

datatype severity = LS_VERBOSE | LS_INFO | LS_WARNING | LS_ERROR | LS_NONE

fun severity_rank :: "severity \<Rightarrow> nat" where
  "severity_rank LS_VERBOSE = 0"
| "severity_rank LS_INFO = 1"
| "severity_rank LS_WARNING = 2"
| "severity_rank LS_ERROR = 3"
| "severity_rank LS_NONE = 4"

lemma severity_rank_inj: "severity_rank a = severity_rank b \<longleftrightarrow> a = b"
  by (cases a; cases b) auto

instantiation severity :: linorder
begin

definition "less_eq_severity a b = (severity_rank a \<le> severity_rank b)"
definition "less_severity a b = (severity_rank a < severity_rank b)"

instance
  by standard (auto simp: less_eq_severity_def less_severity_def severity_rank_inj dest: order.antisym)

end

definition get_log_severity :: "string \<Rightarrow> severity" where
  "get_log_severity level =
     (if ''verbose'' = level then LS_VERBOSE
      else if ''info'' = level then LS_INFO
      else if ''warning'' = level then LS_WARNING
      else if ''error'' = level then LS_ERROR
      else LS_NONE)"

text \<open>A stream: whether it is open, and what was written through it to the file of its name.\<close>

record out_file =
  of_open :: bool
  of_written :: "string list"

record xrtc_log =
  lg_log_level :: string
  lg_out_file :: out_file
  lg_out_file_wf :: out_file
  lg_queue :: "string list"
  lg_queue_wf :: "string list"
  lg_thread :: bool
  lg_running :: bool

definition new_xrtc_log :: "string \<Rightarrow> xrtc_log" where
  "new_xrtc_log log_level =
     \<lparr>lg_log_level = log_level, lg_out_file = \<lparr>of_open = False, of_written = []\<rparr>,
      lg_out_file_wf = \<lparr>of_open = False, of_written = []\<rparr>, lg_queue = [], lg_queue_wf = [],
      lg_thread = False, lg_running = False\<rparr>"

definition on_log_message :: "string \<Rightarrow> severity \<Rightarrow> xrtc_log \<Rightarrow> xrtc_log" where
  "on_log_message message sev lg =
     (if sev \<ge> LS_WARNING
      then lg\<lparr>lg_queue_wf := lg_queue_wf lg @ [message]\<rparr>
      else lg\<lparr>lg_queue := lg_queue lg @ [message]\<rparr>)"

text \<open>\<open>dir_ok\<close>: \<open>mkdir\<close> succeeded or the directory exists; the others: whether the files open.\<close>

definition log_init :: "bool \<Rightarrow> bool \<Rightarrow> bool \<Rightarrow> xrtc_log \<Rightarrow> int \<times> xrtc_log" where
  "log_init dir_ok file_ok wf_ok lg =
     (if \<not> dir_ok then (- 1, lg)
      else (let lg1 = lg\<lparr>lg_out_file := (lg_out_file lg)\<lparr>of_open := file_ok\<rparr>\<rparr> in
            if \<not> file_ok then (- 1, lg1)
            else (let lg2 = lg1\<lparr>lg_out_file_wf := (lg_out_file_wf lg1)\<lparr>of_open := wf_ok\<rparr>\<rparr>
                  in if \<not> wf_ok then (- 1, lg2) else (0, lg2))))"

definition log_start :: "xrtc_log \<Rightarrow> bool \<times> xrtc_log" where
  "log_start lg = (if lg_running lg then (False, lg) else (True, lg\<lparr>lg_running := True, lg_thread := True\<rparr>))"

text \<open>
  One file of a round of the thread's loop: it is opened again when it is gone (\<open>gone\<close>, and \<open>reopen\<close> is
  whether that works), and the queue is written to it. What is written to a stream that is not open is lost.
\<close>

definition flush_queue :: "bool \<Rightarrow> bool \<Rightarrow> string list \<Rightarrow> out_file \<Rightarrow> out_file" where
  "flush_queue gone reopen q f =
     (let f1 = (if gone then f\<lparr>of_open := reopen\<rparr> else f)
      in if q \<noteq> [] \<and> of_open f1 then f1\<lparr>of_written := of_written f1 @ [concat q]\<rparr> else f1)"

definition log_round :: "bool \<times> bool \<Rightarrow> bool \<times> bool \<Rightarrow> xrtc_log \<Rightarrow> xrtc_log" where
  "log_round st st_wf lg =
     (if lg_running lg
      then lg\<lparr>lg_out_file := flush_queue (fst st) (snd st) (lg_queue lg) (lg_out_file lg),
              lg_out_file_wf := flush_queue (fst st_wf) (snd st_wf) (lg_queue_wf lg) (lg_out_file_wf lg),
              lg_queue := [], lg_queue_wf := []\<rparr>
      else lg)"

definition log_stop :: "xrtc_log \<Rightarrow> xrtc_log" where
  "log_stop lg = lg\<lparr>lg_running := False, lg_thread := False\<rparr>"

definition log_destroy :: "xrtc_log \<Rightarrow> xrtc_log" where
  "log_destroy lg =
     (let lg1 = log_stop lg
      in lg1\<lparr>lg_out_file := (lg_out_file lg1)\<lparr>of_open := False\<rparr>,
             lg_out_file_wf := (lg_out_file_wf lg1)\<lparr>of_open := False\<rparr>\<rparr>)"

text \<open>The text of a class of messages, written or still queued.\<close>

definition log_text :: "xrtc_log \<Rightarrow> string \<times> string" where
  "log_text lg =
     (concat (of_written (lg_out_file lg) @ lg_queue lg), concat (of_written (lg_out_file_wf lg) @ lg_queue_wf lg))"

datatype log_op = LogMessage string severity | LogRound "bool \<times> bool" "bool \<times> bool"

fun log_apply :: "xrtc_log \<Rightarrow> log_op \<Rightarrow> xrtc_log" where
  "log_apply lg (LogMessage m sev) = on_log_message m sev lg"
| "log_apply lg (LogRound st st_wf) = log_round st st_wf lg"

text \<open>A round finds its file or opens it again.\<close>

fun round_ok :: "log_op \<Rightarrow> bool" where
  "round_ok (LogMessage m sev) = True"
| "round_ok (LogRound st st_wf) = ((fst st \<longrightarrow> snd st) \<and> (fst st_wf \<longrightarrow> snd st_wf))"

definition log_ready :: "xrtc_log \<Rightarrow> bool" where
  "log_ready lg = (lg_running lg \<and> of_open (lg_out_file lg) \<and> of_open (lg_out_file_wf lg))"

definition messages_of :: "bool \<Rightarrow> log_op list \<Rightarrow> string list" where
  "messages_of warn ops =
     concat (map (\<lambda>op. case op of
        LogMessage m sev \<Rightarrow> if (sev \<ge> LS_WARNING) = warn then [m] else []
      | LogRound _ _ \<Rightarrow> []) ops)"

lemma messages_of_cons:
  "messages_of warn (op # ops) = messages_of warn [op] @ messages_of warn ops"
  by (simp add: messages_of_def)

lemma log_apply_text:
  assumes "log_ready lg" "round_ok op"
  shows "log_ready (log_apply lg op)"
    "log_text (log_apply lg op) =
       (fst (log_text lg) @ concat (messages_of False [op]), snd (log_text lg) @ concat (messages_of True [op]))"
  using assms
  by (cases op; auto simp: log_ready_def log_text_def on_log_message_def log_round_def flush_queue_def messages_of_def Let_def)+

text \<open>While the files can be opened the log keeps every message, in order, warnings apart from the rest.\<close>

lemma log_keeps_order:
  assumes "log_ready lg" "list_all round_ok ops"
  shows "log_text (foldl log_apply lg ops) =
     (fst (log_text lg) @ concat (messages_of False ops), snd (log_text lg) @ concat (messages_of True ops))"
  using assms
proof (induction ops arbitrary: lg)
  case Nil
  then show ?case by (simp add: messages_of_def)
next
  case (Cons op ops)
  then show ?case using log_apply_text [of lg op] by (simp add: messages_of_cons [of _ op ops])
qed

text \<open>What is queued when the log stops is never written.\<close>

lemma stop_loses_queued: "log_round st st_wf (log_stop lg) = log_stop lg"
  by (simp add: log_stop_def log_round_def)

lemma unknown_level_is_silent:
  "level \<notin> {''verbose'', ''info'', ''warning'', ''error''} \<Longrightarrow> get_log_severity level = LS_NONE"
  by (auto simp: get_log_severity_def)

end
