(* ===== verification/Startup.thy ===== *)
theory Startup
  imports Servers SocketSetup LogService
begin

text \<open>
  Starting the server: the \<open>init\<close> functions of \<open>server/rtc_server.cpp\<close>, \<open>server/rtc_worker.cpp\<close>,
  \<open>server/signaling_server.cpp\<close> and \<open>server/signaling_worker.cpp\<close>, and \<open>main.cpp\<close>. Whether a pipe could be made
  and the descriptors that \<open>create_tcp_server\<close> gives are arguments. A configuration file is \<open>None\<close> when its
  name is null and \<open>Some None\<close> when it cannot be read.
\<close>

subsection \<open>The workers\<close>

definition rw_init :: "bool \<Rightarrow> int" where
  "rw_init pipe_ok = (if \<not> pipe_ok then - 1 else 0)"

definition sw_init :: "bool \<Rightarrow> int" where
  "sw_init pipe_ok = (if \<not> pipe_ok then - 1 else 0)"

text \<open>The loop that creates the workers; \<open>addr i\<close> is the address of the i-th, \<open>pipes i\<close> whether it gets its pipe.\<close>

fun create_rtc_workers :: "(nat \<Rightarrow> bool) \<Rightarrow> (nat \<Rightarrow> nat) \<Rightarrow> nat list \<Rightarrow> rtc_server \<Rightarrow> int \<times> rtc_server" where
  "create_rtc_workers pipes addr [] srv = (0, srv)"
| "create_rtc_workers pipes addr (i # is) srv =
     (let (ret, srv1) = rsv_create_worker
            (rw_init (pipes i) = 0 \<and> fst (rw_start (new_rtc_worker i :: (unit, unit) rtc_worker))) (addr i) srv
      in if ret \<noteq> 0 then (- 1, srv1) else create_rtc_workers pipes addr is srv1)"

fun create_signaling_workers ::
  "int \<Rightarrow> (nat \<Rightarrow> bool) \<Rightarrow> (nat \<Rightarrow> nat) \<Rightarrow> nat list \<Rightarrow> signaling_server \<Rightarrow> int \<times> signaling_server" where
  "create_signaling_workers timeout pipes addr [] srv = (0, srv)"
| "create_signaling_workers timeout pipes addr (i # is) srv =
     (let (ret, srv1) = sgs_create_worker
            (sw_init (pipes i) = 0 \<and> fst (sw_start (new_signaling_worker i timeout))) (addr i) srv
      in if ret \<noteq> 0 then (- 1, srv1) else create_signaling_workers timeout pipes addr is srv1)"

subsection \<open>The servers\<close>

definition rtc_server_init ::
  "yaml_doc option option \<Rightarrow> (nat \<Rightarrow> bool) \<Rightarrow> nat option \<Rightarrow> bool \<Rightarrow> (nat \<Rightarrow> bool) \<Rightarrow> (nat \<Rightarrow> nat) \<Rightarrow> rtc_server
     \<Rightarrow> int \<times> rtc_server" where
  "rtc_server_init conf expired generated pipe_ok pipes addr srv =
     (case conf of
        None \<Rightarrow> (- 1, srv)
      | Some None \<Rightarrow> (- 1, srv)
      | Some (Some y) \<Rightarrow>
          (case y_int y [''worker_num''] of
             None \<Rightarrow> (- 1, srv)
           | Some n \<Rightarrow>
               (let (ret, srv1) = generate_and_check_certificate expired generated (srv\<lparr>rsv_worker_num := n\<rparr>) in
                if ret \<noteq> 0 then (- 1, srv1)
                else if \<not> pipe_ok then (- 1, srv1)
                else create_rtc_workers pipes addr [0..<nat (rsv_worker_num srv1)] srv1)))"

record signaling_server_options =
  so_host :: string
  so_port :: int
  so_worker_num :: int
  so_connection_timeout :: int

definition signaling_steps :: "yaml_doc \<Rightarrow> signaling_server_options conf_step list" where
  "signaling_steps y =
     [\<lambda>c. map_option (\<lambda>v. c\<lparr>so_host := v\<rparr>) (y_str y [''host'']),
      \<lambda>c. map_option (\<lambda>v. c\<lparr>so_port := v\<rparr>) (y_int y [''port'']),
      \<lambda>c. map_option (\<lambda>v. c\<lparr>so_worker_num := v\<rparr>) (y_int y [''worker_num'']),
      \<lambda>c. map_option (\<lambda>v. c\<lparr>so_connection_timeout := v\<rparr>) (y_int y [''connection_timeout''])]"

text \<open>\<open>listen_fd\<close> is what \<open>create_tcp_server\<close> gives for the host and the port of the options.\<close>

definition signaling_server_init ::
  "yaml_doc option option \<Rightarrow> bool \<Rightarrow> (string \<Rightarrow> int \<Rightarrow> int) \<Rightarrow> (nat \<Rightarrow> bool) \<Rightarrow> (nat \<Rightarrow> nat)
     \<Rightarrow> signaling_server_options \<Rightarrow> signaling_server \<Rightarrow> int \<times> signaling_server_options \<times> signaling_server" where
  "signaling_server_init conf pipe_ok listen_fd pipes addr opts srv =
     (case conf of
        None \<Rightarrow> (- 1, opts, srv)
      | Some None \<Rightarrow> (- 1, opts, srv)
      | Some (Some y) \<Rightarrow>
          (let (ok, opts1) = run_steps (signaling_steps y) opts in
           if \<not> ok then (- 1, opts1, srv)
           else if \<not> pipe_ok then (- 1, opts1, srv)
           else if listen_fd (so_host opts1) (so_port opts1) = - 1 then (- 1, opts1, srv)
           else (let (ret, srv1) = create_signaling_workers (so_connection_timeout opts1) pipes addr [0..<nat (so_worker_num opts1)] srv
                 in (ret, opts1, srv1))))"

subsection \<open>The main program\<close>

text \<open>A signal stops both servers, where they exist.\<close>

definition process_signal ::
  "bool \<Rightarrow> signaling_server option \<Rightarrow> rtc_server option \<Rightarrow> signaling_server option \<times> rtc_server option" where
  "process_signal terminating sgs rsv =
     (if terminating then (map_option sgs_stop sgs, map_option rsv_stop rsv) else (sgs, rsv))"

definition init_general_conf ::
  "(string \<Rightarrow> yaml_doc option) \<Rightarrow> string option \<Rightarrow> (int \<times> general_conf option) option" where
  "init_general_conf load filename =
     (case filename of
        None \<Rightarrow> Some (- 1, None)
      | Some f \<Rightarrow>
          (case load_general_conf load (Some f) (Some new_general_conf) of
             None \<Rightarrow> None
           | Some (ret, c) \<Rightarrow> Some (if ret \<noteq> 0 then - 1 else 0, c)))"

definition init_log :: "bool \<Rightarrow> bool \<Rightarrow> bool \<Rightarrow> string \<Rightarrow> int \<times> xrtc_log" where
  "init_log dir_ok file_ok wf_ok level =
     (let (ret, lg) = log_init dir_ok file_ok wf_ok (new_xrtc_log level) in
      if ret \<noteq> 0 then (- 1, lg)
      else (let (started, lg1) = log_start lg in if \<not> started then (- 1, lg1) else (0, lg1)))"

text \<open>The two servers are made with the members of their options not set: \<open>opts0\<close> and \<open>n0\<close>.\<close>

record startup_env =
  se_load :: "string \<Rightarrow> yaml_doc option"
  se_log_dir :: bool
  se_log_file :: bool
  se_log_file_wf :: bool
  se_signaling_pipe :: bool
  se_listen_fd :: "string \<Rightarrow> int \<Rightarrow> int"
  se_signaling_pipes :: "nat \<Rightarrow> bool"
  se_signaling_workers :: "nat \<Rightarrow> nat"
  se_opts0 :: signaling_server_options
  se_expired :: "nat \<Rightarrow> bool"
  se_certificate :: "nat option"
  se_rtc_pipe :: bool
  se_rtc_pipes :: "nat \<Rightarrow> bool"
  se_rtc_workers :: "nat \<Rightarrow> nat"
  se_n0 :: int

definition init_signaling_server :: "startup_env \<Rightarrow> int \<times> signaling_server" where
  "init_signaling_server env =
     (let (ret, _, srv) = signaling_server_init (Some (se_load env ''./conf/signaling_server.yaml''))
            (se_signaling_pipe env) (se_listen_fd env) (se_signaling_pipes env) (se_signaling_workers env)
            (se_opts0 env) new_signaling_server
      in (if ret \<noteq> 0 then - 1 else 0, srv))"

definition init_rtc_server :: "startup_env \<Rightarrow> int \<times> rtc_server" where
  "init_rtc_server env =
     (let (ret, srv) = rtc_server_init (Some (se_load env ''./conf/rtc_server.yaml'')) (se_expired env)
            (se_certificate env) (se_rtc_pipe env) (se_rtc_pipes env) (se_rtc_workers env)
            (new_rtc_server (se_n0 env))
      in (if ret \<noteq> 0 then - 1 else 0, srv))"

text \<open>The global variables of \<open>main.cpp\<close> and the switch \<open>rtc::LogMessage::SetLogToStderr\<close>.\<close>

record program =
  g_conf :: "general_conf option"
  g_log :: "xrtc_log option"
  g_log_to_stderr :: "bool option"
  g_signaling_server :: "signaling_server option"
  g_rtc_server :: "rtc_server option"

definition new_program :: program where
  "new_program = \<lparr>g_conf = None, g_log = None, g_log_to_stderr = None, g_signaling_server = None, g_rtc_server = None\<rparr>"

text \<open>
  \<open>main\<close> up to the first \<open>join\<close>, with the value it returns when it does not get there. \<open>None\<close> is the
  uncaught exception of a configuration file that cannot be read.
\<close>

definition main_start :: "startup_env \<Rightarrow> (int \<times> program) option" where
  "main_start env =
     (case init_general_conf (se_load env) (Some ''./conf/general.yaml'') of
        None \<Rightarrow> None
      | Some (ret, conf) \<Rightarrow>
          (let pg1 = new_program\<lparr>g_conf := conf\<rparr> in
           if ret \<noteq> 0 then Some (- 1, pg1)
           else
             (case conf of
                None \<Rightarrow> None
              | Some c \<Rightarrow>
                  (let (ret, lg) = init_log (se_log_dir env) (se_log_file env) (se_log_file_wf env) (gc_log_level c);
                       pg2 = pg1\<lparr>g_log := Some lg\<rparr> in
                   if ret \<noteq> 0 then Some (- 1, pg2)
                   else
                     (let pg3 = pg2\<lparr>g_log_to_stderr := Some (gc_log_to_stderr c)\<rparr>;
                          (ret, sgs) = init_signaling_server env;
                          pg4 = pg3\<lparr>g_signaling_server := Some sgs\<rparr> in
                      if ret \<noteq> 0 then Some (- 1, pg4)
                      else
                        (let (ret, rsv) = init_rtc_server env;
                             pg5 = pg4\<lparr>g_rtc_server := Some rsv\<rparr> in
                         if ret \<noteq> 0 then Some (- 1, pg5)
                         else Some (0, pg5\<lparr>g_signaling_server := Some (snd (sgs_start sgs)),
                                           g_rtc_server := Some (snd (rsv_start rsv))\<rparr>)))))))"

text \<open>The rest of \<open>main\<close>; \<open>None\<close> is the null dereference.\<close>

definition main_join :: "program \<Rightarrow> program option" where
  "main_join pg =
     (case (g_signaling_server pg, g_rtc_server pg) of
        (Some sgs, Some rsv) \<Rightarrow>
          map_option (\<lambda>rsv1. pg\<lparr>g_signaling_server := Some (sgs_join sgs), g_rtc_server := Some rsv1\<rparr>) (rsv_join rsv)
      | _ \<Rightarrow> None)"

text \<open>\<open>waiting\<close> is what signals and the threads make of the program while \<open>main\<close> waits.\<close>

definition main_program :: "startup_env \<Rightarrow> (program \<Rightarrow> program) \<Rightarrow> (int \<times> program) option" where
  "main_program env waiting =
     (case main_start env of
        None \<Rightarrow> None
      | Some (ret, pg) \<Rightarrow> if ret \<noteq> 0 then Some (ret, pg) else map_option (Pair 0) (main_join (waiting pg)))"

subsection \<open>A server that has started\<close>

lemma rtc_workers_created:
  "create_rtc_workers pipes addr is srv = (0, srv1) \<Longrightarrow>
     rsv_workers srv1 = rsv_workers srv @ map addr is \<and> rsv_worker_num srv1 = rsv_worker_num srv"
  by (induction "is" arbitrary: srv)
     (auto simp: Let_def rsv_create_worker_def split: prod.splits if_splits)

lemma signaling_workers_created:
  "create_signaling_workers timeout pipes addr is srv = (0, srv1) \<Longrightarrow>
     sgs_workers srv1 = sgs_workers srv @ map addr is \<and> sgs_next_worker_index srv1 = sgs_next_worker_index srv"
  by (induction "is" arbitrary: srv)
     (auto simp: Let_def sgs_create_worker_def split: prod.splits if_splits)

lemma rtc_init_workers:
  assumes "rtc_server_init conf expired generated pipe_ok pipes addr (new_rtc_server n0) = (0, srv)"
  shows "rsv_workers srv = map addr [0..<nat (rsv_worker_num srv)]"
  using assms rtc_workers_created
  by (fastforce simp: rtc_server_init_def generate_and_check_certificate_def new_rtc_server_def Let_def
      split: option.splits prod.splits if_splits)

text \<open>With at least one worker every stream name has its worker; with none the requests are dropped.\<close>

lemma every_name_has_worker:
  assumes "rtc_server_init conf expired generated pipe_ok pipes addr (new_rtc_server n0) = (0, srv)"
  shows "get_worker crc name srv =
     (if 0 < rsv_worker_num srv then Some (addr (unat (crc name) mod nat (rsv_worker_num srv))) else None)"
  using rtc_init_workers [OF assms] by (auto simp: get_worker_def)

lemma signaling_init_workers:
  assumes "signaling_server_init conf pipe_ok listen_fd pipes addr opts new_signaling_server = (0, opts1, srv)"
  shows "sgs_workers srv = map addr [0..<nat (so_worker_num opts1)] \<and> sgs_next_worker_index srv = 0"
  using assms signaling_workers_created
  by (fastforce simp: signaling_server_init_def new_signaling_server_def Let_def split: option.splits prod.splits if_splits)

text \<open>
  A number of workers that is not positive is accepted by \<open>init\<close>, and the first connection then reads
  the empty vector of workers.
\<close>

lemma no_workers_crash:
  assumes "signaling_server_init conf pipe_ok listen_fd pipes addr opts new_signaling_server = (0, opts1, srv)"
    and "so_worker_num opts1 \<le> 0" "fd \<noteq> - 1"
  shows "accept_new_conn fd srv = None"
  using signaling_init_workers [OF assms(1)] assms(2,3)
  by (simp add: accept_new_conn_def dispatch_new_conn_def Let_def)

subsection \<open>The program\<close>

lemma signaling_thread_kept:
  "create_signaling_workers timeout pipes addr is srv = (ret, srv1) \<Longrightarrow>
     sgs_thread srv1 = sgs_thread srv \<and> sgs_events srv1 = sgs_events srv"
  by (induction "is" arbitrary: srv)
     (auto simp: Let_def sgs_create_worker_def split: prod.splits if_splits)

lemma rtc_thread_kept:
  "create_rtc_workers pipes addr is srv = (ret, srv1) \<Longrightarrow>
     rsv_thread srv1 = rsv_thread srv \<and> rsv_events srv1 = rsv_events srv"
  by (induction "is" arbitrary: srv)
     (auto simp: Let_def rsv_create_worker_def split: prod.splits if_splits)

lemma init_signaling_server_idle:
  assumes "init_signaling_server env = (ret, srv)"
  shows "\<not> sgs_thread srv \<and> sgs_events srv = []"
  using assms signaling_thread_kept
  by (fastforce simp: init_signaling_server_def signaling_server_init_def new_signaling_server_def Let_def
      split: option.splits prod.splits if_splits)

lemma init_rtc_server_idle:
  assumes "init_rtc_server env = (ret, srv)"
  shows "\<not> rsv_thread srv \<and> rsv_events srv = []"
  using assms rtc_thread_kept
  by (fastforce simp: init_rtc_server_def rtc_server_init_def generate_and_check_certificate_def
      new_rtc_server_def Let_def split: option.splits prod.splits if_splits)

text \<open>A start that fails returns -1, and no server's thread runs; one that succeeds has done every step.\<close>

lemma start_fails:
  assumes "main_start env = Some (ret, pg)" "ret \<noteq> 0"
  shows "ret = - 1 \<and> (\<forall>srv. g_signaling_server pg = Some srv \<longrightarrow> \<not> sgs_thread srv)
     \<and> (\<forall>srv. g_rtc_server pg = Some srv \<longrightarrow> \<not> rsv_thread srv)"
  using assms init_signaling_server_idle [of env] init_rtc_server_idle [of env]
  by (auto simp: main_start_def new_program_def Let_def split: option.splits prod.splits if_splits)

lemma start_succeeds:
  assumes "main_start env = Some (0, pg)"
  obtains c lg sgs rsv where "g_conf pg = Some c" "g_log pg = Some lg" "lg_running lg"
    "lg_log_level lg = gc_log_level c" "g_log_to_stderr pg = Some (gc_log_to_stderr c)"
    "init_signaling_server env = (0, sgs)" "g_signaling_server pg = Some (sgs\<lparr>sgs_thread := True\<rparr>)"
    "init_rtc_server env = (0, rsv)" "g_rtc_server pg = Some (rsv\<lparr>rsv_thread := True\<rparr>)"
proof -
  obtain c lg sgs rsv where 1: "init_general_conf (se_load env) (Some ''./conf/general.yaml'') = Some (0, Some c)"
    "init_log (se_log_dir env) (se_log_file env) (se_log_file_wf env) (gc_log_level c) = (0, lg)"
    "init_signaling_server env = (0, sgs)" "init_rtc_server env = (0, rsv)"
    "pg = \<lparr>g_conf = Some c, g_log = Some lg, g_log_to_stderr = Some (gc_log_to_stderr c),
       g_signaling_server = Some (snd (sgs_start sgs)), g_rtc_server = Some (snd (rsv_start rsv))\<rparr>"
    using assms
    by (auto simp: main_start_def new_program_def Let_def split: option.splits prod.splits if_splits)
  have "lg_running lg \<and> lg_log_level lg = gc_log_level c"
    using 1(2) by (auto simp: init_log_def log_init_def log_start_def new_xrtc_log_def Let_def
        split: prod.splits if_splits)
  then show ?thesis
    using that [of c lg sgs rsv] 1 init_signaling_server_idle [OF 1(3)] init_rtc_server_idle [OF 1(4)]
    by (simp add: sgs_start_def rsv_start_def)
qed

text \<open>
  Once the program has started, a signal and the reading of the two pipes stop both loops, and \<open>main\<close>
  returns 0. It waits for the thread of the signaling server only: \<open>rsv_join\<close> records no join.
\<close>

definition signal_handled :: "program \<Rightarrow> program" where
  "signal_handled pg =
     (let (sgs, rsv) = process_signal True (g_signaling_server pg) (g_rtc_server pg)
      in pg\<lparr>g_signaling_server := map_option (signaling_server_recv_notify (Some 0)) sgs,
            g_rtc_server := map_option (rtc_server_recv_notify (\<lambda>_. 0) (\<lambda>_. False) None (Some RTC_QUIT)) rsv\<rparr>)"

lemma signal_ends_main:
  assumes "main_start env = Some (0, pg)"
  shows "\<exists>pg' sgs rsv. main_program env signal_handled = Some (0, pg')
     \<and> g_signaling_server pg' = Some sgs \<and> sgs_events sgs = [SsPipe 0, SsLoopStop, SsJoin]
     \<and> g_rtc_server pg' = Some rsv \<and> rsv_events rsv = [RsPipe RTC_QUIT, RsLoopStop]"
proof -
  obtain sgs rsv where 1: "init_signaling_server env = (0, sgs)" "init_rtc_server env = (0, rsv)"
    "g_signaling_server pg = Some (sgs\<lparr>sgs_thread := True\<rparr>)" "g_rtc_server pg = Some (rsv\<lparr>rsv_thread := True\<rparr>)"
    using start_succeeds [OF assms] by blast
  note idle = init_signaling_server_idle [OF 1(1)] init_rtc_server_idle [OF 1(2)]
  show ?thesis
    using assms 1(3,4) idle
    by (simp add: main_program_def main_join_def signal_handled_def process_signal_def sgs_stop_def sgs_notify_def
        sgs_emit_def rsv_stop_def rsv_notify_def rsv_emit_def signaling_server_recv_notify_def
        sgs_process_notify_def sgs_stop_loop_def rtc_server_recv_notify_def rsv_process_notify_def
        rsv_stop_loop_def sgs_join_def rsv_join_def)
qed

text \<open>The other threads may do anything else meanwhile: once both servers exist and the RTC server has its
  thread, \<open>main\<close> returns 0.\<close>

lemma main_returns:
  assumes "main_start env = Some (0, pg)" "waiting pg = pg'"
    and "g_signaling_server pg' = Some sgs" "g_rtc_server pg' = Some rsv" "rsv_thread rsv"
  shows "\<exists>pg''. main_program env waiting = Some (0, pg'') \<and> g_rtc_server pg'' = Some rsv"
  using assms by (simp add: main_program_def main_join_def rsv_join_def)

end
