(* ===== verification/Spec2Isabelle.thy ===== *)
theory Spec2Isabelle
  imports LockFreeQueue IceAgent Connectivity SignalingSafety RequestFlow SdpRoundtrip AsyncUdp HostNetwork Startup
begin

text \<open>
  A model of xrtcserver, a WebRTC media server in C++ (under \<open>src/src\<close>; the paths below are
  relative to it), and the theorems that make it correct.

  \<^bold>\<open>The program.\<close> A client of the server sends requests over TCP: a 36-byte header and a
  JSON body. A signaling worker (\<open>server/signaling_worker.cpp\<close>) frames and parses them and hands
  a message to the RTC server (\<open>server/rtc_server.cpp\<close>), which adds a certificate and hands it
  to the RTC worker that the stream's name selects (\<open>server/rtc_worker.cpp\<close>). The worker drives
  its stream manager (\<open>stream/rtc_stream_manager.cpp\<close>): a push stream receives the media of a
  publisher, the pull stream of the same name sends it to a subscriber. A stream owns a peer
  connection (\<open>pc/peer_connection.cpp\<close>) with two session descriptions and a transport controller
  (\<open>pc/transport_controller.cpp\<close>). The controller owns an ICE agent (\<open>ice/ice_agent.cpp\<close>), whose
  channels find a path to the peer, and for each channel a DTLS transport, which shakes hands over
  it, and an SRTP transport, which takes its keys from the handshake. The answer of the worker
  travels back to the signaling worker through a lock-free queue and a pipe, and from there to the
  client.

  \<^bold>\<open>How the code is modelled.\<close> A class is a record and a method a function of the object (and of
  what else it reads), returning the object changed; an object that is held by pointer is an
  address in a heap, a map from addresses to records, and a deleted one is not in it. A function
  that would use a deleted object, read out of the bounds of a vector or of a packet, dereference a
  null pointer or throw what nobody catches has the value \<open>None\<close>: so a theorem that gives \<open>Some\<close>
  says that none of it happens. Return codes are kept as integers. Machine integers keep their
  width where the code's result depends on it (\<open>u8\<close>, \<open>u16\<close>, \<open>u32\<close>, \<open>u64\<close>, \<open>int32\<close> for the
  narrowing to \<open>int\<close>). A loop whose end is not evident (the walk over the attributes of a packet,
  the request loop of a connection, the write loop of a reply) is a \<open>partial_function\<close>, where
  running forever is \<open>None\<close>: that such a loop ends is a theorem wherever it does, and that it does
  not is a theorem wherever it does not; no fuel is used. Signals of sigslot are values in the
  order they are raised. Where a slot changes the object that raised the signal, it is called
  inside the handler; otherwise the list is handed to the slots of the owner once the handler has
  returned, with the states that the objects had when the signal was raised.

  \<^bold>\<open>What is a parameter.\<close> The code that is not under \<open>src\<close> is an argument of the definitions that
  use it: the byte buffers, CRC-32 and HMAC of \<open>rtc_base\<close> (\<open>byte_io\<close>, laws in \<open>byte_io_laws\<close>),
  address services (\<open>rtc_lib\<close>, \<open>rtc_lib_laws\<close>), string and fingerprint services (\<open>sdp_lib\<close>,
  \<open>sdp_text_laws\<close>), libev (\<open>ev_lib\<close> with \<open>ev_laws\<close>, \<open>ev_loop_lib\<close>), yaml-cpp (\<open>yaml_doc\<close>), the SSL adapter (\<open>ssl_results\<close> and the events it raises), the buffer queue,
  libsrtp (\<open>srtp_lib\<close>), jsoncpp (\<open>json_lib\<close>), certificates and the checksum, the results of system
  calls and the clock. The laws are those their documentation gives, and each locale of laws has an
  interpretation on functions that satisfy it.

  \<^bold>\<open>The theories\<close>, from the bottom:

  \<^item> \<open>Prelude\<close>: integer types, narrowing, association lists and lists. \<open>FifoQueue\<close>: the interface of a
    queue with the property that nothing is lost, doubled or reordered, interpreted on the
    \<open>std::queue\<close> of \<open>rtc_worker.h\<close> and on the lock-free queue. \<open>StableSort\<close>: the stable sort by a
    comparator, interpreted on the controller's comparison of connections.
  \<^item> \<open>LockFreeQueue\<close> (\<open>base/lock_free_queue.h\<close>): the queue as a linked list in a heap; the whole calls
    refine the interface, and every interleaving of the statements of one producer and one consumer
    (\<open>spsc\<close>, under sequential consistency) keeps the order and touches no freed node.
  \<^item> \<open>ByteIO\<close>, \<open>Stun\<close>, \<open>StunCodec\<close> (\<open>ice/stun.cpp\<close>): attributes, messages, the writer and the parser, the
    fingerprint and the message integrity; round trips, lengths, totality of the parser, and what a
    protected message proves to its receiver.
  \<^item> \<open>IceDefs\<close> (\<open>ice/ice_def.cpp\<close>, \<open>ice/ice_credentials.cpp\<close>, \<open>ice/candidate.cpp\<close>), \<open>StunRequest\<close>
    (\<open>ice/stun_request.cpp\<close>), \<open>UdpPort\<close> (\<open>ice/udp_port.cpp\<close>), \<open>IceConnection\<close>
    (\<open>ice/ice_connection.cpp\<close>): the request manager inside the connection that owns it, the checks on
    a request, and the state machine of a connection; its slots are an environment with the laws of
    \<open>connection_env\<close>, which the channel provides. \<open>Connectivity\<close>: a ping, the answer of the peer's
    connection and its receipt, composed.
  \<^item> \<open>IceController\<close> (\<open>ice/ice_controller.cpp\<close>), \<open>IceTransportChannel\<close> and \<open>IceChannelInvariant\<close>
    (\<open>ice/ice_transport_channel.cpp\<close>), \<open>IceAgent\<close> (\<open>ice/ice_agent.cpp\<close>): which connection is pinged and
    which is used; the invariant of a channel in every reachable state.
  \<^item> \<open>RtpUtils\<close> (\<open>module/rtp_rtcp/rtp_utils.cpp\<close>), \<open>DtlsTransport\<close> and \<open>DtlsInvariant\<close>
    (\<open>pc/dtls_transport.cpp\<close>), \<open>Srtp\<close> and \<open>SrtpInvariant\<close> (\<open>pc/srtp_session.cpp\<close>,
    \<open>pc/srtp_transport.cpp\<close>, \<open>pc/dtls_srtp_transport.cpp\<close>): the demultiplexer of packets, the handshake
    machine, the keys it installs, the count of the users of libsrtp, and the sizes of packets.
  \<^item> \<open>SessionDesc\<close> (\<open>pc/session_description.cpp\<close>), \<open>SdpParser\<close> (\<open>pc/peer_connection.cpp\<close>), \<open>SdpText\<close>
    and \<open>SdpRoundtrip\<close>: descriptions, their text, and the text read back.
  \<^item> \<open>TransportController\<close> and \<open>ControllerInvariant\<close> (\<open>pc/transport_controller.cpp\<close>), \<open>PeerConnection\<close>
    and \<open>PeerInvariant\<close> (\<open>pc/peer_connection.cpp\<close>), \<open>Streams\<close> and \<open>StreamInvariant\<close> (\<open>stream\<close>): the
    transports of a connection and their aggregate state, the streams and their maps, and the way of
    a packet from publisher to subscriber.
  \<^item> \<open>ServerDefs\<close> (\<open>xrtcserver_def.h\<close>, \<open>base/xhead.h\<close>), \<open>Sockets\<close> (\<open>base/socket.cpp\<close>), \<open>SignalingWorker\<close>,
    \<open>SignalingFraming\<close>, \<open>SignalingReply\<close>, \<open>SignalingSafety\<close> (\<open>server/signaling_worker.cpp\<close>,
    \<open>server/tcp_connection.cpp\<close>), \<open>Servers\<close> and \<open>ServerInvariant\<close> (\<open>server/signaling_server.cpp\<close>,
    \<open>server/rtc_server.cpp\<close>, \<open>server/rtc_worker.cpp\<close>): framing and replies, the connection table as the
    invariant of the worker's callbacks, and the routing of messages between the threads. What a client
    sends is the list of the results of \<open>read\<close>, empty ones included. \<open>query_pass\<close> is one pass of the request
    loop, with a fault and an end as different values, so that a loop that does not end is told from one
    that faults. The watchers that the worker has started and not deleted are read off its events.
    \<open>RequestFlow\<close>: a client's request on its way through the three kinds of threads and back, composed
    from what these theories promise.
  \<^item> \<open>EventLoop\<close> (\<open>base/event_loop.cpp\<close>), \<open>AsyncUdp\<close> (\<open>base/async_udp_socket.cpp\<close>), \<open>SocketSetup\<close>
    (\<open>base/socket.cpp\<close>), \<open>HostNetwork\<close> (\<open>base/network.cpp\<close>, \<open>ice/port_allocator.cpp\<close>), \<open>LogService\<close>
    (\<open>base/conf.cpp\<close>, \<open>base/log.cpp\<close>), \<open>Startup\<close> (the \<open>init\<close> functions, \<open>main.cpp\<close>): the ground the
    components stand on. The loop's watchers refine a map from watchers to the events they watch, and
    the socket's queue stands on it (stopping both events at once is outside the abstract loop: the code
    accepts it, and stopping one of them later starts the watcher again); \<open>main\<close> is the sequence of its steps up to the first that fails.

  \<^bold>\<open>The groups of theorems.\<close> Invariants over all reachable states (a reachable state is one that the
  component's operations lead to, each with the inputs the environment may give it; for the signaling
  worker they are split into \<open>loop_contract\<close>, what the event loop, the allocator and the kernel guarantee,
  and \<open>within_limits\<close>, what the code relies on without a check, with lemmas on what happens beyond): the channel,
  the DTLS transport, the use of libsrtp, the controller, the stream manager, the signaling worker.
  Safety: in such states every callback returns (the signaling worker's within those limits) and uses no
  deleted object; the checks on incoming requests. Functional behaviour of single operations on every branch: choice of the ping and of the
  selected connection, answers to a ping, requests in pieces, packets relayed, keys, and the offers: what a
  worker replies is the text of the description of the stream it made (\<open>made_for\<close>). Round trips:
  STUN messages, protected messages, requests and replies, descriptions. Bounds: packets in their
  buffers, the share of the workers. Equivalence: the connection state and the packet classes against
  tables. Refinement and liveness: the queue, the event loop, requests and connectivity checks that are
  answered, replies that arrive, connections that time out. The theorems of kind error state what the
  code does wrong, with the input that shows it. That a subscriber of video only gets nothing is said of every
  later state of its peer connection (\<open>pc_later\<close>).

  \<^bold>\<open>Simplifications.\<close> A handler reads the clock once, where the code may read it again within the same
  callback. Twice the round trip time of a connection is an unbounded integer (the time itself is a narrowed
  \<open>int\<close>). The local candidate of a connection is the \<open>hd\<close> of its port's candidates, as the code reads
  \<open>candidates()[0]\<close>; a port without candidates is not given a value. These affect no theorem here.

  \<^bold>\<open>Not modelled.\<close> What libev's loop does between two callbacks; the \<open>to_string\<close> functions that
  only feed the log and the console output; the order of the destructors of a whole server; weak memory orders in the
  lock-free queue; threads other than through the messages they exchange. The components record their
  calls of the event loop as events rather than sharing one loop, except for the UDP socket.
\<close>

end
